(* ===== verification/Prelude.thy ===== *)
theory Prelude
  imports Main "HOL-Library.Word"
begin

text \<open>
  Shared vocabulary of the development: bytes, machine integers, the outcome of a
  poll, I/O errors, and what the sources use of the Rust standard library
  (\<open>checked_mul\<close>, \<open>saturating_sub\<close>, \<open>str::trim\<close>, \<open>split\<close>,
  \<open>eq_ignore_ascii_case\<close>, the \<open>{:X}\<close> and decimal formatters), together with
  the generic lemmas the component theories share.

  A \<open>u8\<close> is a HOL \<open>char\<close>: both have exactly 256 values, and byte string literals stay
  readable. A \<open>u64\<close> is a 64-bit word, so that overflow is visible. A \<open>usize\<close> that is the
  length of something in memory is a \<open>nat\<close>; where the code does width-dependent
  arithmetic on a \<open>usize\<close> (the read strategy) it is a 64-bit word.
\<close>

named_theorems poll_simps \<open>evaluation rules for polls and readers\<close>
named_theorems word_nat \<open>from words to natural numbers\<close>

section \<open>Bytes and machine integers\<close>

type_synonym byte = char
type_synonym bytes = "char list"
type_synonym u64 = "64 word"
type_synonym usize = "64 word"

abbreviation byte_val :: "byte \<Rightarrow> nat" where
  "byte_val b \<equiv> of_char b"

abbreviation CR :: byte where "CR \<equiv> CHR 0x0D"
abbreviation LF :: byte where "LF \<equiv> CHR 0x0A"
abbreviation HTAB :: byte where "HTAB \<equiv> CHR 0x09"
abbreviation CRLF :: bytes where "CRLF \<equiv> [CR, LF]"

definition checked_mul :: "'a::len word \<Rightarrow> 'a word \<Rightarrow> 'a word option" where
  "checked_mul a b = (if unat a * unat b < 2 ^ LENGTH('a) then Some (a * b) else None)"

definition checked_add :: "'a::len word \<Rightarrow> 'a word \<Rightarrow> 'a word option" where
  "checked_add a b = (if unat a + unat b < 2 ^ LENGTH('a) then Some (a + b) else None)"

definition saturating_mul :: "'a::len word \<Rightarrow> 'a word \<Rightarrow> 'a word" where
  "saturating_mul a b = (case checked_mul a b of Some c \<Rightarrow> c | None \<Rightarrow> - 1)"

definition usize_max :: nat where
  "usize_max = 2 ^ 64 - 1"

lemma unat_bound: "unat (w :: 'a::len word) < 2 ^ LENGTH('a)"
  by (rule unsigned_less)

lemma unat_lt_2p64: "unat (w :: u64) < 18446744073709551616"
  using unat_bound [of w] by simp

lemma unat_eq_iff: "unat a = unat b \<longleftrightarrow> a = b"
  by (rule word_unat_eq_iff [symmetric])

lemma checked_mul_Some [word_nat]:
  "checked_mul a b = Some c \<longleftrightarrow> unat c = unat a * unat (b :: 'a::len word)"
proof -
  have "unat (a * b) = unat a * unat b" if "unat a * unat b < 2 ^ LENGTH('a)"
    using that by (simp add: unat_word_ariths)
  moreover have "unat a * unat b < 2 ^ LENGTH('a)" if "unat c = unat a * unat b"
    using that unat_bound [of c] by simp
  ultimately show ?thesis
    by (auto simp: checked_mul_def unat_eq_iff [symmetric])
qed

lemma checked_add_Some [word_nat]:
  "checked_add a b = Some c \<longleftrightarrow> unat c = unat a + unat (b :: 'a::len word)"
proof -
  have "unat (a + b) = unat a + unat b" if "unat a + unat b < 2 ^ LENGTH('a)"
    using that by (simp add: unat_word_ariths)
  moreover have "unat a + unat b < 2 ^ LENGTH('a)" if "unat c = unat a + unat b"
    using that unat_bound [of c] by simp
  ultimately show ?thesis
    by (auto simp: checked_add_def unat_eq_iff [symmetric])
qed

lemma checked_mul_None [word_nat]:
  "checked_mul a b = None \<longleftrightarrow> 2 ^ LENGTH('a) \<le> unat a * unat (b :: 'a::len word)"
  by (auto simp: checked_mul_def)

lemma checked_add_None [word_nat]:
  "checked_add a b = None \<longleftrightarrow> 2 ^ LENGTH('a) \<le> unat a + unat (b :: 'a::len word)"
  by (auto simp: checked_add_def)

lemma checked_mul_add_Some:
  "(case checked_mul a b of None \<Rightarrow> None
    | Some m \<Rightarrow> (case checked_add m d of None \<Rightarrow> None | Some r \<Rightarrow> f r)) = Some y \<longleftrightarrow>
   (\<exists>r. unat r = unat a * unat b + unat (d :: 'a::len word) \<and> f r = Some y)" (is "?lhs = ?rhs")
proof
  assume ?lhs
  then show ?rhs by (auto simp: checked_mul_Some checked_add_Some split: option.splits)
next
  assume ?rhs
  then obtain r where r: "unat r = unat a * unat b + unat d" "f r = Some y" by blast
  then have "unat a * unat b < 2 ^ LENGTH('a)" using unat_bound [of r] by linarith
  then obtain m where m: "checked_mul a b = Some m" by (auto simp: checked_mul_def)
  then have "checked_add m d = Some r" using r by (simp add: checked_mul_Some checked_add_Some)
  with m r show ?lhs by simp
qed

lemma unat_minus_le [word_nat]:
  "b \<le> a \<Longrightarrow> unat (a - b) = unat a - unat (b :: 'a::len word)"
  by (simp add: unat_sub)

lemma unat_of_nat_u64 [word_nat]: "n < 2 ^ 64 \<Longrightarrow> unat (of_nat n :: u64) = n"
  by (simp add: unat_of_nat take_bit_nat_eq_self)

lemma ex_unat_u64: "(\<exists>r :: u64. unat r = v \<and> P r) \<longleftrightarrow> v < 2 ^ 64 \<and> P (of_nat v)"
proof
  assume "\<exists>r :: u64. unat r = v \<and> P r"
  then obtain r :: u64 where "unat r = v" "P r" by blast
  then show "v < 2 ^ 64 \<and> P (of_nat v)" using unat_bound [of r] by auto
qed (use unat_of_nat_u64 in blast)

lemma of_nat_le_u64 [word_nat]: "n \<le> unat w \<Longrightarrow> of_nat n \<le> (w :: u64)"
  using unat_bound [of w] by (simp add: word_le_nat_alt unat_of_nat take_bit_nat_eq_self)

lemma unat_gt_zero [word_nat]: "0 < unat w \<longleftrightarrow> w \<noteq> (0 :: 'a::len word)"
  by (simp add: unat_gt_0)

lemma unat_minus_1_u64 [simp]: "unat (- 1 :: u64) = 2 ^ 64 - 1"
  by (simp add: unsigned_minus_1_eq_mask mask_eq_exp_minus_1)

text \<open>The number a list of digits denotes, most significant digit first.\<close>

definition digits_val :: "nat \<Rightarrow> nat \<Rightarrow> nat list \<Rightarrow> nat" where
  "digits_val base acc ds = foldl (\<lambda>a d. a * base + d) acc ds"

lemma digits_val_Nil [simp]: "digits_val base acc [] = acc"
  and digits_val_Cons [simp]:
    "digits_val base acc (d # ds) = digits_val base (acc * base + d) ds"
  and digits_val_append [simp]:
    "digits_val base acc (ds @ es) = digits_val base (digits_val base acc ds) es"
  by (simp_all add: digits_val_def)

lemma digits_val_ge: "0 < base \<Longrightarrow> acc \<le> digits_val base acc ds"
proof (induction ds arbitrary: acc)
  case (Cons d ds)
  have "acc \<le> acc * base + d" using Cons.prems by (simp add: trans_le_add1)
  also have "\<dots> \<le> digits_val base (acc * base + d) ds" using Cons by blast
  finally show ?case by simp
qed simp

section \<open>Polls, panics and I/O errors\<close>

text \<open>
  A function of the sources that returns \<open>Poll<T>\<close> may also panic (\<open>expect\<close>, \<open>unreachable!\<close>,
  \<open>assert!\<close>): the panic is a third outcome, so that its absence can be stated. A function
  that returns plainly and may panic has the result type \<open>'a rust\<close>.
\<close>

datatype 'a poll = Ready 'a | Pending | Panicked string

datatype 'a rust = Return 'a | Panic string

fun rust_bind :: "'a rust \<Rightarrow> ('a \<Rightarrow> 'b rust) \<Rightarrow> 'b rust" where
  "rust_bind (Return x) f = f x"
| "rust_bind (Panic m) f = Panic m"

lemma rust_bind_Return [simp]: "rust_bind m f = Return y \<longleftrightarrow> (\<exists>x. m = Return x \<and> f x = Return y)"
  by (cases m) auto

datatype io_error_kind = UnexpectedEof | InvalidInput | InvalidData | WriteZero | BrokenPipe | OtherKind

datatype httparse_error =
    HpHeaderName | HpHeaderValue | HpNewLine | HpToken | HpStatus | HpTooManyHeaders | HpVersion

text \<open>
  The payload of an \<open>io::Error\<close>: a message, the marker \<open>IncompleteBody\<close>, a parser error, or
  nothing but the kind.
\<close>

datatype io_payload = Message string | IncompleteBody | HttparseError httparse_error | NoPayload

datatype io_error = IoError (io_kind: io_error_kind) (io_payload: io_payload)

type_synonym 'r reader = "'r \<Rightarrow> nat \<Rightarrow> 'r \<times> (io_error + bytes) poll"

fun is_ready :: "'a poll \<Rightarrow> bool" where
  "is_ready (Ready _) = True"
| "is_ready _ = False"

fun is_panicked :: "'a poll \<Rightarrow> bool" where
  "is_panicked (Panicked _) = True"
| "is_panicked _ = False"

section \<open>ASCII and string functions of the standard library\<close>

definition to_ascii_lowercase :: "byte \<Rightarrow> byte" where
  "to_ascii_lowercase b =
     (if 65 \<le> byte_val b \<and> byte_val b \<le> 90 then char_of (byte_val b + 32) else b)"

definition eq_ignore_ascii_case :: "bytes \<Rightarrow> bytes \<Rightarrow> bool" where
  "eq_ignore_ascii_case a b \<longleftrightarrow> map to_ascii_lowercase a = map to_ascii_lowercase b"

text \<open>
  \<open>char::is_whitespace\<close> restricted to one-byte characters, which is all that a
  \<open>HeaderValue::to_str\<close> result contains; and \<open>u8::is_ascii_whitespace\<close>, which
  leaves out the vertical tab.
\<close>

definition is_whitespace :: "byte \<Rightarrow> bool" where
  "is_whitespace b \<longleftrightarrow> byte_val b = 32 \<or> (9 \<le> byte_val b \<and> byte_val b \<le> 13)"

definition is_ascii_whitespace :: "byte \<Rightarrow> bool" where
  "is_ascii_whitespace b \<longleftrightarrow> byte_val b \<in> {9, 10, 12, 13, 32}"

definition trim_start_by :: "('a \<Rightarrow> bool) \<Rightarrow> 'a list \<Rightarrow> 'a list" where
  "trim_start_by p s = dropWhile p s"

definition trim_end_by :: "('a \<Rightarrow> bool) \<Rightarrow> 'a list \<Rightarrow> 'a list" where
  "trim_end_by p s = rev (dropWhile p (rev s))"

definition str_trim :: "bytes \<Rightarrow> bytes" where
  "str_trim s = trim_start_by is_whitespace (trim_end_by is_whitespace s)"

fun split_on :: "'a \<Rightarrow> 'a list \<Rightarrow> 'a list list" where
  "split_on c [] = [[]]"
| "split_on c (x # xs) =
     (if x = c then [] # split_on c xs
      else (case split_on c xs of [] \<Rightarrow> [[x]] | p # ps \<Rightarrow> (x # p) # ps))"

lemma split_on_nonempty [simp]: "split_on c xs \<noteq> []"
  by (cases xs) (auto split: list.splits)

lemma split_on_no_sep: "p \<in> set (split_on c xs) \<Longrightarrow> c \<notin> set p"
  by (induction xs arbitrary: p) (auto split: if_splits list.splits)

lemma split_on_append: "split_on c (xs @ c # ys) = split_on c xs @ split_on c ys"
  by (induction xs) (auto split: list.splits simp: append_eq_Cons_conv)

lemma split_on_id: "c \<notin> set xs \<Longrightarrow> split_on c xs = [xs]"
  by (induction xs) auto

lemma split_on_append_sep: "c \<notin> set ys \<Longrightarrow> last (split_on c (xs @ c # ys)) = ys"
  by (simp add: split_on_append split_on_id)

lemma length_split_on_sum:
  "sum_list (map length (split_on c xs)) + length (split_on c xs) = Suc (length xs)"
proof (induction xs)
  case (Cons x xs)
  then show ?case by (cases "split_on c xs") auto
qed simp

lemma takeWhile_shorter: "x \<in> set xs \<Longrightarrow> \<not> P x \<Longrightarrow> length (takeWhile P xs) < length xs"
  by (induction xs) auto

lemma length_trim_start_by [simp]: "length (trim_start_by p s) \<le> length s"
  by (simp add: trim_start_by_def length_dropWhile_le)

lemma length_trim_end_by [simp]: "length (trim_end_by p s) \<le> length s"
  using length_dropWhile_le [of p "rev s"] by (simp add: trim_end_by_def)

lemma set_trim_start_by: "set (trim_start_by p s) \<subseteq> set s"
  unfolding trim_start_by_def using set_dropWhileD by fastforce

lemma set_trim_end_by: "set (trim_end_by p s) \<subseteq> set s"
  unfolding trim_end_by_def using set_dropWhileD by fastforce

subsection \<open>Number formatting\<close>

text \<open>The formatters \<open>{:X}\<close> and \<open>{}\<close> of an unsigned integer, most significant digit first.\<close>

definition hex_char :: "nat \<Rightarrow> byte" where
  "hex_char d = (if d < 10 then char_of (48 + d) else char_of (55 + d))"

fun fmt_hex :: "nat \<Rightarrow> bytes" where
  "fmt_hex n = (if n < 16 then [hex_char n] else fmt_hex (n div 16) @ [hex_char (n mod 16)])"

fun fmt_dec :: "nat \<Rightarrow> bytes" where
  "fmt_dec n = (if n < 10 then [char_of (48 + n)] else fmt_dec (n div 10) @ [char_of (48 + n mod 10)])"

declare fmt_hex.simps [simp del] fmt_dec.simps [simp del]

lemma fmt_hex_nonempty [simp]: "fmt_hex n \<noteq> []"
  by (subst fmt_hex.simps) simp

lemma fmt_dec_nonempty [simp]: "fmt_dec n \<noteq> []"
  by (subst fmt_dec.simps) simp

lemma byte_val_char_of [simp]: "n < 256 \<Longrightarrow> byte_val (char_of n) = n"
  by simp

lemma fmt_hex_length: "n < 16 ^ k \<Longrightarrow> 0 < k \<Longrightarrow> length (fmt_hex n) \<le> k"
proof (induction n arbitrary: k rule: fmt_hex.induct)
  case (1 n)
  show ?case
  proof (cases "n < 16")
    case True
    with "1.prems" show ?thesis by (subst fmt_hex.simps) simp
  next
    case False
    then obtain j where k: "k = Suc j" and "0 < j"
      using "1.prems" by (metis gr0_conv_Suc neq0_conv not_less power_Suc0_right One_nat_def)
    then have "n div 16 < 16 ^ j"
      using "1.prems"(1) by (simp add: less_mult_imp_div_less mult.commute)
    with "1.IH" False \<open>0 < j\<close> have "length (fmt_hex (n div 16)) \<le> j" by blast
    with False k show ?thesis by (subst fmt_hex.simps) simp
  qed
qed

end
