(* ===== verification/Errors.thy ===== *)
theory Errors
  imports Prelude
begin

text \<open>
  The error type of \<open>wreq-proto/src/error.rs\<close>: its kinds, its constructors, its predicates,
  the cause chain and the conversions from parser errors. A boxed cause is one of the
  concrete error types the sources put there.
\<close>

section \<open>Data\<close>

datatype header_error = Token | ContentLengthInvalid | TransferEncodingUnexpected

datatype parse_error =
    ParseMethod | ParseVersion | ParseVersionH2 | ParseUri | ParseHeader header_error
  | ParseTooLarge | ParseStatus | ParseInternal

datatype user_error =
    UserBody | UserBodyWriteAborted | UserInvalidConnectWithBody | UserService
  | UserNoUpgrade | UserManualUpgrade | UserDispatchGone

datatype error_kind =
    KindParse parse_error | KindUser user_error | KindIncompleteMessage | KindUnexpectedMessage
  | KindCanceled | KindChannelClosed | KindIo | KindBody | KindBodyWrite | KindShutdown | KindHttp2

text \<open>
  What the sources use of an \<open>http2::Error\<close>: the reason code it may carry, and the I/O
  error it may wrap.
\<close>

datatype h2_error = H2Error (h2_error_reason: "nat option") (h2_error_io: "io_error option")

datatype error = Error (err_kind: error_kind) (err_cause: "cause option")
  and cause =
    CauseIo io_error | CauseMessage string | CauseNotEof u64 | CauseTimedOut
  | CauseKeepAliveTimedOut | CauseUpgradeExpected | CauseH2 h2_error | CauseError error

section \<open>Predicates\<close>

definition is_parse :: "error \<Rightarrow> bool" where
  "is_parse e = (case err_kind e of KindParse _ \<Rightarrow> True | _ \<Rightarrow> False)"

definition is_parse_status :: "error \<Rightarrow> bool" where
  "is_parse_status e = (case err_kind e of KindParse ParseStatus \<Rightarrow> True | _ \<Rightarrow> False)"

definition is_user :: "error \<Rightarrow> bool" where
  "is_user e = (case err_kind e of KindUser _ \<Rightarrow> True | _ \<Rightarrow> False)"

definition is_canceled :: "error \<Rightarrow> bool" where
  "is_canceled e = (err_kind e = KindCanceled)"

definition is_closed :: "error \<Rightarrow> bool" where
  "is_closed e = (err_kind e = KindChannelClosed)"

definition is_incomplete_message :: "error \<Rightarrow> bool" where
  "is_incomplete_message e = (err_kind e = KindIncompleteMessage)"

definition is_body_write_aborted :: "error \<Rightarrow> bool" where
  "is_body_write_aborted e = (err_kind e = KindUser UserBodyWriteAborted)"

section \<open>The cause chain\<close>

text \<open>\<open>source()\<close> applied again and again, starting from a cause: the errors met on the way.\<close>

primrec sources :: "error \<Rightarrow> cause list"
  and cause_sources :: "cause \<Rightarrow> cause list"
where
  "sources (Error k c) = (case map_option cause_sources c of None \<Rightarrow> [] | Some cs \<Rightarrow> cs)"
| "cause_sources (CauseIo e) = [CauseIo e]"
| "cause_sources (CauseMessage m) = [CauseMessage m]"
| "cause_sources (CauseNotEof n) = [CauseNotEof n]"
| "cause_sources CauseTimedOut = [CauseTimedOut]"
| "cause_sources CauseKeepAliveTimedOut = [CauseKeepAliveTimedOut, CauseTimedOut]"
| "cause_sources CauseUpgradeExpected = [CauseUpgradeExpected]"
| "cause_sources (CauseH2 e) = [CauseH2 e]"
| "cause_sources (CauseError e) = CauseError e # sources e"

text \<open>\<open>find_source\<close> returns the first error of the chain that the downcast accepts.\<close>

fun first_some :: "('a \<Rightarrow> 'b option) \<Rightarrow> 'a list \<Rightarrow> 'b option" where
  "first_some f [] = None"
| "first_some f (x # xs) = (case f x of Some y \<Rightarrow> Some y | None \<Rightarrow> first_some f xs)"

definition find_source :: "(cause \<Rightarrow> 'b option) \<Rightarrow> error \<Rightarrow> 'b option" where
  "find_source downcast e = first_some downcast (sources e)"

definition as_timed_out :: "cause \<Rightarrow> unit option" where
  "as_timed_out c = (case c of CauseTimedOut \<Rightarrow> Some () | _ \<Rightarrow> None)"

definition as_h2 :: "cause \<Rightarrow> h2_error option" where
  "as_h2 c = (case c of CauseH2 e \<Rightarrow> Some e | _ \<Rightarrow> None)"

definition is_timeout :: "error \<Rightarrow> bool" where
  "is_timeout e = (find_source as_timed_out e \<noteq> None)"

text \<open>\<open>http2::Reason::INTERNAL_ERROR\<close>.\<close>

definition H2_INTERNAL_ERROR :: nat where "H2_INTERNAL_ERROR = 2"

definition h2_reason :: "error \<Rightarrow> nat" where
  "h2_reason e =
     (case Option.bind (find_source as_h2 e) h2_error_reason of
        Some r \<Rightarrow> r | None \<Rightarrow> H2_INTERNAL_ERROR)"

section \<open>Constructors\<close>

definition error_new :: "error_kind \<Rightarrow> error" where
  "error_new k = Error k None"

definition error_with :: "error \<Rightarrow> cause \<Rightarrow> error" where
  "error_with e c = Error (err_kind e) (Some c)"

definition new_canceled :: error where "new_canceled = error_new KindCanceled"
definition new_incomplete :: error where "new_incomplete = error_new KindIncompleteMessage"
definition new_too_large :: error where "new_too_large = error_new (KindParse ParseTooLarge)"
definition new_version_h2 :: error where "new_version_h2 = error_new (KindParse ParseVersionH2)"
definition new_unexpected_message :: error where
  "new_unexpected_message = error_new KindUnexpectedMessage"
definition new_io :: "io_error \<Rightarrow> error" where
  "new_io c = error_with (error_new KindIo) (CauseIo c)"
definition new_closed :: error where "new_closed = error_new KindChannelClosed"
definition new_body :: "cause \<Rightarrow> error" where "new_body c = error_with (error_new KindBody) c"
definition new_body_write :: "cause \<Rightarrow> error" where
  "new_body_write c = error_with (error_new KindBodyWrite) c"
definition new_body_write_aborted :: error where
  "new_body_write_aborted = error_new (KindUser UserBodyWriteAborted)"
definition new_user_no_upgrade :: error where
  "new_user_no_upgrade = error_new (KindUser UserNoUpgrade)"
definition new_user_manual_upgrade :: error where
  "new_user_manual_upgrade = error_new (KindUser UserManualUpgrade)"
definition new_user_service :: "cause \<Rightarrow> error" where
  "new_user_service c = error_with (error_new (KindUser UserService)) c"
definition new_user_body :: "cause \<Rightarrow> error" where
  "new_user_body c = error_with (error_new (KindUser UserBody)) c"
definition new_user_invalid_connect :: error where
  "new_user_invalid_connect = error_new (KindUser UserInvalidConnectWithBody)"
definition new_shutdown :: "io_error \<Rightarrow> error" where
  "new_shutdown c = error_with (error_new KindShutdown) (CauseIo c)"
definition new_user_dispatch_gone :: error where
  "new_user_dispatch_gone = error_new (KindUser UserDispatchGone)"

definition new_h2 :: "h2_error \<Rightarrow> error" where
  "new_h2 e =
     (case h2_error_io e of
        Some io \<Rightarrow> new_io io
      | None \<Rightarrow> error_with (error_new KindHttp2) (CauseH2 e))"

definition error_of_parse :: "parse_error \<Rightarrow> error" where
  "error_of_parse p = error_new (KindParse p)"

fun parse_of_httparse :: "httparse_error \<Rightarrow> parse_error" where
  "parse_of_httparse HpHeaderName = ParseHeader Token"
| "parse_of_httparse HpHeaderValue = ParseHeader Token"
| "parse_of_httparse HpNewLine = ParseHeader Token"
| "parse_of_httparse HpToken = ParseHeader Token"
| "parse_of_httparse HpStatus = ParseStatus"
| "parse_of_httparse HpTooManyHeaders = ParseTooLarge"
| "parse_of_httparse HpVersion = ParseVersion"

fun description :: "error_kind \<Rightarrow> string" where
  "description (KindParse ParseMethod) = ''invalid HTTP method parsed''"
| "description (KindParse ParseVersion) = ''invalid HTTP version parsed''"
| "description (KindParse ParseVersionH2) = ''invalid HTTP version parsed (found HTTP2 preface)''"
| "description (KindParse ParseUri) = ''invalid URI''"
| "description (KindParse (ParseHeader Token)) = ''invalid HTTP header parsed''"
| "description (KindParse (ParseHeader ContentLengthInvalid)) = ''invalid content-length parsed''"
| "description (KindParse (ParseHeader TransferEncodingUnexpected)) =
     ''unexpected transfer-encoding parsed''"
| "description (KindParse ParseTooLarge) = ''message head is too large''"
| "description (KindParse ParseStatus) = ''invalid HTTP status-code parsed''"
| "description (KindParse ParseInternal) =
     ''internal error inside wreq and/or its dependencies, please report''"
| "description KindIncompleteMessage = ''connection closed before message completed''"
| "description KindUnexpectedMessage = ''received unexpected message from connection''"
| "description KindChannelClosed = ''channel closed''"
| "description KindCanceled = ''operation was canceled''"
| "description KindBody = ''error reading a body from connection''"
| "description KindBodyWrite = ''error writing a body to connection''"
| "description KindShutdown = ''error shutting down connection''"
| "description KindHttp2 = ''http2 error''"
| "description KindIo = ''connection error''"
| "description (KindUser UserBody) = ''error from user's Body stream''"
| "description (KindUser UserBodyWriteAborted) = ''user body write aborted''"
| "description (KindUser UserInvalidConnectWithBody) =
     ''user sent CONNECT request with non-zero body''"
| "description (KindUser UserService) = ''error from user's Service''"
| "description (KindUser UserNoUpgrade) = ''no upgrade available''"
| "description (KindUser UserManualUpgrade) = ''upgrade expected but low level API in use''"
| "description (KindUser UserDispatchGone) = ''dispatch task is gone''"

lemmas error_constructors =
  error_new_def error_with_def new_canceled_def new_incomplete_def new_too_large_def
  new_version_h2_def new_unexpected_message_def new_io_def new_closed_def new_body_def
  new_body_write_def new_body_write_aborted_def new_user_no_upgrade_def
  new_user_manual_upgrade_def new_user_service_def new_user_body_def
  new_user_invalid_connect_def new_shutdown_def new_user_dispatch_gone_def error_of_parse_def

lemmas error_predicates =
  is_parse_def is_parse_status_def is_user_def is_canceled_def is_closed_def
  is_incomplete_message_def is_body_write_aborted_def

section \<open>Properties of the cause chain\<close>

lemma first_some_append:
  "first_some f (xs @ ys) = (case first_some f xs of Some y \<Rightarrow> Some y | None \<Rightarrow> first_some f ys)"
  by (induction xs) (auto split: option.splits)

text \<open>Wrapping an error any number of times keeps what its chain says.\<close>

fun wrap :: "error_kind list \<Rightarrow> error \<Rightarrow> error" where
  "wrap [] e = e"
| "wrap (k # ks) e = error_with (error_new k) (CauseError (wrap ks e))"

lemma find_source_wrap:
  assumes "\<And>e'. downcast (CauseError e') = None"
  shows "find_source downcast (wrap ks e) = find_source downcast e"
  using assms
  by (induction ks) (auto simp: find_source_def error_with_def error_new_def split: option.splits)

text \<open>
  However deeply an HTTP/2 error that is not an I/O error is wrapped (a user error whose
  cause is a received error whose cause is\<dots>), the reset code the crate sends for it is the
  reason code of the innermost HTTP/2 error, and \<open>INTERNAL_ERROR\<close> when that has none.
\<close>

theorem h2_reason_of_wrapped:
  "h2_reason (wrap ks (new_h2 (H2Error r None))) =
     (case r of Some c \<Rightarrow> c | None \<Rightarrow> H2_INTERNAL_ERROR)"
proof -
  have "find_source as_h2 (wrap ks (new_h2 (H2Error r None))) = Some (H2Error r None)"
    by (subst find_source_wrap) (simp_all add: as_h2_def find_source_def new_h2_def
        error_with_def error_new_def)
  then show ?thesis by (simp add: h2_reason_def)
qed

end
