(* ===== verification/Body_Length.thy ===== *)
theory Body_Length
  imports Errors
begin

text \<open>
  \<open>wreq-proto/src/body/length.rs\<close>: the length of an incoming body as one \<open>u64\<close>, whose two
  greatest values are sentinels for a chunked and a close-delimited body.
\<close>

datatype decoded_length = DecodedLength (dl_val: u64)

definition MAX_LEN :: u64 where "MAX_LEN = - 1 - 2"
definition CLOSE_DELIMITED :: decoded_length where "CLOSE_DELIMITED = DecodedLength (- 1)"
definition CHUNKED :: decoded_length where "CHUNKED = DecodedLength (- 1 - 1)"
definition ZERO :: decoded_length where "ZERO = DecodedLength 0"

text \<open>\<open>danger_len\<close>: its debug assertion is the guard of the callers.\<close>

definition danger_len :: "decoded_length \<Rightarrow> u64" where
  "danger_len d = dl_val d"

definition into_opt :: "decoded_length \<Rightarrow> u64 option" where
  "into_opt d = (if d = CHUNKED \<or> d = CLOSE_DELIMITED then None else Some (dl_val d))"

definition checked_new :: "u64 \<Rightarrow> parse_error + decoded_length" where
  "checked_new len = (if len \<le> MAX_LEN then Inr (DecodedLength len) else Inl ParseTooLarge)"

text \<open>\<open>*known -= amt\<close> wraps around in a release build, as word subtraction does.\<close>

definition sub_if :: "decoded_length \<Rightarrow> u64 \<Rightarrow> decoded_length" where
  "sub_if d amt =
     (if d = CHUNKED \<or> d = CLOSE_DELIMITED then d else DecodedLength (dl_val d - amt))"

definition is_exact :: "decoded_length \<Rightarrow> bool" where
  "is_exact d = (dl_val d \<le> MAX_LEN)"

definition decoded_length_from :: "u64 option \<Rightarrow> decoded_length" where
  "decoded_length_from len =
     (case len of
        None \<Rightarrow> CHUNKED
      | Some l \<Rightarrow> (case checked_new l of Inl _ \<Rightarrow> CHUNKED | Inr d \<Rightarrow> d))"

lemmas length_defs = MAX_LEN_def CLOSE_DELIMITED_def CHUNKED_def ZERO_def danger_len_def
  into_opt_def checked_new_def sub_if_def is_exact_def decoded_length_from_def

lemma unat_MAX_LEN: "unat MAX_LEN = 2 ^ 64 - 3"
  by (simp add: MAX_LEN_def)

lemma max_len_iff: "w \<le> MAX_LEN \<longleftrightarrow> w \<noteq> - 1 \<and> w \<noteq> (- 1 - 1 :: u64)"
proof -
  have "w \<le> MAX_LEN \<longleftrightarrow> unat w \<le> 2 ^ 64 - 3"
    by (simp add: word_le_nat_alt unat_MAX_LEN)
  moreover have "w = - 1 \<longleftrightarrow> unat w = 2 ^ 64 - 1"
    by (simp add: unat_eq_iff [symmetric])
  moreover have "w = - 1 - 1 \<longleftrightarrow> unat w = 2 ^ 64 - 2"
    by (simp add: unat_eq_iff [symmetric])
  moreover have "unat w < 18446744073709551616" by (rule unat_lt_2p64)
  ultimately show ?thesis by (simp del: diff_minus_eq_add) linarith
qed

lemma is_exact_iff: "is_exact d \<longleftrightarrow> d \<noteq> CHUNKED \<and> d \<noteq> CLOSE_DELIMITED"
  by (cases d) (auto simp: is_exact_def max_len_iff CHUNKED_def CLOSE_DELIMITED_def)

lemma checked_new_Inr: "checked_new w = Inr d \<longleftrightarrow> d = DecodedLength w \<and> is_exact d"
  by (auto simp: checked_new_def is_exact_def)

text \<open>
  The sentinel encoding is unambiguous: a content length accepted by \<open>checked_new\<close> is never
  mistaken for a chunked or close-delimited body and reads back as the same number; one that is
  refused is above the maximum and refused as too large; and \<open>into_opt\<close> inverts the conversion
  from \<open>Option\<close> exactly on the lengths that fit.
\<close>

theorem decoded_length_roundtrip:
  "(case checked_new w of
      Inr d \<Rightarrow> is_exact d \<and> into_opt d = Some w \<and> danger_len d = w
    | Inl e \<Rightarrow> e = ParseTooLarge \<and> unat w > 2 ^ 64 - 3) \<and>
   into_opt (decoded_length_from (Some w)) = (if w \<le> MAX_LEN then Some w else None) \<and>
   into_opt (decoded_length_from None) = None"
proof (cases "w \<le> MAX_LEN")
  case True
  then show ?thesis
    by (simp add: checked_new_def is_exact_def into_opt_def danger_len_def decoded_length_from_def
        max_len_iff CHUNKED_def CLOSE_DELIMITED_def)
next
  case False
  then have "unat w > 2 ^ 64 - 3"
    by (simp add: word_le_nat_alt unat_MAX_LEN)
  with False show ?thesis
    by (simp add: checked_new_def decoded_length_from_def into_opt_def CHUNKED_def)
qed

text \<open>
  Subtracting delivered bytes from an exact length never leaves the exact lengths and is plain
  subtraction as long as no more is delivered than was announced; the sentinels are fixed points.
\<close>

theorem sub_if_exact:
  assumes "is_exact d" and "amt \<le> dl_val d"
  shows "is_exact (sub_if d amt) \<and> unat (dl_val (sub_if d amt)) = unat (dl_val d) - unat amt \<and>
    sub_if CHUNKED amt = CHUNKED \<and> sub_if CLOSE_DELIMITED amt = CLOSE_DELIMITED"
proof -
  have sub: "sub_if d amt = DecodedLength (dl_val d - amt)"
    using assms(1) by (simp add: sub_if_def is_exact_iff)
  have val: "unat (dl_val (sub_if d amt)) = unat (dl_val d) - unat amt"
    using assms(2) by (simp add: sub word_nat)
  have "is_exact (sub_if d amt)"
    using assms(1) val by (simp add: is_exact_def word_le_nat_alt)
  with val show ?thesis by (simp add: sub_if_def)
qed

theorem sub_if_exact_witness:
  "is_exact (sub_if (DecodedLength 30) 20) \<and> unat (dl_val (sub_if (DecodedLength 30) 20)) = 10"
  using sub_if_exact [of "DecodedLength 30" 20] by (simp add: is_exact_def MAX_LEN_def)

end
