(* ===== verification/Http_Api.thy ===== *)
theory Http_Api
  imports Errors
begin

text \<open>
  What the sources rely on of the \<open>http\<close> crate. \<open>HeaderMap\<close>, \<open>HeaderName\<close> and
  \<open>HeaderValue\<close> are not part of the repository: their operations are the fields of the record
  \<open>http_api\<close>, an argument of every definition that uses them, and their documented behaviour
  is the locale \<open>http_crate\<close>. A header name is its lower-case text, as \<open>HeaderName\<close> keeps
  it; a header value is its bytes.
\<close>

type_synonym header_name = string
type_synonym header_value = bytes

record 'h http_api =
  hm_new :: "'h"
  hm_get_all :: "'h \<Rightarrow> header_name \<Rightarrow> header_value list"
  hm_insert :: "'h \<Rightarrow> header_name \<Rightarrow> header_value \<Rightarrow> 'h"
  hm_append :: "'h \<Rightarrow> header_name \<Rightarrow> header_value \<Rightarrow> 'h"
  hm_remove :: "'h \<Rightarrow> header_name \<Rightarrow> 'h"
  hm_set_values :: "'h \<Rightarrow> header_name \<Rightarrow> header_value list \<Rightarrow> 'h"
  hm_iter :: "'h \<Rightarrow> (header_name \<times> header_value) list"
  hm_into_iter :: "'h \<Rightarrow> (header_name option \<times> header_value) list"
  hn_from_bytes :: "bytes \<Rightarrow> header_name option"
  hv_from_bytes :: "bytes \<Rightarrow> header_value option"
  hv_to_str :: "header_value \<Rightarrow> string option"
  hv_from_u64 :: "u64 \<Rightarrow> header_value"
  sc_from_u16 :: "nat \<Rightarrow> nat option"
  sc_canonical_reason :: "nat \<Rightarrow> bytes option"

definition hm_contains_key :: "'h http_api \<Rightarrow> 'h \<Rightarrow> header_name \<Rightarrow> bool" where
  "hm_contains_key api h n = (hm_get_all api h n \<noteq> [])"

definition hm_get :: "'h http_api \<Rightarrow> 'h \<Rightarrow> header_name \<Rightarrow> header_value option" where
  "hm_get api h n = (case hm_get_all api h n of [] \<Rightarrow> None | v # _ \<Rightarrow> Some v)"

text \<open>A byte that \<open>HeaderValue::to_str\<close> accepts: visible ASCII, space or tab.\<close>

definition visible_ascii :: "byte \<Rightarrow> bool" where
  "visible_ascii b \<longleftrightarrow> (32 \<le> byte_val b \<and> byte_val b < 127) \<or> b = HTAB"

text \<open>
  \<open>HeaderMap\<close>'s owning iterator yields the name with the first value of each entry and \<open>None\<close>
  with the further values of the same entry; \<open>with_names\<close> puts the names back.
\<close>

fun with_names :: "header_name option \<Rightarrow> (header_name option \<times> header_value) list \<Rightarrow>
    (header_name option \<times> header_value) list" where
  "with_names cur [] = []"
| "with_names cur ((n, v) # xs) =
     (let cur' = (case n of Some m \<Rightarrow> Some m | None \<Rightarrow> cur) in (cur', v) # with_names cur' xs)"

locale http_crate =
  fixes api :: "'h http_api"
  assumes get_all_new: "hm_get_all api (hm_new api) n = []"
    and get_all_insert:
      "hm_get_all api (hm_insert api h n v) m = (if m = n then [v] else hm_get_all api h m)"
    and get_all_append:
      "hm_get_all api (hm_append api h n v) m =
         (if m = n then hm_get_all api h m @ [v] else hm_get_all api h m)"
    and get_all_remove:
      "hm_get_all api (hm_remove api h n) m = (if m = n then [] else hm_get_all api h m)"
    and get_all_set_values:
      "length vs = length (hm_get_all api h n) \<Longrightarrow>
         hm_get_all api (hm_set_values api h n vs) m = (if m = n then vs else hm_get_all api h m)"
    and iter_get_all: "map snd (filter (\<lambda>p. fst p = n) (hm_iter api h)) = hm_get_all api h n"
    and into_iter_iter: "with_names None (hm_into_iter api h) = map (apfst Some) (hm_iter api h)"
    and to_str_iff: "hv_to_str api v = (if list_all visible_ascii v then Some v else None)"
    and from_u64_dec: "hv_from_u64 api w = fmt_dec (unat w)"
    and status_range: "sc_from_u16 api c = (if 100 \<le> c \<and> c < 1000 then Some c else None)"
begin

lemmas get_all_simps [simp] =
  get_all_new get_all_insert get_all_append get_all_remove get_all_set_values

lemma contains_insert [simp]: "hm_contains_key api (hm_insert api h n v) m \<longleftrightarrow> m = n \<or> hm_contains_key api h m"
  and contains_remove [simp]: "hm_contains_key api (hm_remove api h n) m \<longleftrightarrow> m \<noteq> n \<and> hm_contains_key api h m"
  by (simp_all add: hm_contains_key_def)

lemma get_insert [simp]: "hm_get api (hm_insert api h n v) m = (if m = n then Some v else hm_get api h m)"
  and get_remove [simp]: "hm_get api (hm_remove api h n) m = (if m = n then None else hm_get api h m)"
  by (simp_all add: hm_get_def)

lemma iter_mem: "(n, v) \<in> set (hm_iter api h) \<longleftrightarrow> v \<in> set (hm_get_all api h n)"
  by (force simp: iter_get_all [symmetric])

end

section \<open>The response parser\<close>

text \<open>
  \<open>httparse\<close> is not part of the repository either. A parsed header is the position of its name
  and value in the buffer it was parsed from, which is what the sources compute from the slices.
\<close>

datatype 'a hp_status = HpComplete 'a | HpPartial | HpError httparse_error

record hp_header =
  hp_name_start :: nat
  hp_name_len :: nat
  hp_value_start :: nat
  hp_value_len :: nat

record hp_response =
  hp_len :: nat
  hp_code :: nat
  hp_reason :: bytes
  hp_version :: nat
  hp_headers :: "hp_header list"

record parser_config =
  ignore_invalid_headers :: bool
  allow_spaces_after_header_name :: bool
  allow_obsolete_multiline_headers :: bool

record httparse_api =
  hp_parse_headers :: "bytes \<Rightarrow> nat \<Rightarrow> (nat \<times> (bytes \<times> bytes) list) hp_status"
  hp_parse_response :: "parser_config \<Rightarrow> nat \<Rightarrow> bytes \<Rightarrow> hp_response hp_status"

text \<open>
  What the sources rely on: a complete head lies inside the buffer, is not empty, has no more
  headers than there was room for, and its names and values lie inside the head.
\<close>

locale httparse_crate =
  fixes hp :: httparse_api
  assumes response_len: "hp_parse_response hp cfg cap bs = HpComplete r \<Longrightarrow>
      0 < hp_len r \<and> hp_len r \<le> length bs \<and> length (hp_headers r) \<le> cap"
    and response_headers: "hp_parse_response hp cfg cap bs = HpComplete r \<Longrightarrow> h \<in> set (hp_headers r) \<Longrightarrow>
      hp_name_start h + hp_name_len h \<le> hp_len r \<and> hp_value_start h + hp_value_len h \<le> hp_len r"

text \<open>A concrete parser for instances that parse nothing: it always asks for more input.\<close>

definition partial_parser :: httparse_api where
  "partial_parser =
     \<lparr>hp_parse_headers = (\<lambda>buf n. HpPartial), hp_parse_response = (\<lambda>cfg n buf. HpPartial)\<rparr>"

section \<open>A header map as an insertion-ordered list of entries\<close>

text \<open>
  The interface can be met: a list of names in first-insertion order, each with its values. It is
  what concrete instances of the theorems evaluate.
\<close>

type_synonym entries = "(header_name \<times> header_value list) list"

fun ent_get :: "entries \<Rightarrow> header_name \<Rightarrow> header_value list" where
  "ent_get [] n = []"
| "ent_get ((m, vs) # es) n = (if m = n then vs else ent_get es n)"

fun ent_put :: "entries \<Rightarrow> header_name \<Rightarrow> header_value list \<Rightarrow> entries" where
  "ent_put [] n vs = [(n, vs)]"
| "ent_put ((m, us) # es) n vs = (if m = n then (n, vs) # es else (m, us) # ent_put es n vs)"

definition ent_del :: "entries \<Rightarrow> header_name \<Rightarrow> entries" where
  "ent_del es n = filter (\<lambda>e. fst e \<noteq> n) es"

fun ent_norm :: "header_name set \<Rightarrow> entries \<Rightarrow> entries" where
  "ent_norm seen [] = []"
| "ent_norm seen ((n, vs) # es) =
     (if n \<in> seen \<or> vs = [] then [] else [(n, vs)]) @ ent_norm (insert n seen) es"

definition ent_iter :: "entries \<Rightarrow> (header_name \<times> header_value) list" where
  "ent_iter es = concat (map (\<lambda>(n, vs). map (Pair n) vs) (ent_norm {} es))"

definition ent_into_iter :: "entries \<Rightarrow> (header_name option \<times> header_value) list" where
  "ent_into_iter es =
     concat (map (\<lambda>(n, vs). case vs of [] \<Rightarrow> [] | v # ws \<Rightarrow> (Some n, v) # map (Pair None) ws)
       (ent_norm {} es))"

definition is_token_char :: "byte \<Rightarrow> bool" where
  "is_token_char b \<longleftrightarrow>
     (48 \<le> byte_val b \<and> byte_val b \<le> 57) \<or> (65 \<le> byte_val b \<and> byte_val b \<le> 90) \<or>
     (97 \<le> byte_val b \<and> byte_val b \<le> 122) \<or> b \<in> set ''!#$%&*+-.^_|~''"

definition list_api :: "entries http_api" where
  "list_api =
     \<lparr>hm_new = [],
      hm_get_all = ent_get,
      hm_insert = (\<lambda>h n v. ent_put h n [v]),
      hm_append = (\<lambda>h n v. ent_put h n (ent_get h n @ [v])),
      hm_remove = ent_del,
      hm_set_values = ent_put,
      hm_iter = ent_iter,
      hm_into_iter = ent_into_iter,
      hn_from_bytes = (\<lambda>b. if b \<noteq> [] \<and> list_all is_token_char b
                            then Some (map to_ascii_lowercase b) else None),
      hv_from_bytes = (\<lambda>b. if list_all (\<lambda>c. (32 \<le> byte_val c \<and> byte_val c \<noteq> 127) \<or> c = HTAB) b
                            then Some b else None),
      hv_to_str = (\<lambda>v. if list_all visible_ascii v then Some v else None),
      hv_from_u64 = (\<lambda>w. fmt_dec (unat w)),
      sc_from_u16 = (\<lambda>n. if 100 \<le> n \<and> n < 1000 then Some n else None),
      sc_canonical_reason = (\<lambda>n. if n = 100 then Some ''Continue'' else if n = 200 then Some ''OK'' else None)\<rparr>"

lemma list_api_simps [simp]:
  "hm_new list_api = []" "hm_get_all list_api = ent_get"
  "hm_insert list_api h n v = ent_put h n [v]"
  "hm_append list_api h n v = ent_put h n (ent_get h n @ [v])"
  "hm_remove list_api = ent_del" "hm_set_values list_api = ent_put"
  "hm_iter list_api = ent_iter" "hm_into_iter list_api = ent_into_iter"
  "hv_to_str list_api v = (if list_all visible_ascii v then Some v else None)"
  "hv_from_u64 list_api w = fmt_dec (unat w)"
  "sc_from_u16 list_api c = (if 100 \<le> c \<and> c < 1000 then Some c else None)"
  by (simp_all add: list_api_def)

lemma ent_get_put: "ent_get (ent_put es n vs) m = (if m = n then vs else ent_get es m)"
  by (induction es n vs rule: ent_put.induct) auto

lemma ent_get_del: "ent_get (ent_del es n) m = (if m = n then [] else ent_get es m)"
  by (induction es) (auto simp: ent_del_def)

lemma ent_get_norm:
  "map snd (filter (\<lambda>p. fst p = n) (concat (map (\<lambda>(n, vs). map (Pair n) vs) (ent_norm seen es)))) =
     (if n \<in> seen then [] else ent_get es n)"
  by (induction seen es rule: ent_norm.induct) (auto simp: filter_map o_def)

lemma with_names_append:
  "with_names (Some n) (map (Pair None) vs @ xs) = map (Pair (Some n)) vs @ with_names (Some n) xs"
  by (induction vs) (simp_all add: Let_def)

lemma with_names_norm:
  "with_names cur (concat (map (\<lambda>(n, vs). case vs of [] \<Rightarrow> [] | v # ws \<Rightarrow>
       (Some n, v) # map (Pair None) ws) (ent_norm seen es))) =
     map (apfst Some) (concat (map (\<lambda>(n, vs). map (Pair n) vs) (ent_norm seen es)))"
  by (induction seen es arbitrary: cur rule: ent_norm.induct)
    (auto simp: with_names_append neq_Nil_conv Let_def o_def)

interpretation list_http: http_crate list_api
  by unfold_locales
    (simp_all add: ent_get_put ent_get_del ent_iter_def ent_into_iter_def ent_get_norm with_names_norm)

end
