(* ===== verification/Headers.thy ===== *)
theory Headers
  imports Http_Api
begin

text \<open>
  \<open>wreq-proto/src/proto/headers.rs\<close>: what the protocol reads from and writes to the
  \<open>Connection\<close>, \<open>Content-Length\<close> and \<open>Transfer-Encoding\<close> headers.
\<close>

datatype http_method =
    GET | POST | PUT | DELETE | HEAD | OPTIONS | CONNECT | PATCH | TRACE | ExtensionMethod string

abbreviation CONTENT_LENGTH :: header_name where "CONTENT_LENGTH \<equiv> ''content-length''"
abbreviation TRANSFER_ENCODING :: header_name where "TRANSFER_ENCODING \<equiv> ''transfer-encoding''"
abbreviation CONNECTION :: header_name where "CONNECTION \<equiv> ''connection''"
abbreviation TE :: header_name where "TE \<equiv> ''te''"
abbreviation TRAILER :: header_name where "TRAILER \<equiv> ''trailer''"

abbreviation COMMA :: byte where "COMMA \<equiv> CHR '',''"

definition connection_has :: "'h http_api \<Rightarrow> header_value \<Rightarrow> string \<Rightarrow> bool" where
  "connection_has api value needle =
     (case hv_to_str api value of
        Some s \<Rightarrow> list_ex (\<lambda>val. eq_ignore_ascii_case (str_trim val) needle) (split_on COMMA s)
      | None \<Rightarrow> False)"

definition connection_keep_alive :: "'h http_api \<Rightarrow> header_value \<Rightarrow> bool" where
  "connection_keep_alive api value = connection_has api value ''keep-alive''"

definition connection_close :: "'h http_api \<Rightarrow> header_value \<Rightarrow> bool" where
  "connection_close api value = connection_has api value ''close''"

definition is_digit :: "byte \<Rightarrow> bool" where
  "is_digit b \<longleftrightarrow> 48 \<le> byte_val b \<and> byte_val b \<le> 57"

fun from_digits_loop :: "u64 \<Rightarrow> bytes \<Rightarrow> u64 option" where
  "from_digits_loop result [] = Some result"
| "from_digits_loop result (b # bs) =
     (if is_digit b
      then (case checked_mul result 10 of
              None \<Rightarrow> None
            | Some m \<Rightarrow>
                (case checked_add m (of_nat (byte_val b - 48)) of
                   None \<Rightarrow> None
                 | Some r \<Rightarrow> from_digits_loop r bs))
      else None)"

definition from_digits :: "bytes \<Rightarrow> u64 option" where
  "from_digits bs = (if bs = [] then None else from_digits_loop 0 bs)"

text \<open>
  The nested loops over the header values and their comma-separated items; the outer \<open>None\<close> is
  the early \<open>return None\<close>, the inner option is the variable \<open>content_length\<close>.
\<close>

fun content_length_items :: "u64 option \<Rightarrow> bytes list \<Rightarrow> u64 option option" where
  "content_length_items content_length [] = Some content_length"
| "content_length_items content_length (v # vs) =
     (case from_digits (str_trim v) of
        Some n \<Rightarrow>
          (if content_length = None then content_length_items (Some n) vs
           else if content_length \<noteq> Some n then None
           else content_length_items content_length vs)
      | None \<Rightarrow> None)"

fun content_length_loop ::
  "'h http_api \<Rightarrow> u64 option \<Rightarrow> header_value list \<Rightarrow> u64 option option" where
  "content_length_loop api content_length [] = Some content_length"
| "content_length_loop api content_length (h # hs) =
     (case hv_to_str api h of
        Some line \<Rightarrow>
          (case content_length_items content_length (split_on COMMA line) of
             None \<Rightarrow> None
           | Some cl \<Rightarrow> content_length_loop api cl hs)
      | None \<Rightarrow> None)"

definition content_length_parse_all_values ::
  "'h http_api \<Rightarrow> header_value list \<Rightarrow> u64 option" where
  "content_length_parse_all_values api values =
     (case content_length_loop api None values of None \<Rightarrow> None | Some cl \<Rightarrow> cl)"

definition content_length_parse_all :: "'h http_api \<Rightarrow> 'h \<Rightarrow> u64 option" where
  "content_length_parse_all api headers =
     content_length_parse_all_values api (hm_get_all api headers CONTENT_LENGTH)"

definition method_has_defined_payload_semantics :: "http_method \<Rightarrow> bool" where
  "method_has_defined_payload_semantics m = (m \<notin> {GET, HEAD, DELETE, CONNECT, OPTIONS})"

definition set_content_length_if_missing :: "'h http_api \<Rightarrow> 'h \<Rightarrow> u64 \<Rightarrow> 'h" where
  "set_content_length_if_missing api headers len =
     (if hm_contains_key api headers CONTENT_LENGTH then headers
      else hm_insert api headers CONTENT_LENGTH (hv_from_u64 api len))"

definition is_chunked :: "'h http_api \<Rightarrow> header_value list \<Rightarrow> bool" where
  "is_chunked api encodings =
     (if encodings = [] then False
      else (case hv_to_str api (last encodings) of
              Some s \<Rightarrow> eq_ignore_ascii_case (str_trim (last (split_on COMMA s))) ''chunked''
            | None \<Rightarrow> False))"

definition transfer_encoding_is_chunked :: "'h http_api \<Rightarrow> 'h \<Rightarrow> bool" where
  "transfer_encoding_is_chunked api headers =
     is_chunked api (hm_get_all api headers TRANSFER_ENCODING)"

definition add_chunked :: "'h http_api \<Rightarrow> 'h \<Rightarrow> 'h" where
  "add_chunked api headers =
     (let vs = hm_get_all api headers TRANSFER_ENCODING in
      if vs \<noteq> []
      then hm_set_values api headers TRANSFER_ENCODING (butlast vs @ [last vs @ '', '' @ ''chunked''])
      else hm_insert api headers TRANSFER_ENCODING ''chunked'')"

section \<open>Decimal numbers\<close>

abbreviation dec_digits :: "bytes \<Rightarrow> nat list" where
  "dec_digits bs \<equiv> map (\<lambda>b. byte_val b - 48) bs"

lemma from_digits_loop_Some:
  "from_digits_loop acc bs = Some n \<longleftrightarrow>
     list_all is_digit bs \<and> unat n = digits_val 10 (unat acc) (dec_digits bs)"
proof (induction bs arbitrary: acc)
  case Nil
  then show ?case by (auto simp: unat_eq_iff)
next
  case (Cons b bs)
  have d: "unat (of_nat (byte_val b - 48) :: u64) = byte_val b - 48" if "is_digit b"
    using that by (intro unat_of_nat_u64) (simp add: is_digit_def, linarith)
  show ?case
  proof (cases "is_digit b")
    case digit: True
    let ?v = "unat acc * 10 + (byte_val b - 48)"
    have step: "from_digits_loop acc (b # bs) = Some n \<longleftrightarrow>
        ?v < 2 ^ 64 \<and> from_digits_loop (of_nat ?v) bs = Some n"
      using digit by (simp add: checked_mul_add_Some d ex_unat_u64 del: of_nat_add of_nat_mult)
    have "?v < 2 ^ 64" if "unat n = digits_val 10 ?v (dec_digits bs)"
      using that digits_val_ge [of 10 ?v "dec_digits bs"] unat_lt_2p64 [of n] by simp
    then show ?thesis
      unfolding step Cons.IH using digit by (auto simp: unat_of_nat_u64 simp del: of_nat_add of_nat_mult)
  qed simp
qed

lemma from_digits_Some:
  "from_digits bs = Some n \<longleftrightarrow>
     bs \<noteq> [] \<and> list_all is_digit bs \<and> unat n = digits_val 10 0 (dec_digits bs)"
  by (simp add: from_digits_def from_digits_loop_Some)

lemma fmt_dec_digits: "list_all is_digit (fmt_dec n) \<and> digits_val 10 0 (dec_digits (fmt_dec n)) = n"
proof (induction n rule: fmt_dec.induct)
  case (1 n)
  show ?case
  proof (cases "n < 10")
    case True
    then show ?thesis by (subst (1 2) fmt_dec.simps) (simp add: is_digit_def)
  next
    case False
    with 1 have "list_all is_digit (fmt_dec (n div 10))"
      "digits_val 10 0 (dec_digits (fmt_dec (n div 10))) = n div 10" by auto
    with False show ?thesis
      by (subst (1 2) fmt_dec.simps) (simp add: is_digit_def)
  qed
qed

lemma digit_visible: "is_digit b \<Longrightarrow> visible_ascii b" "is_digit b \<Longrightarrow> \<not> is_whitespace b"
  "is_digit b \<Longrightarrow> b \<noteq> COMMA"
  by (auto simp: is_digit_def visible_ascii_def is_whitespace_def)

lemma str_trim_id: "list_all (\<lambda>b. \<not> is_whitespace b) s \<Longrightarrow> str_trim s = s"
proof -
  have "dropWhile is_whitespace t = t" if "list_all (\<lambda>b. \<not> is_whitespace b) t" for t
    using that by (cases t) auto
  moreover assume "list_all (\<lambda>b. \<not> is_whitespace b) s"
  ultimately show ?thesis by (simp add: str_trim_def trim_start_by_def trim_end_by_def)
qed

text \<open>
  \<open>from_digits\<close> is decimal parsing with overflow detection: it returns a number exactly for
  the non-empty strings of ASCII digits (so no sign, no space) whose value fits in 64 bits, and
  then returns that value; everything else is refused, never wrapped around.
\<close>

theorem from_digits_spec:
  "from_digits bs =
     (if bs \<noteq> [] \<and> list_all is_digit bs \<and> digits_val 10 0 (dec_digits bs) < 2 ^ 64
      then Some (of_nat (digits_val 10 0 (dec_digits bs))) else None)"
proof (cases "from_digits bs")
  case None
  have False if "bs \<noteq> []" "list_all is_digit bs" "digits_val 10 0 (dec_digits bs) < 2 ^ 64"
    using that None from_digits_Some [of bs "of_nat (digits_val 10 0 (dec_digits bs))"]
    by (simp add: unat_of_nat_u64)
  with None show ?thesis by auto
next
  case (Some n)
  then have n: "bs \<noteq> []" "list_all is_digit bs" "digits_val 10 0 (dec_digits bs) = unat n"
    by (simp_all add: from_digits_Some)
  moreover have "unat n < 2 ^ 64" using unat_bound [of n] by simp
  ultimately show ?thesis using Some by simp
qed

section \<open>Content-Length\<close>

abbreviation item_num :: "bytes \<Rightarrow> u64 option" where
  "item_num v \<equiv> from_digits (str_trim v)"

definition all_items :: "'h http_api \<Rightarrow> header_value \<Rightarrow> u64 \<Rightarrow> bool" where
  "all_items api h n \<longleftrightarrow>
     (\<exists>line. hv_to_str api h = Some line \<and> (\<forall>v \<in> set (split_on COMMA line). item_num v = Some n))"

lemma content_length_items_Some:
  "content_length_items (Some n) vs =
     (if \<forall>v \<in> set vs. item_num v = Some n then Some (Some n) else None)"
  by (induction vs) (auto split: option.splits)

lemma content_length_loop_Some:
  "content_length_loop api (Some n) hs =
     (if \<forall>h \<in> set hs. all_items api h n then Some (Some n) else None)"
  by (induction hs) (auto simp: all_items_def content_length_items_Some split: option.splits)

lemma content_length_loop_None:
  "content_length_loop api None (h # hs) = Some r \<longleftrightarrow>
     (\<exists>n. r = Some n \<and> (\<forall>h' \<in> set (h # hs). all_items api h' n))"
proof (cases "hv_to_str api h")
  case (Some line)
  obtain v vs where items: "split_on COMMA line = v # vs"
    by (cases "split_on COMMA line") auto
  show ?thesis
  proof (cases "item_num v")
    case None
    then show ?thesis by (simp add: Some items all_items_def)
  next
    case (Some n)
    then show ?thesis
      by (auto simp: \<open>hv_to_str api h = Some line\<close> items all_items_def content_length_items_Some
          content_length_loop_Some)
  qed
qed (simp add: all_items_def)

lemma content_length_parse_all_values_iff:
  "content_length_parse_all_values api hs = Some n \<longleftrightarrow>
     hs \<noteq> [] \<and> (\<forall>h \<in> set hs. all_items api h n)"
proof (cases hs)
  case (Cons h hs')
  have "content_length_parse_all_values api hs = Some n \<longleftrightarrow>
      content_length_loop api None (h # hs') = Some (Some n)"
    using content_length_loop_None [of api h hs' None]
    by (auto simp: content_length_parse_all_values_def Cons simp del: content_length_loop.simps
        split: option.splits)
  then show ?thesis by (simp only: content_length_loop_None Cons) simp
qed (simp add: content_length_parse_all_values_def)

text \<open>
  Several \<open>Content-Length\<close> values are accepted exactly when they all agree: the parse returns
  \<open>n\<close> if and only if at least one header is present, every header value is visible ASCII, and every
  comma-separated item of every value is a decimal number equal to \<open>n\<close>.
\<close>

theorem content_length_parse_all_agree:
  "content_length_parse_all api headers = Some n \<longleftrightarrow>
     hm_get_all api headers CONTENT_LENGTH \<noteq> [] \<and>
     (\<forall>h \<in> set (hm_get_all api headers CONTENT_LENGTH).
        \<exists>line. hv_to_str api h = Some line \<and>
          (\<forall>v \<in> set (split_on COMMA line). from_digits (str_trim v) = Some n))"
  by (simp add: content_length_parse_all_def content_length_parse_all_values_iff all_items_def)

theorem content_length_parse_all_agree_witness:
  "content_length_parse_all list_api [(CONTENT_LENGTH, [''5'', ''5, 5''])] = Some 5 \<and>
   content_length_parse_all list_api [(CONTENT_LENGTH, [''5'', ''6''])] \<noteq> Some 5"
proof -
  have five: "from_digits (str_trim ''5'') = Some 5" "from_digits (str_trim '' 5'') = Some 5"
    and six: "from_digits (str_trim ''6'') = Some 6"
    by (simp_all add: from_digits_Some is_digit_def str_trim_def trim_start_by_def trim_end_by_def
        is_whitespace_def)
  show ?thesis
    using five six
      content_length_parse_all_agree [of list_api "[(CONTENT_LENGTH, [''5'', ''5, 5''])]" 5]
      content_length_parse_all_agree [of list_api "[(CONTENT_LENGTH, [''5'', ''6''])]" 5]
    by (simp add: visible_ascii_def)
qed

end
