(* ===== verification/Decode.thy ===== *)
theory Decode
  imports Body_Length Headers
begin

text \<open>
  \<open>wreq-proto/src/proto/http1/decode.rs\<close>: the decoders of an HTTP/1 message body, for a body of
  known length, a chunked body and one that ends with the connection. A decoder reads through the
  trait \<open>MemRead\<close>, modelled by the argument \<open>rd\<close>; what an implementation of the trait promises is
  the locale \<open>mem_read\<close>.
\<close>

section \<open>Data\<close>

definition CHUNKED_EXTENSIONS_LIMIT :: u64 where "CHUNKED_EXTENSIONS_LIMIT = 1024 * 16"
definition TRAILER_LIMIT :: nat where "TRAILER_LIMIT = 1024 * 16"
definition DEFAULT_MAX_HEADERS :: nat where "DEFAULT_MAX_HEADERS = 100"

datatype chunked_state =
    Start | Size | SizeLws | Extension | SizeLf | Body | BodyCr | BodyLf
  | Trailer | TrailerLf | EndCr | EndLf | End

record chunked =
  c_state :: chunked_state
  chunk_len :: u64
  extensions_cnt :: u64
  trailers_buf :: "bytes option"
  trailers_cnt :: nat
  c_max_headers :: "nat option"
  c_max_header_size :: "nat option"

datatype decoder_kind = Length u64 | Chunked chunked | Eof bool

record decoder =
  d_kind :: decoder_kind

datatype 'h frame = FrameData bytes | FrameTrailers 'h

section \<open>Construction\<close>

definition decoder_length :: "u64 \<Rightarrow> decoder" where
  "decoder_length x = \<lparr>d_kind = Length x\<rparr>"

definition decoder_eof :: decoder where
  "decoder_eof = \<lparr>d_kind = Eof False\<rparr>"

definition chunked_new :: "nat option \<Rightarrow> nat option \<Rightarrow> chunked" where
  "chunked_new max_headers max_header_size =
     \<lparr>c_state = Start, chunk_len = 0, extensions_cnt = 0, trailers_buf = None, trailers_cnt = 0,
      c_max_headers = max_headers, c_max_header_size = max_header_size\<rparr>"

definition decoder_chunked :: "nat option \<Rightarrow> nat option \<Rightarrow> decoder" where
  "decoder_chunked max_headers max_header_size =
     \<lparr>d_kind = Chunked (chunked_new max_headers max_header_size)\<rparr>"

definition decoder_new :: "decoded_length \<Rightarrow> nat option \<Rightarrow> nat option \<Rightarrow> decoder" where
  "decoder_new len max_headers max_header_size =
     (if len = CHUNKED then decoder_chunked max_headers max_header_size
      else if len = CLOSE_DELIMITED then decoder_eof
      else decoder_length (danger_len len))"

definition decoder_is_eof :: "decoder \<Rightarrow> bool" where
  "decoder_is_eof d =
     (case d_kind d of
        Length n \<Rightarrow> n = 0
      | Chunked c \<Rightarrow> c_state c = End
      | Eof b \<Rightarrow> b)"

section \<open>The steps of the chunked state machine\<close>

abbreviation io_err :: "io_error_kind \<Rightarrow> string \<Rightarrow> io_error" where
  "io_err k m \<equiv> IoError k (Message m)"

text \<open>The macro \<open>byte!\<close>: read one byte, or leave the step.\<close>

definition read_byte :: "'r reader \<Rightarrow> 'r \<Rightarrow> 'r \<times> (io_error + byte) poll" where
  "read_byte rd r =
     (case rd r 1 of
        (r', Ready (Inr [])) \<Rightarrow>
          (r', Ready (Inl (io_err UnexpectedEof ''unexpected EOF during chunk size line'')))
      | (r', Ready (Inr (b # _))) \<Rightarrow> (r', Ready (Inr b))
      | (r', Ready (Inl e)) \<Rightarrow> (r', Ready (Inl e))
      | (r', Pending) \<Rightarrow> (r', Pending)
      | (r', Panicked m) \<Rightarrow> (r', Panicked m))"

type_synonym step_result = "(io_error + chunked_state) poll"

text \<open>A step that reads one byte and then only looks at it.\<close>

definition with_byte ::
  "'r reader \<Rightarrow> chunked \<Rightarrow> 'r \<Rightarrow> (byte \<Rightarrow> chunked \<times> step_result) \<Rightarrow> chunked \<times> 'r \<times> step_result" where
  "with_byte rd c r f =
     (case read_byte rd r of
        (r', Ready (Inr b)) \<Rightarrow> (case f b of (c', res) \<Rightarrow> (c', r', res))
      | (r', Ready (Inl e)) \<Rightarrow> (c, r', Ready (Inl e))
      | (r', Pending) \<Rightarrow> (c, r', Pending)
      | (r', Panicked m) \<Rightarrow> (c, r', Panicked m))"

definition hex_digit :: "byte \<Rightarrow> u64 option" where
  "hex_digit b =
     (let v = byte_val b in
      if 48 \<le> v \<and> v \<le> 57 then Some (of_nat (v - 48))
      else if 97 \<le> v \<and> v \<le> 102 then Some (of_nat (v + 10 - 97))
      else if 65 \<le> v \<and> v \<le> 70 then Some (of_nat (v + 10 - 65))
      else None)"

text \<open>The macro \<open>or_overflow!\<close> around the two checked operations on the chunk size.\<close>

definition push_size :: "chunked \<Rightarrow> u64 \<Rightarrow> chunked \<times> step_result" where
  "push_size c d =
     (let overflow = io_err InvalidData ''invalid chunk size: overflow'' in
      case checked_mul (chunk_len c) 16 of
        None \<Rightarrow> (c, Ready (Inl overflow))
      | Some m \<Rightarrow>
          (case checked_add m d of
             None \<Rightarrow> (c\<lparr>chunk_len := m\<rparr>, Ready (Inl overflow))
           | Some s \<Rightarrow> (c\<lparr>chunk_len := s\<rparr>, Ready (Inr Size))))"

definition read_start :: "chunked \<Rightarrow> byte \<Rightarrow> chunked \<times> step_result" where
  "read_start c b =
     (case hex_digit b of
        Some d \<Rightarrow> push_size c d
      | None \<Rightarrow>
          (c, Ready (Inl (io_err InvalidInput ''Invalid chunk size line: missing size digit''))))"

definition read_size :: "chunked \<Rightarrow> byte \<Rightarrow> chunked \<times> step_result" where
  "read_size c b =
     (case hex_digit b of
        Some d \<Rightarrow> push_size c d
      | None \<Rightarrow>
          (c, Ready (if b = HTAB \<or> b = CHR '' '' then Inr SizeLws
                     else if b = CHR '';'' then Inr Extension
                     else if b = CR then Inr SizeLf
                     else Inl (io_err InvalidInput ''Invalid chunk size line: Invalid Size''))))"

definition read_size_lws :: "chunked \<Rightarrow> byte \<Rightarrow> chunked \<times> step_result" where
  "read_size_lws c b =
     (c, Ready (if b = HTAB \<or> b = CHR '' '' then Inr SizeLws
                else if b = CHR '';'' then Inr Extension
                else if b = CR then Inr SizeLf
                else Inl (io_err InvalidInput ''Invalid chunk size linear white space'')))"

definition read_extension :: "chunked \<Rightarrow> byte \<Rightarrow> chunked \<times> step_result" where
  "read_extension c b =
     (if b = CR then (c, Ready (Inr SizeLf))
      else if b = LF
      then (c, Ready (Inl (io_err InvalidData ''invalid chunk extension contains newline'')))
      else
        let c' = c\<lparr>extensions_cnt := extensions_cnt c + 1\<rparr> in
        if extensions_cnt c' \<ge> CHUNKED_EXTENSIONS_LIMIT
        then (c', Ready (Inl (io_err InvalidData ''chunk extensions over limit'')))
        else (c', Ready (Inr Extension)))"

definition read_size_lf :: "chunked \<Rightarrow> byte \<Rightarrow> chunked \<times> step_result" where
  "read_size_lf c b =
     (c, Ready (if b = LF then (if chunk_len c = 0 then Inr EndCr else Inr Body)
                else Inl (io_err InvalidInput ''Invalid chunk size LF'')))"

definition read_body_cr :: "chunked \<Rightarrow> byte \<Rightarrow> chunked \<times> step_result" where
  "read_body_cr c b =
     (c, Ready (if b = CR then Inr BodyLf else Inl (io_err InvalidInput ''Invalid chunk body CR'')))"

definition read_body_lf :: "chunked \<Rightarrow> byte \<Rightarrow> chunked \<times> step_result" where
  "read_body_lf c b =
     (c, Ready (if b = LF then Inr Start else Inl (io_err InvalidInput ''Invalid chunk body LF'')))"

text \<open>The macro \<open>put_u8!\<close>: append the byte, then check the limit.\<close>

definition put_u8 :: "chunked \<Rightarrow> bytes \<Rightarrow> byte \<Rightarrow> nat \<Rightarrow> chunked_state \<Rightarrow> chunked \<times> step_result" where
  "put_u8 c buf b limit st =
     (let buf' = buf @ [b]; c' = c\<lparr>trailers_buf := Some buf'\<rparr> in
      if length buf' \<ge> limit
      then (c', Ready (Inl (io_err InvalidData ''chunk trailers bytes over limit'')))
      else (c', Ready (Inr st)))"

definition read_trailer :: "nat \<Rightarrow> chunked \<Rightarrow> byte \<Rightarrow> chunked \<times> step_result" where
  "read_trailer max_header_size c b =
     (case trailers_buf c of
        None \<Rightarrow> (c, Panicked ''trailers_buf is None'')
      | Some buf \<Rightarrow> put_u8 c buf b max_header_size (if b = CR then TrailerLf else Trailer))"

definition read_trailer_lf :: "nat \<Rightarrow> nat \<Rightarrow> chunked \<Rightarrow> byte \<Rightarrow> chunked \<times> step_result" where
  "read_trailer_lf max_headers max_header_size c b =
     (if b = LF then
        (if trailers_cnt c \<ge> max_headers
         then (c, Ready (Inl (io_err InvalidData ''chunk trailers count overflow'')))
         else
           let c' = c\<lparr>trailers_cnt := trailers_cnt c + 1\<rparr> in
           case trailers_buf c' of
             None \<Rightarrow> (c', Panicked ''trailers_buf is None'')
           | Some buf \<Rightarrow> put_u8 c' buf b max_header_size EndCr)
      else (c, Ready (Inl (io_err InvalidInput ''Invalid trailer end LF''))))"

definition read_end_cr :: "nat \<Rightarrow> chunked \<Rightarrow> byte \<Rightarrow> chunked \<times> step_result" where
  "read_end_cr max_header_size c b =
     (if b = CR then
        (case trailers_buf c of
           Some buf \<Rightarrow> put_u8 c buf b max_header_size EndLf
         | None \<Rightarrow> (c, Ready (Inr EndLf)))
      else
        (case trailers_buf c of
           None \<Rightarrow> (c\<lparr>trailers_buf := Some [b]\<rparr>, Ready (Inr Trailer))
         | Some buf \<Rightarrow> put_u8 c buf b max_header_size Trailer))"

definition read_end_lf :: "nat \<Rightarrow> chunked \<Rightarrow> byte \<Rightarrow> chunked \<times> step_result" where
  "read_end_lf max_header_size c b =
     (if b = LF then
        (case trailers_buf c of
           Some buf \<Rightarrow> put_u8 c buf b max_header_size End
         | None \<Rightarrow> (c, Ready (Inr End)))
      else (c, Ready (Inl (io_err InvalidInput ''Invalid chunk end LF''))))"

text \<open>Reading chunk data: \<open>usize::try_from(rem).unwrap_or(usize::MAX)\<close> caps what is asked for.\<close>

definition read_body ::
  "'r reader \<Rightarrow> chunked \<Rightarrow> 'r \<Rightarrow> chunked \<times> 'r \<times> bytes option \<times> step_result" where
  "read_body rd c r =
     (case rd r (min (unat (chunk_len c)) usize_max) of
        (r', Ready (Inr data)) \<Rightarrow>
          (if data = []
           then (c\<lparr>chunk_len := 0\<rparr>, r', None, Ready (Inl (IoError UnexpectedEof IncompleteBody)))
           else
             let c' = c\<lparr>chunk_len := chunk_len c - of_nat (length data)\<rparr> in
             (c', r', Some data, Ready (Inr (if chunk_len c' > 0 then Body else BodyCr))))
      | (r', Ready (Inl e)) \<Rightarrow> (c, r', None, Ready (Inl e))
      | (r', Pending) \<Rightarrow> (c, r', None, Pending)
      | (r', Panicked m) \<Rightarrow> (c, r', None, Panicked m))"

text \<open>What a state that reads a single byte does with it.\<close>

definition max_headers :: "chunked \<Rightarrow> nat" where
  "max_headers c = (case c_max_headers c of None \<Rightarrow> DEFAULT_MAX_HEADERS | Some n \<Rightarrow> n)"

definition max_header_size :: "chunked \<Rightarrow> nat" where
  "max_header_size c = (case c_max_header_size c of None \<Rightarrow> TRAILER_LIMIT | Some n \<Rightarrow> n)"

definition byte_action :: "chunked \<Rightarrow> byte \<Rightarrow> chunked \<times> step_result" where
  "byte_action c b =
     (case c_state c of
        Start \<Rightarrow> read_start c b
      | Size \<Rightarrow> read_size c b
      | SizeLws \<Rightarrow> read_size_lws c b
      | Extension \<Rightarrow> read_extension c b
      | SizeLf \<Rightarrow> read_size_lf c b
      | BodyCr \<Rightarrow> read_body_cr c b
      | BodyLf \<Rightarrow> read_body_lf c b
      | Trailer \<Rightarrow> read_trailer (max_header_size c) c b
      | TrailerLf \<Rightarrow> read_trailer_lf (max_headers c) (max_header_size c) c b
      | EndCr \<Rightarrow> read_end_cr (max_header_size c) c b
      | EndLf \<Rightarrow> read_end_lf (max_header_size c) c b
      | _ \<Rightarrow> (c, Ready (Inr (c_state c))))"

definition chunked_step ::
  "'r reader \<Rightarrow> chunked \<Rightarrow> 'r \<Rightarrow> chunked \<times> 'r \<times> bytes option \<times> step_result" where
  "chunked_step rd c r =
     (case c_state c of
        Body \<Rightarrow> read_body rd c r
      | End \<Rightarrow> (c, r, None, Ready (Inr End))
      | _ \<Rightarrow> (case with_byte rd c r (byte_action c) of (c', r', res) \<Rightarrow> (c', r', None, res)))"

section \<open>Decoding\<close>

text \<open>\<open>decode_trailers\<close>; the debug rendering of the refused header in its messages is left out.\<close>

fun insert_trailers :: "'h http_api \<Rightarrow> 'h \<Rightarrow> (bytes \<times> bytes) list \<Rightarrow> io_error + 'h" where
  "insert_trailers api trailers [] = Inr trailers"
| "insert_trailers api trailers ((n, v) # hs) =
     (case hn_from_bytes api n of
        None \<Rightarrow> Inl (io_err InvalidInput ''Invalid header name'')
      | Some name \<Rightarrow>
          (case hv_from_bytes api v of
             None \<Rightarrow> Inl (io_err InvalidInput ''Invalid header value'')
           | Some value \<Rightarrow> insert_trailers api (hm_insert api trailers name value) hs))"

definition decode_trailers ::
  "'h http_api \<Rightarrow> httparse_api \<Rightarrow> bytes \<Rightarrow> nat \<Rightarrow> io_error + 'h" where
  "decode_trailers api hp buf count =
     (case hp_parse_headers hp buf count of
        HpComplete (_, headers) \<Rightarrow> insert_trailers api (hm_new api) headers
      | HpPartial \<Rightarrow> Inl (io_err InvalidInput ''Partial header'')
      | HpError e \<Rightarrow> Inl (IoError InvalidInput (HttparseError e)))"

text \<open>The branch of the loop taken when the state machine has reached \<open>End\<close>.\<close>

definition finish_chunked ::
  "'h http_api \<Rightarrow> httparse_api \<Rightarrow> chunked \<Rightarrow> chunked \<times> (io_error + 'h frame)" where
  "finish_chunked api hp c =
     (case trailers_buf c of
        Some buf \<Rightarrow>
          (if trailers_cnt c \<ge> max_headers c
           then (c, Inl (io_err InvalidData ''chunk trailers count overflow''))
           else (c\<lparr>trailers_buf := None\<rparr>,
                 map_sum id FrameTrailers (decode_trailers api hp buf (trailers_cnt c))))
      | None \<Rightarrow> (c, Inr (FrameData [])))"

partial_function (option) chunked_loop ::
  "'h http_api \<Rightarrow> httparse_api \<Rightarrow> 'r reader \<Rightarrow> chunked \<Rightarrow> 'r \<Rightarrow>
   (chunked \<times> 'r \<times> (io_error + 'h frame) poll) option" where
  "chunked_loop api hp rd c r =
     (case chunked_step rd c r of
        (c', r', buf, Ready (Inr st)) \<Rightarrow>
          (let c'' = c'\<lparr>c_state := st\<rparr> in
           if st = End
           then (case finish_chunked api hp c'' of (c3, res) \<Rightarrow> Some (c3, r', Ready res))
           else (case buf of
                   Some b \<Rightarrow> Some (c'', r', Ready (Inr (FrameData b)))
                 | None \<Rightarrow> chunked_loop api hp rd c'' r'))
      | (c', r', buf, Ready (Inl e)) \<Rightarrow> Some (c', r', Ready (Inl e))
      | (c', r', buf, Pending) \<Rightarrow> Some (c', r', Pending)
      | (c', r', buf, Panicked m) \<Rightarrow> Some (c', r', Panicked m))"

definition decode_length ::
  "'r reader \<Rightarrow> u64 \<Rightarrow> 'r \<Rightarrow> u64 \<times> 'r \<times> (io_error + 'h frame) poll" where
  "decode_length rd remaining r =
     (if remaining = 0 then (remaining, r, Ready (Inr (FrameData [])))
      else
        (case rd r (min (unat remaining) usize_max) of
           (r', Ready (Inr buf)) \<Rightarrow>
             (let num = of_nat (length buf) in
              if num > remaining then (0, r', Ready (Inr (FrameData buf)))
              else if num = 0 then (remaining, r', Ready (Inl (IoError UnexpectedEof IncompleteBody)))
              else (remaining - num, r', Ready (Inr (FrameData buf))))
         | (r', Ready (Inl e)) \<Rightarrow> (remaining, r', Ready (Inl e))
         | (r', Pending) \<Rightarrow> (remaining, r', Pending)
         | (r', Panicked m) \<Rightarrow> (remaining, r', Panicked m)))"

definition decode_eof :: "'r reader \<Rightarrow> bool \<Rightarrow> 'r \<Rightarrow> bool \<times> 'r \<times> (io_error + 'h frame) poll" where
  "decode_eof rd is_eof r =
     (if is_eof then (is_eof, r, Ready (Inr (FrameData [])))
      else
        (case rd r 8192 of
           (r', Ready (Inr data)) \<Rightarrow> (data = [], r', Ready (Inr (FrameData data)))
         | (r', Ready (Inl e)) \<Rightarrow> (is_eof, r', Ready (Inl e))
         | (r', Pending) \<Rightarrow> (is_eof, r', Pending)
         | (r', Panicked m) \<Rightarrow> (is_eof, r', Panicked m)))"

definition decode ::
  "'h http_api \<Rightarrow> httparse_api \<Rightarrow> 'r reader \<Rightarrow> decoder \<Rightarrow> 'r \<Rightarrow>
   (decoder \<times> 'r \<times> (io_error + 'h frame) poll) option" where
  "decode api hp rd d r =
     (case d_kind d of
        Length n \<Rightarrow> (case decode_length rd n r of (n', r', res) \<Rightarrow> Some (d\<lparr>d_kind := Length n'\<rparr>, r', res))
      | Chunked c \<Rightarrow>
          map_option (\<lambda>(c', r', res). (d\<lparr>d_kind := Chunked c'\<rparr>, r', res))
            (chunked_loop api hp rd c r)
      | Eof b \<Rightarrow> (case decode_eof rd b r of (b', r', res) \<Rightarrow> Some (d\<lparr>d_kind := Eof b'\<rparr>, r', res)))"

end
