(* ===== verification/Chunked_Spec.thy ===== *)
theory Chunked_Spec
  imports Decode
begin

text \<open>
  The contract of a body reader (\<open>MemRead\<close>), the chunked coding as a byte-at-a-time automaton,
  and the proof that the decoder, however the transport cuts the stream into reads, is a run of
  that automaton over the bytes it consumes.
\<close>

section \<open>The contract of \<open>MemRead\<close>\<close>

text \<open>
  \<open>content r\<close> is everything the reader has still to deliver. A successful read hands over a
  prefix of it, at most as long as asked for; a read that is not ready or fails consumes nothing.
\<close>

locale mem_read =
  fixes rd :: "'r reader" and content :: "'r \<Rightarrow> bytes"
  assumes read_data: "rd r n = (r', Ready (Inr bs)) \<Longrightarrow> content r = bs @ content r' \<and> length bs \<le> n"
    and read_pending: "rd r n = (r', Pending) \<Longrightarrow> content r' = content r"
    and read_error: "rd r n = (r', Ready (Inl e)) \<Longrightarrow> content r' = content r"
    and read_no_panic: "rd r n \<noteq> (r', Panicked m)"

text \<open>A reader that is always ready delivers something as long as there is something to deliver.\<close>

locale ready_read = mem_read +
  assumes always_ready: "\<exists>r' bs. rd r n = (r', Ready (Inr bs))"
    and progress: "rd r n = (r', Ready (Inr [])) \<Longrightarrow> 0 < n \<Longrightarrow> content r = []"

text \<open>The slice reader \<open>impl MemRead for &[u8]\<close>.\<close>

definition slice_read :: "bytes reader" where
  "slice_read s len =
     (let n = min len (length s) in
      if n > 0 then (drop n s, Ready (Inr (take n s))) else (s, Ready (Inr [])))"

interpretation slice: ready_read slice_read "\<lambda>s. s"
  by unfold_locales (auto simp: slice_read_def Let_def min_def split: if_splits)

section \<open>Well-formed decoder states\<close>

text \<open>
  The buffer of trailer bytes exists exactly from the first trailer byte on; a chunk size is being
  counted down in \<open>Body\<close> only; the three limits hold.
\<close>

definition chunked_wf :: "chunked \<Rightarrow> bool" where
  "chunked_wf c \<longleftrightarrow>
     (c_state c \<in> {Trailer, TrailerLf} \<longrightarrow> trailers_buf c \<noteq> None) \<and>
     (c_state c \<in> {Start, Size, SizeLws, Extension, SizeLf, Body, BodyCr, BodyLf} \<longrightarrow>
        trailers_buf c = None \<and> trailers_cnt c = 0) \<and>
     (c_state c \<in> {Start, BodyCr, BodyLf, Trailer, TrailerLf, EndCr, EndLf, End} \<longrightarrow> chunk_len c = 0) \<and>
     (c_state c = Body \<longrightarrow> chunk_len c \<noteq> 0) \<and>
     extensions_cnt c < CHUNKED_EXTENSIONS_LIMIT \<and>
     trailers_cnt c \<le> max_headers c \<and>
     (\<forall>buf. trailers_buf c = Some buf \<longrightarrow> length buf = 1 \<or> length buf < max_header_size c)"

lemmas read_defs = read_start_def read_size_def read_size_lws_def read_extension_def
  read_size_lf_def read_body_cr_def read_body_lf_def read_trailer_def read_trailer_lf_def
  read_end_cr_def read_end_lf_def put_u8_def push_size_def Let_def

lemma limits_update [simp]:
  "max_headers (c\<lparr>c_state := s\<rparr>) = max_headers c"
  "max_headers (c\<lparr>chunk_len := n\<rparr>) = max_headers c"
  "max_headers (c\<lparr>extensions_cnt := m\<rparr>) = max_headers c"
  "max_headers (c\<lparr>trailers_buf := b\<rparr>) = max_headers c"
  "max_headers (c\<lparr>trailers_cnt := k\<rparr>) = max_headers c"
  "max_header_size (c\<lparr>c_state := s\<rparr>) = max_header_size c"
  "max_header_size (c\<lparr>chunk_len := n\<rparr>) = max_header_size c"
  "max_header_size (c\<lparr>extensions_cnt := m\<rparr>) = max_header_size c"
  "max_header_size (c\<lparr>trailers_buf := b\<rparr>) = max_header_size c"
  "max_header_size (c\<lparr>trailers_cnt := k\<rparr>) = max_header_size c"
  by (simp_all add: max_headers_def max_header_size_def)

lemma chunked_wf_new: "chunked_wf (chunked_new mh ms)"
  by (simp add: chunked_wf_def chunked_new_def CHUNKED_EXTENSIONS_LIMIT_def)

lemma byte_action_wf:
  assumes "chunked_wf c" and "c_state c \<noteq> Body" and "c_state c \<noteq> End"
    and "byte_action c b = (c', Ready (Inr st))"
  shows "chunked_wf (c'\<lparr>c_state := st\<rparr>)"
  using assms
  by (cases "c_state c")
    (auto simp: byte_action_def read_defs chunked_wf_def not_le
      split: option.splits if_splits)

lemma byte_action_no_panic:
  "chunked_wf c \<Longrightarrow> byte_action c b \<noteq> (c', Panicked m)"
  by (cases "c_state c")
    (auto simp: byte_action_def read_defs chunked_wf_def split: option.splits if_splits)

lemma byte_action_not_pending: "byte_action c b \<noteq> (c', Pending)"
  by (cases "c_state c") (auto simp: byte_action_def read_defs split: option.splits if_splits)

section \<open>The byte automaton\<close>

text \<open>
  One byte in, the next state and the body bytes out. \<open>Inl (Some e)\<close> is a refused byte,
  \<open>Inl None\<close> says that no byte belongs here: the body has ended.
\<close>

definition chunk_byte :: "chunked \<Rightarrow> byte \<Rightarrow> io_error option + (chunked \<times> bytes)" where
  "chunk_byte c b =
     (case c_state c of
        End \<Rightarrow> Inl None
      | Body \<Rightarrow>
          (let n = chunk_len c - 1 in
           Inr (c\<lparr>chunk_len := n, c_state := (if n > 0 then Body else BodyCr)\<rparr>, [b]))
      | _ \<Rightarrow>
          (case byte_action c b of
             (c', Ready (Inr st)) \<Rightarrow> Inr (c'\<lparr>c_state := st\<rparr>, [])
           | (c', Ready (Inl e)) \<Rightarrow> Inl (Some e)
           | _ \<Rightarrow> Inl None))"

fun chunk_run :: "chunked \<Rightarrow> bytes \<Rightarrow> io_error option + (chunked \<times> bytes)" where
  "chunk_run c [] = Inr (c, [])"
| "chunk_run c (b # bs) =
     (case chunk_byte c b of
        Inl e \<Rightarrow> Inl e
      | Inr (c', out) \<Rightarrow>
          (case chunk_run c' bs of Inl e \<Rightarrow> Inl e | Inr (c'', out') \<Rightarrow> Inr (c'', out @ out')))"

lemma chunk_run_append:
  "chunk_run c (xs @ ys) =
     (case chunk_run c xs of
        Inl e \<Rightarrow> Inl e
      | Inr (c', out) \<Rightarrow>
          (case chunk_run c' ys of Inl e \<Rightarrow> Inl e | Inr (c'', out') \<Rightarrow> Inr (c'', out @ out')))"
  by (induction xs arbitrary: c) (auto split: sum.splits prod.splits)

lemma chunk_run_appendI:
  "chunk_run c xs = Inr (c', out) \<Longrightarrow> chunk_run c' ys = Inr (c'', out') \<Longrightarrow>
   chunk_run c (xs @ ys) = Inr (c'', out @ out')"
  by (simp add: chunk_run_append)

lemma chunk_run_End: "c_state c = End \<Longrightarrow> chunk_run c w = Inr (c', out) \<Longrightarrow> w = []"
  by (cases w) (simp_all add: chunk_byte_def)

lemma chunk_run_body:
  "c_state c = Body \<Longrightarrow> data \<noteq> [] \<Longrightarrow> length data \<le> unat (chunk_len c) \<Longrightarrow>
   chunk_run c data =
     Inr (c\<lparr>chunk_len := chunk_len c - of_nat (length data),
            c_state := (if chunk_len c - of_nat (length data) > 0 then Body else BodyCr)\<rparr>, data)"
proof (induction data arbitrary: c)
  case (Cons b data)
  let ?c = "c\<lparr>chunk_len := chunk_len c - 1, c_state := (if chunk_len c - 1 > 0 then Body else BodyCr)\<rparr>"
  have byte: "chunk_byte c b = Inr (?c, [b])"
    using Cons.prems(1) by (simp add: chunk_byte_def Let_def)
  show ?case
  proof (cases "data = []")
    case True
    with byte show ?thesis by simp
  next
    case False
    have "chunk_len c \<noteq> 0" using Cons.prems(3) by auto
    then have len: "unat (chunk_len c - 1) = unat (chunk_len c) - 1"
      by (simp add: unat_sub word_le_nat_alt Suc_leI unat_gt_0)
    with Cons.prems(3) False have pos: "chunk_len c - 1 > 0" "length data \<le> unat (chunk_len c - 1)"
      by (auto simp: word_neq_0_conv [symmetric] unat_gt_0 [symmetric] len)
    then have "chunk_run ?c data =
        Inr (?c\<lparr>chunk_len := chunk_len ?c - of_nat (length data),
             c_state := (if chunk_len ?c - of_nat (length data) > 0 then Body else BodyCr)\<rparr>, data)"
      using False by (intro Cons.IH) simp_all
    with byte pos show ?thesis by (simp add: algebra_simps)
  qed
qed simp

section \<open>One step of the decoder is a run of the automaton\<close>

text \<open>How the outcome of one \<open>step\<close> relates to the bytes it consumed.\<close>

definition step_ok ::
  "chunked \<Rightarrow> bytes \<Rightarrow> chunked \<times> bytes option \<times> step_result \<Rightarrow> bool" where
  "step_ok c w out =
     (case out of
        (c', buf, Ready (Inr st)) \<Rightarrow>
          w \<noteq> [] \<and> chunked_wf (c'\<lparr>c_state := st\<rparr>) \<and>
          chunk_run c w = Inr (c'\<lparr>c_state := st\<rparr>, (case buf of None \<Rightarrow> [] | Some d \<Rightarrow> d)) \<and>
          (\<forall>d. buf = Some d \<longrightarrow> d \<noteq> [] \<and> st \<noteq> End)
      | (c', buf, Ready (Inl e)) \<Rightarrow> w = [] \<or> chunk_run c w = Inl (Some e)
      | (c', buf, Pending) \<Rightarrow> w = [] \<and> c' = c
      | (c', buf, Panicked m) \<Rightarrow> False)"

lemma body_wf:
  assumes "chunked_wf c" "c_state c = Body" "data \<noteq> []" "length data \<le> unat (chunk_len c)"
  shows "chunked_wf (c\<lparr>chunk_len := chunk_len c - of_nat (length data),
            c_state := (if chunk_len c - of_nat (length data) > 0 then Body else BodyCr)\<rparr>)"
  using assms by (auto simp: chunked_wf_def word_gt_0)

context mem_read
begin

lemma read_byte_cases:
  obtains b r' where "read_byte rd r = (r', Ready (Inr b))" "content r = b # content r'"
  | e r' where "read_byte rd r = (r', Ready (Inl e))" "content r' = content r"
  | r' where "read_byte rd r = (r', Pending)" "content r' = content r"
proof -
  obtain r' res where rd: "rd r 1 = (r', res)" by fastforce
  show thesis
  proof (cases res)
    case (Ready x)
    show thesis
    proof (cases x)
      case (Inl e)
      with Ready rd read_error [of r 1 r' e] that(2) show thesis by (simp add: read_byte_def)
    next
      case (Inr bs)
      with Ready rd read_data [of r 1 r' bs] have bs: "content r = bs @ content r'" "length bs \<le> 1"
        by auto
      show thesis
      proof (cases bs)
        case Nil
        with bs Ready Inr rd that(2) show thesis by (simp add: read_byte_def)
      next
        case (Cons b bs')
        with bs Ready Inr rd that(1) show thesis by (simp add: read_byte_def)
      qed
    qed
  next
    case Pending
    with rd read_pending [of r 1 r'] that(3) show thesis by (simp add: read_byte_def)
  next
    case (Panicked m)
    with rd read_no_panic [of r 1 r' m] show thesis by simp
  qed
qed

lemma step_byte_state:
  assumes wf: "chunked_wf c" and st: "c_state c \<noteq> Body" "c_state c \<noteq> End"
    and step: "chunked_step rd c r = (c', r', buf, res)"
  shows "\<exists>w. content r = w @ content r' \<and> step_ok c w (c', buf, res)"
proof -
  have eq: "chunked_step rd c r =
      (case with_byte rd c r (byte_action c) of (c', r', res) \<Rightarrow> (c', r', None, res))"
    using st by (cases "c_state c") (simp_all add: chunked_step_def)
  have byte: "chunk_byte c b =
      (case byte_action c b of
         (c', Ready (Inr st)) \<Rightarrow> Inr (c'\<lparr>c_state := st\<rparr>, [])
       | (c', Ready (Inl e)) \<Rightarrow> Inl (Some e)
       | _ \<Rightarrow> Inl None)" for b
    using st by (cases "c_state c") (simp_all add: chunk_byte_def)
  show ?thesis
  proof (rule read_byte_cases [of r])
    fix b r1 assume rb: "read_byte rd r = (r1, Ready (Inr b))" "content r = b # content r1"
    obtain c1 res1 where act: "byte_action c b = (c1, res1)" by fastforce
    with eq step rb have out: "c' = c1" "r' = r1" "buf = None" "res = res1"
      by (simp_all add: with_byte_def)
    have "step_ok c [b] (c1, None, res1)"
    proof (cases res1)
      case (Ready x)
      then show ?thesis
        using act byte [of b] byte_action_wf [OF wf st, of b]
        by (cases x) (auto simp: step_ok_def)
    next
      case Pending
      with act byte_action_not_pending show ?thesis by blast
    next
      case (Panicked m)
      with act byte_action_no_panic [OF wf] show ?thesis by blast
    qed
    with rb out show ?thesis by (intro exI [of _ "[b]"]) simp
  qed (use eq step in \<open>auto simp: with_byte_def step_ok_def\<close>)
qed

lemma step_body_state:
  assumes wf: "chunked_wf c" and st: "c_state c = Body"
    and step: "chunked_step rd c r = (c', r', buf, res)"
  shows "\<exists>w. content r = w @ content r' \<and> step_ok c w (c', buf, res)"
proof -
  obtain r1 res1 where rd: "rd r (min (unat (chunk_len c)) usize_max) = (r1, res1)" by fastforce
  note eq = step [unfolded chunked_step_def st chunked_state.case read_body_def rd, simplified]
  show ?thesis
  proof (cases res1)
    case (Ready x)
    show ?thesis
    proof (cases x)
      case (Inl e)
      with Ready rd eq read_error [of r _ r1 e] show ?thesis by (auto simp: step_ok_def)
    next
      case (Inr data)
      have data: "content r = data @ content r1" "length data \<le> unat (chunk_len c)"
        using read_data [OF rd [unfolded Ready Inr]] by simp_all
      show ?thesis
      proof (cases "data = []")
        case True
        with Ready Inr eq data show ?thesis by (auto simp: step_ok_def)
      next
        case False
        with Ready Inr eq data chunk_run_body [OF st False data(2)] body_wf [OF wf st False data(2)]
        show ?thesis by (auto simp: step_ok_def Let_def split: if_splits)
      qed
    qed
  next
    case Pending
    with rd eq read_pending [of r _ r1] show ?thesis by (auto simp: step_ok_def)
  next
    case (Panicked m)
    with rd read_no_panic [of r _ r1 m] show ?thesis by simp
  qed
qed

lemma step_refines:
  assumes "chunked_wf c" and "c_state c \<noteq> End" and "chunked_step rd c r = (c', r', buf, res)"
  shows "\<exists>w. content r = w @ content r' \<and> step_ok c w (c', buf, res)"
  using assms step_byte_state step_body_state by (cases "c_state c = Body") blast+

end

section \<open>One poll of the decoder is a run of the automaton\<close>

text \<open>
  How the outcome of a whole poll relates to the bytes \<open>w\<close> it consumed. Data frames carry exactly
  the output of the automaton; an empty data frame or a trailers frame comes only with \<open>End\<close>; an
  error is a byte the automaton refuses, or a stream that failed or stopped short of \<open>End\<close>, or
  trailers that were refused.
\<close>

definition loop_ok ::
  "'h http_api \<Rightarrow> httparse_api \<Rightarrow> chunked \<Rightarrow> bytes \<Rightarrow> chunked \<times> (io_error + 'h frame) poll \<Rightarrow> bool" where
  "loop_ok api hp c w out =
     (case out of
        (c', Ready (Inr (FrameData d))) \<Rightarrow>
          w \<noteq> [] \<and> chunked_wf c' \<and> chunk_run c w = Inr (c', d) \<and>
          (if d = [] then c_state c' = End \<and> trailers_buf c' = None else c_state c' \<noteq> End)
      | (c', Ready (Inr (FrameTrailers h))) \<Rightarrow>
          (\<exists>c1 buf. chunk_run c w = Inr (c1, []) \<and> c_state c1 = End \<and> trailers_buf c1 = Some buf \<and>
             c' = c1\<lparr>trailers_buf := None\<rparr> \<and> trailers_cnt c1 < max_headers c1 \<and>
             decode_trailers api hp buf (trailers_cnt c1) = Inr h)
      | (c', Ready (Inl e)) \<Rightarrow>
          chunk_run c w = Inl (Some e) \<or>
          (\<exists>c1. chunk_run c w = Inr (c1, []) \<and>
             (c_state c1 = End \<longrightarrow> trailers_buf c1 \<noteq> None \<and> snd (finish_chunked api hp c1) = Inl e))
      | (c', Pending) \<Rightarrow> chunked_wf c' \<and> c_state c' \<noteq> End \<and> chunk_run c w = Inr (c', [])
      | (c', Panicked m) \<Rightarrow> False)"

lemma loop_ok_prepend:
  assumes "chunk_run c w = Inr (c1, [])" and "loop_ok api hp c1 v out"
  shows "loop_ok api hp c (w @ v) out"
  using assms
  by (auto simp: loop_ok_def chunk_run_append split: prod.splits poll.splits sum.splits frame.splits)

lemma finish_ok:
  assumes run: "chunk_run c w = Inr (c1, [])" and "c_state c1 = End" and "chunked_wf c1" and "w \<noteq> []"
    and fin: "finish_chunked api hp c1 = (c', res)"
  shows "loop_ok api hp c w (c', Ready res)"
proof (cases "trailers_buf c1")
  case None
  with assms show ?thesis by (auto simp: finish_chunked_def loop_ok_def)
next
  case (Some buf)
  show ?thesis
  proof (cases "trailers_cnt c1 \<ge> max_headers c1")
    case True
    with Some assms show ?thesis by (auto simp: finish_chunked_def loop_ok_def)
  next
    case False
    with Some fin have out: "c' = c1\<lparr>trailers_buf := None\<rparr>"
      "res = map_sum id FrameTrailers (decode_trailers api hp buf (trailers_cnt c1))"
      by (auto simp: finish_chunked_def)
    show ?thesis
      using out Some False assms
      by (cases "decode_trailers api hp buf (trailers_cnt c1)") (auto simp: loop_ok_def)
  qed
qed

context mem_read
begin

lemma chunked_loop_refines:
  "chunked_wf c \<Longrightarrow> c_state c \<noteq> End \<Longrightarrow>
   \<exists>c' r' res w. chunked_loop api hp rd c r = Some (c', r', res) \<and>
     content r = w @ content r' \<and> loop_ok api hp c w (c', res)"
proof (induction "length (content r)" arbitrary: c r rule: less_induct)
  case less
  obtain c1 r1 buf sres where step: "chunked_step rd c r = (c1, r1, buf, sres)"
    by (metis prod_cases4)
  from step_refines [OF less.prems step] obtain w
    where w: "content r = w @ content r1" and ok: "step_ok c w (c1, buf, sres)" by blast
  note unfold = chunked_loop.simps [of api hp rd c r] step
  show ?case
  proof (cases sres)
    case (Ready x)
    show ?thesis
    proof (cases x)
      case (Inl e)
      then have "loop_ok api hp c w (c1, Ready (Inl e))"
        using ok Ready less.prems(2) by (auto simp: step_ok_def loop_ok_def)
      then show ?thesis using Ready Inl w by (auto simp: unfold)
    next
      case (Inr st)
      let ?c = "c1\<lparr>c_state := st\<rparr>"
      from ok Ready Inr have wne: "w \<noteq> []" and wf: "chunked_wf ?c"
        and run: "chunk_run c w = Inr (?c, case buf of None \<Rightarrow> [] | Some d \<Rightarrow> d)"
        and data: "\<And>d. buf = Some d \<Longrightarrow> d \<noteq> [] \<and> st \<noteq> End"
        by (auto simp: step_ok_def)
      consider "st = End" "buf = None" | "st \<noteq> End" "buf = None" | d where "st \<noteq> End" "buf = Some d"
        using data by (cases buf) auto
      then show ?thesis
      proof cases
        case 1
        obtain c' res where fin: "finish_chunked api hp ?c = (c', res)" by fastforce
        with 1 run wf wne have "loop_ok api hp c w (c', Ready res)"
          by (intro finish_ok [of _ _ ?c]) simp_all
        with 1 fin Ready Inr w show ?thesis by (auto simp: unfold Let_def)
      next
        case 2
        have "length (content r1) < length (content r)" using w wne by simp
        from less.hyps [OF this wf] 2 obtain c' r' res v
          where rec: "chunked_loop api hp rd ?c r1 = Some (c', r', res)"
            and v: "content r1 = v @ content r'" and ok': "loop_ok api hp ?c v (c', res)" by auto
        from run 2 ok' have "loop_ok api hp c (w @ v) (c', res)"
          by (intro loop_ok_prepend) simp_all
        with 2 rec v Ready Inr w show ?thesis by (auto simp: unfold Let_def)
      next
        case 3
        with run wf wne data have "loop_ok api hp c w (?c, Ready (Inr (FrameData d)))"
          by (simp add: loop_ok_def)
        with 3 Ready Inr w show ?thesis by (auto simp: unfold Let_def)
      qed
    qed
  next
    case Pending
    with ok less.prems have "loop_ok api hp c w (c1, Pending)" by (auto simp: step_ok_def loop_ok_def)
    with Pending w show ?thesis by (auto simp: unfold)
  next
    case (Panicked m)
    with ok show ?thesis by (simp add: step_ok_def)
  qed
qed

end

end
