(* ===== verification/Decode_Props.thy ===== *)
theory Decode_Props
  imports Chunked_Spec
begin

text \<open>
  What the body decoders promise: the chunked decoder refines the byte automaton for every reader,
  ends only at the end of the coding, keeps its limits and never panics; the length decoder
  delivers exactly the announced bytes; a truncated body is an error.
\<close>

section \<open>Helpers over any reader\<close>

definition decoder_wf :: "decoder \<Rightarrow> bool" where
  "decoder_wf d = (case d_kind d of Chunked c \<Rightarrow> chunked_wf c | _ \<Rightarrow> True)"

lemma decoder_wf_new: "decoder_wf (decoder_new len mh ms)"
  by (simp add: decoder_wf_def decoder_new_def decoder_chunked_def decoder_eof_def
      decoder_length_def chunked_wf_new)

text \<open>Polling a finished chunked decoder that holds no trailers is a no-op.\<close>

lemma chunked_loop_End:
  "c_state c = End \<Longrightarrow>
   chunked_loop api hp rd c r = (case finish_chunked api hp c of (c', res) \<Rightarrow> Some (c', r, Ready res))"
  by (subst chunked_loop.simps) (cases c, simp add: chunked_step_def)

context mem_read
begin

lemma decode_total:
  assumes "decoder_wf d"
  shows "\<exists>d' r' res. decode api hp rd d r = Some (d', r', res) \<and> \<not> is_panicked res"
proof (cases "d_kind d")
  case (Length n)
  then show ?thesis
    using read_no_panic [of r]
    by (fastforce simp: decode_def decode_length_def Let_def split: prod.splits poll.splits sum.splits)
next
  case (Chunked c)
  show ?thesis
  proof (cases "c_state c = End")
    case True
    then show ?thesis by (auto simp: decode_def Chunked chunked_loop_End split: prod.splits)
  next
    case False
    with assms Chunked chunked_loop_refines [of c api hp r] obtain c' r' res w
      where "chunked_loop api hp rd c r = Some (c', r', res)" "loop_ok api hp c w (c', res)"
      by (auto simp: decoder_wf_def)
    then show ?thesis by (cases res) (auto simp: decode_def Chunked loop_ok_def)
  qed
next
  case (Eof b)
  then show ?thesis
    using read_no_panic [of r]
    by (fastforce simp: decode_def decode_eof_def split: prod.splits poll.splits sum.splits)
qed

lemma decode_empty_frame_is_eof:
  assumes "decoder_wf d" and "decode api hp rd d r = Some (d', r', Ready (Inr (FrameData [])))"
  shows "decoder_is_eof d'"
proof (cases "d_kind d")
  case (Length n)
  with assms(2) show ?thesis
    by (auto simp: decode_def decode_length_def decoder_is_eof_def Let_def
        split: prod.splits poll.splits sum.splits if_splits)
next
  case (Chunked c)
  show ?thesis
  proof (cases "c_state c = End")
    case True
    with assms(2) Chunked show ?thesis
      by (auto simp: decode_def chunked_loop_End finish_chunked_def decoder_is_eof_def
          split: option.splits if_splits)
  next
    case False
    with assms(1) Chunked chunked_loop_refines [of c api hp r] obtain c' r'' res w
      where "chunked_loop api hp rd c r = Some (c', r'', res)" "loop_ok api hp c w (c', res)"
      by (auto simp: decoder_wf_def)
    with assms(2) Chunked show ?thesis by (auto simp: decode_def loop_ok_def decoder_is_eof_def)
  qed
next
  case (Eof b)
  with assms(2) show ?thesis
    by (auto simp: decode_def decode_eof_def decoder_is_eof_def
        split: prod.splits poll.splits sum.splits if_splits)
qed

lemma decode_length_accounting:
  assumes "decode_length rd n r = (n', r', res)"
  shows "\<exists>w. content r = w @ content r' \<and> unat n = length w + unat n' \<and>
    (case res of
       Ready (Inr (FrameData d)) \<Rightarrow> d = w \<and> (n \<noteq> 0 \<longrightarrow> w \<noteq> [])
     | Ready (Inr (FrameTrailers _)) \<Rightarrow> False
     | Panicked _ \<Rightarrow> False
     | _ \<Rightarrow> w = [] \<and> n \<noteq> 0)"
proof (cases "n = 0")
  case True
  with assms show ?thesis by (auto simp: decode_length_def)
next
  case False
  obtain r1 x where rd: "rd r (min (unat n) usize_max) = (r1, x)" by fastforce
  note eq = assms [unfolded decode_length_def rd, simplified False if_False prod.case]
  show ?thesis
  proof (cases x)
    case (Ready y)
    show ?thesis
    proof (cases y)
      case (Inl e)
      with Ready rd eq False read_error [of r _ r1 e] show ?thesis by auto
    next
      case (Inr buf)
      from read_data [OF rd [unfolded Ready Inr]]
      have buf: "content r = buf @ content r1" "length buf \<le> unat n" by simp_all
      then have le: "of_nat (length buf) \<le> n" by (intro of_nat_le_u64)
      have len: "unat (of_nat (length buf) :: u64) = length buf"
        using buf(2) unat_bound [of n] by (intro unat_of_nat_u64) simp
      show ?thesis
      proof (cases "buf = []")
        case True
        with Ready Inr eq buf False show ?thesis by (auto simp: Let_def)
      next
        case nonempty: False
        then have "(of_nat (length buf) :: u64) \<noteq> 0" using len by (metis length_0_conv unat_0)
        moreover have "\<not> n < of_nat (length buf)" using le by simp
        ultimately show ?thesis
          using Ready Inr eq buf le len nonempty by (auto simp: Let_def unat_sub)
      qed
    qed
  next
    case Pending
    with rd eq False read_pending [of r _ r1] show ?thesis by auto
  next
    case (Panicked m)
    with rd read_no_panic [of r _ r1 m] show ?thesis by simp
  qed
qed

end

section \<open>The decoder on every reader\<close>

text \<open>
  C35. Every poll of a well-formed decoder returns, on any reader that keeps the \<open>MemRead\<close>
  contract: the loop over chunk framing bytes ends, and none of the \<open>expect\<close>s on the trailer
  buffer fires.
\<close>

theorem decode_returns_without_panic:
  assumes "mem_read rd content" and "decoder_wf d"
  shows "\<exists>d' r' res. decode api hp rd d r = Some (d', r', res) \<and> \<not> is_panicked res"
  using mem_read.decode_total [OF assms] .

theorem decode_returns_without_panic_witness:
  "\<exists>d' r' res. decode list_api partial_parser slice_read (decoder_new CHUNKED None None) ''5'' =
     Some (d', r', res) \<and> \<not> is_panicked res"
  by (rule decode_returns_without_panic [OF slice.mem_read_axioms decoder_wf_new])

text \<open>
  C14. The chunked decoder implements the chunked coding: whatever reads the transport serves, one
  poll consumes some bytes \<open>w\<close> of the stream, and its outcome is that of running the byte automaton
  over \<open>w\<close>: a data frame is exactly the automaton's output, a clean end or trailers come only when
  the automaton has reached \<open>End\<close>, \<open>Pending\<close> keeps the reached state, and an error is a refused
  byte, a stream that broke off before \<open>End\<close>, or refused trailers.
\<close>

theorem chunked_decode_refines_automaton:
  assumes "mem_read rd content" and "chunked_wf c" and "c_state c \<noteq> End"
  shows "\<exists>c' r' res w. decode api hp rd \<lparr>d_kind = Chunked c\<rparr> r = Some (\<lparr>d_kind = Chunked c'\<rparr>, r', res) \<and>
     content r = w @ content r' \<and> loop_ok api hp c w (c', res)"
proof -
  from mem_read.chunked_loop_refines [OF assms] obtain c' r' res w
    where "chunked_loop api hp rd c r = Some (c', r', res)" "content r = w @ content r'"
      "loop_ok api hp c w (c', res)" by blast
  then show ?thesis by (auto simp: decode_def)
qed

theorem chunked_decode_refines_automaton_witness:
  "\<exists>c' r' res w. decode list_api partial_parser slice_read \<lparr>d_kind = Chunked (chunked_new None None)\<rparr> ''5'' =
       Some (\<lparr>d_kind = Chunked c'\<rparr>, r', res) \<and>
     ''5'' = w @ r' \<and> loop_ok list_api partial_parser (chunked_new None None) w (c', res)"
  by (rule chunked_decode_refines_automaton [OF slice.mem_read_axioms chunked_wf_new])
    (simp add: chunked_new_def)

text \<open>
  An empty data frame means the end: after any decoder has returned one, \<open>is_eof\<close> holds. This
  is what makes the branch \<open>incoming body unexpectedly ended\<close> of \<open>poll_read_body\<close> unreachable.
\<close>

theorem decode_empty_frame_only_at_eof:
  assumes "mem_read rd content" and "decoder_wf d"
    and "decode api hp rd d r = Some (d', r', Ready (Inr (FrameData [])))"
  shows "decoder_is_eof d'"
  using mem_read.decode_empty_frame_is_eof [OF assms] .

theorem decode_empty_frame_only_at_eof_witness:
  "decoder_is_eof \<lparr>d_kind = Eof True\<rparr>"
  by (rule decode_empty_frame_only_at_eof [OF slice.mem_read_axioms, of decoder_eof list_api partial_parser "[]" _ "[]"])
    (simp_all add: decoder_wf_def decoder_eof_def decode_def decode_eof_def slice_read_def)

text \<open>
  C18. Content-Length bodies are accounted for byte by byte: one poll takes some bytes \<open>w\<close> off the
  stream, lowers the remaining length by exactly \<open>length w\<close> (the subtraction never wraps), and
  returns exactly \<open>w\<close>; it returns no empty frame while bytes are missing, so a body that is cut
  short is never reported as complete.
\<close>

theorem length_decode_accounting:
  fixes res :: "(io_error + 'h frame) poll"
  assumes "mem_read rd content"
    and "decode api hp rd \<lparr>d_kind = Length n\<rparr> r = Some (d', r', res)"
  shows "\<exists>n' w. d' = \<lparr>d_kind = Length n'\<rparr> \<and> content r = w @ content r' \<and> unat n = length w + unat n' \<and>
    (case res of
       Ready (Inr (FrameData d)) \<Rightarrow> d = w \<and> (n \<noteq> 0 \<longrightarrow> w \<noteq> [])
     | Ready (Inr (FrameTrailers _)) \<Rightarrow> False
     | Panicked _ \<Rightarrow> False
     | _ \<Rightarrow> w = [] \<and> n \<noteq> 0)"
proof -
  obtain n' r1 and res1 :: "(io_error + 'h frame) poll"
    where eq: "decode_length rd n r = (n', r1, res1)" by (metis prod_cases3)
  with assms(2) have "d' = \<lparr>d_kind = Length n'\<rparr>" "r1 = r'" "res1 = res"
    by (auto simp: decode_def)
  with mem_read.decode_length_accounting [OF assms(1) eq] show ?thesis by auto
qed

theorem length_decode_accounting_witness:
  "\<exists>n' w. \<lparr>d_kind = Length 3\<rparr> = \<lparr>d_kind = Length n'\<rparr> \<and> ''ab'' = w @ [] \<and>
     unat (5 :: u64) = length w + unat n' \<and> ''ab'' = w \<and> w \<noteq> []"
proof -
  have "decode list_api partial_parser slice_read \<lparr>d_kind = Length 5\<rparr> ''ab'' =
      Some (\<lparr>d_kind = Length 3\<rparr>, [], Ready (Inr (FrameData ''ab'')))"
    by (simp add: decode_def decode_length_def slice_read_def usize_max_def)
  from length_decode_accounting [OF slice.mem_read_axioms this] show ?thesis by auto
qed

section \<open>Limits\<close>

lemma chunk_byte_action:
  "c_state c \<noteq> Body \<Longrightarrow> c_state c \<noteq> End \<Longrightarrow>
   chunk_byte c b =
      (case byte_action c b of
         (c', Ready (Inr st)) \<Rightarrow> Inr (c'\<lparr>c_state := st\<rparr>, [])
       | (c', Ready (Inl e)) \<Rightarrow> Inl (Some e)
       | _ \<Rightarrow> Inl None)"
  by (cases "c_state c") (simp_all add: chunk_byte_def)

lemma chunk_byte_cases:
  assumes "chunk_byte c b = Inr (c', out)"
  obtains "c_state c = Body" "out = [b]"
      "c' = c\<lparr>chunk_len := chunk_len c - 1, c_state := (if chunk_len c - 1 > 0 then Body else BodyCr)\<rparr>"
  | c1 st where "c_state c \<noteq> Body" "c_state c \<noteq> End" "out = []"
      "byte_action c b = (c1, Ready (Inr st))" "c' = c1\<lparr>c_state := st\<rparr>"
proof (cases "c_state c = Body \<or> c_state c = End")
  case True
  with assms that(1) show ?thesis by (auto simp: chunk_byte_def Let_def)
next
  case False
  obtain c1 res where act: "byte_action c b = (c1, res)" by fastforce
  with assms False have "\<exists>st. res = Ready (Inr st) \<and> c' = c1\<lparr>c_state := st\<rparr> \<and> out = []"
    by (cases res) (auto simp: chunk_byte_action split: sum.splits)
  with act False that(2) show ?thesis by blast
qed

lemma chunk_byte_wf:
  assumes wf: "chunked_wf c" and byte: "chunk_byte c b = Inr (c', out)"
  shows "chunked_wf c'"
  using byte
proof (cases rule: chunk_byte_cases)
  case 1
  with wf body_wf [OF wf, of "[b]"] show ?thesis
    by (simp add: chunked_wf_def unat_gt_zero Suc_le_eq)
next
  case (2 c1 st)
  with wf byte_action_wf show ?thesis by blast
qed

lemma chunk_run_wf: "chunked_wf c \<Longrightarrow> chunk_run c w = Inr (c', out) \<Longrightarrow> chunked_wf c'"
proof (induction w arbitrary: c out)
  case (Cons b w)
  then obtain c1 o1 o2 where "chunk_byte c b = Inr (c1, o1)" "chunk_run c1 w = Inr (c', o2)"
    by (auto split: sum.splits prod.splits)
  with Cons show ?case using chunk_byte_wf by blast
qed simp

lemma byte_action_limits:
  "byte_action c b = (c', res) \<Longrightarrow> c_max_headers c' = c_max_headers c \<and> c_max_header_size c' = c_max_header_size c"
  by (cases "c_state c") (auto simp: byte_action_def read_defs split: option.splits if_splits)

lemma chunk_byte_limits:
  assumes "chunk_byte c b = Inr (c', out)"
  shows "max_headers c' = max_headers c \<and> max_header_size c' = max_header_size c"
  using assms
  by (cases rule: chunk_byte_cases)
    (auto simp: max_headers_def max_header_size_def dest: byte_action_limits)

lemma chunk_run_limits:
  "chunk_run c w = Inr (c', out) \<Longrightarrow> max_headers c' = max_headers c \<and> max_header_size c' = max_header_size c"
proof (induction w arbitrary: c out)
  case (Cons b w)
  then obtain c1 o1 o2 where "chunk_byte c b = Inr (c1, o1)" "chunk_run c1 w = Inr (c', o2)"
    by (auto split: sum.splits prod.splits)
  with Cons.IH [of c1 o2] show ?case using chunk_byte_limits by auto
qed simp

text \<open>
  C36. The limits hold for every body a peer can send: in every state reached from a new decoder,
  fewer than 16 KiB of extension bytes have been skipped over the whole body, the trailer buffer is
  below the size limit (or holds just its first byte), and no more than \<open>h1_max_headers\<close> trailer
  lines have been counted.
\<close>

theorem chunked_limits_hold:
  assumes "chunk_run (chunked_new mh ms) w = Inr (c, out)"
  shows "unat (extensions_cnt c) < 16384 \<and>
    trailers_cnt c \<le> (case mh of None \<Rightarrow> 100 | Some n \<Rightarrow> n) \<and>
    (\<forall>buf. trailers_buf c = Some buf \<longrightarrow>
       length buf = 1 \<or> length buf < (case ms of None \<Rightarrow> 16384 | Some n \<Rightarrow> n))"
proof -
  have "chunked_wf c" by (rule chunk_run_wf [OF chunked_wf_new assms])
  moreover have "max_headers c = (case mh of None \<Rightarrow> 100 | Some n \<Rightarrow> n)"
    "max_header_size c = (case ms of None \<Rightarrow> 16384 | Some n \<Rightarrow> n)"
    using chunk_run_limits [OF assms]
    by (auto simp: max_headers_def max_header_size_def chunked_new_def DEFAULT_MAX_HEADERS_def
        TRAILER_LIMIT_def split: option.splits)
  moreover have "unat CHUNKED_EXTENSIONS_LIMIT = 16384"
    by (simp add: CHUNKED_EXTENSIONS_LIMIT_def)
  ultimately show ?thesis
    by (simp add: chunked_wf_def word_less_nat_alt)
qed

theorem chunked_limits_hold_witness:
  "\<exists>c out. chunk_run (chunked_new None None) ''5;'' = Inr (c, out) \<and> unat (extensions_cnt c) < 16384"
proof -
  obtain c out where run: "chunk_run (chunked_new None None) ''5;'' = Inr (c, out)"
    by (simp add: chunked_new_def chunk_byte_def byte_action_def read_defs hex_digit_def
        checked_mul_def checked_add_def CHUNKED_EXTENSIONS_LIMIT_def)
  with chunked_limits_hold [OF run] show ?thesis by blast
qed

text \<open>
  Trailers are delivered only when there are strictly fewer trailer lines than
  \<open>h1_max_headers\<close>: a body with exactly the permitted number of trailers is refused at its end,
  although each of those lines was accepted while it was read.
\<close>

theorem trailers_frame_below_max_headers:
  assumes "mem_read rd content" and "chunked_wf c" and "c_state c \<noteq> End"
    and "chunked_loop api hp rd c r = Some (c', r', Ready (Inr (FrameTrailers h)))"
  shows "trailers_cnt c' < max_headers c'"
proof -
  from mem_read.chunked_loop_refines [OF assms(1-3), of api hp r] assms(4) obtain w
    where "loop_ok api hp c w (c', Ready (Inr (FrameTrailers h)))" by auto
  then show ?thesis by (auto simp: loop_ok_def)
qed

theorem trailers_frame_below_max_headers_witness:
  "trailers_cnt \<lparr>c_state = End, chunk_len = 0, extensions_cnt = 0, trailers_buf = None, trailers_cnt = 1,
       c_max_headers = Some 2, c_max_header_size = None\<rparr> < (2 :: nat)"
proof -
  let ?buf = "''a: b'' @ [CR, LF, CR]"
  let ?c = "\<lparr>c_state = EndLf, chunk_len = 0, extensions_cnt = 0, trailers_buf = Some ?buf, trailers_cnt = 1,
       c_max_headers = Some 2, c_max_header_size = None\<rparr>"
  let ?hp = "\<lparr>hp_parse_headers = (\<lambda>b n. HpComplete (length b, [(''a'', ''b'')])),
       hp_parse_response = (\<lambda>cfg n b. HpPartial)\<rparr>"
  have loop: "chunked_loop list_api ?hp slice_read ?c [LF] =
      Some (?c\<lparr>c_state := End, trailers_buf := None\<rparr>, [], Ready (Inr (FrameTrailers [(''a'', [''b''])])))"
    by (subst chunked_loop.simps)
      (simp add: chunked_step_def with_byte_def read_byte_def slice_read_def byte_action_def
        read_end_lf_def put_u8_def max_header_size_def TRAILER_LIMIT_def finish_chunked_def
        max_headers_def decode_trailers_def list_api_def is_token_char_def to_ascii_lowercase_def)
  have "chunked_wf ?c"
    by (simp add: chunked_wf_def max_headers_def max_header_size_def TRAILER_LIMIT_def
        CHUNKED_EXTENSIONS_LIMIT_def)
  from trailers_frame_below_max_headers [OF slice.mem_read_axioms this _ loop] show ?thesis
    by (simp add: max_headers_def)
qed

end
