(* ===== verification/Bufs.thy ===== *)
theory Bufs
  imports Prelude
begin

text \<open>
  The trait \<open>Buf\<close> as an interface, and the buffers of the repository that implement it:
  \<open>BufList\<close> (\<open>proto/http1/buf.rs\<close>) and \<open>Cursor\<close> (\<open>proto/http1/io.rs\<close>). A buffer is seen
  through its \<open>view\<close>, the bytes it has still to give.
\<close>

section \<open>The trait\<close>

text \<open>\<open>b_chunks_vectored b n\<close> are the slices written into a destination with room for \<open>n\<close>.\<close>

record 'b buf_ops =
  b_remaining :: "'b \<Rightarrow> nat"
  b_chunk :: "'b \<Rightarrow> bytes"
  b_advance :: "'b \<Rightarrow> nat \<Rightarrow> 'b rust"
  b_chunks_vectored :: "'b \<Rightarrow> nat \<Rightarrow> bytes list"

definition has_remaining :: "'b buf_ops \<Rightarrow> 'b \<Rightarrow> bool" where
  "has_remaining ops b = (b_remaining ops b > 0)"

text \<open>The default method \<open>chunks_vectored\<close> of the trait: the current chunk, if there is one.\<close>

definition default_vectored :: "nat \<Rightarrow> bytes \<Rightarrow> nat \<Rightarrow> bytes list" where
  "default_vectored rem chunk n = (if n = 0 then [] else if rem > 0 then [chunk] else [])"

locale buf =
  fixes ops :: "'b buf_ops" and ok :: "'b \<Rightarrow> bool" and view :: "'b \<Rightarrow> bytes"
  assumes remaining: "ok b \<Longrightarrow> b_remaining ops b = length (view b)"
    and chunk_prefix: "ok b \<Longrightarrow> \<exists>rest. view b = b_chunk ops b @ rest"
    and chunk_empty: "ok b \<Longrightarrow> b_chunk ops b = [] \<Longrightarrow> view b = []"
    and advance: "ok b \<Longrightarrow> n \<le> length (view b) \<Longrightarrow>
      \<exists>b'. b_advance ops b n = Return b' \<and> ok b' \<and> view b' = drop n (view b)"
    and vectored: "ok b \<Longrightarrow>
      (\<exists>rest. view b = concat (b_chunks_vectored ops b n) @ rest) \<and>
      length (b_chunks_vectored ops b n) \<le> n"
    and vectored_all: "ok b \<Longrightarrow> length (b_chunks_vectored ops b n) < n \<Longrightarrow>
      concat (b_chunks_vectored ops b n) = view b"

text \<open>The contract at one buffer, and how a wrapper passes it on.\<close>

definition buf_at :: "'b buf_ops \<Rightarrow> ('b \<Rightarrow> bool) \<Rightarrow> ('b \<Rightarrow> bytes) \<Rightarrow> 'b \<Rightarrow> bool" where
  "buf_at ops ok view b \<longleftrightarrow>
     b_remaining ops b = length (view b) \<and>
     (\<exists>rest. view b = b_chunk ops b @ rest) \<and>
     (b_chunk ops b = [] \<longrightarrow> view b = []) \<and>
     (\<forall>n. n \<le> length (view b) \<longrightarrow>
        (\<exists>b'. b_advance ops b n = Return b' \<and> ok b' \<and> view b' = drop n (view b))) \<and>
     (\<forall>n. (\<exists>rest. view b = concat (b_chunks_vectored ops b n) @ rest) \<and>
        length (b_chunks_vectored ops b n) \<le> n \<and>
        (length (b_chunks_vectored ops b n) < n \<longrightarrow> concat (b_chunks_vectored ops b n) = view b))"

lemma buf_iff_at: "buf ops ok view \<longleftrightarrow> (\<forall>b. ok b \<longrightarrow> buf_at ops ok view b)"
  unfolding buf_def buf_at_def by auto

lemma buf_at_wrap:
  assumes at: "buf_at ops ok view b"
    and "b_remaining Ops (k b) = b_remaining ops b" and "b_chunk Ops (k b) = b_chunk ops b"
    and adv: "\<And>n. b_advance Ops (k b) n = rust_bind (b_advance ops b n) (\<lambda>b'. Return (k b'))"
    and vec: "\<And>n. b_chunks_vectored Ops (k b) n = b_chunks_vectored ops b n"
    and ok: "\<And>b. ok b \<Longrightarrow> Ok (k b)" and view: "\<And>b. View (k b) = view b"
  shows "buf_at Ops Ok View (k b)"
proof -
  have "\<exists>b'. b_advance Ops (k b) n = Return b' \<and> Ok b' \<and> View b' = drop n (View (k b))"
    if "n \<le> length (View (k b))" for n
  proof -
    from at that obtain b' where "b_advance ops b n = Return b'" "ok b'" "view b' = drop n (view b)"
      by (auto simp: buf_at_def view)
    then show ?thesis using adv ok view by simp
  qed
  with at assms(2,3) vec view show ?thesis by (simp add: buf_at_def)
qed

section \<open>Byte slices\<close>

text \<open>\<open>&[u8]\<close> and \<open>Bytes\<close>: one contiguous chunk; advancing past the end panics.\<close>

definition bytes_ops :: "bytes buf_ops" where
  "bytes_ops =
     \<lparr>b_remaining = length, b_chunk = (\<lambda>b. b),
      b_advance = (\<lambda>b n. if n \<le> length b then Return (drop n b) else Panic ''cannot advance past remaining''),
      b_chunks_vectored = (\<lambda>b. default_vectored (length b) b)\<rparr>"

lemma default_vectored_ok:
  "length (default_vectored (length v) v n) \<le> n"
  "\<exists>rest. v = concat (default_vectored (length v) v n) @ rest"
  "length (default_vectored (length v) v n) < n \<Longrightarrow> concat (default_vectored (length v) v n) = v"
  by (auto simp: default_vectored_def split: if_splits)

interpretation bytes_buf: buf bytes_ops "\<lambda>_. True" "\<lambda>b. b"
  by unfold_locales (auto simp: bytes_ops_def default_vectored_ok)

section \<open>\<open>BufList\<close>\<close>

record 'b buf_list =
  bl_bufs :: "'b list"
  bl_remaining :: nat

definition buf_list_new :: "'b buf_list" where
  "buf_list_new = \<lparr>bl_bufs = [], bl_remaining = 0\<rparr>"

definition buf_list_push :: "'b buf_ops \<Rightarrow> 'b buf_list \<Rightarrow> 'b \<Rightarrow> 'b buf_list" where
  "buf_list_push ops l b =
     l\<lparr>bl_remaining := bl_remaining l + b_remaining ops b, bl_bufs := bl_bufs l @ [b]\<rparr>"

definition bufs_cnt :: "'b buf_list \<Rightarrow> nat" where
  "bufs_cnt l = length (bl_bufs l)"

definition buf_list_chunk :: "'b buf_ops \<Rightarrow> 'b buf_list \<Rightarrow> bytes" where
  "buf_list_chunk ops l = (case bl_bufs l of [] \<Rightarrow> [] | front # _ \<Rightarrow> b_chunk ops front)"

text \<open>The loop of \<open>advance\<close>; \<open>self.bufs[0]\<close> panics when the list is empty.\<close>

fun advance_bufs :: "'b buf_ops \<Rightarrow> 'b list \<Rightarrow> nat \<Rightarrow> 'b list rust" where
  "advance_bufs ops [] cnt =
     (if cnt > 0 then Panic ''Out of bounds access'' else Return [])"
| "advance_bufs ops (front # bufs) cnt =
     (if cnt > 0 then
        (let rem = b_remaining ops front in
         if rem > cnt
         then rust_bind (b_advance ops front cnt) (\<lambda>front'. Return (front' # bufs))
         else rust_bind (b_advance ops front rem) (\<lambda>_. advance_bufs ops bufs (cnt - rem)))
      else Return (front # bufs))"

definition buf_list_advance :: "'b buf_ops \<Rightarrow> 'b buf_list \<Rightarrow> nat \<Rightarrow> 'b buf_list rust" where
  "buf_list_advance ops l cnt =
     (if cnt \<le> bl_remaining l
      then rust_bind (advance_bufs ops (bl_bufs l) cnt)
             (\<lambda>bufs. Return \<lparr>bl_bufs = bufs, bl_remaining = bl_remaining l - cnt\<rparr>)
      else Panic ''`cnt` greater than remaining'')"

fun vectored_bufs :: "'b buf_ops \<Rightarrow> 'b list \<Rightarrow> nat \<Rightarrow> bytes list" where
  "vectored_bufs ops [] n = []"
| "vectored_bufs ops (b # bufs) n =
     (let s = b_chunks_vectored ops b n in
      if length s = n then s else s @ vectored_bufs ops bufs (n - length s))"

definition buf_list_chunks_vectored :: "'b buf_ops \<Rightarrow> 'b buf_list \<Rightarrow> nat \<Rightarrow> bytes list" where
  "buf_list_chunks_vectored ops l n = (if n = 0 then [] else vectored_bufs ops (bl_bufs l) n)"

definition buf_list_ops :: "'b buf_ops \<Rightarrow> 'b buf_list buf_ops" where
  "buf_list_ops ops =
     \<lparr>b_remaining = bl_remaining, b_chunk = buf_list_chunk ops,
      b_advance = buf_list_advance ops, b_chunks_vectored = buf_list_chunks_vectored ops\<rparr>"

section \<open>\<open>Cursor<Vec<u8>>\<close>\<close>

text \<open>
  The vector's capacity is state, because \<open>maybe_unshift\<close> looks at it. A vector that has to grow
  takes at least twice its capacity. The subtraction in \<open>remaining\<close> is exact as long as the
  position is inside the vector, which is part of \<open>cursor_ok\<close>.
\<close>

record cursor =
  cur_bytes :: bytes
  cur_cap :: nat
  cur_pos :: nat

definition cursor_new :: "bytes \<Rightarrow> nat \<Rightarrow> cursor" where
  "cursor_new bs cap = \<lparr>cur_bytes = bs, cur_cap = cap, cur_pos = 0\<rparr>"

definition vec_grow :: "nat \<Rightarrow> nat \<Rightarrow> nat" where
  "vec_grow cap need = (if need \<le> cap then cap else max (max (2 * cap) need) 8)"

definition cursor_extend :: "cursor \<Rightarrow> bytes \<Rightarrow> cursor" where
  "cursor_extend c bs =
     c\<lparr>cur_bytes := cur_bytes c @ bs, cur_cap := vec_grow (cur_cap c) (length (cur_bytes c) + length bs)\<rparr>"

definition maybe_unshift :: "cursor \<Rightarrow> nat \<Rightarrow> cursor" where
  "maybe_unshift c additional =
     (if cur_pos c = 0 then c
      else if cur_cap c - length (cur_bytes c) \<ge> additional then c
      else c\<lparr>cur_bytes := drop (cur_pos c) (cur_bytes c), cur_pos := 0\<rparr>)"

definition cursor_reset :: "cursor \<Rightarrow> cursor" where
  "cursor_reset c = c\<lparr>cur_pos := 0, cur_bytes := []\<rparr>"

definition cursor_remaining :: "cursor \<Rightarrow> nat" where
  "cursor_remaining c = length (cur_bytes c) - cur_pos c"

definition cursor_chunk :: "cursor \<Rightarrow> bytes" where
  "cursor_chunk c = drop (cur_pos c) (cur_bytes c)"

definition cursor_advance :: "cursor \<Rightarrow> nat \<Rightarrow> cursor" where
  "cursor_advance c cnt = c\<lparr>cur_pos := cur_pos c + cnt\<rparr>"

definition cursor_ops :: "cursor buf_ops" where
  "cursor_ops =
     \<lparr>b_remaining = cursor_remaining, b_chunk = cursor_chunk,
      b_advance = (\<lambda>c n. Return (cursor_advance c n)),
      b_chunks_vectored = (\<lambda>c. default_vectored (cursor_remaining c) (cursor_chunk c))\<rparr>"

section \<open>They implement the trait\<close>

definition cursor_ok :: "cursor \<Rightarrow> bool" where
  "cursor_ok c \<longleftrightarrow> cur_pos c \<le> length (cur_bytes c) \<and> length (cur_bytes c) \<le> cur_cap c"

definition buf_list_ok :: "('b \<Rightarrow> bool) \<Rightarrow> ('b \<Rightarrow> bytes) \<Rightarrow> 'b buf_list \<Rightarrow> bool" where
  "buf_list_ok ok view l \<longleftrightarrow>
     list_all (\<lambda>b. ok b \<and> view b \<noteq> []) (bl_bufs l) \<and>
     bl_remaining l = length (concat (map view (bl_bufs l)))"

definition buf_list_view :: "('b \<Rightarrow> bytes) \<Rightarrow> 'b buf_list \<Rightarrow> bytes" where
  "buf_list_view view l = concat (map view (bl_bufs l))"

lemma cursor_chunk_remaining: "length (cursor_chunk c) = cursor_remaining c"
  by (simp add: cursor_chunk_def cursor_remaining_def)

interpretation cursor_buf: buf cursor_ops cursor_ok cursor_chunk
proof unfold_locales
  fix c n
  assume "cursor_ok c" "n \<le> length (cursor_chunk c)"
  then show "\<exists>c'. b_advance cursor_ops c n = Return c' \<and> cursor_ok c' \<and>
      cursor_chunk c' = drop n (cursor_chunk c)"
    by (auto simp: cursor_ops_def cursor_advance_def cursor_ok_def cursor_chunk_def add.commute)
qed (auto simp: cursor_ops_def cursor_chunk_remaining [symmetric] default_vectored_ok)

lemma cursor_ok_new: "length bs \<le> cap \<Longrightarrow> cursor_ok (cursor_new bs cap)"
  and cursor_chunk_new [simp]: "cursor_chunk (cursor_new bs cap) = bs"
  by (simp_all add: cursor_ok_def cursor_new_def cursor_chunk_def)

lemma cursor_ok_extend: "cursor_ok c \<Longrightarrow> cursor_ok (cursor_extend c bs)"
  and cursor_chunk_extend: "cursor_ok c \<Longrightarrow> cursor_chunk (cursor_extend c bs) = cursor_chunk c @ bs"
  by (auto simp: cursor_ok_def cursor_extend_def cursor_chunk_def vec_grow_def)

lemma cursor_ok_unshift: "cursor_ok c \<Longrightarrow> cursor_ok (maybe_unshift c n)"
  and cursor_chunk_unshift: "cursor_chunk (maybe_unshift c n) = cursor_chunk c"
  by (auto simp: cursor_ok_def maybe_unshift_def cursor_chunk_def)

lemma cursor_ok_reset: "cursor_ok c \<Longrightarrow> cursor_ok (cursor_reset c)"
  and cursor_chunk_reset [simp]: "cursor_chunk (cursor_reset c) = []"
  by (simp_all add: cursor_ok_def cursor_reset_def cursor_chunk_def)

lemmas cursor_simps = cursor_ok_new cursor_ok_extend cursor_chunk_extend cursor_ok_unshift
  cursor_chunk_unshift cursor_ok_reset

context buf
begin

abbreviation vs :: "'b list \<Rightarrow> bytes" where
  "vs bs \<equiv> concat (map view bs)"

lemma advance_bufs_view:
  "list_all (\<lambda>b. ok b \<and> view b \<noteq> []) bs \<Longrightarrow> cnt \<le> length (vs bs) \<Longrightarrow>
   \<exists>bs'. advance_bufs ops bs cnt = Return bs' \<and> list_all (\<lambda>b. ok b \<and> view b \<noteq> []) bs' \<and>
     vs bs' = drop cnt (vs bs)"
proof (induction bs arbitrary: cnt)
  case (Cons f bs)
  then have f: "ok f" "view f \<noteq> []" "b_remaining ops f = length (view f)" by (simp_all add: remaining)
  show ?case
  proof (cases "b_remaining ops f > cnt")
    case True
    with f advance [of f cnt] show ?thesis using Cons.prems by (auto simp: Let_def)
  next
    case False
    with f Cons.prems have "cnt - length (view f) \<le> length (vs bs)" "0 < cnt"
      using gr_zeroI by fastforce+
    moreover from f advance [of f "length (view f)"] obtain f' where "b_advance ops f (length (view f)) = Return f'"
      by auto
    ultimately show ?thesis using False f Cons by (auto simp: Let_def)
  qed
qed simp

lemma vectored_bufs_view:
  "list_all ok bs \<Longrightarrow>
   (\<exists>rest. vs bs = concat (vectored_bufs ops bs n) @ rest) \<and> length (vectored_bufs ops bs n) \<le> n \<and>
   (length (vectored_bufs ops bs n) < n \<longrightarrow> concat (vectored_bufs ops bs n) = vs bs)"
proof (induction bs arbitrary: n)
  case (Cons b bs)
  let ?s = "b_chunks_vectored ops b n"
  from Cons.prems have "ok b" "list_all ok bs" by simp_all
  with vectored [of b n] obtain rest where b: "view b = concat ?s @ rest" "length ?s \<le> n" by auto
  show ?case
  proof (cases "length ?s = n")
    case True
    with b show ?thesis by simp
  next
    case False
    with b have "length ?s < n" by simp
    moreover with vectored_all \<open>ok b\<close> have "concat ?s = view b" by blast
    ultimately show ?thesis using Cons.IH [OF \<open>list_all ok bs\<close>, of "n - length ?s"] False
      by (auto simp: Let_def)
  qed
qed simp

lemma buf_list_buf: "buf (buf_list_ops ops) (buf_list_ok ok view) (buf_list_view view)"
proof
  fix l n
  assume ok: "buf_list_ok ok view l" and n: "n \<le> length (buf_list_view view l)"
  with advance_bufs_view [of "bl_bufs l" n]
  show "\<exists>l'. b_advance (buf_list_ops ops) l n = Return l' \<and> buf_list_ok ok view l' \<and>
      buf_list_view view l' = drop n (buf_list_view view l)"
    by (auto simp: buf_list_ops_def buf_list_advance_def buf_list_ok_def buf_list_view_def)
next
  fix l n
  assume "buf_list_ok ok view l"
  then have "list_all ok (bl_bufs l)" by (auto simp: buf_list_ok_def list_all_iff)
  note v = vectored_bufs_view [OF this, of n]
  then show "(\<exists>rest. buf_list_view view l = concat (b_chunks_vectored (buf_list_ops ops) l n) @ rest) \<and>
      length (b_chunks_vectored (buf_list_ops ops) l n) \<le> n"
    by (auto simp: buf_list_ops_def buf_list_chunks_vectored_def buf_list_view_def)
  show "length (b_chunks_vectored (buf_list_ops ops) l n) < n \<Longrightarrow>
      concat (b_chunks_vectored (buf_list_ops ops) l n) = buf_list_view view l"
    using v by (cases "n = 0") (auto simp: buf_list_ops_def buf_list_chunks_vectored_def buf_list_view_def)
next
  fix l
  assume "buf_list_ok ok view l"
  then show "b_chunk (buf_list_ops ops) l = [] \<Longrightarrow> buf_list_view view l = []"
    "\<exists>rest. buf_list_view view l = b_chunk (buf_list_ops ops) l @ rest"
    "b_remaining (buf_list_ops ops) l = length (buf_list_view view l)"
    using chunk_prefix chunk_empty
    by (cases "bl_bufs l"; fastforce simp: buf_list_ops_def buf_list_chunk_def buf_list_ok_def buf_list_view_def)+
qed

lemma buf_list_push_ok:
  "buf_list_ok ok view l \<Longrightarrow> ok b \<Longrightarrow> view b \<noteq> [] \<Longrightarrow> buf_list_ok ok view (buf_list_push ops l b)"
  "buf_list_view view (buf_list_push ops l b) = buf_list_view view l @ view b"
  by (auto simp: buf_list_push_def buf_list_ok_def buf_list_view_def remaining)

end

interpretation bytes_list_buf: buf "buf_list_ops bytes_ops" "buf_list_ok (\<lambda>_. True) (\<lambda>b. b)" "buf_list_view (\<lambda>b. b)"
  by (rule bytes_buf.buf_list_buf)

end
