(* ===== verification/Write_Buf.thy ===== *)
theory Write_Buf
  imports Bufs
begin

text \<open>
  \<open>WriteBuf\<close> of \<open>proto/http1/io.rs\<close>: the outgoing bytes, as one flat vector or as a vector for
  the message head followed by a queue of user buffers. It is a first-in first-out queue of bytes
  under both strategies.
\<close>

definition INIT_BUFFER_SIZE :: nat where "INIT_BUFFER_SIZE = 8192"
definition MINIMUM_MAX_BUFFER_SIZE :: nat where "MINIMUM_MAX_BUFFER_SIZE = INIT_BUFFER_SIZE"
definition DEFAULT_MAX_BUFFER_SIZE :: nat where "DEFAULT_MAX_BUFFER_SIZE = 8192 + 4096 * 100"
definition MAX_BUF_LIST_BUFFERS :: nat where "MAX_BUF_LIST_BUFFERS = 16"

datatype write_strategy = Flatten | Queue

record 'b write_buf =
  wb_headers :: cursor
  wb_max_buf_size :: nat
  wb_queue :: "'b buf_list"
  wb_strategy :: write_strategy

section \<open>Operations\<close>

definition write_buf_new :: "write_strategy \<Rightarrow> 'b write_buf" where
  "write_buf_new strategy =
     \<lparr>wb_headers = cursor_new [] INIT_BUFFER_SIZE, wb_max_buf_size = DEFAULT_MAX_BUFFER_SIZE,
      wb_queue = buf_list_new, wb_strategy = strategy\<rparr>"

definition set_strategy :: "'b write_buf \<Rightarrow> write_strategy \<Rightarrow> 'b write_buf" where
  "set_strategy wb strategy = wb\<lparr>wb_strategy := strategy\<rparr>"

text \<open>The copying loop of \<open>buffer\<close> under \<open>Flatten\<close>: it ends when the buffer has no more chunks.\<close>

partial_function (option) flatten_loop :: "'b buf_ops \<Rightarrow> cursor \<Rightarrow> 'b \<Rightarrow> cursor rust option" where
  "flatten_loop ops head b =
     (let chunk = b_chunk ops b in
      if chunk = [] then Some (Return head)
      else (case b_advance ops b (length chunk) of
              Panic m \<Rightarrow> Some (Panic m)
            | Return b' \<Rightarrow> flatten_loop ops (cursor_extend head chunk) b'))"

text \<open>
  \<open>buffer<BB: Buf + Into<B>>\<close>: \<open>bops\<close> are the operations of \<open>BB\<close>, \<open>into\<close> its conversion to
  the queued type.
\<close>

definition wb_buffer ::
  "'bb buf_ops \<Rightarrow> ('bb \<Rightarrow> 'b) \<Rightarrow> 'b buf_ops \<Rightarrow> 'b write_buf \<Rightarrow> 'bb \<Rightarrow> 'b write_buf rust option" where
  "wb_buffer bops into ops wb b =
     (case wb_strategy wb of
        Flatten \<Rightarrow>
          (case flatten_loop bops (maybe_unshift (wb_headers wb) (b_remaining bops b)) b of
             None \<Rightarrow> None
           | Some (Panic m) \<Rightarrow> Some (Panic m)
           | Some (Return head) \<Rightarrow> Some (Return (wb\<lparr>wb_headers := head\<rparr>)))
      | Queue \<Rightarrow> Some (Return (wb\<lparr>wb_queue := buf_list_push ops (wb_queue wb) (into b)\<rparr>)))"

definition wb_remaining :: "'b write_buf \<Rightarrow> nat" where
  "wb_remaining wb = cursor_remaining (wb_headers wb) + bl_remaining (wb_queue wb)"

definition wb_can_buffer :: "'b write_buf \<Rightarrow> bool" where
  "wb_can_buffer wb =
     (case wb_strategy wb of
        Flatten \<Rightarrow> wb_remaining wb < wb_max_buf_size wb
      | Queue \<Rightarrow> bufs_cnt (wb_queue wb) < MAX_BUF_LIST_BUFFERS \<and> wb_remaining wb < wb_max_buf_size wb)"

definition wb_chunk :: "'b buf_ops \<Rightarrow> 'b write_buf \<Rightarrow> bytes" where
  "wb_chunk ops wb =
     (let headers = cursor_chunk (wb_headers wb) in
      if headers \<noteq> [] then headers else buf_list_chunk ops (wb_queue wb))"

definition wb_advance :: "'b buf_ops \<Rightarrow> 'b write_buf \<Rightarrow> nat \<Rightarrow> 'b write_buf rust" where
  "wb_advance ops wb cnt =
     (let hrem = cursor_remaining (wb_headers wb) in
      if hrem = cnt then Return (wb\<lparr>wb_headers := cursor_reset (wb_headers wb)\<rparr>)
      else if hrem > cnt then Return (wb\<lparr>wb_headers := cursor_advance (wb_headers wb) cnt\<rparr>)
      else rust_bind (buf_list_advance ops (wb_queue wb) (cnt - hrem))
             (\<lambda>queue. Return (wb\<lparr>wb_headers := cursor_reset (wb_headers wb), wb_queue := queue\<rparr>)))"

definition wb_chunks_vectored :: "'b buf_ops \<Rightarrow> 'b write_buf \<Rightarrow> nat \<Rightarrow> bytes list" where
  "wb_chunks_vectored ops wb n =
     (let hs = b_chunks_vectored cursor_ops (wb_headers wb) n in
      hs @ buf_list_chunks_vectored ops (wb_queue wb) (n - length hs))"

definition write_buf_ops :: "'b buf_ops \<Rightarrow> 'b write_buf buf_ops" where
  "write_buf_ops ops =
     \<lparr>b_remaining = wb_remaining, b_chunk = wb_chunk ops, b_advance = wb_advance ops,
      b_chunks_vectored = wb_chunks_vectored ops\<rparr>"

section \<open>A queue of bytes\<close>

text \<open>
  Under \<open>Flatten\<close> the queue stays empty: this is what the \<open>debug_assert\<close> of \<open>headers_mut\<close>
  checks, and it is what keeps the bytes in order.
\<close>

definition wb_ok :: "('b \<Rightarrow> bool) \<Rightarrow> ('b \<Rightarrow> bytes) \<Rightarrow> 'b write_buf \<Rightarrow> bool" where
  "wb_ok ok view wb \<longleftrightarrow>
     cursor_ok (wb_headers wb) \<and> buf_list_ok ok view (wb_queue wb) \<and>
     (wb_strategy wb = Flatten \<longrightarrow> bl_bufs (wb_queue wb) = [])"

definition wb_view :: "('b \<Rightarrow> bytes) \<Rightarrow> 'b write_buf \<Rightarrow> bytes" where
  "wb_view view wb = cursor_chunk (wb_headers wb) @ buf_list_view view (wb_queue wb)"

lemma wb_ok_new: "wb_ok ok view (write_buf_new s)"
  and wb_view_new: "wb_view view (write_buf_new s) = []"
  by (simp_all add: wb_ok_def wb_view_def write_buf_new_def cursor_simps buf_list_new_def
      buf_list_ok_def buf_list_view_def)

lemma cursor_remaining_chunk: "cursor_remaining c = length (cursor_chunk c)"
  by (rule cursor_chunk_remaining [symmetric])

lemma cursor_advance_ok:
  assumes "cursor_ok c" "n \<le> length (cursor_chunk c)"
  shows "cursor_ok (cursor_advance c n)" "cursor_chunk (cursor_advance c n) = drop n (cursor_chunk c)"
  using cursor_buf.advance [OF assms] by (auto simp: cursor_ops_def)

context buf
begin

lemma flatten_loop_view:
  "ok b \<Longrightarrow> cursor_ok head \<Longrightarrow>
   \<exists>head'. flatten_loop ops head b = Some (Return head') \<and> cursor_ok head' \<and>
     cursor_chunk head' = cursor_chunk head @ view b"
proof (induction "length (view b)" arbitrary: b head rule: less_induct)
  case less
  from chunk_prefix [OF \<open>ok b\<close>] obtain rest where v: "view b = b_chunk ops b @ rest" by blast
  show ?case
  proof (cases "b_chunk ops b = []")
    case True
    with less.prems chunk_empty show ?thesis by (subst flatten_loop.simps) simp
  next
    case False
    from advance [OF \<open>ok b\<close>, of "length (b_chunk ops b)"] v obtain b'
      where b': "b_advance ops b (length (b_chunk ops b)) = Return b'" "ok b'" "view b' = rest" by auto
    then have "length (view b') < length (view b)" using False v by simp
    from less.hyps [OF this b'(2) cursor_ok_extend [OF less.prems(2)]] False b' v less.prems
    show ?thesis by (subst flatten_loop.simps) (simp add: Let_def cursor_chunk_extend)
  qed
qed

lemma wb_advance_view:
  assumes "wb_ok ok view wb" and "n \<le> length (wb_view view wb)"
  shows "\<exists>wb'. wb_advance ops wb n = Return wb' \<and> wb_ok ok view wb' \<and>
    wb_view view wb' = drop n (wb_view view wb) \<and> wb_strategy wb' = wb_strategy wb"
proof -
  let ?h = "cursor_chunk (wb_headers wb)"
  consider "length ?h = n" | "length ?h > n" | "length ?h < n" by linarith
  then show ?thesis
  proof cases
    case 3
    from assms have "buf_list_ok ok view (wb_queue wb)"
      "n - length ?h \<le> length (buf_list_view view (wb_queue wb))"
      by (auto simp: wb_ok_def wb_view_def)
    from buf.advance [OF buf_list_buf this] obtain q
      where q: "buf_list_advance ops (wb_queue wb) (n - length ?h) = Return q" "buf_list_ok ok view q"
        "buf_list_view view q = drop (n - length ?h) (buf_list_view view (wb_queue wb))"
      by (auto simp: buf_list_ops_def)
    moreover have "wb_strategy wb = Flatten \<Longrightarrow> bl_bufs q = []"
      using assms q 3 by (auto simp: wb_ok_def wb_view_def buf_list_view_def)
    ultimately show ?thesis using assms 3
      by (auto simp: wb_advance_def wb_ok_def wb_view_def cursor_remaining_chunk cursor_simps Let_def)
  qed (use assms in \<open>auto simp: wb_advance_def wb_ok_def wb_view_def cursor_remaining_chunk
        cursor_simps cursor_advance_ok Let_def\<close>)
qed

lemma write_buf_buf: "buf (write_buf_ops ops) (wb_ok ok view) (wb_view view)"
proof
  fix wb n
  assume "wb_ok ok view wb" "n \<le> length (wb_view view wb)"
  from wb_advance_view [OF this]
  show "\<exists>wb'. b_advance (write_buf_ops ops) wb n = Return wb' \<and> wb_ok ok view wb' \<and>
      wb_view view wb' = drop n (wb_view view wb)"
    by (auto simp: write_buf_ops_def)
next
  fix wb :: "'b write_buf" and n
  let ?h = "b_chunks_vectored cursor_ops (wb_headers wb) n"
    and ?q = "\<lambda>n. buf_list_chunks_vectored ops (wb_queue wb) n"
  assume "wb_ok ok view wb"
  then have hq: "cursor_ok (wb_headers wb)" "buf_list_ok ok view (wb_queue wb)" by (simp_all add: wb_ok_def)
  note h = cursor_buf.vectored [OF hq(1), of n] cursor_buf.vectored_all [OF hq(1), of n]
  note q = buf.vectored [OF buf_list_buf hq(2), of "n - length ?h"]
    buf.vectored_all [OF buf_list_buf hq(2), of "n - length ?h"]
  show "(\<exists>rest. wb_view view wb = concat (b_chunks_vectored (write_buf_ops ops) wb n) @ rest) \<and>
      length (b_chunks_vectored (write_buf_ops ops) wb n) \<le> n"
  proof (cases "length ?h < n")
    case True
    with h(2) have "concat ?h = cursor_chunk (wb_headers wb)" by simp
    with h(1) q(1) True show ?thesis
      by (auto simp: write_buf_ops_def wb_chunks_vectored_def wb_view_def buf_list_ops_def Let_def)
  next
    case False
    with h(1) have "?q (n - length ?h) = []" by (simp add: buf_list_chunks_vectored_def)
    with h(1) show ?thesis
      by (auto simp: write_buf_ops_def wb_chunks_vectored_def wb_view_def Let_def)
  qed
  show "length (b_chunks_vectored (write_buf_ops ops) wb n) < n \<Longrightarrow>
      concat (b_chunks_vectored (write_buf_ops ops) wb n) = wb_view view wb"
    using h q by (auto simp: write_buf_ops_def wb_chunks_vectored_def wb_view_def buf_list_ops_def Let_def)
next
  fix wb
  assume "wb_ok ok view wb"
  then have hq: "cursor_ok (wb_headers wb)" "buf_list_ok ok view (wb_queue wb)" by (simp_all add: wb_ok_def)
  note q = buf.remaining [OF buf_list_buf hq(2)] buf.chunk_prefix [OF buf_list_buf hq(2)]
    buf.chunk_empty [OF buf_list_buf hq(2)]
  show "b_remaining (write_buf_ops ops) wb = length (wb_view view wb)"
    "\<exists>rest. wb_view view wb = b_chunk (write_buf_ops ops) wb @ rest"
    "b_chunk (write_buf_ops ops) wb = [] \<Longrightarrow> wb_view view wb = []"
    using q by (auto simp: write_buf_ops_def wb_remaining_def wb_chunk_def wb_view_def buf_list_ops_def
        cursor_remaining_chunk Let_def split: if_splits)
qed

lemma wb_buffer_queue:
  assumes "wb_ok ok view wb" and "wb_strategy wb = Queue" and "ok (into b)" and "view (into b) \<noteq> []"
  shows "\<exists>wb'. wb_buffer bops into ops wb b = Some (Return wb') \<and> wb_ok ok view wb' \<and>
    wb_view view wb' = wb_view view wb @ view (into b)"
  using assms buf_list_push_ok by (auto simp: wb_buffer_def wb_ok_def wb_view_def)

end

lemma write_buf_appends:
  assumes "buf bops bok bview" and "buf ops ok view" and "wb_ok ok view wb"
    and "bok b" and "bview b \<noteq> []" and "ok (into b)" and "view (into b) = bview b"
  shows "\<exists>wb'. wb_buffer bops into ops wb b = Some (Return wb') \<and> wb_ok ok view wb' \<and>
    wb_view view wb' = wb_view view wb @ bview b"
proof (cases "wb_strategy wb")
  case Flatten
  let ?c = "maybe_unshift (wb_headers wb) (b_remaining bops b)"
  from assms(3) have "cursor_ok ?c" by (simp add: wb_ok_def cursor_simps)
  from buf.flatten_loop_view [OF assms(1,4) this] Flatten assms(3) show ?thesis
    by (auto simp: wb_buffer_def wb_ok_def wb_view_def cursor_simps buf_list_view_def)
next
  case Queue
  with buf.wb_buffer_queue [OF assms(2,3), of into b bops] assms(5-7) show ?thesis by simp
qed

text \<open>
  \<open>WriteBuf\<close> is a first-in first-out byte queue: buffering a non-empty buffer returns (the
  copying loop of \<open>Flatten\<close> ends), does not panic, keeps the invariant and appends exactly the
  bytes of the buffer. The result is the same under both strategies.
\<close>

theorem write_buf_buffer_appends:
  assumes "buf bops bok bview" and "buf ops ok view" and "wb_ok ok view wb"
    and "bok b" and "bview b \<noteq> []" and "ok (into b)" and "view (into b) = bview b"
  shows "\<exists>wb'. wb_buffer bops into ops wb b = Some (Return wb') \<and> wb_ok ok view wb' \<and>
    wb_view view wb' = wb_view view wb @ bview b"
  by (rule write_buf_appends) (fact assms)+

theorem write_buf_buffer_appends_witness:
  "\<exists>wb'. wb_buffer bytes_ops (\<lambda>b. b) bytes_ops (write_buf_new Flatten) ''abc'' = Some (Return wb') \<and>
     wb_ok (\<lambda>_. True) (\<lambda>b. b) wb' \<and> wb_view (\<lambda>b. b) wb' = wb_view (\<lambda>b. b) (write_buf_new Flatten) @ ''abc''"
  by (rule write_buf_buffer_appends [OF bytes_buf.buf_axioms bytes_buf.buf_axioms wb_ok_new]) simp_all

text \<open>
  \<open>WriteBuf\<close> keeps the contract of \<open>Buf\<close> whenever its user buffers do: \<open>remaining\<close> is the
  number of queued bytes, \<open>chunk\<close> and \<open>chunks_vectored\<close> show a prefix of them (all of them when the
  destination is not filled), and \<open>advance\<close> drops exactly the bytes advanced over, without a panic.
\<close>

theorem write_buf_is_buf:
  assumes "buf ops ok view"
  shows "buf (write_buf_ops ops) (wb_ok ok view) (wb_view view)"
  using buf.write_buf_buf [OF assms] .

theorem write_buf_is_buf_witness:
  "buf (write_buf_ops bytes_ops) (wb_ok (\<lambda>_. True) (\<lambda>b. b)) (wb_view (\<lambda>b. b))"
  by (rule write_buf_is_buf [OF bytes_buf.buf_axioms])

end
