(* ===== verification/Encode.thy ===== *)
theory Encode
  imports Write_Buf Headers
begin

text \<open>
  \<open>wreq-proto/src/proto/http1/encode.rs\<close>: the encoders of an HTTP/1 message body, the buffers they
  produce, and the chunk-size line. The adaptors \<open>Chain\<close> and \<open>Take\<close> belong to the crate \<open>bytes\<close>:
  a chain is the pair of its parts, a take the pair of the inner buffer and the limit, their
  operations are the fields of \<open>bufs_api\<close> and their documented behaviour is the locale
  \<open>bytes_crate\<close>.
\<close>

section \<open>The chunk-size line\<close>

definition CHUNK_SIZE_MAX_BYTES :: nat where "CHUNK_SIZE_MAX_BYTES = 8 * 2"

record chunk_size =
  cs_bytes :: bytes
  cs_pos :: "8 word"
  cs_len :: "8 word"

text \<open>\<open>write_str\<close>: write into the rest of the array, which panics when it does not fit.\<close>

definition chunk_size_write_str :: "chunk_size \<Rightarrow> bytes \<Rightarrow> chunk_size rust" where
  "chunk_size_write_str cs num =
     (let l = unat (cs_len cs) in
      if l \<le> length (cs_bytes cs) \<and> length num \<le> length (cs_bytes cs) - l
      then Return (cs\<lparr>cs_bytes := take l (cs_bytes cs) @ num @ drop (l + length num) (cs_bytes cs),
                     cs_len := cs_len cs + of_nat (length num)\<rparr>)
      else Panic ''&mut [u8].write() cannot error'')"

text \<open>\<open>write!(size, "{len:X}\r\n")\<close> writes the digits, then the literal.\<close>

definition chunk_size_new :: "nat \<Rightarrow> chunk_size rust" where
  "chunk_size_new len =
     rust_bind
       (chunk_size_write_str
         \<lparr>cs_bytes = replicate (CHUNK_SIZE_MAX_BYTES + 2) CHR 0x00, cs_pos = 0, cs_len = 0\<rparr> (fmt_hex len))
       (\<lambda>size. chunk_size_write_str size CRLF)"

definition chunk_size_remaining :: "chunk_size \<Rightarrow> nat" where
  "chunk_size_remaining cs = unat (cs_len cs - cs_pos cs)"

definition chunk_size_chunk :: "chunk_size \<Rightarrow> bytes" where
  "chunk_size_chunk cs = drop (unat (cs_pos cs)) (take (unat (cs_len cs)) (cs_bytes cs))"

definition chunk_size_advance :: "chunk_size \<Rightarrow> nat \<Rightarrow> chunk_size rust" where
  "chunk_size_advance cs cnt =
     (if cnt \<le> chunk_size_remaining cs
      then Return (cs\<lparr>cs_pos := cs_pos cs + of_nat cnt\<rparr>)
      else Panic ''assertion failed: cnt <= self.remaining()'')"

definition chunk_size_ops :: "chunk_size buf_ops" where
  "chunk_size_ops =
     \<lparr>b_remaining = chunk_size_remaining, b_chunk = chunk_size_chunk, b_advance = chunk_size_advance,
      b_chunks_vectored = (\<lambda>c. default_vectored (chunk_size_remaining c) (chunk_size_chunk c))\<rparr>"

section \<open>Encoded buffers\<close>

datatype 'b buf_kind =
    Exact 'b
  | Limited "'b \<times> nat"
  | ChunkedBuf "(chunk_size \<times> 'b) \<times> bytes"
  | ChunkedEnd bytes
  | Trailers "(bytes \<times> bytes) \<times> bytes"

record 'b encoded_buf =
  eb_kind :: "'b buf_kind"

record 'b bufs_api =
  user_ops :: "'b buf_ops"
  take_ops :: "('b \<times> nat) buf_ops"
  chunked_ops :: "((chunk_size \<times> 'b) \<times> bytes) buf_ops"
  static_ops :: "bytes buf_ops"
  trailers_ops :: "((bytes \<times> bytes) \<times> bytes) buf_ops"

definition encoded_remaining :: "'b bufs_api \<Rightarrow> 'b encoded_buf \<Rightarrow> nat" where
  "encoded_remaining B e =
     (case eb_kind e of
        Exact b \<Rightarrow> b_remaining (user_ops B) b
      | Limited b \<Rightarrow> b_remaining (take_ops B) b
      | ChunkedBuf b \<Rightarrow> b_remaining (chunked_ops B) b
      | ChunkedEnd b \<Rightarrow> b_remaining (static_ops B) b
      | Trailers b \<Rightarrow> b_remaining (trailers_ops B) b)"

definition encoded_chunk :: "'b bufs_api \<Rightarrow> 'b encoded_buf \<Rightarrow> bytes" where
  "encoded_chunk B e =
     (case eb_kind e of
        Exact b \<Rightarrow> b_chunk (user_ops B) b
      | Limited b \<Rightarrow> b_chunk (take_ops B) b
      | ChunkedBuf b \<Rightarrow> b_chunk (chunked_ops B) b
      | ChunkedEnd b \<Rightarrow> b_chunk (static_ops B) b
      | Trailers b \<Rightarrow> b_chunk (trailers_ops B) b)"

definition with_kind :: "('c \<Rightarrow> 'b buf_kind) \<Rightarrow> 'c rust \<Rightarrow> 'b encoded_buf rust" where
  "with_kind k m = rust_bind m (\<lambda>b. Return \<lparr>eb_kind = k b\<rparr>)"

definition encoded_advance :: "'b bufs_api \<Rightarrow> 'b encoded_buf \<Rightarrow> nat \<Rightarrow> 'b encoded_buf rust" where
  "encoded_advance B e cnt =
     (case eb_kind e of
        Exact b \<Rightarrow> with_kind Exact (b_advance (user_ops B) b cnt)
      | Limited b \<Rightarrow> with_kind Limited (b_advance (take_ops B) b cnt)
      | ChunkedBuf b \<Rightarrow> with_kind ChunkedBuf (b_advance (chunked_ops B) b cnt)
      | ChunkedEnd b \<Rightarrow> with_kind ChunkedEnd (b_advance (static_ops B) b cnt)
      | Trailers b \<Rightarrow> with_kind Trailers (b_advance (trailers_ops B) b cnt))"

definition encoded_chunks_vectored :: "'b bufs_api \<Rightarrow> 'b encoded_buf \<Rightarrow> nat \<Rightarrow> bytes list" where
  "encoded_chunks_vectored B e n =
     (case eb_kind e of
        Exact b \<Rightarrow> b_chunks_vectored (user_ops B) b n
      | Limited b \<Rightarrow> b_chunks_vectored (take_ops B) b n
      | ChunkedBuf b \<Rightarrow> b_chunks_vectored (chunked_ops B) b n
      | ChunkedEnd b \<Rightarrow> b_chunks_vectored (static_ops B) b n
      | Trailers b \<Rightarrow> b_chunks_vectored (trailers_ops B) b n)"

definition encoded_buf_ops :: "'b bufs_api \<Rightarrow> 'b encoded_buf buf_ops" where
  "encoded_buf_ops B =
     \<lparr>b_remaining = encoded_remaining B, b_chunk = encoded_chunk B, b_advance = encoded_advance B,
      b_chunks_vectored = encoded_chunks_vectored B\<rparr>"

definition encoded_from_buf :: "'b \<Rightarrow> 'b encoded_buf" where
  "encoded_from_buf b = \<lparr>eb_kind = Exact b\<rparr>"

definition encoded_from_take :: "'b \<times> nat \<Rightarrow> 'b encoded_buf" where
  "encoded_from_take b = \<lparr>eb_kind = Limited b\<rparr>"

definition encoded_from_chunked :: "(chunk_size \<times> 'b) \<times> bytes \<Rightarrow> 'b encoded_buf" where
  "encoded_from_chunked b = \<lparr>eb_kind = ChunkedBuf b\<rparr>"

section \<open>Encoders\<close>

datatype encoder_kind = EncChunked "header_name list option" | EncLength u64

record encoder =
  e_kind :: encoder_kind
  e_is_last :: bool

datatype not_eof = NotEof u64

definition encoder_new :: "encoder_kind \<Rightarrow> encoder" where
  "encoder_new kind = \<lparr>e_kind = kind, e_is_last = False\<rparr>"

definition encoder_chunked :: encoder where
  "encoder_chunked = encoder_new (EncChunked None)"

definition encoder_length :: "u64 \<Rightarrow> encoder" where
  "encoder_length len = encoder_new (EncLength len)"

definition into_chunked_with_trailing_fields :: "encoder \<Rightarrow> header_name list \<Rightarrow> encoder" where
  "into_chunked_with_trailing_fields e trailers =
     (case e_kind e of
        EncChunked _ \<Rightarrow> \<lparr>e_kind = EncChunked (Some trailers), e_is_last = e_is_last e\<rparr>
      | _ \<Rightarrow> e)"

definition encoder_is_eof :: "encoder \<Rightarrow> bool" where
  "encoder_is_eof e = (e_kind e = EncLength 0)"

definition encoder_is_close_delimited :: "encoder \<Rightarrow> bool" where
  "encoder_is_close_delimited e = False"

definition encoder_is_chunked :: "encoder \<Rightarrow> bool" where
  "encoder_is_chunked e = (case e_kind e of EncChunked _ \<Rightarrow> True | EncLength _ \<Rightarrow> False)"

definition encoder_end :: "encoder \<Rightarrow> not_eof + 'b encoded_buf option" where
  "encoder_end e =
     (case e_kind e of
        EncLength n \<Rightarrow> (if n = 0 then Inr None else Inl (NotEof n))
      | EncChunked _ \<Rightarrow> Inr (Some \<lparr>eb_kind = ChunkedEnd (''0'' @ CRLF @ CRLF)\<rparr>))"

definition encode :: "'b bufs_api \<Rightarrow> encoder \<Rightarrow> 'b \<Rightarrow> (encoder \<times> 'b encoded_buf) rust" where
  "encode B e msg =
     (let len = b_remaining (user_ops B) msg in
      case e_kind e of
        EncChunked _ \<Rightarrow>
          rust_bind (chunk_size_new len) (\<lambda>size. Return (e, \<lparr>eb_kind = ChunkedBuf ((size, msg), CRLF)\<rparr>))
      | EncLength remaining \<Rightarrow>
          (if of_nat len > remaining
           then Return (e\<lparr>e_kind := EncLength 0\<rparr>, \<lparr>eb_kind = Limited (msg, unat remaining)\<rparr>)
           else Return (e\<lparr>e_kind := EncLength (remaining - of_nat len)\<rparr>, \<lparr>eb_kind = Exact msg\<rparr>)))"

definition is_valid_trailer_field :: "header_name \<Rightarrow> bool" where
  "is_valid_trailer_field name \<longleftrightarrow>
     name \<notin> {''authorization'', ''cache-control'', ''content-encoding'', ''content-length'',
             ''content-range'', ''content-type'', ''host'', ''max-forwards'', ''set-cookie'',
             ''trailer'', ''transfer-encoding'', ''te''}"

text \<open>\<open>write_headers\<close> of \<open>role.rs\<close>: one line per header.\<close>

definition header_line :: "header_name \<times> header_value \<Rightarrow> bytes" where
  "header_line h = fst h @ '': '' @ snd h @ CRLF"

definition write_headers :: "'h http_api \<Rightarrow> 'h \<Rightarrow> bytes \<Rightarrow> bytes" where
  "write_headers api headers dst = dst @ concat (map header_line (hm_iter api headers))"

text \<open>The loop of \<open>encode_trailers\<close> over the owning iterator of the header map.\<close>

fun filter_trailers ::
  "'h http_api \<Rightarrow> header_name list \<Rightarrow> header_name option \<Rightarrow> 'h \<Rightarrow>
   (header_name option \<times> header_value) list \<Rightarrow> 'h rust" where
  "filter_trailers api allowed cur_name acc [] = Return acc"
| "filter_trailers api allowed cur_name acc ((opt_name, value) # rest) =
     (let cur_name' = (case opt_name of Some n \<Rightarrow> Some n | None \<Rightarrow> cur_name) in
      case cur_name' of
        None \<Rightarrow> Panic ''current header name''
      | Some name \<Rightarrow>
          filter_trailers api allowed cur_name'
            (if name \<in> set allowed \<and> is_valid_trailer_field name then hm_insert api acc name value else acc)
            rest)"

definition encode_trailers :: "'h http_api \<Rightarrow> encoder \<Rightarrow> 'h \<Rightarrow> 'b encoded_buf option rust" where
  "encode_trailers api e trailers =
     (case e_kind e of
        EncChunked (Some allowed_trailer_fields) \<Rightarrow>
          rust_bind
            (filter_trailers api allowed_trailer_fields None (hm_new api) (hm_into_iter api trailers))
            (\<lambda>allowed_trailers.
               let lines = write_headers api allowed_trailers [] in
               Return (if lines = [] then None
                       else Some \<lparr>eb_kind = Trailers ((''0'' @ CRLF, lines), CRLF)\<rparr>))
      | EncChunked None \<Rightarrow> Return None
      | EncLength _ \<Rightarrow> Return None)"

text \<open>
  \<open>encode_and_end\<close> puts the last buffer and the end of the body straight into the write buffer;
  its result says whether the connection may be kept.
\<close>

definition buffered_flag :: "'w rust option \<Rightarrow> bool \<Rightarrow> ('w \<times> bool) rust option" where
  "buffered_flag r flag = map_option (\<lambda>m. rust_bind m (\<lambda>w. Return (w, flag))) r"

definition encode_and_end ::
  "'b bufs_api \<Rightarrow> encoder \<Rightarrow> 'b \<Rightarrow> 'b encoded_buf write_buf \<Rightarrow>
   ('b encoded_buf write_buf \<times> bool) rust option" where
  "encode_and_end B e msg dst =
     (let len = b_remaining (user_ops B) msg in
      case e_kind e of
        EncChunked _ \<Rightarrow>
          (case chunk_size_new len of
             Panic m \<Rightarrow> Some (Panic m)
           | Return sz \<Rightarrow>
               buffered_flag
                 (wb_buffer (chunked_ops B) encoded_from_chunked (encoded_buf_ops B) dst
                    ((sz, msg), CRLF @ ''0'' @ CRLF @ CRLF))
                 (\<not> e_is_last e))
      | EncLength remaining \<Rightarrow>
          (if of_nat len = remaining
           then buffered_flag
                  (wb_buffer (user_ops B) encoded_from_buf (encoded_buf_ops B) dst msg) (\<not> e_is_last e)
           else if of_nat len > remaining
           then buffered_flag
                  (wb_buffer (take_ops B) encoded_from_take (encoded_buf_ops B) dst (msg, unat remaining))
                  (\<not> e_is_last e)
           else buffered_flag
                  (wb_buffer (user_ops B) encoded_from_buf (encoded_buf_ops B) dst msg) False))"

end
