(* ===== verification/Encode_Props.thy ===== *)
theory Encode_Props
  imports Encode
begin

text \<open>
  What the body encoders promise: the chunk-size line fits its array, the produced buffers keep
  the contract of \<open>Buf\<close>, a Content-Length body is never longer than announced, a chunked body is
  exactly the chunked coding of the data, and only announced, permitted trailers are sent.
\<close>

section \<open>The chunk-size line\<close>

definition chunk_size_ok :: "chunk_size \<Rightarrow> bool" where
  "chunk_size_ok cs \<longleftrightarrow> cs_pos cs \<le> cs_len cs \<and> unat (cs_len cs) \<le> length (cs_bytes cs)"

lemma chunk_size_chunk_length:
  "chunk_size_ok cs \<Longrightarrow> length (chunk_size_chunk cs) = chunk_size_remaining cs"
  by (simp add: chunk_size_ok_def chunk_size_chunk_def chunk_size_remaining_def unat_sub)

lemma chunk_size_advance_ok:
  assumes "chunk_size_ok cs" and "n \<le> chunk_size_remaining cs"
  shows "\<exists>cs'. chunk_size_advance cs n = Return cs' \<and> chunk_size_ok cs' \<and>
    chunk_size_chunk cs' = drop n (chunk_size_chunk cs)"
proof -
  from assms have le: "unat (cs_pos cs) + n \<le> unat (cs_len cs)"
    by (auto simp: chunk_size_ok_def chunk_size_remaining_def unat_sub word_le_nat_alt)
  moreover have "unat (cs_len cs) < 256" using unat_bound [of "cs_len cs"] by simp
  ultimately have "unat (cs_pos cs + of_nat n) = unat (cs_pos cs) + n"
    by (simp add: unat_word_ariths unat_of_nat take_bit_nat_eq_self)
  with assms le show ?thesis
    by (simp add: chunk_size_advance_def chunk_size_ok_def chunk_size_chunk_def word_le_nat_alt add.commute)
qed

interpretation chunk_size_buf: buf chunk_size_ops chunk_size_ok chunk_size_chunk
proof
  fix cs n
  assume "chunk_size_ok cs" "n \<le> length (chunk_size_chunk cs)"
  then show "\<exists>cs'. b_advance chunk_size_ops cs n = Return cs' \<and> chunk_size_ok cs' \<and>
      chunk_size_chunk cs' = drop n (chunk_size_chunk cs)"
    by (simp add: chunk_size_ops_def chunk_size_advance_ok chunk_size_chunk_length)
qed (auto simp: chunk_size_ops_def chunk_size_chunk_length [symmetric] default_vectored_ok)

lemma write_str_ok:
  assumes "chunk_size_ok cs" and "cs_pos cs = 0" and "length (cs_bytes cs) < 256"
    and "unat (cs_len cs) + length num \<le> length (cs_bytes cs)"
  shows "\<exists>cs'. chunk_size_write_str cs num = Return cs' \<and> chunk_size_ok cs' \<and> cs_pos cs' = 0 \<and>
    length (cs_bytes cs') = length (cs_bytes cs) \<and> unat (cs_len cs') = unat (cs_len cs) + length num \<and>
    chunk_size_chunk cs' = chunk_size_chunk cs @ num"
proof -
  from assms have "unat (cs_len cs + of_nat (length num)) = unat (cs_len cs) + length num"
    by (simp add: unat_word_ariths unat_of_nat take_bit_nat_eq_self)
  with assms show ?thesis
    by (auto simp: chunk_size_write_str_def chunk_size_ok_def chunk_size_chunk_def word_le_nat_alt Let_def)
qed

lemma chunk_size_new_ok:
  assumes "len < 2 ^ 64"
  shows "\<exists>cs. chunk_size_new len = Return cs \<and> chunk_size_ok cs \<and> chunk_size_chunk cs = fmt_hex len @ CRLF"
proof -
  let ?z = "\<lparr>cs_bytes = replicate (CHUNK_SIZE_MAX_BYTES + 2) CHR 0x00, cs_pos = 0, cs_len = 0\<rparr>"
  have len: "length (fmt_hex len) \<le> 16" using assms fmt_hex_length [of len 16] by simp
  then obtain cs where cs: "chunk_size_write_str ?z (fmt_hex len) = Return cs" "chunk_size_ok cs"
    "cs_pos cs = 0" "length (cs_bytes cs) = 18" "unat (cs_len cs) = length (fmt_hex len)"
    "chunk_size_chunk cs = fmt_hex len"
    using write_str_ok [of ?z "fmt_hex len"]
    by (auto simp: chunk_size_ok_def chunk_size_chunk_def CHUNK_SIZE_MAX_BYTES_def)
  with len write_str_ok [of cs CRLF] show ?thesis by (auto simp: chunk_size_new_def)
qed

section \<open>The crate \<open>bytes\<close>\<close>

locale bytes_crate =
  fixes B :: "'b bufs_api" and ok :: "'b \<Rightarrow> bool" and view :: "'b \<Rightarrow> bytes"
  assumes user_buf: "buf (user_ops B) ok view"
    and take_buf: "buf (take_ops B) (\<lambda>t. ok (fst t)) (\<lambda>t. take (snd t) (view (fst t)))"
    and chunked_buf: "buf (chunked_ops B) (\<lambda>c. chunk_size_ok (fst (fst c)) \<and> ok (snd (fst c)))
      (\<lambda>c. chunk_size_chunk (fst (fst c)) @ view (snd (fst c)) @ snd c)"
    and static_buf: "buf (static_ops B) (\<lambda>_. True) (\<lambda>b. b)"
    and trailers_buf: "buf (trailers_ops B) (\<lambda>_. True) (\<lambda>c. fst (fst c) @ snd (fst c) @ snd c)"

definition encoded_ok :: "('b \<Rightarrow> bool) \<Rightarrow> 'b encoded_buf \<Rightarrow> bool" where
  "encoded_ok ok e =
     (case eb_kind e of
        Exact b \<Rightarrow> ok b
      | Limited t \<Rightarrow> ok (fst t)
      | ChunkedBuf c \<Rightarrow> chunk_size_ok (fst (fst c)) \<and> ok (snd (fst c))
      | _ \<Rightarrow> True)"

definition encoded_view :: "('b \<Rightarrow> bytes) \<Rightarrow> 'b encoded_buf \<Rightarrow> bytes" where
  "encoded_view view e =
     (case eb_kind e of
        Exact b \<Rightarrow> view b
      | Limited t \<Rightarrow> take (snd t) (view (fst t))
      | ChunkedBuf c \<Rightarrow> chunk_size_chunk (fst (fst c)) @ view (snd (fst c)) @ snd c
      | ChunkedEnd b \<Rightarrow> b
      | Trailers c \<Rightarrow> fst (fst c) @ snd (fst c) @ snd c)"

lemma encoded_simps [simp]:
  "encoded_ok ok \<lparr>eb_kind = Exact b\<rparr> = ok b"
  "encoded_ok ok \<lparr>eb_kind = Limited t\<rparr> = ok (fst t)"
  "encoded_ok ok \<lparr>eb_kind = ChunkedBuf c\<rparr> = (chunk_size_ok (fst (fst c)) \<and> ok (snd (fst c)))"
  "encoded_view view \<lparr>eb_kind = Exact b\<rparr> = view b"
  "encoded_view view \<lparr>eb_kind = Limited t\<rparr> = take (snd t) (view (fst t))"
  "encoded_view view \<lparr>eb_kind = ChunkedBuf c\<rparr> =
     chunk_size_chunk (fst (fst c)) @ view (snd (fst c)) @ snd c"
  "encoded_view view \<lparr>eb_kind = ChunkedEnd bs\<rparr> = bs"
  by (simp_all add: encoded_ok_def encoded_view_def)

lemmas encoded_from_defs = encoded_from_buf_def encoded_from_take_def encoded_from_chunked_def

lemmas encoded_defs = encoded_buf_ops_def encoded_remaining_def encoded_chunk_def encoded_advance_def
  encoded_chunks_vectored_def encoded_ok_def encoded_view_def with_kind_def

context bytes_crate
begin

lemma encoded_buf_at:
  assumes "encoded_ok ok e"
  shows "buf_at (encoded_buf_ops B) (encoded_ok ok) (encoded_view view) e"
proof (cases "eb_kind e")
  case (Exact b)
  with assms user_buf have "buf_at (user_ops B) ok
      view b"
    by (simp add: buf_iff_at encoded_ok_def del: split_paired_All)
  then have "buf_at (encoded_buf_ops B) (encoded_ok ok) (encoded_view view) \<lparr>eb_kind = Exact b\<rparr>"
    by (rule buf_at_wrap [where k = "\<lambda>b. \<lparr>eb_kind = Exact b\<rparr>"]) (simp_all add: encoded_defs)
  with Exact show ?thesis by (cases e) simp
next
  case (Limited b)
  with assms take_buf have "buf_at (take_ops B) (\<lambda>t. ok (fst t))
      (\<lambda>t. take (snd t) (view (fst t))) b"
    by (simp add: buf_iff_at encoded_ok_def del: split_paired_All)
  then have "buf_at (encoded_buf_ops B) (encoded_ok ok) (encoded_view view) \<lparr>eb_kind = Limited b\<rparr>"
    by (rule buf_at_wrap [where k = "\<lambda>b. \<lparr>eb_kind = Limited b\<rparr>"]) (simp_all add: encoded_defs)
  with Limited show ?thesis by (cases e) simp
next
  case (ChunkedBuf b)
  with assms chunked_buf have "buf_at (chunked_ops B) (\<lambda>c. chunk_size_ok (fst (fst c)) \<and> ok (snd (fst c)))
      (\<lambda>c. chunk_size_chunk (fst (fst c)) @ view (snd (fst c)) @ snd c) b"
    by (simp add: buf_iff_at encoded_ok_def del: split_paired_All)
  then have "buf_at (encoded_buf_ops B) (encoded_ok ok) (encoded_view view) \<lparr>eb_kind = ChunkedBuf b\<rparr>"
    by (rule buf_at_wrap [where k = "\<lambda>b. \<lparr>eb_kind = ChunkedBuf b\<rparr>"]) (simp_all add: encoded_defs)
  with ChunkedBuf show ?thesis by (cases e) simp
next
  case (ChunkedEnd b)
  with assms static_buf have "buf_at (static_ops B) (\<lambda>_. True)
      (\<lambda>b. b) b"
    by (simp add: buf_iff_at encoded_ok_def del: split_paired_All)
  then have "buf_at (encoded_buf_ops B) (encoded_ok ok) (encoded_view view) \<lparr>eb_kind = ChunkedEnd b\<rparr>"
    by (rule buf_at_wrap [where k = "\<lambda>b. \<lparr>eb_kind = ChunkedEnd b\<rparr>"]) (simp_all add: encoded_defs)
  with ChunkedEnd show ?thesis by (cases e) simp
next
  case (Trailers b)
  with assms trailers_buf have "buf_at (trailers_ops B) (\<lambda>_. True)
      (\<lambda>c. fst (fst c) @ snd (fst c) @ snd c) b"
    by (simp add: buf_iff_at encoded_ok_def del: split_paired_All)
  then have "buf_at (encoded_buf_ops B) (encoded_ok ok) (encoded_view view) \<lparr>eb_kind = Trailers b\<rparr>"
    by (rule buf_at_wrap [where k = "\<lambda>b. \<lparr>eb_kind = Trailers b\<rparr>"]) (simp_all add: encoded_defs)
  with Trailers show ?thesis by (cases e) simp
qed

lemma encoded_buf_is_buf: "buf (encoded_buf_ops B) (encoded_ok ok) (encoded_view view)"
  using encoded_buf_at by (simp add: buf_iff_at)

end

section \<open>Instances of the adaptors\<close>

text \<open>
  The contract can be met: a chain that drains its first part before its second, and a take that
  cuts the slices of the inner buffer at its limit.
\<close>

definition chain_ops :: "'a buf_ops \<Rightarrow> 'b buf_ops \<Rightarrow> ('a \<times> 'b) buf_ops" where
  "chain_ops A C =
     \<lparr>b_remaining = (\<lambda>(a, c). b_remaining A a + b_remaining C c),
      b_chunk = (\<lambda>(a, c). if b_remaining A a > 0 then b_chunk A a else b_chunk C c),
      b_advance = (\<lambda>(a, c) n.
         let rem = b_remaining A a in
         if rem \<ge> n then rust_bind (b_advance A a n) (\<lambda>a'. Return (a', c))
         else rust_bind (b_advance A a rem)
                (\<lambda>a'. rust_bind (b_advance C c (n - rem)) (\<lambda>c'. Return (a', c')))),
      b_chunks_vectored = (\<lambda>(a, c) n.
         let s = b_chunks_vectored A a n in s @ b_chunks_vectored C c (n - length s))\<rparr>"

fun take_slices :: "nat \<Rightarrow> bytes list \<Rightarrow> bytes list" where
  "take_slices limit [] = []"
| "take_slices limit (s # ss) =
     (if limit = 0 then [] else take limit s # take_slices (limit - length s) ss)"

definition take_buf_ops :: "'b buf_ops \<Rightarrow> ('b \<times> nat) buf_ops" where
  "take_buf_ops A =
     \<lparr>b_remaining = (\<lambda>(a, limit). min (b_remaining A a) limit),
      b_chunk = (\<lambda>(a, limit). take limit (b_chunk A a)),
      b_advance = (\<lambda>(a, limit) n.
         if n \<le> limit then rust_bind (b_advance A a n) (\<lambda>a'. Return (a', limit - n))
         else Panic ''assertion failed: cnt <= self.limit''),
      b_chunks_vectored = (\<lambda>(a, limit) n. take_slices limit (b_chunks_vectored A a n))\<rparr>"

lemma take_slices_concat: "concat (take_slices limit ss) = take limit (concat ss)"
  by (induction limit ss rule: take_slices.induct) auto

lemma take_slices_length: "length (take_slices limit ss) \<le> length ss"
  by (induction limit ss rule: take_slices.induct) auto

lemma take_slices_all:
  "length (take_slices limit ss) < length ss \<Longrightarrow> limit \<le> length (concat ss)"
  by (induction limit ss rule: take_slices.induct) (auto split: if_splits)

lemma chain_is_buf:
  assumes A: "buf A aok aview" and C: "buf C cok cview"
  shows "buf (chain_ops A C) (\<lambda>p. aok (fst p) \<and> cok (snd p)) (\<lambda>p. aview (fst p) @ cview (snd p))"
  unfolding buf_iff_at
proof (intro allI impI)
  fix p :: "'a \<times> 'b"
  obtain a c where p: "p = (a, c)" by fastforce
  assume "aok (fst p) \<and> cok (snd p)"
  then have ok: "aok a" "cok c" by (simp_all add: p)
  note a = buf.remaining [OF A ok(1)] buf.chunk_prefix [OF A ok(1)] buf.chunk_empty [OF A ok(1)]
  note c = buf.remaining [OF C ok(2)] buf.chunk_prefix [OF C ok(2)] buf.chunk_empty [OF C ok(2)]
  have adv: "\<exists>b'. b_advance (chain_ops A C) (a, c) n = Return b' \<and> (aok (fst b') \<and> cok (snd b')) \<and>
      aview (fst b') @ cview (snd b') = drop n (aview a @ cview c)"
    if "n \<le> length (aview a @ cview c)" for n
  proof (cases "n \<le> length (aview a)")
    case True
    with buf.advance [OF A ok(1) True] ok a(1) show ?thesis by (auto simp: chain_ops_def)
  next
    case False
    with that have "n - length (aview a) \<le> length (cview c)" by simp
    from buf.advance [OF C ok(2) this] buf.advance [OF A ok(1), of "length (aview a)"] False a(1)
    show ?thesis by (auto simp: chain_ops_def Let_def)
  qed
  have vec: "(\<exists>rest. aview a @ cview c = concat (b_chunks_vectored (chain_ops A C) (a, c) n) @ rest) \<and>
      length (b_chunks_vectored (chain_ops A C) (a, c) n) \<le> n \<and>
      (length (b_chunks_vectored (chain_ops A C) (a, c) n) < n \<longrightarrow>
         concat (b_chunks_vectored (chain_ops A C) (a, c) n) = aview a @ cview c)" for n
  proof -
    let ?s = "b_chunks_vectored A a n"
    note s = buf.vectored [OF A ok(1), of n] buf.vectored_all [OF A ok(1), of n]
    note t = buf.vectored [OF C ok(2), of "n - length ?s"] buf.vectored_all [OF C ok(2), of "n - length ?s"]
    show ?thesis
    proof (cases "length ?s < n")
      case True
      with s t show ?thesis by (auto simp: chain_ops_def Let_def)
    next
      case False
      with t have "b_chunks_vectored C c (n - length ?s) = []" by simp
      with s False show ?thesis by (auto simp: chain_ops_def Let_def)
    qed
  qed
  from a c have "b_remaining (chain_ops A C) (a, c) = length (aview a @ cview c)"
    "\<exists>rest. aview a @ cview c = b_chunk (chain_ops A C) (a, c) @ rest"
    "b_chunk (chain_ops A C) (a, c) = [] \<longrightarrow> aview a @ cview c = []"
    by (auto simp: chain_ops_def)
  with adv vec p show "buf_at (chain_ops A C) (\<lambda>p. aok (fst p) \<and> cok (snd p))
      (\<lambda>p. aview (fst p) @ cview (snd p)) p"
    by (simp add: buf_at_def)
qed

lemma take_is_buf:
  assumes A: "buf A aok aview"
  shows "buf (take_buf_ops A) (\<lambda>t. aok (fst t)) (\<lambda>t. take (snd t) (aview (fst t)))"
  unfolding buf_iff_at
proof (intro allI impI)
  fix t :: "'a \<times> nat"
  obtain a l where t: "t = (a, l)" by fastforce
  assume "aok (fst t)"
  then have ok: "aok a" by (simp add: t)
  note a = buf.remaining [OF A ok] buf.chunk_prefix [OF A ok] buf.chunk_empty [OF A ok]
  have adv: "\<exists>b'. b_advance (take_buf_ops A) (a, l) n = Return b' \<and> aok (fst b') \<and>
      take (snd b') (aview (fst b')) = drop n (take l (aview a))"
    if "n \<le> length (take l (aview a))" for n
    using buf.advance [OF A ok, of n] that by (auto simp: take_buf_ops_def drop_take)
  have vec: "(\<exists>rest. take l (aview a) = concat (b_chunks_vectored (take_buf_ops A) (a, l) n) @ rest) \<and>
      length (b_chunks_vectored (take_buf_ops A) (a, l) n) \<le> n \<and>
      (length (b_chunks_vectored (take_buf_ops A) (a, l) n) < n \<longrightarrow>
         concat (b_chunks_vectored (take_buf_ops A) (a, l) n) = take l (aview a))" for n
  proof -
    let ?s = "b_chunks_vectored A a n"
    from buf.vectored [OF A ok, of n] obtain rest where s: "aview a = concat ?s @ rest" "length ?s \<le> n"
      by blast
    moreover have "take l (aview a) = take l (concat ?s)" if "length (take_slices l ?s) < n"
    proof (cases "length ?s < n")
      case True
      with buf.vectored_all [OF A ok] show ?thesis by simp
    next
      case False
      with that s(2) have "l \<le> length (concat ?s)" by (intro take_slices_all) simp
      with s(1) show ?thesis by simp
    qed
    ultimately show ?thesis using take_slices_length [of l ?s]
      by (auto simp: take_buf_ops_def take_slices_concat)
  qed
  from a have "b_remaining (take_buf_ops A) (a, l) = length (take l (aview a))"
    "\<exists>rest. take l (aview a) = b_chunk (take_buf_ops A) (a, l) @ rest"
    "b_chunk (take_buf_ops A) (a, l) = [] \<longrightarrow> take l (aview a) = []"
    by (auto simp: take_buf_ops_def min_def)
  with adv vec t show "buf_at (take_buf_ops A) (\<lambda>t. aok (fst t)) (\<lambda>t. take (snd t) (aview (fst t))) t"
    by (simp add: buf_at_def)
qed

definition bytes_api :: "bytes bufs_api" where
  "bytes_api =
     \<lparr>user_ops = bytes_ops, take_ops = take_buf_ops bytes_ops,
      chunked_ops = chain_ops (chain_ops chunk_size_ops bytes_ops) bytes_ops,
      static_ops = bytes_ops, trailers_ops = chain_ops (chain_ops bytes_ops bytes_ops) bytes_ops\<rparr>"

interpretation bytes_api: bytes_crate bytes_api "\<lambda>_. True" "\<lambda>b. b"
proof (rule bytes_crate.intro)
  show "buf (chunked_ops bytes_api) (\<lambda>c. chunk_size_ok (fst (fst c)) \<and> True)
      (\<lambda>c. chunk_size_chunk (fst (fst c)) @ snd (fst c) @ snd c)"
    using chain_is_buf [OF chain_is_buf [OF chunk_size_buf.buf_axioms bytes_buf.buf_axioms] bytes_buf.buf_axioms]
    by (simp add: bytes_api_def)
  show "buf (trailers_ops bytes_api) (\<lambda>_. True) (\<lambda>c. fst (fst c) @ snd (fst c) @ snd c)"
    using chain_is_buf [OF chain_is_buf [OF bytes_buf.buf_axioms bytes_buf.buf_axioms] bytes_buf.buf_axioms]
    by (simp add: bytes_api_def)
  show "buf (take_ops bytes_api) (\<lambda>t. True) (\<lambda>t. take (snd t) (fst t))"
    using take_is_buf [OF bytes_buf.buf_axioms] by (simp add: bytes_api_def)
qed (simp_all add: bytes_api_def bytes_buf.buf_axioms)

section \<open>Encoding a body\<close>

text \<open>The bytes a sequence of messages puts on the wire, one \<open>encode\<close> after the other.\<close>

fun encode_all :: "'b bufs_api \<Rightarrow> ('b \<Rightarrow> bytes) \<Rightarrow> encoder \<Rightarrow> 'b list \<Rightarrow> (encoder \<times> bytes) rust" where
  "encode_all B view e [] = Return (e, [])"
| "encode_all B view e (m # ms) =
     rust_bind (encode B e m) (\<lambda>(e', eb).
       rust_bind (encode_all B view e' ms) (\<lambda>(e'', out). Return (e'', encoded_view view eb @ out)))"

definition chunk_coding :: "bytes \<Rightarrow> bytes" where
  "chunk_coding d = fmt_hex (length d) @ CRLF @ d @ CRLF"

context bytes_crate
begin

lemma user_remaining: "ok m \<Longrightarrow> b_remaining (user_ops B) m = length (view m)"
  by (rule buf.remaining [OF user_buf])

lemma encode_chunked:
  assumes "ok m" and "length (view m) < 2 ^ 64" and "e_kind e = EncChunked t"
  shows "\<exists>eb. encode B e m = Return (e, eb) \<and> encoded_ok ok eb \<and> encoded_view view eb = chunk_coding (view m)"
  using chunk_size_new_ok [OF assms(2)] assms
  by (auto simp: encode_def user_remaining encoded_ok_def encoded_view_def chunk_coding_def)

lemma encode_length:
  assumes "ok m" and "length (view m) < 2 ^ 64" and "e_kind e = EncLength n"
  shows "\<exists>n' eb. encode B e m = Return (e\<lparr>e_kind := EncLength n'\<rparr>, eb) \<and> encoded_ok ok eb \<and>
    encoded_view view eb = take (unat n) (view m) \<and> unat n' = unat n - length (view m)"
proof -
  have len: "unat (of_nat (length (view m)) :: u64) = length (view m)"
    using assms(2) by (rule unat_of_nat_u64)
  show ?thesis
  proof (cases "of_nat (length (view m)) > n")
    case True
    then have "unat n < length (view m)" using len by (simp add: word_less_nat_alt)
    with True assms show ?thesis
      by (auto simp: encode_def user_remaining encoded_ok_def encoded_view_def)
  next
    case False
    then have "length (view m) \<le> unat n" using len by (simp add: word_less_nat_alt)
    with False assms len show ?thesis
      by (intro exI [of _ "n - of_nat (length (view m))"] exI [of _ "\<lparr>eb_kind = Exact m\<rparr>"])
        (simp add: encode_def user_remaining unat_sub not_less Let_def)
  qed
qed

lemma encode_all_chunked:
  "list_all ok ms \<Longrightarrow> list_all (\<lambda>m. length (view m) < 2 ^ 64) ms \<Longrightarrow> e_kind e = EncChunked t \<Longrightarrow>
   encode_all B view e ms = Return (e, concat (map (\<lambda>m. chunk_coding (view m)) ms))"
proof (induction ms)
  case (Cons m ms)
  then show ?case using encode_chunked [of m e t] by auto
qed simp

lemma encode_all_length:
  "list_all ok ms \<Longrightarrow> list_all (\<lambda>m. length (view m) < 2 ^ 64) ms \<Longrightarrow> e_kind e = EncLength n \<Longrightarrow>
   \<exists>n'. encode_all B view e ms = Return (e\<lparr>e_kind := EncLength n'\<rparr>, take (unat n) (concat (map view ms))) \<and>
     unat n' = unat n - length (concat (map view ms))"
proof (induction ms arbitrary: e n)
  case (Cons m ms)
  from encode_length [of m e n] Cons.prems obtain n1 eb
    where m: "encode B e m = Return (e\<lparr>e_kind := EncLength n1\<rparr>, eb)"
      "encoded_view view eb = take (unat n) (view m)" "unat n1 = unat n - length (view m)" by auto
  from Cons.IH [of "e\<lparr>e_kind := EncLength n1\<rparr>" n1] Cons.prems obtain n2
    where "encode_all B view (e\<lparr>e_kind := EncLength n1\<rparr>) ms =
        Return (e\<lparr>e_kind := EncLength n2\<rparr>, take (unat n1) (concat (map view ms)))"
      "unat n2 = unat n1 - length (concat (map view ms))" by auto
  with m show ?case by auto
next
  case Nil
  then show ?case by (intro exI [of _ n]) (cases e, simp)
qed

lemma buffered_flag_appends:
  assumes "wb_ok (encoded_ok ok) (encoded_view view) dst" and "buf bops bok bview" and "bok b"
    and "bview b \<noteq> []" and "encoded_ok ok (into b)" and "encoded_view view (into b) = bview b"
  shows "\<exists>dst'. buffered_flag (wb_buffer bops into (encoded_buf_ops B) dst b) flag = Some (Return (dst', flag)) \<and>
    wb_ok (encoded_ok ok) (encoded_view view) dst' \<and>
    wb_view (encoded_view view) dst' = wb_view (encoded_view view) dst @ bview b"
  using write_buf_appends [OF assms(2) encoded_buf_is_buf assms(1), of b into] assms(3-6)
  by (auto simp: buffered_flag_def)

lemma encode_and_end_splits:
  fixes dst :: "'b encoded_buf write_buf"
  assumes dst: "wb_ok (encoded_ok ok) (encoded_view view) dst"
    and m: "ok m" "view m \<noteq> []" "length (view m) < 2 ^ 64" and e: "\<not> encoder_is_eof e"
  shows "\<exists>dst' flag e' eb. encode_and_end B e m dst = Some (Return (dst', flag)) \<and>
    wb_ok (encoded_ok ok) (encoded_view view) dst' \<and> encode B e m = Return (e', eb) \<and>
    wb_view (encoded_view view) dst' = wb_view (encoded_view view) dst @ encoded_view view eb @
      (case encoder_end e' of Inr (Some t) \<Rightarrow> encoded_view view t | _ \<Rightarrow> []) \<and>
    flag = (\<not> e_is_last e \<and> encoder_end e' \<in> range Inr)"
proof (cases "e_kind e")
  case (EncChunked t)
  from chunk_size_new_ok [OF m(3)] obtain cs where
    cs: "chunk_size_new (length (view m)) = Return cs" "chunk_size_ok cs"
      "chunk_size_chunk cs = fmt_hex (length (view m)) @ CRLF" by blast
  have "\<exists>dst'. encode_and_end B e m dst = Some (Return (dst', \<not> e_is_last e)) \<and>
      wb_ok (encoded_ok ok) (encoded_view view) dst' \<and>
      wb_view (encoded_view view) dst' = wb_view (encoded_view view) dst @ chunk_size_chunk cs @ view m @
        (CRLF @ ''0'' @ CRLF @ CRLF)"
    using buffered_flag_appends [OF dst chunked_buf, of "((cs, m), CRLF @ ''0'' @ CRLF @ CRLF)"
        encoded_from_chunked "\<not> e_is_last e"] EncChunked cs m
    by (simp add: encode_and_end_def user_remaining encoded_from_defs)
  with EncChunked cs m show ?thesis
    by (auto simp: encode_def user_remaining encoder_end_def)
next
  case (EncLength n)
  with e have n: "n \<noteq> 0" by (simp add: encoder_is_eof_def)
  let ?len = "of_nat (length (view m)) :: u64"
  consider "?len = n" | "?len > n" | "?len < n" by fastforce
  then show ?thesis
  proof cases
    case 1
    with EncLength m have "encode B e m = Return (e\<lparr>e_kind := EncLength 0\<rparr>, \<lparr>eb_kind = Exact m\<rparr>)"
      by (simp add: encode_def user_remaining Let_def)
    with 1 EncLength m buffered_flag_appends [OF dst user_buf, of m encoded_from_buf "\<not> e_is_last e"]
    show ?thesis
      by (auto simp: encode_and_end_def user_remaining encoder_end_def encoded_from_defs Let_def)
  next
    case 2
    with EncLength m have "encode B e m = Return (e\<lparr>e_kind := EncLength 0\<rparr>, \<lparr>eb_kind = Limited (m, unat n)\<rparr>)"
      by (simp add: encode_def user_remaining Let_def)
    with 2 EncLength n m buffered_flag_appends [OF dst take_buf, of "(m, unat n)" encoded_from_take "\<not> e_is_last e"]
    show ?thesis
      by (auto simp: encode_and_end_def user_remaining encoder_end_def encoded_from_defs unat_eq_0 Let_def)
  next
    case 3
    with EncLength m have "encode B e m = Return (e\<lparr>e_kind := EncLength (n - ?len)\<rparr>, \<lparr>eb_kind = Exact m\<rparr>)"
      by (auto simp: encode_def user_remaining Let_def)
    moreover from 3 have "n - ?len \<noteq> 0" by auto
    ultimately show ?thesis
      using 3 EncLength m buffered_flag_appends [OF dst user_buf, of m encoded_from_buf False]
      by (auto simp: encode_and_end_def user_remaining encoder_end_def encoded_from_defs Let_def)
  qed
qed

end

section \<open>Trailers\<close>

definition add_trailer :: "'h http_api \<Rightarrow> header_name list \<Rightarrow> 'h \<Rightarrow> header_name \<times> header_value \<Rightarrow> 'h" where
  "add_trailer api allowed acc p =
     (if fst p \<in> set allowed \<and> is_valid_trailer_field (fst p) then hm_insert api acc (fst p) (snd p) else acc)"

lemma filter_trailers_fold:
  "with_names cur xs = map (apfst Some) ps \<Longrightarrow>
   filter_trailers api allowed cur acc xs = Return (foldl (add_trailer api allowed) acc ps)"
proof (induction xs arbitrary: cur acc ps)
  case (Cons x xs)
  obtain n v where x: "x = (n, v)" by fastforce
  with Cons.prems obtain name ps' where "ps = (name, v) # ps'"
    "(case n of Some m \<Rightarrow> Some m | None \<Rightarrow> cur) = Some name"
    "with_names (Some name) xs = map (apfst Some) ps'"
    by (cases ps) (auto simp: Let_def)
  with Cons.IH [of "Some name" ps'] x show ?case by (auto simp: Let_def add_trailer_def)
qed simp

context http_crate
begin

lemma foldl_add_trailer:
  "hm_get_all api (foldl (add_trailer api allowed) acc ps) n =
     (if n \<in> set allowed \<and> is_valid_trailer_field n \<and> filter (\<lambda>p. fst p = n) ps \<noteq> []
      then [snd (last (filter (\<lambda>p. fst p = n) ps))] else hm_get_all api acc n)"
  by (induction ps rule: rev_induct) (auto simp: add_trailer_def)

lemma encode_trailers_eq:
  assumes "e_kind e = EncChunked (Some allowed)"
  shows "\<exists>m. (\<forall>n. hm_get_all api m n =
       (if n \<in> set allowed \<and> is_valid_trailer_field n \<and> hm_get_all api trailers n \<noteq> []
        then [last (hm_get_all api trailers n)] else [])) \<and>
     encode_trailers api e trailers = Return (let lines = concat (map header_line (hm_iter api m)) in
       if lines = [] then None else Some \<lparr>eb_kind = Trailers ((''0'' @ CRLF, lines), CRLF)\<rparr>)"
proof -
  let ?m = "foldl (add_trailer api allowed) (hm_new api) (hm_iter api trailers)"
  have ne: "filter (\<lambda>p. fst p = n) (hm_iter api trailers) \<noteq> [] \<longleftrightarrow> hm_get_all api trailers n \<noteq> []" for n
    by (simp add: iter_get_all [symmetric])
  have "hm_get_all api ?m n =
       (if n \<in> set allowed \<and> is_valid_trailer_field n \<and> hm_get_all api trailers n \<noteq> []
        then [last (hm_get_all api trailers n)] else [])" for n
  proof -
    have "last (hm_get_all api trailers n) = snd (last (filter (\<lambda>p. fst p = n) (hm_iter api trailers)))"
      if "hm_get_all api trailers n \<noteq> []"
      using that ne [of n] last_map [of "filter (\<lambda>p. fst p = n) (hm_iter api trailers)" snd]
      by (simp only: iter_get_all simp_thms)
    then show ?thesis using ne [of n] unfolding foldl_add_trailer by auto
  qed
  moreover have "filter_trailers api allowed None (hm_new api) (hm_into_iter api trailers) = Return ?m"
    by (rule filter_trailers_fold [OF into_iter_iter])
  ultimately show ?thesis
    using assms by (intro exI [of _ ?m]) (simp add: encode_trailers_def write_headers_def Let_def)
qed

end

section \<open>Properties\<close>

text \<open>
  The chunk-size line of any \<open>usize\<close> fits the 18-byte array: neither \<open>expect\<close> of
  \<open>ChunkSize\<close> fires, the 8-bit length does not wrap, and the buffer holds the hexadecimal digits
  of the size followed by CRLF.
\<close>

theorem chunk_size_line_fits:
  assumes "len < 2 ^ 64"
  shows "\<exists>cs. chunk_size_new len = Return cs \<and> chunk_size_chunk cs = fmt_hex len @ CRLF \<and>
    chunk_size_remaining cs = length (fmt_hex len) + 2"
  using chunk_size_new_ok [OF assms] by (fastforce simp: chunk_size_chunk_length [symmetric])

theorem chunk_size_line_fits_witness:
  "\<exists>cs. chunk_size_new (2 ^ 64 - 1) = Return cs \<and>
     chunk_size_chunk cs = fmt_hex (2 ^ 64 - 1) @ CRLF \<and>
     chunk_size_remaining cs = length (fmt_hex (2 ^ 64 - 1)) + 2"
  by (rule chunk_size_line_fits) simp

text \<open>
  C16. A body with a Content-Length never exceeds it: whatever buffers the user sends, the bytes
  that are encoded are the first \<open>n\<close> bytes of the data, and \<open>end\<close> succeeds exactly when all \<open>n\<close>
  bytes were there, otherwise it reports how many are missing.
\<close>

theorem length_encoder_exact:
  assumes "bytes_crate B ok view" and "list_all ok ms" and "list_all (\<lambda>m. length (view m) < 2 ^ 64) ms"
  shows "\<exists>e'. encode_all B view (encoder_length n) ms = Return (e', take (unat n) (concat (map view ms))) \<and>
    (if length (concat (map view ms)) < unat n
     then \<exists>missing. encoder_end e' = Inl (NotEof missing) \<and>
            unat missing = unat n - length (concat (map view ms))
     else encoder_end e' = (Inr None :: not_eof + 'b encoded_buf option))"
proof -
  from bytes_crate.encode_all_length [OF assms, of "encoder_length n" n] obtain n'
    where n': "encode_all B view (encoder_length n) ms =
        Return ((encoder_length n)\<lparr>e_kind := EncLength n'\<rparr>, take (unat n) (concat (map view ms)))"
      "unat n' = unat n - length (concat (map view ms))"
    by (auto simp: encoder_length_def encoder_new_def)
  moreover have "n' = 0 \<longleftrightarrow> unat n \<le> length (concat (map view ms))"
    using n'(2) by (simp add: unat_eq_0 [symmetric])
  ultimately show ?thesis by (auto simp: encoder_end_def)
qed

theorem length_encoder_exact_witness:
  "\<exists>e'. encode_all bytes_api (\<lambda>b. b) (encoder_length 4) [''abc'', ''de''] = Return (e', ''abcd'') \<and>
     encoder_end e' = (Inr None :: not_eof + bytes encoded_buf option)"
  using length_encoder_exact [OF bytes_api.bytes_crate_axioms, of "[''abc'', ''de'']" 4] by simp

text \<open>
  A chunked body is the chunked coding of its data: each buffer becomes its size in
  hexadecimal, CRLF, the data, CRLF, and \<open>end\<close> gives the last chunk.
\<close>

theorem chunked_encoder_coding:
  assumes "bytes_crate B ok view" and "list_all ok ms" and "list_all (\<lambda>m. length (view m) < 2 ^ 64) ms"
  shows "encode_all B view encoder_chunked ms =
      Return (encoder_chunked, concat (map (\<lambda>m. fmt_hex (length (view m)) @ CRLF @ view m @ CRLF) ms)) \<and>
    (encoder_end encoder_chunked :: not_eof + 'b encoded_buf option) =
      Inr (Some \<lparr>eb_kind = ChunkedEnd (''0'' @ CRLF @ CRLF)\<rparr>)"
  using bytes_crate.encode_all_chunked [OF assms, of encoder_chunked None]
  by (simp add: encoder_chunked_def encoder_new_def encoder_end_def chunk_coding_def)

theorem chunked_encoder_coding_witness:
  "encode_all bytes_api (\<lambda>b. b) encoder_chunked [''abc''] =
     Return (encoder_chunked, fmt_hex 3 @ CRLF @ ''abc'' @ CRLF)"
  using chunked_encoder_coding [OF bytes_api.bytes_crate_axioms, of "[''abc'']", THEN conjunct1]
  by (simp add: numeral_3_eq_3)

text \<open>
  \<open>encode_and_end\<close> is \<open>encode\<close> followed by \<open>end\<close>: on a non-empty message and an encoder that is
  not at its end it returns without panic, appends to the write buffer the bytes \<open>encode\<close> and \<open>end\<close>
  would give, and allows keep-alive exactly when \<open>end\<close> succeeds and this is not the last message.
\<close>

theorem encode_and_end_is_encode_then_end:
  fixes dst :: "'b encoded_buf write_buf"
  assumes "bytes_crate B ok view" and "wb_ok (encoded_ok ok) (encoded_view view) dst"
    and "ok m" and "view m \<noteq> []" and "length (view m) < 2 ^ 64" and "\<not> encoder_is_eof e"
  shows "\<exists>dst' flag e' eb. encode_and_end B e m dst = Some (Return (dst', flag)) \<and>
    wb_ok (encoded_ok ok) (encoded_view view) dst' \<and> encode B e m = Return (e', eb) \<and>
    wb_view (encoded_view view) dst' = wb_view (encoded_view view) dst @ encoded_view view eb @
      (case encoder_end e' of Inr (Some t) \<Rightarrow> encoded_view view t | _ \<Rightarrow> []) \<and>
    flag = (\<not> e_is_last e \<and> encoder_end e' \<in> range Inr)"
  using bytes_crate.encode_and_end_splits [OF assms] .

theorem encode_and_end_is_encode_then_end_witness:
  "\<exists>dst' flag e' eb. encode_and_end bytes_api encoder_chunked ''ab'' (write_buf_new Queue) =
       Some (Return (dst', flag)) \<and>
     wb_ok (encoded_ok (\<lambda>_. True)) (encoded_view (\<lambda>b. b)) dst' \<and>
     encode bytes_api encoder_chunked ''ab'' = Return (e', eb) \<and>
     wb_view (encoded_view (\<lambda>b. b)) dst' =
       wb_view (encoded_view (\<lambda>b. b)) (write_buf_new Queue) @ encoded_view (\<lambda>b. b) eb @
       (case encoder_end e' of Inr (Some t) \<Rightarrow> encoded_view (\<lambda>b. b) t | _ \<Rightarrow> []) \<and>
     flag = (\<not> e_is_last encoder_chunked \<and>
       (encoder_end e' :: not_eof + bytes encoded_buf option) \<in> range Inr)"
  by (rule encode_and_end_is_encode_then_end [OF bytes_api.bytes_crate_axioms wb_ok_new])
    (simp_all add: encoder_is_eof_def encoder_chunked_def encoder_new_def)

text \<open>
  Only permitted trailers are sent: the trailer section holds, for each field name that the
  request announced in \<open>Trailer\<close> and that is valid in a trailer, the last of its values, and nothing
  else; when no field is left, no trailer section is produced. The \<open>expect\<close> on the current name
  does not fire.
\<close>

theorem encode_trailers_filtered:
  assumes "http_crate api" and "e_kind e = EncChunked (Some allowed)"
  shows "\<exists>m. (\<forall>n. hm_get_all api m n =
       (if n \<in> set allowed \<and> is_valid_trailer_field n \<and> hm_get_all api trailers n \<noteq> []
        then [last (hm_get_all api trailers n)] else [])) \<and>
     encode_trailers api e trailers = Return (let lines = concat (map header_line (hm_iter api m)) in
       if lines = [] then None else Some \<lparr>eb_kind = Trailers ((''0'' @ CRLF, lines), CRLF)\<rparr>)"
  using http_crate.encode_trailers_eq [OF assms] .

theorem encode_trailers_filtered_witness:
  "\<exists>m. (\<forall>n. hm_get_all list_api m n =
       (if n \<in> set [''x''] \<and> is_valid_trailer_field n \<and> hm_get_all list_api [(''x'', [''1'', ''2''])] n \<noteq> []
        then [last (hm_get_all list_api [(''x'', [''1'', ''2''])] n)] else [])) \<and>
     encode_trailers list_api \<lparr>e_kind = EncChunked (Some [''x'']), e_is_last = False\<rparr> [(''x'', [''1'', ''2''])] =
       Return (let lines = concat (map header_line (hm_iter list_api m)) in
         if lines = [] then None else Some \<lparr>eb_kind = Trailers ((''0'' @ CRLF, lines), CRLF)\<rparr>)"
  by (rule encode_trailers_filtered [OF list_http.http_crate_axioms]) simp

end
