(* ===== verification/Body_Roundtrip.thy ===== *)
theory Body_Roundtrip
  imports Decode_Props Encode_Props
begin

text \<open>
  Encoder against decoder: what the chunked encoder puts on the wire, the chunked decoder of a peer
  turns back into the same data, whatever reads its transport serves, and it stops exactly behind
  the last chunk.
\<close>

section \<open>The automaton on the output of the encoder\<close>

lemma hex_digit_hex_char: "d < 16 \<Longrightarrow> hex_digit (hex_char d) = Some (of_nat d)"
  by (auto simp: hex_digit_def hex_char_def Let_def)

lemma push_size_ok:
  assumes "k * 16 + d < 2 ^ 64" and "chunk_len c = of_nat k" and "d < 16"
  shows "push_size c (of_nat d) = (c\<lparr>chunk_len := of_nat (k * 16 + d)\<rparr>, Ready (Inr Size))"
proof -
  have "unat (of_nat k :: u64) = k" "unat (of_nat d :: u64) = d" "unat (of_nat (k * 16) :: u64) = k * 16"
    "unat (of_nat (k * 16 + d) :: u64) = k * 16 + d"
    using assms by (simp_all only: unat_of_nat_u64)
  then have "checked_mul (of_nat k :: u64) 16 = Some (of_nat (k * 16))"
    "checked_add (of_nat (k * 16) :: u64) (of_nat d) = Some (of_nat (k * 16 + d))"
    by (simp_all add: checked_mul_Some checked_add_Some del: of_nat_mult of_nat_add)
  then show ?thesis using assms(2) by (simp add: push_size_def del: of_nat_mult of_nat_add)
qed

lemma chunk_byte_hex:
  assumes "c_state c = Start \<or> c_state c = Size" and "d < 16" and "chunk_len c = of_nat k"
    and "k * 16 + d < 2 ^ 64"
  shows "chunk_byte c (hex_char d) = Inr (c\<lparr>chunk_len := of_nat (k * 16 + d), c_state := Size\<rparr>, [])"
  using assms push_size_ok [OF assms(4,3,2)] hex_digit_hex_char [OF assms(2)]
  by (auto simp: chunk_byte_def byte_action_def read_start_def read_size_def simp del: of_nat_mult of_nat_add)

lemma chunk_run_hex:
  "c_state c = Start \<Longrightarrow> chunk_len c = 0 \<Longrightarrow> n < 2 ^ 64 \<Longrightarrow>
   chunk_run c (fmt_hex n) = Inr (c\<lparr>chunk_len := of_nat n, c_state := Size\<rparr>, [])"
proof (induction n rule: fmt_hex.induct)
  case (1 n)
  show ?case
  proof (cases "n < 16")
    case True
    with "1.prems" chunk_byte_hex [of c n 0] show ?thesis by (simp add: fmt_hex.simps [of n])
  next
    case False
    have n: "n div 16 * 16 + n mod 16 = n" by (rule div_mult_mod_eq)
    let ?c = "c\<lparr>chunk_len := of_nat (n div 16), c_state := Size\<rparr>"
    from 1 False have "chunk_run c (fmt_hex (n div 16)) = Inr (?c, [])" by simp
    moreover have "chunk_byte ?c (hex_char (n mod 16)) = Inr (c\<lparr>chunk_len := of_nat n, c_state := Size\<rparr>, [])"
      using chunk_byte_hex [of ?c "n mod 16" "n div 16"] "1.prems"(3) by (simp only: n) simp
    ultimately show ?thesis using False by (simp add: fmt_hex.simps [of n] chunk_run_append)
  qed
qed

lemma hex_digit_CR: "hex_digit CR = None"
  by (simp add: hex_digit_def)

lemma chunk_run_CRLF_size:
  "c_state c = Size \<Longrightarrow>
   chunk_run c CRLF = Inr (c\<lparr>c_state := (if chunk_len c = 0 then EndCr else Body)\<rparr>, [])"
  by (simp add: chunk_byte_def byte_action_def read_size_def read_size_lf_def hex_digit_CR)

lemma chunk_run_CRLF_body:
  "c_state c = BodyCr \<Longrightarrow> chunk_run c CRLF = Inr (c\<lparr>c_state := Start\<rparr>, [])"
  by (simp add: chunk_byte_def byte_action_def read_body_cr_def read_body_lf_def)

lemma chunk_run_CRLF_end:
  "c_state c = EndCr \<Longrightarrow> trailers_buf c = None \<Longrightarrow> chunk_run c CRLF = Inr (c\<lparr>c_state := End\<rparr>, [])"
  by (simp add: chunk_byte_def byte_action_def read_end_cr_def read_end_lf_def)

lemma chunk_run_chunk:
  assumes "c_state c = Start" and "chunk_len c = 0" and "d \<noteq> []" and "length d < 2 ^ 64"
  shows "chunk_run c (chunk_coding d) = Inr (c, d)"
proof -
  let ?n = "of_nat (length d) :: u64"
  have n: "?n \<noteq> 0" "unat ?n = length d"
    using assms(3,4) unat_of_nat_u64 [OF assms(4)] by (metis length_0_conv unat_0, simp)
  let ?b = "c\<lparr>chunk_len := ?n, c_state := Body\<rparr>"
  have "chunk_run c (fmt_hex (length d) @ CRLF) = Inr (?b, [])"
    using chunk_run_appendI [OF chunk_run_hex [OF assms(1,2,4)]]
      chunk_run_CRLF_size [of "c\<lparr>chunk_len := ?n, c_state := Size\<rparr>"] n by fastforce
  moreover have "chunk_run ?b d = Inr (?b\<lparr>chunk_len := 0, c_state := BodyCr\<rparr>, d)"
    using chunk_run_body [of ?b d] assms(3) n by simp
  moreover have "chunk_run (?b\<lparr>chunk_len := 0, c_state := BodyCr\<rparr>) CRLF = Inr (c, [])"
    using chunk_run_CRLF_body [of "?b\<lparr>chunk_len := 0, c_state := BodyCr\<rparr>"] assms(1,2) by (cases c) simp
  ultimately show ?thesis
    by (simp only: chunk_coding_def append.assoc [symmetric] chunk_run_append sum.case prod.case) simp
qed

lemma chunk_run_chunks:
  "c_state c = Start \<Longrightarrow> chunk_len c = 0 \<Longrightarrow> list_all (\<lambda>d. d \<noteq> [] \<and> length d < 2 ^ 64) ds \<Longrightarrow>
   chunk_run c (concat (map chunk_coding ds)) = Inr (c, concat ds)"
  by (induction ds) (simp_all add: chunk_run_append chunk_run_chunk)

lemma fmt_hex_0: "fmt_hex 0 = ''0''"
  by (simp add: fmt_hex.simps hex_char_def char_of_def bit_0)

lemma chunk_run_last:
  assumes "c_state c = Start" and "chunk_len c = 0" and "trailers_buf c = None"
  shows "chunk_run c (''0'' @ CRLF @ CRLF) = Inr (c\<lparr>c_state := End\<rparr>, [])"
proof -
  have "chunk_run c ''0'' = Inr (c\<lparr>chunk_len := 0, c_state := Size\<rparr>, [])"
    using chunk_run_hex [OF assms(1,2), of 0] by (simp only: fmt_hex_0) simp
  moreover have "c\<lparr>chunk_len := 0, c_state := s\<rparr> = c\<lparr>c_state := s\<rparr>" for s using assms(2) by (cases c) simp
  ultimately show ?thesis
    using chunk_run_CRLF_size [of "c\<lparr>c_state := Size\<rparr>"] chunk_run_CRLF_end [of "c\<lparr>c_state := EndCr\<rparr>"] assms
    by (simp only: chunk_run_append sum.case prod.case) simp
qed

definition chunked_wire :: "bytes list \<Rightarrow> bytes" where
  "chunked_wire ds = concat (map chunk_coding ds) @ ''0'' @ CRLF @ CRLF"

lemma chunk_run_wire:
  assumes "list_all (\<lambda>d. d \<noteq> [] \<and> length d < 2 ^ 64) ds"
  shows "chunk_run (chunked_new mh ms) (chunked_wire ds) =
    Inr ((chunked_new mh ms)\<lparr>c_state := End\<rparr>, concat ds)"
  using chunk_run_chunks [OF _ _ assms, of "chunked_new mh ms"] chunk_run_last [of "chunked_new mh ms"]
  by (simp add: chunked_wire_def chunk_run_append chunked_new_def)

section \<open>A sequence of polls\<close>

text \<open>
  \<open>delivers d r out d' r'\<close>: polling the decoder again and again, some polls being not ready, has
  handed out the data \<open>out\<close> so far.
\<close>

inductive delivers ::
  "'h http_api \<Rightarrow> httparse_api \<Rightarrow> 'r reader \<Rightarrow> decoder \<Rightarrow> 'r \<Rightarrow> bytes \<Rightarrow> decoder \<Rightarrow> 'r \<Rightarrow> bool"
  for api hp rd where
  stop: "delivers api hp rd d r [] d r"
| data: "decode api hp rd d r = Some (d1, r1, Ready (Inr (FrameData b))) \<Longrightarrow>
    delivers api hp rd d1 r1 out d' r' \<Longrightarrow> delivers api hp rd d r (b @ out) d' r'"
| pending: "decode api hp rd d r = Some (d1, r1, Pending) \<Longrightarrow>
    delivers api hp rd d1 r1 out d' r' \<Longrightarrow> delivers api hp rd d r out d' r'"

context mem_read
begin

lemma decode_step_runs:
  assumes "chunked_wf c" and "decode api hp rd \<lparr>d_kind = Chunked c\<rparr> r = Some (d', r', res)"
    and "res = Ready (Inr (FrameData b)) \<or> res = Pending \<and> b = []"
  shows "\<exists>c' w. d' = \<lparr>d_kind = Chunked c'\<rparr> \<and> chunked_wf c' \<and> content r = w @ content r' \<and>
    chunk_run c w = Inr (c', b)"
proof (cases "c_state c = End")
  case True
  with assms show ?thesis
    by (intro exI [of _ c] exI [of _ "[]"])
      (auto simp: decode_def chunked_loop_End finish_chunked_def map_sum_def
        split: option.splits if_splits sum.splits)
next
  case False
  from chunked_loop_refines [OF assms(1) False, of api hp r] obtain c' r1 res1 w
    where "chunked_loop api hp rd c r = Some (c', r1, res1)" "content r = w @ content r1"
      "loop_ok api hp c w (c', res1)" by blast
  with assms(2,3) show ?thesis by (auto simp: decode_def loop_ok_def)
qed

lemma delivers_runs:
  assumes "delivers api hp rd d r out d' r'" and "d = \<lparr>d_kind = Chunked c\<rparr>" and "chunked_wf c"
  shows "\<exists>c' w. d' = \<lparr>d_kind = Chunked c'\<rparr> \<and> chunked_wf c' \<and> content r = w @ content r' \<and>
    chunk_run c w = Inr (c', out)"
  using assms
proof (induction arbitrary: c)
  case (stop d r)
  then show ?case by auto
next
  case (data d r d1 r1 b out d' r')
  from decode_step_runs [OF data.prems(2) data.hyps(1) [unfolded data.prems(1)]] obtain c1 w
    where 1: "d1 = \<lparr>d_kind = Chunked c1\<rparr>" "chunked_wf c1" "content r = w @ content r1"
      "chunk_run c w = Inr (c1, b)" by blast
  from data.IH [OF this(1,2)] 1 chunk_run_appendI show ?case by fastforce
next
  case (pending d r d1 r1 out d' r')
  from decode_step_runs [OF pending.prems(2) pending.hyps(1) [unfolded pending.prems(1)], of "[]"] obtain c1 w
    where 1: "d1 = \<lparr>d_kind = Chunked c1\<rparr>" "chunked_wf c1" "content r = w @ content r1"
      "chunk_run c w = Inr (c1, [])" by blast
  from pending.IH [OF this(1,2)] 1 chunk_run_appendI show ?case by fastforce
qed

end

text \<open>A run that ends in \<open>End\<close> fixes all other runs over the same stream.\<close>

lemma chunk_run_prefix:
  assumes full: "chunk_run c full = Inr (cE, out)" "c_state cE = End"
    and run: "chunk_run c w = Inr (c', out')" and eq: "full @ rest = w @ rest'"
  shows "\<exists>v out''. full = w @ v \<and> rest' = v @ rest \<and> out = out' @ out'' \<and> chunk_run c' v = Inr (cE, out'')"
proof -
  from eq consider us where "full = w @ us" "us @ rest = rest'" | us where "full @ us = w" "rest = us @ rest'"
    by (auto simp: append_eq_append_conv2)
  then show ?thesis
  proof cases
    case 1
    with full run show ?thesis
      by (auto simp: chunk_run_append split: sum.splits prod.splits)
  next
    case 2
    with full run have "us = []"
      using chunk_run_End [of cE us] by (auto simp: chunk_run_append split: sum.splits prod.splits)
    with 2 full run show ?thesis by auto
  qed
qed

lemma chunk_run_End_error: "c_state c = End \<Longrightarrow> chunk_run c w \<noteq> Inl (Some e)"
  by (cases w) (simp_all add: chunk_byte_def)

text \<open>On a reader that is always ready a step consumes something as long as there is something.\<close>

context ready_read
begin

lemma ready_step:
  assumes wf: "chunked_wf c" and st: "c_state c \<noteq> End" and ne: "content r \<noteq> []"
  shows "\<exists>c' r' buf res w. chunked_step rd c r = (c', r', buf, res) \<and> content r = w @ content r' \<and>
    w \<noteq> [] \<and> step_ok c w (c', buf, res)"
proof -
  obtain c' r' buf res where step: "chunked_step rd c r = (c', r', buf, res)" by (metis prod_cases4)
  let ?n = "if c_state c = Body then min (unat (chunk_len c)) usize_max else 1"
  from always_ready [of r ?n] obtain r1 bs where rd: "rd r ?n = (r1, Ready (Inr bs))" by blast
  have "0 < ?n" using wf by (auto simp: chunked_wf_def unat_gt_zero usize_max_def)
  with progress [of r ?n r1] rd ne have bs: "bs \<noteq> []" by auto
  have "r' = r1"
  proof (cases "c_state c = Body")
    case True
    with rd bs step show ?thesis by (auto simp: chunked_step_def read_body_def Let_def)
  next
    case False
    with rd bs have "read_byte rd r = (r1, Ready (Inr (hd bs)))" by (cases bs) (simp_all add: read_byte_def)
    with False st step show ?thesis
      by (cases "c_state c") (auto simp: chunked_step_def with_byte_def split: prod.splits)
  qed
  moreover from step_refines [OF wf st step] obtain w
    where "content r = w @ content r'" "step_ok c w (c', buf, res)" by blast
  ultimately show ?thesis using step read_data [OF rd] bs by fastforce
qed

lemma ready_loop:
  assumes "chunked_wf c" and "c_state c \<noteq> End" and "chunk_run c full = Inr (cE, out)"
    and "c_state cE = End" and "trailers_buf cE = None" and "content r = full @ rest"
  shows "\<exists>c' r' d. chunked_loop api hp rd c r = Some (c', r', Ready (Inr (FrameData d))) \<and>
    (d = [] \<longrightarrow> c_state c' = End)"
  using assms
proof (induction "length (content r)" arbitrary: c r full out rule: less_induct)
  case less
  from less.prems have "full \<noteq> []" by auto
  with less.prems have "content r \<noteq> []" by simp
  from ready_step [OF less.prems(1,2) this] obtain c1 r1 buf res w
    where step: "chunked_step rd c r = (c1, r1, buf, res)" and w: "content r = w @ content r1" "w \<noteq> []"
      and ok: "step_ok c w (c1, buf, res)" by blast
  note unfold = chunked_loop.simps [of api hp rd c r] step
  have no_error: False if "chunk_run c w = Inl (Some e)" for e
  proof -
    from w(1) less.prems(6) consider us where "full = w @ us" | us where "w = full @ us"
      by (auto simp: append_eq_append_conv2)
    then show False
      using that less.prems(3) chunk_run_End_error [OF less.prems(4)]
      by cases (auto simp: chunk_run_append split: sum.splits prod.splits)
  qed
  from ok w(2) no_error obtain st where res: "res = Ready (Inr st)" and wf: "chunked_wf (c1\<lparr>c_state := st\<rparr>)"
    and run: "chunk_run c w = Inr (c1\<lparr>c_state := st\<rparr>, case buf of None \<Rightarrow> [] | Some d \<Rightarrow> d)"
    and data: "\<forall>d. buf = Some d \<longrightarrow> d \<noteq> [] \<and> st \<noteq> End"
    by (auto simp: step_ok_def split: poll.splits sum.splits)
  from chunk_run_prefix [OF less.prems(3,4) run] less.prems(6) w(1) obtain v out''
    where v: "content r1 = v @ rest" "chunk_run (c1\<lparr>c_state := st\<rparr>) v = Inr (cE, out'')" by metis
  show ?case
  proof (cases "st = End")
    case True
    with v chunk_run_End [of "c1\<lparr>c_state := st\<rparr>"] have "v = []" by simp
    with v True less.prems(5) have "trailers_buf c1 = None" by auto
    with True res data show ?thesis by (cases buf) (auto simp: unfold Let_def finish_chunked_def)
  next
    case False
    show ?thesis
    proof (cases buf)
      case None
      from w have "length (content r1) < length (content r)" by simp
      from less.hyps [OF this wf _ v(2) less.prems(4,5) v(1)] False None res
      show ?thesis by (auto simp: unfold Let_def)
    next
      case (Some d)
      with False res data show ?thesis by (auto simp: unfold Let_def)
    qed
  qed
qed

lemma ready_delivers:
  assumes "chunked_wf c" and "chunk_run c full = Inr (cE, out)" and "c_state cE = End"
    and "trailers_buf cE = None" and "content r = full @ rest"
  shows "\<exists>c' r'. delivers api hp rd \<lparr>d_kind = Chunked c\<rparr> r out \<lparr>d_kind = Chunked c'\<rparr> r' \<and>
    c_state c' = End \<and> content r' = rest"
  using assms
proof (induction "length full" arbitrary: c r full out rule: less_induct)
  case less
  show ?case
  proof (cases "c_state c = End")
    case True
    with less.prems chunk_run_End [of c full] have "full = []" by simp
    with less.prems True show ?thesis by (auto intro: delivers.stop)
  next
    case False
    from ready_loop [OF less.prems(1) False less.prems(2-5), of api hp] obtain c1 r1 d
      where loop: "chunked_loop api hp rd c r = Some (c1, r1, Ready (Inr (FrameData d)))" by blast
    then have dec: "decode api hp rd \<lparr>d_kind = Chunked c\<rparr> r =
        Some (\<lparr>d_kind = Chunked c1\<rparr>, r1, Ready (Inr (FrameData d)))" by (simp add: decode_def)
    from chunked_loop_refines [OF less.prems(1) False, of api hp r] loop obtain w
      where w: "content r = w @ content r1" "w \<noteq> []" "chunked_wf c1" "chunk_run c w = Inr (c1, d)"
      by (auto simp: loop_ok_def)
    from chunk_run_prefix [OF less.prems(2,3) w(4)] less.prems(5) w(1) obtain v out''
      where v: "full = w @ v" "content r1 = v @ rest" "out = d @ out''" "chunk_run c1 v = Inr (cE, out'')"
      by metis
    from v(1) w(2) have "length v < length full" by simp
    from less.hyps [OF this w(3) v(4) less.prems(3,4) v(2)] dec v(3) show ?thesis
      by (auto intro: delivers.data)
  qed
qed

end

section \<open>Properties\<close>

text \<open>
  C1. What the chunked encoder sends, the chunked decoder returns: for a reader that is ready, cut
  into whatever reads it likes, the decoder delivers exactly the data of the encoded buffers,
  reaches its end of file, and leaves the bytes that follow the body in the stream.
\<close>

theorem chunked_body_roundtrip:
  assumes "bytes_crate B ok view" and "ready_read rd content"
    and "list_all (\<lambda>m. ok m \<and> view m \<noteq> [] \<and> length (view m) < 2 ^ 64) ms"
    and "encode_all B view encoder_chunked ms = Return (e, body)"
    and "encoder_end e = Inr (Some end_buf)"
    and "content r = body @ encoded_view view end_buf @ rest"
  shows "\<exists>d r'. delivers api hp rd (decoder_new CHUNKED mh mhs) r (concat (map view ms)) d r' \<and>
    decoder_is_eof d \<and> content r' = rest"
proof -
  from assms(3) have "list_all ok ms" "list_all (\<lambda>m. length (view m) < 2 ^ 64) ms"
    and views: "list_all (\<lambda>d. d \<noteq> [] \<and> length d < 2 ^ 64) (map view ms)"
    by (auto simp: list_all_iff)
  from bytes_crate.encode_all_chunked [OF assms(1) this(1,2), of encoder_chunked None] assms(4,5,6)
  have "content r = chunked_wire (map view ms) @ rest"
    by (auto simp: encoder_chunked_def encoder_new_def encoder_end_def chunked_wire_def o_def)
  from ready_read.ready_delivers [OF assms(2) chunked_wf_new chunk_run_wire [OF views] _ _ this]
  show ?thesis
    by (force simp: decoder_new_def decoder_chunked_def chunked_new_def decoder_is_eof_def)
qed

theorem chunked_body_roundtrip_witness:
  "\<exists>d r'. delivers list_api partial_parser slice_read (decoder_new CHUNKED None None)
       (chunk_coding ''ab'' @ (''0'' @ CRLF @ CRLF) @ ''next'') ''ab'' d r' \<and>
     decoder_is_eof d \<and> r' = ''next''"
proof -
  have "encode_all bytes_api (\<lambda>b. b) encoder_chunked [''ab''] = Return (encoder_chunked, chunk_coding ''ab'')"
    using bytes_api.encode_all_chunked [of "[''ab'']" encoder_chunked None]
    by (simp add: encoder_chunked_def encoder_new_def)
  from chunked_body_roundtrip [OF bytes_api.bytes_crate_axioms slice.ready_read_axioms _ this,
      of "\<lparr>eb_kind = ChunkedEnd (''0'' @ CRLF @ CRLF)\<rparr>" "chunk_coding ''ab'' @ (''0'' @ CRLF @ CRLF) @ ''next''" "''next''"
      list_api partial_parser None None]
  show ?thesis by (simp add: encoder_end_def encoder_chunked_def encoder_new_def)
qed

text \<open>
  C34. Nothing is invented or lost on the way, whatever the transport does: at any point of any
  sequence of polls, ready or not, the data delivered so far is a prefix of the data encoded, and
  when the decoder is at its end of file all of it has been delivered and exactly the body has been
  taken off the stream.
\<close>

theorem chunked_body_no_corruption:
  assumes "mem_read rd content" and "list_all (\<lambda>d. d \<noteq> [] \<and> length d < 2 ^ 64) ds"
    and "content r = concat (map chunk_coding ds) @ (''0'' @ CRLF @ CRLF) @ rest"
    and "delivers api hp rd (decoder_new CHUNKED mh mhs) r out d r'"
  shows "(\<exists>more. concat ds = out @ more) \<and> (decoder_is_eof d \<longrightarrow> out = concat ds \<and> content r' = rest)"
proof -
  let ?c = "chunked_new mh mhs"
  from assms(3) have r: "chunked_wire ds @ rest = content r" by (simp add: chunked_wire_def)
  from mem_read.delivers_runs [OF assms(1,4), of ?c] chunked_wf_new obtain c' w
    where d: "d = \<lparr>d_kind = Chunked c'\<rparr>" and w: "content r = w @ content r'" "chunk_run ?c w = Inr (c', out)"
    by (auto simp: decoder_new_def decoder_chunked_def)
  from chunk_run_prefix [OF chunk_run_wire [OF assms(2)] _ w(2)] r w(1) obtain v more
    where "content r' = v @ rest" "concat ds = out @ more"
      "chunk_run c' v = Inr (?c\<lparr>c_state := End\<rparr>, more)"
    by (metis chunked.select_convs(1) chunked.surjective chunked.update_convs(1))
  with chunk_run_End [of c' v] show ?thesis by (auto simp: d decoder_is_eof_def)
qed

theorem chunked_body_no_corruption_witness:
  "\<exists>d out r'. delivers list_api partial_parser slice_read (decoder_new CHUNKED None None)
       (chunk_coding ''ab'' @ ''0'' @ CRLF @ CRLF @ ''next'') out d r' \<and> out = ''ab'' \<and> r' = ''next''"
proof -
  let ?s = "chunk_coding ''ab'' @ ''0'' @ CRLF @ CRLF @ ''next''"
  obtain d r' where del: "delivers list_api partial_parser slice_read (decoder_new CHUNKED None None) ?s ''ab'' d r'"
    and eof: "decoder_is_eof d"
    using slice.ready_delivers [OF chunked_wf_new chunk_run_wire [of "[''ab'']" None None], of ?s "''next''"]
    by (fastforce simp: decoder_new_def decoder_chunked_def chunked_new_def decoder_is_eof_def chunked_wire_def)
  from chunked_body_no_corruption [OF slice.mem_read_axioms _ _ del, of "[''ab'']" "''next''"] eof del
  show ?thesis by auto
qed

end
