(* ===== verification/Read_Strategy.thy ===== *)
theory Read_Strategy
  imports Write_Buf
begin

text \<open>
  \<open>ReadStrategy\<close> of \<open>proto/http1/io.rs\<close>: how large the next read should be. The arithmetic is on
  \<open>usize\<close>, with the wrap-around and the masked shift of the release profile.
\<close>

unbundle bit_operations_syntax

datatype read_strategy =
    Adaptive (rs_decrease_now: bool) (next_size: usize) (max_size: usize)
  | ExactSize usize

definition rs_with_max :: "usize \<Rightarrow> read_strategy" where
  "rs_with_max m = Adaptive False (of_nat INIT_BUFFER_SIZE) m"

definition rs_default :: read_strategy where
  "rs_default = rs_with_max (of_nat DEFAULT_MAX_BUFFER_SIZE)"

fun rs_next :: "read_strategy \<Rightarrow> usize" where
  "rs_next (Adaptive decrease_now next m) = next"
| "rs_next (ExactSize exact) = exact"

fun rs_max :: "read_strategy \<Rightarrow> usize" where
  "rs_max (Adaptive decrease_now next m) = m"
| "rs_max (ExactSize exact) = exact"

definition incr_power_of_two :: "usize \<Rightarrow> usize" where
  "incr_power_of_two n = saturating_mul n 2"

definition leading_zeros :: "usize \<Rightarrow> nat" where
  "leading_zeros w = length (takeWhile (\<lambda>i. \<not> bit w i) (rev [0..<64]))"

definition prev_power_of_two :: "usize \<Rightarrow> usize" where
  "prev_power_of_two n = drop_bit ((leading_zeros n + 2) mod 64) (- 1) + 1"

fun rs_record :: "read_strategy \<Rightarrow> usize \<Rightarrow> read_strategy" where
  "rs_record (Adaptive decrease_now next maximum) bytes_read =
     (if bytes_read \<ge> next
      then Adaptive False (min (incr_power_of_two next) maximum) maximum
      else
        let decr_to = prev_power_of_two next in
        if bytes_read < decr_to
        then (if decrease_now
              then Adaptive False (max decr_to (of_nat INIT_BUFFER_SIZE)) maximum
              else Adaptive True next maximum)
        else Adaptive False next maximum)"
| "rs_record (ExactSize exact) bytes_read = ExactSize exact"

section \<open>The arithmetic\<close>

lemma bit_word_unat: "bit (w :: 'a::len word) i \<longleftrightarrow> odd (unat w div 2 ^ i)"
  by (simp add: bit_iff_odd [symmetric] bit_unsigned_iff possible_bit_def)

lemma leading_zeros_eq:
  assumes "2 ^ k \<le> unat w" and "unat w < 2 ^ (k + 1)" and "k < 64"
  shows "leading_zeros w = 63 - k"
proof -
  have hi: "\<not> bit w i" if "k < i" for i
  proof -
    have "(2 :: nat) ^ (k + 1) \<le> 2 ^ i" using that by (intro power_increasing) simp_all
    with assms(2) show ?thesis by (simp add: bit_word_unat)
  qed
  have "unat w div 2 ^ k = 1"
    using assms(1,2) by (intro div_nat_eqI) simp_all
  then have lo: "bit w k" by (simp add: bit_word_unat)
  have split: "[0..<64] = [0..<k] @ k # [Suc k..<64]"
    using assms(3) upt_add_eq_append [of 0 k "64 - k"] upt_conv_Cons [of k 64] by simp
  have "takeWhile (\<lambda>i. \<not> bit w i) (rev [0..<64]) = rev [Suc k..<64]"
    using hi lo takeWhile_append2 [of "rev [Suc k..<64]" "\<lambda>i. \<not> bit w i" "k # rev [0..<k]"]
    by (simp add: split)
  then show ?thesis by (simp add: leading_zeros_def)
qed

lemma prev_power_of_two_eq:
  assumes "2 ^ k \<le> unat n" and "unat n < 2 ^ (k + 1)" and "1 < k" and "k < 64"
  shows "unat (prev_power_of_two n) = 2 ^ (k - 1)"
proof -
  have sh: "(leading_zeros n + 2) mod 64 = 65 - k"
    using leading_zeros_eq [OF assms(1,2,4)] assms(3,4) by simp
  have "unat (drop_bit (65 - k) (- 1 :: usize)) = 2 ^ (k - 1) - 1"
  proof -
    have "unat (drop_bit (65 - k) (- 1 :: usize)) = (2 ^ 64 - 1) div 2 ^ (65 - k)"
      by (simp only: unat_drop_bit_eq unat_minus_1_u64) (simp only: drop_bit_eq_div)
    also have "\<dots> = 2 ^ (k - 1) - 1"
    proof (rule div_nat_eqI)
      have e: "(2 :: nat) ^ 64 = 2 ^ (65 - k) * 2 ^ (k - 1)"
        using assms(3,4) by (simp flip: power_add)
      show "2 ^ (65 - k) * (2 ^ (k - 1) - 1) \<le> 2 ^ 64 - (1 :: nat)"
        unfolding e diff_mult_distrib2 by (intro diff_le_mono2) simp
      show "2 ^ 64 - 1 < (2 :: nat) ^ (65 - k) * Suc (2 ^ (k - 1) - 1)"
        unfolding e by simp
    qed
    finally show ?thesis .
  qed
  moreover have "(2 :: nat) ^ (k - 1) < 2 ^ 64" using assms(4) by (intro power_strict_increasing) simp_all
  ultimately show ?thesis unfolding prev_power_of_two_def sh by (simp add: unat_word_ariths)
qed

section \<open>The next read stays within its bounds\<close>

definition rs_ok :: "read_strategy \<Rightarrow> bool" where
  "rs_ok rs =
     (case rs of
        Adaptive decrease_now next m \<Rightarrow> INIT_BUFFER_SIZE \<le> unat next \<and> next \<le> m
      | ExactSize _ \<Rightarrow> True)"

lemma init_word: "unat (of_nat INIT_BUFFER_SIZE :: usize) = INIT_BUFFER_SIZE"
  by (rule unat_of_nat_u64) (simp add: INIT_BUFFER_SIZE_def)

lemma rs_ok_with_max: "MINIMUM_MAX_BUFFER_SIZE \<le> unat m \<Longrightarrow> rs_ok (rs_with_max m)"
  by (simp add: rs_ok_def rs_with_max_def MINIMUM_MAX_BUFFER_SIZE_def init_word word_le_nat_alt)

lemma rs_ok_default: "rs_ok rs_default"
  by (simp add: rs_default_def rs_ok_def rs_with_max_def INIT_BUFFER_SIZE_def DEFAULT_MAX_BUFFER_SIZE_def)

lemma incr_bounds: "unat n \<le> unat (incr_power_of_two n)" "unat (incr_power_of_two n) \<le> 2 * unat n"
  using unat_bound [of n]
  by (auto simp: incr_power_of_two_def saturating_mul_def checked_mul_def unat_word_ariths split: option.splits)

lemma prev_bounds:
  assumes "8 \<le> unat n"
  shows "2 * unat (prev_power_of_two n) \<le> unat n"
proof -
  from ex_power_ivl1 [of 2 "unat n"] assms obtain k where k: "2 ^ k \<le> unat n" "unat n < 2 ^ (k + 1)" by auto
  have "\<not> k \<le> 1" using k(2) assms power_increasing [of "k + 1" 2 "2 :: nat"] by auto
  moreover have "\<not> 64 \<le> k" using k(1) unat_bound [of n] power_increasing [of 64 k "2 :: nat"] by auto
  ultimately have "unat (prev_power_of_two n) = 2 ^ (k - 1)" "2 * 2 ^ (k - 1) = (2 :: nat) ^ k"
    using k prev_power_of_two_eq by (auto simp: power_eq_if)
  with k(1) show ?thesis by simp
qed

lemma rs_record_bounds:
  assumes "rs_ok rs"
  shows "rs_ok (rs_record rs bytes_read) \<and> rs_max (rs_record rs bytes_read) = rs_max rs \<and>
    unat (rs_next (rs_record rs bytes_read)) \<le> 2 * unat (rs_next rs) \<and>
    (rs_next (rs_record rs bytes_read) < rs_next rs \<longrightarrow>
       rs = Adaptive True (rs_next rs) (rs_max rs) \<and> 2 * unat bytes_read < unat (rs_next rs))"
proof (cases rs)
  case (Adaptive d n m)
  with assms have n: "INIT_BUFFER_SIZE \<le> unat n" "unat n \<le> unat m" by (simp_all add: rs_ok_def word_le_nat_alt)
  have p: "2 * unat (prev_power_of_two n) \<le> unat n"
    using prev_bounds [of n] n(1) by (simp add: INIT_BUFFER_SIZE_def)
  have "0 < unat n" using n(1) by (simp add: INIT_BUFFER_SIZE_def)
  show ?thesis
  proof (cases "bytes_read \<ge> n")
    case True
    with Adaptive n incr_bounds [of n] show ?thesis
      by (auto simp: rs_ok_def word_le_nat_alt word_less_nat_alt min_def)
  next
    case False
    show ?thesis
    proof (cases "bytes_read < prev_power_of_two n \<and> d")
      case True
      have "unat (max (prev_power_of_two n) (of_nat INIT_BUFFER_SIZE)) =
          max (unat (prev_power_of_two n)) INIT_BUFFER_SIZE"
        by (simp add: max_def word_le_nat_alt init_word)
      with Adaptive True False n p show ?thesis
        by (auto simp: rs_ok_def word_le_nat_alt word_less_nat_alt)
    next
      case nd: False
      with Adaptive False n show ?thesis by (auto simp: rs_ok_def word_le_nat_alt Let_def)
    qed
  qed
qed (simp add: rs_ok_def)

text \<open>
  The adaptive read size stays between the initial size and the configured maximum, at most
  doubles on a full read, and shrinks only on the second of two consecutive reads that used less
  than half of it.
\<close>

theorem read_strategy_bounds:
  assumes "rs_ok rs"
  shows "rs_ok (rs_record rs bytes_read) \<and> rs_max (rs_record rs bytes_read) = rs_max rs \<and>
    unat (rs_next (rs_record rs bytes_read)) \<le> 2 * unat (rs_next rs) \<and>
    (rs_next (rs_record rs bytes_read) < rs_next rs \<longrightarrow>
       rs = Adaptive True (rs_next rs) (rs_max rs) \<and> 2 * unat bytes_read < unat (rs_next rs))"
  by (rule rs_record_bounds [OF assms])

theorem read_strategy_bounds_witness:
  "rs_ok (rs_record rs_default 100) \<and> rs_max (rs_record rs_default 100) = rs_max rs_default"
  using read_strategy_bounds [OF rs_ok_default, of 100] by blast

end
