(* ===== verification/Buffered.thy ===== *)
theory Buffered
  imports Read_Strategy Errors Chunked_Spec
begin

text \<open>
  \<open>Buffered\<close> of \<open>proto/http1/io.rs\<close>: the transport with its read buffer and its write buffer. The
  transport itself (\<open>AsyncRead\<close>, \<open>AsyncWrite\<close>) and the helpers \<open>poll_read_buf\<close> and
  \<open>poll_write_buf\<close> of \<open>tokio_util\<close> are the fields of \<open>transport\<close>; what they promise is the locale
  \<open>transport_io\<close>. Of \<open>BytesMut\<close> the contents and the capacity are state; how much
  \<open>reserve\<close> allocates is a field as well.
\<close>

section \<open>State\<close>

record bytes_mut =
  bm_bytes :: bytes
  bm_cap :: nat

definition bm_new :: bytes_mut where
  "bm_new = \<lparr>bm_bytes = [], bm_cap = 0\<rparr>"

definition bm_split_to :: "bytes_mut \<Rightarrow> nat \<Rightarrow> bytes_mut \<times> bytes" where
  "bm_split_to bm n =
     (bm\<lparr>bm_bytes := drop n (bm_bytes bm), bm_cap := bm_cap bm - n\<rparr>, take n (bm_bytes bm))"

record ('io, 'b) transport =
  tr_is_write_vectored :: "'io \<Rightarrow> bool"
  tr_poll_read_buf :: "'io \<Rightarrow> bytes_mut \<Rightarrow> 'io \<times> bytes_mut \<times> (io_error + nat) poll"
  tr_poll_write :: "'io \<Rightarrow> bytes \<Rightarrow> 'io \<times> (io_error + nat) poll"
  tr_poll_write_buf :: "'io \<Rightarrow> 'b write_buf \<Rightarrow> 'io \<times> 'b write_buf \<times> (io_error + nat) poll"
  tr_poll_flush :: "'io \<Rightarrow> 'io \<times> (io_error + unit) poll"
  tr_poll_shutdown :: "'io \<Rightarrow> 'io \<times> (io_error + unit) poll"
  tr_reserve :: "bytes_mut \<Rightarrow> nat \<Rightarrow> bytes_mut"

record ('io, 'b) buffered =
  flush_pipeline :: bool
  b_io :: 'io
  partial_len :: "nat option"
  read_blocked :: bool
  read_buf :: bytes_mut
  read_buf_strategy :: read_strategy
  write_buf :: "'b write_buf"

section \<open>Operations\<close>

definition buffered_new :: "('io, 'b) transport \<Rightarrow> 'io \<Rightarrow> ('io, 'b) buffered" where
  "buffered_new T io =
     \<lparr>flush_pipeline = False, b_io = io, partial_len = None, read_blocked = False, read_buf = bm_new,
      read_buf_strategy = rs_default,
      write_buf = write_buf_new (if tr_is_write_vectored T io then Queue else Flatten)\<rparr>"

definition set_max_buf_size :: "('io, 'b) buffered \<Rightarrow> usize \<Rightarrow> ('io, 'b) buffered rust" where
  "set_max_buf_size b m =
     (if unat m \<ge> MINIMUM_MAX_BUFFER_SIZE
      then Return (b\<lparr>read_buf_strategy := rs_with_max m,
                     write_buf := (write_buf b)\<lparr>wb_max_buf_size := unat m\<rparr>\<rparr>)
      else Panic ''The max_buf_size cannot be smaller than 8192.'')"

definition set_read_buf_exact_size :: "('io, 'b) buffered \<Rightarrow> usize \<Rightarrow> ('io, 'b) buffered" where
  "set_read_buf_exact_size b sz = b\<lparr>read_buf_strategy := ExactSize sz\<rparr>"

definition set_write_strategy_flatten :: "('io, 'b) buffered \<Rightarrow> ('io, 'b) buffered" where
  "set_write_strategy_flatten b = b\<lparr>write_buf := set_strategy (write_buf b) Flatten\<rparr>"

definition set_write_strategy_queue :: "('io, 'b) buffered \<Rightarrow> ('io, 'b) buffered" where
  "set_write_strategy_queue b = b\<lparr>write_buf := set_strategy (write_buf b) Queue\<rparr>"

definition read_buf_remaining_mut :: "('io, 'b) buffered \<Rightarrow> nat" where
  "read_buf_remaining_mut b = bm_cap (read_buf b) - length (bm_bytes (read_buf b))"

definition can_headers_buf :: "('io, 'b) buffered \<Rightarrow> bool" where
  "can_headers_buf b \<longleftrightarrow> \<not> bl_remaining (wb_queue (write_buf b)) > 0"

text \<open>\<open>headers_buf\<close> hands out the head vector; its users append to it.\<close>

definition headers_buf_extend :: "('io, 'b) buffered \<Rightarrow> bytes \<Rightarrow> ('io, 'b) buffered" where
  "headers_buf_extend b bs =
     b\<lparr>write_buf := (write_buf b)\<lparr>wb_headers := cursor_extend (wb_headers (write_buf b)) bs\<rparr>\<rparr>"

definition buffered_buffer :: "'b buf_ops \<Rightarrow> ('io, 'b) buffered \<Rightarrow> 'b \<Rightarrow> ('io, 'b) buffered rust option" where
  "buffered_buffer ops b x =
     map_option (\<lambda>m. rust_bind m (\<lambda>wb. Return (b\<lparr>write_buf := wb\<rparr>)))
       (wb_buffer ops (\<lambda>y. y) ops (write_buf b) x)"

definition can_buffer :: "('io, 'b) buffered \<Rightarrow> bool" where
  "can_buffer b \<longleftrightarrow> flush_pipeline b \<or> wb_can_buffer (write_buf b)"

text \<open>The loop of \<open>consume_leading_lines\<close> counts the line ends at the front.\<close>

fun leading_lines :: "bytes \<Rightarrow> nat" where
  "leading_lines [] = 0"
| "leading_lines (x # xs) = (if x = CR \<or> x = LF then Suc (leading_lines xs) else 0)"

definition consume_leading_lines :: "('io, 'b) buffered \<Rightarrow> ('io, 'b) buffered" where
  "consume_leading_lines b =
     (if bm_bytes (read_buf b) \<noteq> []
      then b\<lparr>read_buf := fst (bm_split_to (read_buf b) (leading_lines (bm_bytes (read_buf b))))\<rparr>
      else b)"

definition poll_read_from_io ::
  "('io, 'b) transport \<Rightarrow> ('io, 'b) buffered \<Rightarrow> ('io, 'b) buffered \<times> (io_error + nat) poll" where
  "poll_read_from_io T b0 =
     (let b1 = b0\<lparr>read_blocked := False\<rparr>;
          next = unat (rs_next (read_buf_strategy b1));
          b2 = (if read_buf_remaining_mut b1 < next
                then b1\<lparr>read_buf := tr_reserve T (read_buf b1) next\<rparr> else b1) in
      case tr_poll_read_buf T (b_io b2) (read_buf b2) of
        (io, rb, res) \<Rightarrow>
          (let b3 = b2\<lparr>b_io := io, read_buf := rb\<rparr> in
           case res of
             Ready (Inr n) \<Rightarrow>
               (b3\<lparr>read_buf_strategy := rs_record (read_buf_strategy b3) (of_nat n)\<rparr>, Ready (Inr n))
           | Pending \<Rightarrow> (b3\<lparr>read_blocked := True\<rparr>, Pending)
           | Ready (Inl e) \<Rightarrow> (b3, Ready (Inl e))
           | Panicked m \<Rightarrow> (b3, Panicked m)))"

definition into_inner :: "('io, 'b) buffered \<Rightarrow> 'io \<times> bytes" where
  "into_inner b = (b_io b, bm_bytes (read_buf b))"

definition flush_io ::
  "('io, 'b) transport \<Rightarrow> ('io, 'b) buffered \<Rightarrow> ('io, 'b) buffered \<times> (io_error + unit) poll" where
  "flush_io T b = (case tr_poll_flush T (b_io b) of (io, res) \<Rightarrow> (b\<lparr>b_io := io\<rparr>, res))"

abbreviation write_zero :: io_error where
  "write_zero \<equiv> IoError WriteZero NoPayload"

partial_function (option) poll_flush_flattened ::
  "('io, 'b) transport \<Rightarrow> ('io, 'b) buffered \<Rightarrow> (('io, 'b) buffered \<times> (io_error + unit) poll) option" where
  "poll_flush_flattened T b =
     (case tr_poll_write T (b_io b) (cursor_chunk (wb_headers (write_buf b))) of
        (io, Ready (Inr n)) \<Rightarrow>
          (let headers = cursor_advance (wb_headers (write_buf b)) n;
               b' = b\<lparr>b_io := io, write_buf := (write_buf b)\<lparr>wb_headers := headers\<rparr>\<rparr> in
           if cursor_remaining headers = 0
           then Some (flush_io T (b'\<lparr>write_buf := (write_buf b')\<lparr>wb_headers := cursor_reset headers\<rparr>\<rparr>))
           else if n = 0 then Some (b', Ready (Inl write_zero))
           else poll_flush_flattened T b')
      | (io, Ready (Inl e)) \<Rightarrow> Some (b\<lparr>b_io := io\<rparr>, Ready (Inl e))
      | (io, Pending) \<Rightarrow> Some (b\<lparr>b_io := io\<rparr>, Pending)
      | (io, Panicked m) \<Rightarrow> Some (b\<lparr>b_io := io\<rparr>, Panicked m))"

partial_function (option) flush_queue_loop ::
  "('io, 'b) transport \<Rightarrow> ('io, 'b) buffered \<Rightarrow> (('io, 'b) buffered \<times> (io_error + unit) poll) option" where
  "flush_queue_loop T b =
     (case tr_poll_write_buf T (b_io b) (write_buf b) of
        (io, wb, Ready (Inr n)) \<Rightarrow>
          (let b' = b\<lparr>b_io := io, write_buf := wb\<rparr> in
           if wb_remaining wb = 0 then Some (flush_io T b')
           else if n = 0 then Some (b', Ready (Inl write_zero))
           else flush_queue_loop T b')
      | (io, wb, Ready (Inl e)) \<Rightarrow> Some (b\<lparr>b_io := io, write_buf := wb\<rparr>, Ready (Inl e))
      | (io, wb, Pending) \<Rightarrow> Some (b\<lparr>b_io := io, write_buf := wb\<rparr>, Pending)
      | (io, wb, Panicked m) \<Rightarrow> Some (b\<lparr>b_io := io, write_buf := wb\<rparr>, Panicked m))"

definition buffered_poll_flush ::
  "('io, 'b) transport \<Rightarrow> ('io, 'b) buffered \<Rightarrow> (('io, 'b) buffered \<times> (io_error + unit) poll) option" where
  "buffered_poll_flush T b =
     (if flush_pipeline b \<and> bm_bytes (read_buf b) \<noteq> [] then Some (b, Ready (Inr ()))
      else if wb_remaining (write_buf b) = 0 then Some (flush_io T b)
      else case wb_strategy (write_buf b) of
             Flatten \<Rightarrow> poll_flush_flattened T b
           | Queue \<Rightarrow> flush_queue_loop T b)"

text \<open>\<open>impl MemRead for Buffered\<close>.\<close>

definition read_mem :: "('io, 'b) transport \<Rightarrow> ('io, 'b) buffered reader" where
  "read_mem T b len =
     (if bm_bytes (read_buf b) \<noteq> []
      then (case bm_split_to (read_buf b) (min len (length (bm_bytes (read_buf b)))) of
              (rb, bs) \<Rightarrow> (b\<lparr>read_buf := rb\<rparr>, Ready (Inr bs)))
      else (case poll_read_from_io T b of
              (b', Ready (Inr n)) \<Rightarrow>
                (case bm_split_to (read_buf b') (min len n) of
                   (rb, bs) \<Rightarrow> (b'\<lparr>read_buf := rb\<rparr>, Ready (Inr bs)))
            | (b', Ready (Inl e)) \<Rightarrow> (b', Ready (Inl e))
            | (b', Pending) \<Rightarrow> (b', Pending)
            | (b', Panicked m) \<Rightarrow> (b', Panicked m)))"

text \<open>
  \<open>parse\<close>, generic in the transaction: \<open>parse_headers ctx buf partial_len\<close> may update the parse
  context (cached headers, informational callback) and takes what it parsed off the buffer.
\<close>

type_synonym ('ctx, 'msg) head_parser =
  "'ctx \<Rightarrow> bytes_mut \<Rightarrow> nat option \<Rightarrow> ('ctx \<times> bytes_mut \<times> (parse_error + 'msg option)) rust option"

partial_function (option) buffered_parse ::
  "('ctx, 'msg) head_parser \<Rightarrow> ('io, 'b) transport \<Rightarrow> 'ctx \<Rightarrow> ('io, 'b) buffered \<Rightarrow>
   ('ctx \<times> ('io, 'b) buffered \<times> (error + 'msg) poll) option" where
  "buffered_parse parse_headers T ctx b =
     (case parse_headers ctx (read_buf b) (partial_len b) of
        None \<Rightarrow> None
      | Some (Panic m) \<Rightarrow> Some (ctx, b, Panicked m)
      | Some (Return (ctx', rb, Inl e)) \<Rightarrow> Some (ctx', b\<lparr>read_buf := rb\<rparr>, Ready (Inl (error_of_parse e)))
      | Some (Return (ctx', rb, Inr (Some msg))) \<Rightarrow>
          Some (ctx', b\<lparr>read_buf := rb, partial_len := None\<rparr>, Ready (Inr msg))
      | Some (Return (ctx', rb, Inr None)) \<Rightarrow>
          (let curr_len = length (bm_bytes rb) in
           if curr_len \<ge> unat (rs_max (read_buf_strategy b))
           then Some (ctx', b\<lparr>read_buf := rb\<rparr>, Ready (Inl new_too_large))
           else
             let b' = b\<lparr>read_buf := rb, partial_len := (if curr_len > 0 then Some curr_len else None)\<rparr> in
             case poll_read_from_io T b' of
               (b'', Ready (Inr n)) \<Rightarrow>
                 (if n = 0 then Some (ctx', b'', Ready (Inl new_incomplete))
                  else buffered_parse parse_headers T ctx' b'')
             | (b'', Ready (Inl e)) \<Rightarrow> Some (ctx', b'', Ready (Inl (new_io e)))
             | (b'', Pending) \<Rightarrow> Some (ctx', b'', Pending)
             | (b'', Panicked m) \<Rightarrow> Some (ctx', b'', Panicked m)))"

end
