(* ===== verification/Buffered_Props.thy ===== *)
theory Buffered_Props
  imports Buffered
begin

text \<open>
  What \<open>Buffered\<close> promises over a transport that keeps its contract: the bytes a body decoder reads
  are the bytes of the stream in order, and flushing sends the buffered bytes in order, each once,
  in finitely many writes.
\<close>

section \<open>The contract of the transport\<close>

text \<open>
  \<open>incoming io\<close> is what the peer will still deliver, \<open>sent io\<close> what has been handed to the
  transport so far.
\<close>

locale transport_io =
  fixes T :: "('io, 'b) transport" and incoming :: "'io \<Rightarrow> bytes" and sent :: "'io \<Rightarrow> bytes"
    and ok :: "'b \<Rightarrow> bool" and view :: "'b \<Rightarrow> bytes"
  assumes read_some: "tr_poll_read_buf T io bm = (io', bm', Ready (Inr n)) \<Longrightarrow>
      \<exists>bs. bm_bytes bm' = bm_bytes bm @ bs \<and> length bs = n \<and> incoming io = bs @ incoming io' \<and>
        sent io' = sent io"
    and read_none: "tr_poll_read_buf T io bm = (io', bm', res) \<Longrightarrow> (\<And>n. res \<noteq> Ready (Inr n)) \<Longrightarrow>
      bm_bytes bm' = bm_bytes bm \<and> incoming io' = incoming io \<and> sent io' = sent io \<and> \<not> is_panicked res"
    and write_some: "tr_poll_write T io bs = (io', Ready (Inr n)) \<Longrightarrow>
      n \<le> length bs \<and> sent io' = sent io @ take n bs \<and> incoming io' = incoming io"
    and write_none: "tr_poll_write T io bs = (io', res) \<Longrightarrow> (\<And>n. res \<noteq> Ready (Inr n)) \<Longrightarrow>
      sent io' = sent io \<and> incoming io' = incoming io \<and> \<not> is_panicked res"
    and write_buf_some: "wb_ok ok view wb \<Longrightarrow> tr_poll_write_buf T io wb = (io', wb', Ready (Inr n)) \<Longrightarrow>
      n \<le> length (wb_view view wb) \<and> sent io' = sent io @ take n (wb_view view wb) \<and>
      wb_view view wb' = drop n (wb_view view wb) \<and> wb_ok ok view wb' \<and> incoming io' = incoming io"
    and write_buf_none: "wb_ok ok view wb \<Longrightarrow> tr_poll_write_buf T io wb = (io', wb', res) \<Longrightarrow>
      (\<And>n. res \<noteq> Ready (Inr n)) \<Longrightarrow>
      sent io' = sent io \<and> wb' = wb \<and> incoming io' = incoming io \<and> \<not> is_panicked res"
    and flush: "tr_poll_flush T io = (io', fres) \<Longrightarrow>
      sent io' = sent io \<and> incoming io' = incoming io \<and> \<not> is_panicked fres"
    and reserve: "bm_bytes (tr_reserve T bm n) = bm_bytes bm"

definition stream :: "('io \<Rightarrow> bytes) \<Rightarrow> ('io, 'b) buffered \<Rightarrow> bytes" where
  "stream incoming b = bm_bytes (read_buf b) @ incoming (b_io b)"

definition outgoing :: "('io \<Rightarrow> bytes) \<Rightarrow> ('b \<Rightarrow> bytes) \<Rightarrow> ('io, 'b) buffered \<Rightarrow> bytes" where
  "outgoing sent view b = sent (b_io b) @ wb_view view (write_buf b)"

definition buffered_ok :: "('b \<Rightarrow> bool) \<Rightarrow> ('b \<Rightarrow> bytes) \<Rightarrow> ('io, 'b) buffered \<Rightarrow> bool" where
  "buffered_ok ok view b \<longleftrightarrow> wb_ok ok view (write_buf b) \<and> rs_ok (read_buf_strategy b)"

lemma wb_remaining_view: "wb_ok ok view wb \<Longrightarrow> wb_remaining wb = length (wb_view view wb)"
  by (simp add: wb_remaining_def wb_view_def wb_ok_def buf_list_ok_def buf_list_view_def
      cursor_remaining_chunk)

lemma take_drop_append: "take n xs @ drop n xs @ ys = xs @ ys"
  by (simp flip: append.assoc)

context transport_io
begin

text \<open>Reading moves bytes from the transport into the read buffer and touches nothing else.\<close>

lemma poll_read_from_io_ok:
  assumes "poll_read_from_io T b = (b', res)"
  shows "stream incoming b' = stream incoming b \<and> write_buf b' = write_buf b \<and> sent (b_io b') = sent (b_io b) \<and>
    \<not> is_panicked res \<and> (rs_ok (read_buf_strategy b) \<longrightarrow> rs_ok (read_buf_strategy b')) \<and>
    (case res of
       Ready (Inr n) \<Rightarrow> length (bm_bytes (read_buf b')) = length (bm_bytes (read_buf b)) + n
     | _ \<Rightarrow> bm_bytes (read_buf b') = bm_bytes (read_buf b))"
proof -
  define rb where "rb = (if read_buf_remaining_mut b < unat (rs_next (read_buf_strategy b))
    then tr_reserve T (read_buf b) (unat (rs_next (read_buf_strategy b))) else read_buf b)"
  have rb: "bm_bytes rb = bm_bytes (read_buf b)" by (simp add: rb_def reserve)
  obtain io' rb' r where rd: "tr_poll_read_buf T (b_io b) rb = (io', rb', r)" by (metis prod_cases3)
  have eq: "poll_read_from_io T b =
      (case r of
         Ready (Inr n) \<Rightarrow> (b\<lparr>read_blocked := False, b_io := io', read_buf := rb',
             read_buf_strategy := rs_record (read_buf_strategy b) (of_nat n)\<rparr>, Ready (Inr n))
       | Pending \<Rightarrow> (b\<lparr>read_blocked := True, b_io := io', read_buf := rb'\<rparr>, Pending)
       | Ready (Inl e) \<Rightarrow> (b\<lparr>read_blocked := False, b_io := io', read_buf := rb'\<rparr>, Ready (Inl e))
       | Panicked m \<Rightarrow> (b\<lparr>read_blocked := False, b_io := io', read_buf := rb'\<rparr>, Panicked m))"
    using rd by (auto simp: poll_read_from_io_def rb_def read_buf_remaining_mut_def Let_def
        split: poll.splits sum.splits if_splits)
  show ?thesis
  proof (cases "\<exists>n. r = Ready (Inr n)")
    case True
    then obtain n where r: "r = Ready (Inr n)" ..
    from read_some [OF rd [unfolded r]] assms [unfolded eq r] rb rs_record_bounds show ?thesis
      by (auto simp: stream_def)
  next
    case False
    then have "\<And>n. r \<noteq> Ready (Inr n)" by blast
    from read_none [OF rd this] assms [unfolded eq] rb False show ?thesis
      by (auto simp: stream_def split: poll.splits sum.splits)
  qed
qed

lemma read_mem_ok: "mem_read (read_mem T) (stream incoming)"
proof
  fix b n b' bs
  assume rd: "read_mem T b n = (b', Ready (Inr bs))"
  show "stream incoming b = bs @ stream incoming b' \<and> length bs \<le> n"
  proof (cases "bm_bytes (read_buf b) = []")
    case False
    with rd show ?thesis by (auto simp: read_mem_def bm_split_to_def stream_def)
  next
    case True
    obtain b1 res where p: "poll_read_from_io T b = (b1, res)" by fastforce
    with rd True obtain k where "res = Ready (Inr k)" by (auto simp: read_mem_def split: poll.splits sum.splits)
    with poll_read_from_io_ok [OF p] rd True p show ?thesis
      by (auto simp: read_mem_def bm_split_to_def stream_def take_drop_append)
  qed
next
  fix b n b'
  assume rd: "read_mem T b n = (b', Pending)"
  then have "bm_bytes (read_buf b) = []" "poll_read_from_io T b = (b', Pending)"
    by (auto simp: read_mem_def bm_split_to_def split: prod.splits poll.splits sum.splits if_splits)
  with poll_read_from_io_ok show "stream incoming b' = stream incoming b" by blast
next
  fix b n b' e
  assume rd: "read_mem T b n = (b', Ready (Inl e))"
  then have "bm_bytes (read_buf b) = []" "poll_read_from_io T b = (b', Ready (Inl e))"
    by (auto simp: read_mem_def bm_split_to_def split: prod.splits poll.splits sum.splits if_splits)
  with poll_read_from_io_ok show "stream incoming b' = stream incoming b" by blast
next
  fix b n b' m
  show "read_mem T b n \<noteq> (b', Panicked m)"
  proof
    assume "read_mem T b n = (b', Panicked m)"
    then have "poll_read_from_io T b = (b', Panicked m)"
      by (auto simp: read_mem_def bm_split_to_def split: prod.splits poll.splits sum.splits if_splits)
    with poll_read_from_io_ok [OF this] show False by simp
  qed
qed

end

section \<open>Flushing\<close>

text \<open>What a flush may do: the bytes on their way stay the same, and success means that all are sent.\<close>

definition flush_ok ::
  "('io \<Rightarrow> bytes) \<Rightarrow> ('io \<Rightarrow> bytes) \<Rightarrow> ('b \<Rightarrow> bool) \<Rightarrow> ('b \<Rightarrow> bytes) \<Rightarrow>
   ('io, 'b) buffered \<Rightarrow> ('io, 'b) buffered \<times> (io_error + unit) poll \<Rightarrow> bool" where
  "flush_ok incoming sent ok view b out =
     (case out of (b', res) \<Rightarrow>
        outgoing sent view b' = outgoing sent view b \<and> stream incoming b' = stream incoming b \<and>
        wb_ok ok view (write_buf b') \<and> read_buf b' = read_buf b \<and> partial_len b' = partial_len b \<and>
        flush_pipeline b' = flush_pipeline b \<and> \<not> is_panicked res \<and>
        (res = Ready (Inr ()) \<longrightarrow> wb_view view (write_buf b') = []))"

context transport_io
begin

abbreviation flushed ::
  "('io, 'b) buffered \<Rightarrow> ('io, 'b) buffered \<times> (io_error + unit) poll \<Rightarrow> bool" where
  "flushed \<equiv> flush_ok incoming sent ok view"

lemma flush_ok_trans:
  assumes "flushed b' out" and "outgoing sent view b' = outgoing sent view b"
    and "stream incoming b' = stream incoming b" and "read_buf b' = read_buf b"
    and "partial_len b' = partial_len b" and "flush_pipeline b' = flush_pipeline b"
  shows "flushed b out"
  using assms by (auto simp: flush_ok_def split: prod.splits)

lemma flush_io_ok:
  assumes "wb_ok ok view (write_buf b)" and "wb_view view (write_buf b) = []"
  shows "flushed b (flush_io T b)"
  using assms flush [of "b_io b"]
  by (auto simp: flush_io_def flush_ok_def outgoing_def stream_def split: prod.splits)

lemma flush_flattened_ok:
  "wb_ok ok view (write_buf b) \<Longrightarrow> wb_strategy (write_buf b) = Flatten \<Longrightarrow>
   \<exists>out. poll_flush_flattened T b = Some out \<and> flushed b out"
proof (induction "length (wb_view view (write_buf b))" arbitrary: b rule: less_induct)
  case less
  let ?h = "wb_headers (write_buf b)"
  obtain io' r where wr: "tr_poll_write T (b_io b) (cursor_chunk ?h) = (io', r)" by fastforce
  have view: "wb_view view (write_buf b) = cursor_chunk ?h"
    using less.prems by (simp add: wb_ok_def wb_view_def buf_list_view_def)
  have hok: "cursor_ok ?h" using less.prems by (simp add: wb_ok_def)
  show ?case
  proof (cases "\<exists>n. r = Ready (Inr n)")
    case True
    then obtain n where r: "r = Ready (Inr n)" ..
    from write_some [OF wr [unfolded r]] have n: "n \<le> length (cursor_chunk ?h)"
      "sent io' = sent (b_io b) @ take n (cursor_chunk ?h)" "incoming io' = incoming (b_io b)" by simp_all
    let ?h' = "cursor_advance ?h n"
    let ?b = "b\<lparr>b_io := io', write_buf := (write_buf b)\<lparr>wb_headers := ?h'\<rparr>\<rparr>"
    note adv = cursor_advance_ok [OF hok n(1)]
    have ok': "wb_ok ok view (write_buf ?b)" using less.prems adv by (simp add: wb_ok_def)
    have out: "outgoing sent view ?b = outgoing sent view b" "stream incoming ?b = stream incoming b"
      using n adv less.prems by (simp_all add: outgoing_def stream_def wb_view_def take_drop_append)
    show ?thesis
    proof (cases "cursor_remaining ?h' = 0")
      case True
      let ?b' = "?b\<lparr>write_buf := (write_buf ?b)\<lparr>wb_headers := cursor_reset ?h'\<rparr>\<rparr>"
      have "cursor_chunk ?h' = []" using True by (simp add: cursor_remaining_chunk)
      then have "outgoing sent view ?b' = outgoing sent view b" "stream incoming ?b' = stream incoming b"
        "wb_view view (write_buf ?b') = []" "wb_ok ok view (write_buf ?b')"
        using out less.prems adv
        by (simp_all add: outgoing_def stream_def wb_view_def wb_ok_def buf_list_view_def cursor_simps)
      then have "flushed b (flush_io T ?b')" by (intro flush_ok_trans [OF flush_io_ok]) simp_all
      with True wr r show ?thesis by (subst poll_flush_flattened.simps) (simp add: Let_def)
    next
      case rem: False
      show ?thesis
      proof (cases "n = 0")
        case True
        with rem wr r out ok' show ?thesis
          by (subst poll_flush_flattened.simps) (simp add: Let_def flush_ok_def)
      next
        case False
        have "length (wb_view view (write_buf ?b)) < length (wb_view view (write_buf b))"
          using False n(1) adv view less.prems
          by (auto simp: wb_view_def wb_ok_def buf_list_view_def)
        from less.hyps [OF this ok'] less.prems obtain o'
          where o': "poll_flush_flattened T ?b = Some o'" "flushed ?b o'" by auto
        then have "flushed b o'" by (intro flush_ok_trans [OF o'(2) out]) simp_all
        with o'(1) rem False wr r show ?thesis by (subst poll_flush_flattened.simps) (simp add: Let_def)
      qed
    qed
  next
    case False
    then have "\<And>n. r \<noteq> Ready (Inr n)" by blast
    from write_none [OF wr this] False less.prems show ?thesis
      by (subst poll_flush_flattened.simps)
        (auto simp: wr flush_ok_def outgoing_def stream_def split: poll.splits sum.splits)
  qed
qed

lemma flush_queue_ok:
  "wb_ok ok view (write_buf b) \<Longrightarrow> \<exists>out. flush_queue_loop T b = Some out \<and> flushed b out"
proof (induction "length (wb_view view (write_buf b))" arbitrary: b rule: less_induct)
  case less
  obtain io' wb' r where wr: "tr_poll_write_buf T (b_io b) (write_buf b) = (io', wb', r)" by (metis prod_cases3)
  let ?b = "b\<lparr>b_io := io', write_buf := wb'\<rparr>"
  show ?case
  proof (cases "\<exists>n. r = Ready (Inr n)")
    case True
    then obtain n where r: "r = Ready (Inr n)" ..
    note n = write_buf_some [OF less.prems wr [unfolded r]]
    have out: "outgoing sent view ?b = outgoing sent view b" "stream incoming ?b = stream incoming b"
      "wb_ok ok view (write_buf ?b)" "wb_remaining wb' = length (wb_view view wb')"
      using n wb_remaining_view [of ok view wb'] by (simp_all add: outgoing_def stream_def)
    consider "wb_remaining wb' = 0" | "wb_remaining wb' \<noteq> 0" "n = 0" | "wb_remaining wb' \<noteq> 0" "n \<noteq> 0" by blast
    then show ?thesis
    proof cases
      case 1
      with out have "flushed b (flush_io T ?b)" by (intro flush_ok_trans [OF flush_io_ok]) simp_all
      with 1 wr r show ?thesis by (subst flush_queue_loop.simps) (simp add: Let_def)
    next
      case 2
      with wr r out show ?thesis by (subst flush_queue_loop.simps) (simp add: Let_def flush_ok_def)
    next
      case 3
      with n have "length (wb_view view (write_buf ?b)) < length (wb_view view (write_buf b))"
        by (auto simp: wb_remaining_view)
      from less.hyps [OF this out(3)] obtain o' where o': "flush_queue_loop T ?b = Some o'" "flushed ?b o'" by blast
      then have "flushed b o'" by (intro flush_ok_trans [OF o'(2) out(1,2)]) simp_all
      with 3 o'(1) wr r show ?thesis by (subst flush_queue_loop.simps) (simp add: Let_def)
    qed
  next
    case False
    then have "\<And>n. r \<noteq> Ready (Inr n)" by blast
    from write_buf_none [OF less.prems wr this] False less.prems show ?thesis
      by (subst flush_queue_loop.simps)
        (auto simp: wr flush_ok_def outgoing_def stream_def split: poll.splits sum.splits)
  qed
qed

lemma poll_flush_ok:
  assumes "wb_ok ok view (write_buf b)" and "\<not> flush_pipeline b"
  shows "\<exists>out. buffered_poll_flush T b = Some out \<and> flushed b out"
proof (cases "wb_view view (write_buf b) = []")
  case True
  with assms flush_io_ok show ?thesis
    by (simp add: buffered_poll_flush_def wb_remaining_view [OF assms(1)])
next
  case False
  with assms flush_flattened_ok [OF assms(1)] flush_queue_ok [OF assms(1)] show ?thesis
    by (cases "wb_strategy (write_buf b)")
      (simp_all add: buffered_poll_flush_def wb_remaining_view [OF assms(1)])
qed

end

section \<open>A scripted transport\<close>

text \<open>
  The contract can be met: a transport that serves a list of reads (\<open>None\<close> is a read that is not
  ready) and accepts at most \<open>sim_limit\<close> bytes per write.
\<close>

record sim_io =
  sim_reads :: "bytes option list"
  sim_sent :: bytes
  sim_limit :: nat

definition sim_incoming :: "sim_io \<Rightarrow> bytes" where
  "sim_incoming io = concat (map (\<lambda>x. case x of None \<Rightarrow> [] | Some bs \<Rightarrow> bs) (sim_reads io))"

definition sim_transport :: "'b buf_ops \<Rightarrow> (sim_io, 'b) transport" where
  "sim_transport ops =
     \<lparr>tr_is_write_vectored = (\<lambda>_. False),
      tr_poll_read_buf = (\<lambda>io bm.
        case sim_reads io of
          [] \<Rightarrow> (io, bm, Ready (Inr 0))
        | None # rs \<Rightarrow> (io\<lparr>sim_reads := rs\<rparr>, bm, Pending)
        | Some bs # rs \<Rightarrow>
            (io\<lparr>sim_reads := rs\<rparr>, bm\<lparr>bm_bytes := bm_bytes bm @ bs\<rparr>, Ready (Inr (length bs)))),
      tr_poll_write = (\<lambda>io bs.
        let n = min (sim_limit io) (length bs) in
        (io\<lparr>sim_sent := sim_sent io @ take n bs\<rparr>, Ready (Inr n))),
      tr_poll_write_buf = (\<lambda>io wb.
        let chunk = wb_chunk ops wb; n = min (sim_limit io) (length chunk) in
        case wb_advance ops wb n of
          Return wb' \<Rightarrow> (io\<lparr>sim_sent := sim_sent io @ take n chunk\<rparr>, wb', Ready (Inr n))
        | Panic m \<Rightarrow> (io, wb, Panicked m)),
      tr_poll_flush = (\<lambda>io. (io, Ready (Inr ()))),
      tr_poll_shutdown = (\<lambda>io. (io, Ready (Inr ()))),
      tr_reserve = (\<lambda>bm n. bm\<lparr>bm_cap := max (bm_cap bm) (length (bm_bytes bm) + n)\<rparr>)\<rparr>"

lemma sim_write_buf:
  assumes "buf ops ok view" and "wb_ok ok view wb"
  shows "\<exists>n wb'. tr_poll_write_buf (sim_transport ops) io wb =
      (io\<lparr>sim_sent := sim_sent io @ take n (wb_view view wb)\<rparr>, wb', Ready (Inr n)) \<and>
    n \<le> length (wb_view view wb) \<and> wb_view view wb' = drop n (wb_view view wb) \<and> wb_ok ok view wb'"
proof -
  let ?c = "wb_chunk ops wb" and ?n = "min (sim_limit io) (length (wb_chunk ops wb))"
  from buf.chunk_prefix [OF buf.write_buf_buf [OF assms(1)] assms(2)] obtain rest
    where c: "wb_view view wb = ?c @ rest" by (auto simp: write_buf_ops_def)
  then have "?n \<le> length (wb_view view wb)" by simp
  from buf.wb_advance_view [OF assms this] c show ?thesis
    by (auto simp: sim_transport_def Let_def intro!: exI [of _ ?n])
qed

lemma sim_transport_io:
  assumes "buf ops ok view"
  shows "transport_io (sim_transport ops) sim_incoming sim_sent ok view"
proof unfold_locales
  fix wb io io' wb' and res :: "(io_error + nat) poll" and n
  assume wb: "wb_ok ok view wb"
  note w = sim_write_buf [OF assms wb, of io]
  show "tr_poll_write_buf (sim_transport ops) io wb = (io', wb', Ready (Inr n)) \<Longrightarrow>
      n \<le> length (wb_view view wb) \<and> sim_sent io' = sim_sent io @ take n (wb_view view wb) \<and>
      wb_view view wb' = drop n (wb_view view wb) \<and> wb_ok ok view wb' \<and> sim_incoming io' = sim_incoming io"
    using w by (auto simp: sim_incoming_def)
  show "tr_poll_write_buf (sim_transport ops) io wb = (io', wb', res) \<Longrightarrow> (\<And>n. res \<noteq> Ready (Inr n)) \<Longrightarrow>
      sim_sent io' = sim_sent io \<and> wb' = wb \<and> sim_incoming io' = sim_incoming io \<and> \<not> is_panicked res"
    using w by auto
qed (auto simp: sim_transport_def sim_incoming_def Let_def split: list.splits option.splits)

interpretation sim_bytes: transport_io "sim_transport bytes_ops" sim_incoming sim_sent "\<lambda>_. True" "\<lambda>b. b"
  by (rule sim_transport_io [OF bytes_buf.buf_axioms])

section \<open>Properties\<close>

text \<open>
  \<open>Buffered\<close> keeps the contract of \<open>MemRead\<close>: whatever the transport does, reads hand over the
  bytes of the stream (first the read buffer, then what the transport delivers) in order, each
  once, never more than asked for, and a read that is not ready or fails loses nothing.
\<close>

theorem buffered_read_mem_contract:
  assumes "transport_io T incoming sent ok view"
  shows "mem_read (read_mem T) (stream incoming)"
  by (rule transport_io.read_mem_ok [OF assms])

theorem buffered_read_mem_contract_witness:
  "mem_read (read_mem (sim_transport bytes_ops)) (stream sim_incoming)"
  by (rule buffered_read_mem_contract [OF sim_bytes.transport_io_axioms])

text \<open>
  C17. A flush returns, under both strategies and however few bytes each write accepts; the bytes
  sent followed by the bytes still buffered stay the same, so nothing is lost, repeated or
  reordered, not even when the flush fails or is not ready; and when it succeeds the write buffer is
  empty. It does not panic and leaves the incoming bytes alone.
\<close>

theorem poll_flush_sends_all:
  assumes "transport_io T incoming sent ok view"
    and "wb_ok ok view (write_buf b)" and "\<not> flush_pipeline b"
  shows "\<exists>b' res. buffered_poll_flush T b = Some (b', res) \<and>
    sent (b_io b') @ wb_view view (write_buf b') = sent (b_io b) @ wb_view view (write_buf b) \<and>
    stream incoming b' = stream incoming b \<and> wb_ok ok view (write_buf b') \<and> \<not> is_panicked res \<and>
    (res = Ready (Inr ()) \<longrightarrow> wb_view view (write_buf b') = [])"
  using transport_io.poll_flush_ok [OF assms] by (auto simp: flush_ok_def outgoing_def)

theorem poll_flush_sends_all_witness:
  "\<exists>b' res. buffered_poll_flush (sim_transport bytes_ops)
       (buffered_new (sim_transport bytes_ops) \<lparr>sim_reads = [], sim_sent = ''x'', sim_limit = 1\<rparr>) = Some (b', res) \<and>
     sim_sent (b_io b') @ wb_view (\<lambda>b. b) (write_buf b') = ''x''"
proof -
  let ?T = "sim_transport bytes_ops"
  let ?b = "buffered_new ?T \<lparr>sim_reads = [], sim_sent = ''x'', sim_limit = 1\<rparr>"
  have ok: "wb_ok (\<lambda>_. True) (\<lambda>b. b) (write_buf ?b)" "\<not> flush_pipeline ?b"
    and view: "wb_view (\<lambda>b. b) (write_buf ?b) = []"
    by (simp_all add: buffered_new_def wb_ok_new wb_view_new)
  from poll_flush_sends_all [OF sim_bytes.transport_io_axioms ok] view show ?thesis
    by (auto simp: buffered_new_def)
qed

end
