(* ===== verification/Http1_Types.thy ===== *)
theory Http1_Types
  imports Body_Length Encode
begin

text \<open>
  The shared types of \<open>proto.rs\<close> and \<open>proto/http1.rs\<close>: message heads, parse contexts, the flags a
  message \<open>wants\<close>, and the options of an HTTP/1 connection with their builder.
\<close>

unbundle bit_operations_syntax

section \<open>Heads and bodies\<close>

datatype http_version = HTTP_09 | HTTP_10 | HTTP_11 | HTTP_2 | HTTP_3

text \<open>Versions are ordered as the \<open>http\<close> crate orders them.\<close>

fun version_rank :: "http_version \<Rightarrow> nat" where
  "version_rank HTTP_09 = 0"
| "version_rank HTTP_10 = 1"
| "version_rank HTTP_11 = 2"
| "version_rank HTTP_2 = 3"
| "version_rank HTTP_3 = 4"

instantiation http_version :: linorder
begin

definition less_eq_http_version :: "http_version \<Rightarrow> http_version \<Rightarrow> bool" where
  "less_eq_http_version v w \<longleftrightarrow> version_rank v \<le> version_rank w"

definition less_http_version :: "http_version \<Rightarrow> http_version \<Rightarrow> bool" where
  "less_http_version v w \<longleftrightarrow> version_rank v < version_rank w"

instance
proof
  fix v w :: http_version
  show "v \<le> w \<Longrightarrow> w \<le> v \<Longrightarrow> v = w"
    by (cases v; cases w) (simp_all add: less_eq_http_version_def)
qed (auto simp: less_eq_http_version_def less_http_version_def)

end

text \<open>
  Of \<open>http::Extensions\<close> the entries the protocol looks at: the reason phrase of a response, the
  callback for informational responses (only whether there is one), and the header callback of a
  request: the names and values it visits, in order. What it does to the map is not kept, because
  the map is cleared right after.
\<close>

record 'h extensions =
  ext_reason_phrase :: "bytes option"
  ext_on_informational :: bool
  ext_on_preserve_header :: "('h \<Rightarrow> (bytes \<times> header_value) list) option"

definition extensions_default :: "'h extensions" where
  "extensions_default =
     \<lparr>ext_reason_phrase = None, ext_on_informational = False, ext_on_preserve_header = None\<rparr>"

record ('s, 'h) message_head =
  h_version :: http_version
  h_subject :: 's
  h_headers :: 'h
  h_extensions :: "'h extensions"

text \<open>A request line: the method and the target as it is displayed. A status is its code.\<close>

type_synonym request_line = "http_method \<times> bytes"
type_synonym 'h request_head = "(request_line, 'h) message_head"
type_synonym 'h response_head = "(nat, 'h) message_head"

datatype body_length = Known u64 | Unknown

record 'h parsed_message =
  pm_head :: "'h response_head"
  pm_decode :: decoded_length
  pm_expect_continue :: bool
  pm_keep_alive :: bool
  pm_wants_upgrade :: bool

text \<open>
  \<open>ParseContext\<close>; \<open>pc_informed\<close> records the informational responses given to the callback.
\<close>

record 'h parse_context =
  pc_cached_headers :: "'h option"
  pc_req_method :: "http_method option"
  pc_parser_config :: parser_config
  pc_max_headers :: "nat option"
  pc_h09_responses :: bool
  pc_on_informational :: bool
  pc_informed :: "'h response_head list"

section \<open>Wants\<close>

datatype wants = Wants "8 word"

definition WANTS_EMPTY :: wants where "WANTS_EMPTY = Wants 0"
definition WANTS_EXPECT :: wants where "WANTS_EXPECT = Wants 1"
definition WANTS_UPGRADE :: wants where "WANTS_UPGRADE = Wants 2"

fun wants_add :: "wants \<Rightarrow> wants \<Rightarrow> wants" where
  "wants_add (Wants a) (Wants b) = Wants (a OR b)"

fun wants_contains :: "wants \<Rightarrow> wants \<Rightarrow> bool" where
  "wants_contains (Wants a) (Wants b) = (a AND b = b)"

section \<open>Options\<close>

record http1_options =
  o_h09_responses :: bool
  o_writev :: "bool option"
  o_max_headers :: "nat option"
  o_read_buf_exact_size :: "usize option"
  o_max_buf_size :: "usize option"
  o_ignore_invalid_headers :: bool
  o_allow_spaces_after_header_name :: bool
  o_allow_obsolete_multiline :: bool

definition options_builder :: http1_options where
  "options_builder =
     \<lparr>o_h09_responses = False, o_writev = None, o_max_headers = None, o_read_buf_exact_size = None,
      o_max_buf_size = None, o_ignore_invalid_headers = False,
      o_allow_spaces_after_header_name = False, o_allow_obsolete_multiline = False\<rparr>"

definition opt_http09_responses :: "http1_options \<Rightarrow> bool \<Rightarrow> http1_options" where
  "opt_http09_responses o' enabled = o'\<lparr>o_h09_responses := enabled\<rparr>"

definition opt_writev :: "http1_options \<Rightarrow> bool option \<Rightarrow> http1_options" where
  "opt_writev o' writev = o'\<lparr>o_writev := writev\<rparr>"

definition opt_max_headers :: "http1_options \<Rightarrow> nat \<Rightarrow> http1_options" where
  "opt_max_headers o' n = o'\<lparr>o_max_headers := Some n\<rparr>"

definition opt_read_buf_exact_size :: "http1_options \<Rightarrow> usize option \<Rightarrow> http1_options" where
  "opt_read_buf_exact_size o' sz = o'\<lparr>o_read_buf_exact_size := sz, o_max_buf_size := None\<rparr>"

definition opt_max_buf_size :: "http1_options \<Rightarrow> usize \<Rightarrow> http1_options rust" where
  "opt_max_buf_size o' m =
     (if unat m \<ge> MINIMUM_MAX_BUFFER_SIZE
      then Return (o'\<lparr>o_max_buf_size := Some m, o_read_buf_exact_size := None\<rparr>)
      else Panic ''the max_buf_size cannot be smaller than the minimum that h1 specifies.'')"

definition opt_allow_spaces :: "http1_options \<Rightarrow> bool \<Rightarrow> http1_options" where
  "opt_allow_spaces o' enabled = o'\<lparr>o_allow_spaces_after_header_name := enabled\<rparr>"

definition opt_ignore_invalid :: "http1_options \<Rightarrow> bool \<Rightarrow> http1_options" where
  "opt_ignore_invalid o' enabled = o'\<lparr>o_ignore_invalid_headers := enabled\<rparr>"

definition opt_allow_multiline :: "http1_options \<Rightarrow> bool \<Rightarrow> http1_options" where
  "opt_allow_multiline o' enabled = o'\<lparr>o_allow_obsolete_multiline := enabled\<rparr>"

section \<open>Lemmas\<close>

lemma and_exp_eq: "k < 8 \<Longrightarrow> (c AND 2 ^ k = 2 ^ k) = bit (c :: 8 word) k"
proof
  assume "k < 8" and eq: "c AND 2 ^ k = 2 ^ k"
  then have "bit (2 ^ k :: 8 word) k" by (simp add: bit_exp_iff)
  then have "bit (c AND 2 ^ k) k" using eq by simp
  then show "bit c k" by (simp add: bit_and_iff)
next
  assume "bit c k"
  then show "c AND 2 ^ k = 2 ^ k"
    by (intro bit_word_eqI) (auto simp: bit_and_iff bit_exp_iff)
qed

lemma wants_add_contains [simp]:
  "wants_contains (wants_add w v) x \<longleftrightarrow> wants_contains w x \<or> wants_contains v x"
  if "x = WANTS_EXPECT \<or> x = WANTS_UPGRADE"
proof -
  obtain a b where w: "w = Wants a" "v = Wants b" by (metis wants.exhaust)
  have "(c AND 1 = 1) = bit c 0" "(c AND 2 = 2) = bit c 1" for c :: "8 word"
    using and_exp_eq [of 0 c] and_exp_eq [of 1 c] by simp_all
  then show ?thesis using that by (auto simp: w WANTS_EXPECT_def WANTS_UPGRADE_def bit_or_iff)
qed

text \<open>The two ways of sizing the read buffer exclude each other, and a maximum is large enough.\<close>

definition options_ok :: "http1_options \<Rightarrow> bool" where
  "options_ok o' \<longleftrightarrow>
     (o_read_buf_exact_size o' = None \<or> o_max_buf_size o' = None) \<and>
     (\<forall>m. o_max_buf_size o' = Some m \<longrightarrow> MINIMUM_MAX_BUFFER_SIZE \<le> unat m)"

lemma options_ok_builder: "options_ok options_builder"
  by (simp add: options_ok_def options_builder_def)

lemma options_ok_keep:
  "options_ok o' \<Longrightarrow> options_ok (opt_http09_responses o' e)"
  "options_ok o' \<Longrightarrow> options_ok (opt_writev o' w)"
  "options_ok o' \<Longrightarrow> options_ok (opt_max_headers o' n)"
  "options_ok o' \<Longrightarrow> options_ok (opt_read_buf_exact_size o' sz)"
  "options_ok o' \<Longrightarrow> opt_max_buf_size o' m = Return o'' \<Longrightarrow> options_ok o''"
  "options_ok o' \<Longrightarrow> options_ok (opt_allow_spaces o' e)"
  "options_ok o' \<Longrightarrow> options_ok (opt_ignore_invalid o' e)"
  "options_ok o' \<Longrightarrow> options_ok (opt_allow_multiline o' e)"
  by (auto simp: options_ok_def opt_http09_responses_def opt_writev_def opt_max_headers_def
      opt_read_buf_exact_size_def opt_max_buf_size_def opt_allow_spaces_def opt_ignore_invalid_def
      opt_allow_multiline_def split: if_splits)

end
