(* ===== verification/Role.thy ===== *)
theory Role
  imports Http1_Types Buffered
begin

text \<open>
  \<open>wreq-proto/src/proto/http1/role.rs\<close>: parsing response heads, choosing the decoder of a response,
  choosing the framing of a request and writing its head. The parser \<open>httparse\<close> and the \<open>http\<close>
  crate are parameters. The flag \<open>dbg\<close> is \<open>cfg!(debug_assertions)\<close>.
\<close>

section \<open>Is the head complete?\<close>

fun complete_scan :: "bytes \<Rightarrow> bool" where
  "complete_scan [] = False"
| "complete_scan (b # bs) =
     (if b = CR then (if take 3 bs = [LF, CR, LF] then True else complete_scan bs)
      else if b = LF \<and> take 1 bs = [LF] then True
      else complete_scan bs)"

definition slice_from :: "bytes \<Rightarrow> nat \<Rightarrow> bytes rust" where
  "slice_from bs start = (if start \<le> length bs then Return (drop start bs) else Panic ''slice index out of range'')"

definition slice_range :: "bytes \<Rightarrow> nat \<Rightarrow> nat \<Rightarrow> bytes rust" where
  "slice_range bs a b =
     (if a \<le> b \<and> b \<le> length bs then Return (take (b - a) (drop a bs)) else Panic ''slice index out of range'')"

definition is_complete_fast :: "bytes \<Rightarrow> nat \<Rightarrow> bool rust" where
  "is_complete_fast bs prev_len =
     rust_bind (slice_from bs (prev_len - 3)) (\<lambda>rest. Return (complete_scan rest))"

section \<open>The decoder of a response\<close>

definition client_decoder ::
  "'h http_api \<Rightarrow> 'h response_head \<Rightarrow> http_method option \<Rightarrow> parse_error + (decoded_length \<times> bool) option" where
  "client_decoder api inc req_method =
     (let code = h_subject inc; headers = h_headers inc in
      if code = 101 then Inr (Some (ZERO, True))
      else if code = 100 \<or> (102 \<le> code \<and> code \<le> 199) then Inr None
      else if code = 204 \<or> code = 304 then Inr (Some (ZERO, False))
      else if req_method = Some HEAD then Inr (Some (ZERO, False))
      else if req_method = Some CONNECT \<and> 200 \<le> code \<and> code \<le> 299 then Inr (Some (ZERO, True))
      else if hm_contains_key api headers TRANSFER_ENCODING then
        (if h_version inc = HTTP_10 then Inl (ParseHeader TransferEncodingUnexpected)
         else if transfer_encoding_is_chunked api headers then Inr (Some (CHUNKED, False))
         else Inr (Some (CLOSE_DELIMITED, False)))
      else (case content_length_parse_all api headers of
              Some len \<Rightarrow> map_sum id (\<lambda>l. Some (l, False)) (checked_new len)
            | None \<Rightarrow>
                (if hm_contains_key api headers CONTENT_LENGTH then Inl (ParseHeader ContentLengthInvalid)
                 else Inr (Some (CLOSE_DELIMITED, False)))))"

section \<open>Header positions\<close>

record header_indices =
  hi_name :: "nat \<times> nat"
  hi_value :: "nat \<times> nat"

definition indices_of :: "hp_header \<Rightarrow> header_indices" where
  "indices_of h =
     \<lparr>hi_name = (hp_name_start h, hp_name_start h + hp_name_len h),
      hi_value = (hp_value_start h, hp_value_start h + hp_value_len h)\<rparr>"

fun record_header_indices :: "hp_header list \<Rightarrow> nat \<Rightarrow> parse_error + header_indices list" where
  "record_header_indices [] room = Inr []"
| "record_header_indices (h # hs) 0 = Inr []"
| "record_header_indices (h # hs) (Suc room) =
     (if hp_name_len h \<ge> 2 ^ 16 then Inl ParseTooLarge
      else map_sum id (\<lambda>is. indices_of h # is) (record_header_indices hs room))"

section \<open>Folded header lines\<close>

definition trim_bytes :: "bytes \<Rightarrow> bytes" where
  "trim_bytes s = trim_start_by is_ascii_whitespace (trim_end_by is_ascii_whitespace s)"

definition unfold_line :: "bytes \<Rightarrow> bytes \<Rightarrow> bytes" where
  "unfold_line first rest =
     trim_end_by is_ascii_whitespace first @
     concat (map (\<lambda>line. CHR '' '' # trim_bytes line) (split_on LF rest))"

definition obs_fold_line :: "bytes \<Rightarrow> header_indices \<Rightarrow> (bytes \<times> header_indices) rust" where
  "obs_fold_line all idx =
     (let (v0, v1) = hi_value idx in
      rust_bind (slice_range all v0 v1) (\<lambda>buf.
        if LF \<notin> set buf then Return (all, idx)
        else
          let first = takeWhile (\<lambda>b. b \<noteq> LF) buf;
              unfolded = unfold_line first (drop (length first + 1) buf) in
          if length unfolded \<le> length buf
          then Return (take v0 all @ unfolded @ drop (v0 + length unfolded) all,
                       idx\<lparr>hi_value := (v0, v0 + length unfolded)\<rparr>)
          else Panic ''range end index out of range for slice''))"

fun obs_fold_lines :: "bytes \<Rightarrow> header_indices list \<Rightarrow> (bytes \<times> header_indices list) rust" where
  "obs_fold_lines all [] = Return (all, [])"
| "obs_fold_lines all (idx # idxs) =
     rust_bind (obs_fold_line all idx) (\<lambda>(all', idx').
       rust_bind (obs_fold_lines all' idxs) (\<lambda>(all'', idxs'). Return (all'', idx' # idxs')))"

section \<open>Parsing a response head\<close>

text \<open>
  The loop that fills the header map. The left alternative is the early return of
  \<open>header_name!\<close> outside debug builds.
\<close>

fun collect_headers ::
  "bool \<Rightarrow> 'h http_api \<Rightarrow> bytes \<Rightarrow> header_indices list \<Rightarrow> 'h \<Rightarrow> bool \<Rightarrow> (parse_error + 'h \<times> bool) rust" where
  "collect_headers dbg api all [] headers keep_alive = Return (Inr (headers, keep_alive))"
| "collect_headers dbg api all (idx # idxs) headers keep_alive =
     rust_bind (slice_range all (fst (hi_name idx)) (snd (hi_name idx))) (\<lambda>raw_name.
       case hn_from_bytes api raw_name of
         None \<Rightarrow> (if dbg then Panic ''InvalidHeaderName'' else Return (Inl ParseInternal))
       | Some name \<Rightarrow>
           rust_bind (slice_range all (fst (hi_value idx)) (snd (hi_value idx))) (\<lambda>val.
             let keep_alive' =
                   (if name = CONNECTION
                    then (if keep_alive then \<not> connection_close api val else connection_keep_alive api val)
                    else keep_alive) in
             collect_headers dbg api all idxs (hm_append api headers name val) keep_alive'))"

definition max_headers_of :: "'h parse_context \<Rightarrow> nat" where
  "max_headers_of ctx = (case pc_max_headers ctx of Some cap \<Rightarrow> cap | None \<Rightarrow> DEFAULT_MAX_HEADERS)"

text \<open>What one call of the parser gives: length, status, reason phrase, version, headers.\<close>

datatype 'a head_outcome = HeadPartial | HeadError parse_error | HeadParsed 'a

definition parse_head ::
  "'h http_api \<Rightarrow> httparse_api \<Rightarrow> 'h parse_context \<Rightarrow> bytes \<Rightarrow>
   (nat \<times> nat \<times> bytes option \<times> http_version \<times> header_indices list \<times> nat) head_outcome" where
  "parse_head api hp ctx bs =
     (case hp_parse_response hp (pc_parser_config ctx) (max_headers_of ctx) bs of
        HpComplete r \<Rightarrow>
          (case sc_from_u16 api (hp_code r) of
             None \<Rightarrow> HeadError ParseStatus
           | Some status \<Rightarrow>
               (case record_header_indices (hp_headers r) (max_headers_of ctx) of
                  Inl e \<Rightarrow> HeadError e
                | Inr idxs \<Rightarrow>
                    HeadParsed
                      (hp_len r, status,
                       (if Some (hp_reason r) \<noteq> sc_canonical_reason api status then Some (hp_reason r) else None),
                       (if hp_version r = 1 then HTTP_11 else HTTP_10),
                       idxs, length (hp_headers r))))
      | HpPartial \<Rightarrow> HeadPartial
      | HpError e \<Rightarrow>
          (if e = HpVersion \<and> pc_h09_responses ctx
           then HeadParsed (0, 200, None, HTTP_09, [], 0)
           else HeadError (parse_of_httparse e)))"

text \<open>
  One turn of the loop of \<open>Client::parse\<close>: \<open>Some\<close> result leaves the function, \<open>None\<close> goes round
  again behind an informational response.
\<close>

type_synonym 'h parse_result = "'h parse_context \<times> bytes_mut \<times> (parse_error + 'h parsed_message option) option"

definition parse_turn ::
  "bool \<Rightarrow> 'h http_api \<Rightarrow> httparse_api \<Rightarrow> 'h parse_context \<Rightarrow> bytes_mut \<Rightarrow> 'h parse_result rust" where
  "parse_turn dbg api hp ctx bm =
     (case parse_head api hp ctx (bm_bytes bm) of
        HeadPartial \<Rightarrow> Return (ctx, bm, Some (Inr None))
      | HeadError e \<Rightarrow> Return (ctx, bm, Some (Inl e))
      | HeadParsed (len, status, reason, version, idxs, headers_len) \<Rightarrow>
          (if len > length (bm_bytes bm) then Panic ''split_to out of bounds''
           else if headers_len > length idxs then Panic ''range end index out of range for slice''
           else
             let (bm', raw) = bm_split_to bm len in
             rust_bind
               (if allow_obsolete_multiline_headers (pc_parser_config ctx)
                then obs_fold_lines raw (take headers_len idxs) else Return (raw, take headers_len idxs))
               (\<lambda>(all, idxs').
                  let headers = (case pc_cached_headers ctx of Some h \<Rightarrow> h | None \<Rightarrow> hm_new api);
                      ctx' = ctx\<lparr>pc_cached_headers := None\<rparr> in
                  rust_bind (collect_headers dbg api all idxs' headers (version = HTTP_11)) (\<lambda>collected.
                    case collected of
                      Inl e \<Rightarrow> Return (ctx', bm', Some (Inl e))
                    | Inr (headers', keep_alive) \<Rightarrow>
                        let head = \<lparr>h_version = version, h_subject = status, h_headers = headers',
                                    h_extensions = extensions_default\<lparr>ext_reason_phrase := reason\<rparr>\<rparr> in
                        Return
                          (case client_decoder api head (pc_req_method ctx') of
                             Inl e \<Rightarrow> (ctx', bm', Some (Inl e))
                           | Inr (Some (dl, is_upgrade)) \<Rightarrow>
                               (ctx', bm', Some (Inr (Some
                                 \<lparr>pm_head = head, pm_decode = dl, pm_expect_continue = False,
                                  pm_keep_alive = (keep_alive \<and> \<not> is_upgrade), pm_wants_upgrade = is_upgrade\<rparr>)))
                           | Inr None \<Rightarrow>
                               (let ctx'' =
                                      (if 100 \<le> status \<and> status \<le> 199 \<and> pc_on_informational ctx'
                                       then ctx'\<lparr>pc_informed := pc_informed ctx' @ [head]\<rparr> else ctx') in
                                (ctx'', bm', if bm_bytes bm' = [] then Some (Inr None) else None))))))) "

partial_function (option) client_parse ::
  "bool \<Rightarrow> 'h http_api \<Rightarrow> httparse_api \<Rightarrow> 'h parse_context \<Rightarrow> bytes_mut \<Rightarrow>
   ('h parse_context \<times> bytes_mut \<times> (parse_error + 'h parsed_message option)) rust option" where
  "client_parse dbg api hp ctx bm =
     (case parse_turn dbg api hp ctx bm of
        Panic m \<Rightarrow> Some (Panic m)
      | Return (ctx', bm', Some res) \<Rightarrow> Some (Return (ctx', bm', res))
      | Return (ctx', bm', None) \<Rightarrow> client_parse dbg api hp ctx' bm')"

text \<open>\<open>parse_headers\<close>: skip the parser on an empty buffer and while a partial head is still partial.\<close>

definition parse_headers ::
  "bool \<Rightarrow> 'h http_api \<Rightarrow> httparse_api \<Rightarrow> ('h parse_context, 'h parsed_message) head_parser" where
  "parse_headers dbg api hp ctx bm prev_len =
     (if bm_bytes bm = [] then Some (Return (ctx, bm, Inr None))
      else
        (case (case prev_len of None \<Rightarrow> Return True | Some n \<Rightarrow> is_complete_fast (bm_bytes bm) n) of
           Panic m \<Rightarrow> Some (Panic m)
         | Return False \<Rightarrow> Some (Return (ctx, bm, Inr None))
         | Return True \<Rightarrow> client_parse dbg api hp ctx bm))"

section \<open>The framing of a request\<close>

definition set_content_length :: "bool \<Rightarrow> 'h http_api \<Rightarrow> 'h \<Rightarrow> u64 \<Rightarrow> ('h \<times> encoder) rust" where
  "set_content_length dbg api headers len =
     (let res = (hm_insert api headers CONTENT_LENGTH (hv_from_u64 api len), encoder_length len) in
      if dbg \<and> hm_contains_key api headers CONTENT_LENGTH \<and>
         content_length_parse_all_values api (hm_get_all api headers CONTENT_LENGTH) \<noteq> None
      then Panic ''assertion failed: headers::content_length_parse_all_values(cl.iter()).is_none()''
      else Return res)"

fun filter_map :: "('a \<Rightarrow> 'b option) \<Rightarrow> 'a list \<Rightarrow> 'b list" where
  "filter_map f [] = []"
| "filter_map f (x # xs) = (case f x of None \<Rightarrow> filter_map f xs | Some y \<Rightarrow> y # filter_map f xs)"

definition allowed_trailer_fields :: "'h http_api \<Rightarrow> 'h \<Rightarrow> header_name list" where
  "allowed_trailer_fields api headers =
     filter_map (\<lambda>s. hn_from_bytes api (str_trim s))
       (concat (map (split_on COMMA) (filter_map (hv_to_str api) (hm_get_all api headers TRAILER))))"

definition with_trailer_fields :: "'h http_api \<Rightarrow> 'h \<Rightarrow> encoder \<Rightarrow> encoder" where
  "with_trailer_fields api headers enc =
     (if encoder_is_chunked enc \<and> allowed_trailer_fields api headers \<noteq> []
      then into_chunked_with_trailing_fields enc (allowed_trailer_fields api headers)
      else enc)"

definition set_length ::
  "bool \<Rightarrow> 'h http_api \<Rightarrow> 'h request_head \<Rightarrow> body_length option \<Rightarrow> ('h request_head \<times> encoder) rust" where
  "set_length dbg api head body_opt =
     (let headers = h_headers head in
      case body_opt of
        None \<Rightarrow> Return (head\<lparr>h_headers := hm_remove api headers TRANSFER_ENCODING\<rparr>, encoder_length 0)
      | Some body \<Rightarrow>
          (let existing_con_len = content_length_parse_all api headers in
           if h_version head \<noteq> HTTP_11 then
             (let headers1 = hm_remove api headers TRANSFER_ENCODING in
              case existing_con_len of
                Some len \<Rightarrow> Return (head\<lparr>h_headers := headers1\<rparr>, encoder_length len)
              | None \<Rightarrow>
                  (case body of
                     Known len \<Rightarrow>
                       rust_bind (set_content_length dbg api headers1 len)
                         (\<lambda>(h, enc). Return (head\<lparr>h_headers := h\<rparr>, enc))
                   | Unknown \<Rightarrow> Return (head\<lparr>h_headers := headers1\<rparr>, encoder_length 0)))
           else if hm_contains_key api headers TRANSFER_ENCODING then
             (let headers1 = (if is_chunked api (hm_get_all api headers TRANSFER_ENCODING)
                              then headers else add_chunked api headers);
                  enc = with_trailer_fields api headers1 encoder_chunked;
                  headers2 = (if existing_con_len \<noteq> None then hm_remove api headers1 CONTENT_LENGTH else headers1) in
              Return (head\<lparr>h_headers := headers2\<rparr>, enc))
           else (case existing_con_len of
                   Some len \<Rightarrow> Return (head, encoder_length len)
                 | None \<Rightarrow>
                     (case body of
                        Unknown \<Rightarrow>
                          (if fst (h_subject head) \<in> {GET, HEAD, CONNECT} then Return (head, encoder_length 0)
                           else
                             let headers1 = hm_insert api headers TRANSFER_ENCODING ''chunked'' in
                             Return (head\<lparr>h_headers := headers1\<rparr>, with_trailer_fields api headers1 encoder_chunked))
                      | Known len \<Rightarrow>
                          rust_bind (set_content_length dbg api headers len)
                            (\<lambda>(h, enc). Return (head\<lparr>h_headers := h\<rparr>, enc))))))"

section \<open>Writing a request head\<close>

fun method_as_str :: "http_method \<Rightarrow> bytes" where
  "method_as_str GET = ''GET''"
| "method_as_str POST = ''POST''"
| "method_as_str PUT = ''PUT''"
| "method_as_str DELETE = ''DELETE''"
| "method_as_str HEAD = ''HEAD''"
| "method_as_str OPTIONS = ''OPTIONS''"
| "method_as_str CONNECT = ''CONNECT''"
| "method_as_str PATCH = ''PATCH''"
| "method_as_str TRACE = ''TRACE''"
| "method_as_str (ExtensionMethod m) = m"

definition visited_line :: "bytes \<times> header_value \<Rightarrow> bytes" where
  "visited_line h = (if snd h = [] then fst h @ '':'' @ CRLF else fst h @ '': '' @ snd h @ CRLF)"

fun version_str :: "http_version \<Rightarrow> bytes rust" where
  "version_str HTTP_10 = Return ''HTTP/1.0''"
| "version_str HTTP_11 = Return ''HTTP/1.1''"
| "version_str HTTP_2 = Return ''HTTP/1.1''"
| "version_str _ = Panic ''unexpected request version''"

text \<open>
  \<open>Client::encode\<close>: the head after the call (its map is cleared for reuse), the method noted for
  the response, the bytes written and the encoder of the body.
\<close>

definition client_encode ::
  "bool \<Rightarrow> 'h http_api \<Rightarrow> 'h request_head \<Rightarrow> body_length option \<Rightarrow> bytes \<Rightarrow>
   ('h request_head \<times> http_method option \<times> bytes \<times> encoder) rust" where
  "client_encode dbg api head body dst =
     rust_bind (set_length dbg api head body) (\<lambda>(head', enc).
       rust_bind (version_str (h_version head')) (\<lambda>ver.
         let lines =
               (case ext_on_preserve_header (h_extensions head') of
                  Some visit \<Rightarrow> concat (map visited_line (visit (h_headers head')))
                | None \<Rightarrow> write_headers api (h_headers head') []);
             dst' = dst @ method_as_str (fst (h_subject head')) @ '' '' @ snd (h_subject head') @ '' '' @
                    ver @ CRLF @ lines @ CRLF in
         Return (head'\<lparr>h_headers := hm_new api\<rparr>, Some (fst (h_subject head')), dst', enc)))"

end
