(* ===== verification/Response_Parser.thy ===== *)
theory Response_Parser
  imports Headers
begin

text \<open>
  A response-head parser that keeps the contract of \<open>httparse_crate\<close>: it shows that the contract
  can be met, and concrete instances of the theorems on parsing run it. It knows status lines
  \<open>HTTP/1.x code reason\<close> and header lines \<open>name: value\<close>, each ended by CRLF.
\<close>

fun find_end :: "nat \<Rightarrow> bytes \<Rightarrow> nat option" where
  "find_end i [] = None"
| "find_end i (b # bs) = (if take 4 (b # bs) = [CR, LF, CR, LF] then Some i else find_end (Suc i) bs)"

definition line_header :: "nat \<Rightarrow> bytes \<Rightarrow> hp_header list" where
  "line_header pos l0 =
     (let l = takeWhile (\<lambda>b. b \<noteq> CR) l0; c = length (takeWhile (\<lambda>b. b \<noteq> CHR '':'') l) in
      if c < length l then
        (let vs = (if take 1 (drop (c + 1) l) = '' '' then c + 2 else c + 1) in
         [\<lparr>hp_name_start = pos, hp_name_len = c, hp_value_start = pos + vs, hp_value_len = length l - vs\<rparr>])
      else [])"

fun lines_headers :: "nat \<Rightarrow> bytes list \<Rightarrow> hp_header list" where
  "lines_headers pos [] = []"
| "lines_headers pos (l # ls) = line_header pos l @ lines_headers (pos + length l + 1) ls"

definition simple_parse_response :: "parser_config \<Rightarrow> nat \<Rightarrow> bytes \<Rightarrow> hp_response hp_status" where
  "simple_parse_response cfg cap bs =
     (case find_end 0 bs of
        None \<Rightarrow> HpPartial
      | Some e \<Rightarrow>
          (let p0 = length (takeWhile (\<lambda>b. b \<noteq> CR) bs) + 2;
               headers = lines_headers p0 (split_on LF (drop p0 (take e bs)));
               code = take 3 (drop 9 bs) in
           if take 7 bs \<noteq> ''HTTP/1.'' then HpError HpVersion
           else if length code < 3 \<or> \<not> list_all is_digit code then HpError HpStatus
           else if length headers > cap then HpError HpTooManyHeaders
           else HpComplete
             \<lparr>hp_len = e + 4, hp_code = digits_val 10 0 (map (\<lambda>b. byte_val b - 48) code),
              hp_reason = takeWhile (\<lambda>b. b \<noteq> CR) (drop 13 bs),
              hp_version = (if take 1 (drop 7 bs) = ''1'' then 1 else 0),
              hp_headers = headers\<rparr>))"

definition simple_parser :: httparse_api where
  "simple_parser =
     \<lparr>hp_parse_headers = (\<lambda>bs n. HpPartial), hp_parse_response = simple_parse_response\<rparr>"

lemma find_end_Some:
  "find_end i bs = Some e \<Longrightarrow> i \<le> e \<and> e - i + 4 \<le> length bs \<and> take 4 (drop (e - i) bs) = [CR, LF, CR, LF]"
proof (induction i bs rule: find_end.induct)
  case (2 i b bs)
  show ?case
  proof (cases "take 4 (b # bs) = [CR, LF, CR, LF]")
    case True
    then have "length (take 4 (b # bs)) = 4" by simp
    then have "4 \<le> length (b # bs)" by simp
    with True 2 show ?thesis by simp
  next
    case False
    with 2 have "Suc i \<le> e" "e - Suc i + 4 \<le> length bs" "take 4 (drop (e - Suc i) bs) = [CR, LF, CR, LF]" by auto
    moreover from \<open>Suc i \<le> e\<close> have "e - i = Suc (e - Suc i)" by simp
    ultimately show ?thesis by simp
  qed
qed simp

lemma line_header_range:
  assumes "h \<in> set (line_header pos l)"
  shows "hp_name_start h + hp_name_len h \<le> pos + length l \<and> hp_value_start h + hp_value_len h \<le> pos + length l"
proof -
  let ?l = "takeWhile (\<lambda>b. b \<noteq> CR) l"
  let ?c = "length (takeWhile (\<lambda>b. b \<noteq> CHR '':'') ?l)"
  define vs where "vs = (if take 1 (drop (?c + 1) ?l) = '' '' then ?c + 2 else ?c + 1)"
  from assms have c: "?c < length ?l" and h: "h = \<lparr>hp_name_start = pos, hp_name_len = ?c,
      hp_value_start = pos + vs, hp_value_len = length ?l - vs\<rparr>"
    by (auto simp: line_header_def vs_def Let_def split: if_splits)
  have "vs \<le> length ?l"
  proof (cases "take 1 (drop (?c + 1) ?l) = '' ''")
    case True
    then have "drop (?c + 1) ?l \<noteq> []" by auto
    then have "\<not> length ?l \<le> ?c + 1" by (metis drop_all)
    with True show ?thesis by (simp add: vs_def)
  qed (use c in \<open>simp add: vs_def\<close>)
  with c length_takeWhile_le [of "\<lambda>b. b \<noteq> CR" l] show ?thesis by (simp add: h)
qed

lemma lines_headers_range:
  "h \<in> set (lines_headers pos ls) \<Longrightarrow>
   hp_name_start h + hp_name_len h \<le> pos + sum_list (map length ls) + length ls \<and>
   hp_value_start h + hp_value_len h \<le> pos + sum_list (map length ls) + length ls"
proof (induction ls arbitrary: pos)
  case (Cons l ls)
  then show ?case using line_header_range [of h pos l] by (auto dest: Cons.IH)
qed simp

interpretation simple_parser: httparse_crate simple_parser
proof
  fix cfg cap bs r
  assume "hp_parse_response simple_parser cfg cap bs = HpComplete r"
  then obtain e where e: "find_end 0 bs = Some e"
    and r: "hp_len r = e + 4" "length (hp_headers r) \<le> cap"
      "hp_headers r = lines_headers (length (takeWhile (\<lambda>b. b \<noteq> CR) bs) + 2)
        (split_on LF (drop (length (takeWhile (\<lambda>b. b \<noteq> CR) bs) + 2) (take e bs)))"
    by (auto simp: simple_parser_def simple_parse_response_def Let_def split: option.splits if_splits)
  from find_end_Some [OF e] have len: "e + 4 \<le> length bs" and cr: "take 4 (drop e bs) = [CR, LF, CR, LF]" by simp_all
  show "0 < hp_len r \<and> hp_len r \<le> length bs \<and> length (hp_headers r) \<le> cap" using r len by simp
  have "CR \<in> set (take (Suc e) bs)"
  proof -
    obtain xs where "drop e bs = CR # xs" using cr by (cases "drop e bs") auto
    then have "take (Suc e) bs = take e bs @ [CR]" using len by (simp add: take_Suc_conv_app_nth nth_via_drop)
    then show ?thesis by simp
  qed
  then have "length (takeWhile (\<lambda>b. b \<noteq> CR) (take (Suc e) bs)) < length (take (Suc e) bs)"
    by (rule takeWhile_shorter) simp
  moreover have "takeWhile (\<lambda>b. b \<noteq> CR) bs = takeWhile (\<lambda>b. b \<noteq> CR) (take (Suc e) bs)"
    using takeWhile_append1 [of CR "take (Suc e) bs" "\<lambda>b. b \<noteq> CR" "drop (Suc e) bs"] \<open>CR \<in> set (take (Suc e) bs)\<close>
    by simp
  ultimately have "length (takeWhile (\<lambda>b. b \<noteq> CR) bs) \<le> e" using len by simp
  then have total: "length (takeWhile (\<lambda>b. b \<noteq> CR) bs) + 2 +
      Suc (length (drop (length (takeWhile (\<lambda>b. b \<noteq> CR) bs) + 2) (take e bs))) \<le> e + 4"
    using len by simp
  fix h
  assume "h \<in> set (hp_headers r)"
  from lines_headers_range [OF this [unfolded r(3)]] total
  show "hp_name_start h + hp_name_len h \<le> hp_len r \<and> hp_value_start h + hp_value_len h \<le> hp_len r"
    unfolding add.assoc length_split_on_sum r(1) by linarith
qed

end
