(* ===== verification/Role_Props.thy ===== *)
theory Role_Props
  imports Role Response_Parser Buffered_Props
begin

text \<open>
  What the client role promises: the fast completeness check agrees with the full one, unfolding a
  header line stays inside it, parsing ends without panic and takes only a prefix off the buffer,
  and the framing chosen for a message agrees with its headers.
\<close>

section \<open>The fast completeness check\<close>

definition head_ends_at :: "bytes \<Rightarrow> nat \<Rightarrow> bool" where
  "head_ends_at bs i \<longleftrightarrow> take 4 (drop i bs) = [CR, LF, CR, LF] \<or> take 2 (drop i bs) = [LF, LF]"

lemma complete_scan_iff: "complete_scan bs \<longleftrightarrow> (\<exists>i. head_ends_at bs i)"
proof (induction bs)
  case (Cons b bs)
  have "(\<exists>i. head_ends_at (b # bs) i) \<longleftrightarrow> head_ends_at (b # bs) 0 \<or> (\<exists>i. head_ends_at bs i)"
  proof
    assume "\<exists>i. head_ends_at (b # bs) i"
    then obtain i where "head_ends_at (b # bs) i" ..
    then show "head_ends_at (b # bs) 0 \<or> (\<exists>i. head_ends_at bs i)"
      by (cases i) (auto simp: head_ends_at_def)
  next
    assume "head_ends_at (b # bs) 0 \<or> (\<exists>i. head_ends_at bs i)"
    moreover have "head_ends_at bs i \<Longrightarrow> head_ends_at (b # bs) (Suc i)" for i
      by (simp add: head_ends_at_def)
    ultimately show "\<exists>i. head_ends_at (b # bs) i" by blast
  qed
  moreover have "head_ends_at (b # bs) 0 \<longleftrightarrow>
      b = CR \<and> take 3 bs = [LF, CR, LF] \<or> b = LF \<and> take 1 bs = [LF]"
    by (simp add: head_ends_at_def eval_nat_numeral)
  ultimately show ?case using Cons by auto
qed (simp add: head_ends_at_def)

lemma head_ends_at_take:
  assumes "head_ends_at bs i" and "i + 3 < n"
  shows "head_ends_at (take n bs) i"
  using assms by (auto simp: head_ends_at_def drop_take min_def)

lemma head_ends_at_drop: "n \<le> i \<Longrightarrow> head_ends_at (drop n bs) (i - n) = head_ends_at bs i"
  by (simp add: head_ends_at_def)

lemma fast_scan_complete:
  assumes "\<not> complete_scan (take prev bs)"
  shows "complete_scan (drop (prev - 3) bs) \<longleftrightarrow> complete_scan bs"
proof
  assume "complete_scan (drop (prev - 3) bs)"
  then show "complete_scan bs" by (auto simp: complete_scan_iff head_ends_at_def)
next
  assume "complete_scan bs"
  then obtain i where i: "head_ends_at bs i" by (auto simp: complete_scan_iff)
  with assms head_ends_at_take [of bs i prev] have "prev - 3 \<le> i" by (fastforce simp: complete_scan_iff)
  with i show "complete_scan (drop (prev - 3) bs)" by (metis complete_scan_iff head_ends_at_drop)
qed

section \<open>Folded header lines\<close>

lemma trim_bytes_length: "length (trim_bytes s) \<le> length s"
  by (metis length_trim_end_by length_trim_start_by order_trans trim_bytes_def)

lemma trim_bytes_set: "set (trim_bytes s) \<subseteq> set s"
  unfolding trim_bytes_def using set_trim_start_by set_trim_end_by by fast

lemma folded_length:
  "length (concat (map (\<lambda>line. CHR '' '' # trim_bytes line) ls)) \<le> sum_list (map length ls) + length ls"
proof (induction ls)
  case (Cons l ls)
  then show ?case using trim_bytes_length [of l] by simp
qed simp

lemma unfold_line_length: "length (unfold_line first rest) \<le> length first + length rest + 1"
proof -
  have "length (concat (map (\<lambda>line. CHR '' '' # trim_bytes line) (split_on LF rest))) \<le> Suc (length rest)"
    using folded_length [of "split_on LF rest"] by (simp add: length_split_on_sum)
  then show ?thesis
    using length_trim_end_by [of is_ascii_whitespace first] unfolding unfold_line_def length_append by linarith
qed

lemma unfold_line_no_LF: "LF \<notin> set first \<Longrightarrow> LF \<notin> set (unfold_line first rest)"
  using set_trim_end_by [of is_ascii_whitespace first] trim_bytes_set split_on_no_sep [of _ LF rest]
  by (fastforce simp: unfold_line_def)

definition indices_in :: "nat \<Rightarrow> header_indices \<Rightarrow> bool" where
  "indices_in n idx \<longleftrightarrow> fst (hi_name idx) \<le> snd (hi_name idx) \<and> snd (hi_name idx) \<le> n \<and>
     fst (hi_value idx) \<le> snd (hi_value idx) \<and> snd (hi_value idx) \<le> n"

lemma unfold_line_fits:
  assumes "LF \<in> set v"
  shows "length (unfold_line (takeWhile (\<lambda>b. b \<noteq> LF) v) (drop (length (takeWhile (\<lambda>b. b \<noteq> LF) v) + 1) v))
    \<le> length v"
proof -
  have "length (takeWhile (\<lambda>b. b \<noteq> LF) v) < length v" using assms by (rule takeWhile_shorter) simp
  then show ?thesis
    using unfold_line_length [of "takeWhile (\<lambda>b. b \<noteq> LF) v" "drop (length (takeWhile (\<lambda>b. b \<noteq> LF) v) + 1) v"]
    unfolding length_drop by linarith
qed

lemma obs_fold_line_ok:
  assumes "fst (hi_value idx) \<le> snd (hi_value idx)" and "snd (hi_value idx) \<le> length all"
  shows "\<exists>all' idx'. obs_fold_line all idx = Return (all', idx') \<and> length all' = length all \<and>
    hi_name idx' = hi_name idx \<and> fst (hi_value idx') = fst (hi_value idx) \<and>
    fst (hi_value idx') \<le> snd (hi_value idx') \<and> snd (hi_value idx') \<le> snd (hi_value idx) \<and>
    take (fst (hi_value idx)) all' = take (fst (hi_value idx)) all \<and>
    drop (snd (hi_value idx)) all' = drop (snd (hi_value idx)) all \<and>
    LF \<notin> set (take (snd (hi_value idx') - fst (hi_value idx')) (drop (fst (hi_value idx')) all'))"
proof -
  obtain v0 v1 where v: "hi_value idx = (v0, v1)" by fastforce
  let ?buf = "take (v1 - v0) (drop v0 all)"
  let ?first = "takeWhile (\<lambda>b. b \<noteq> LF) ?buf"
  let ?un = "unfold_line ?first (drop (length ?first + 1) ?buf)"
  have range: "slice_range all v0 v1 = Return ?buf" using assms v by (simp add: slice_range_def)
  show ?thesis
  proof (cases "LF \<in> set ?buf")
    case False
    with range v assms show ?thesis by (auto simp: obs_fold_line_def)
  next
    case True
    then have un: "length ?un \<le> length ?buf" by (rule unfold_line_fits)
    have lf: "LF \<notin> set ?un" by (rule unfold_line_no_LF) (auto dest: set_takeWhileD)
    let ?all = "take v0 all @ ?un @ drop (v0 + length ?un) all"
    have len: "length ?un \<le> v1 - v0" "v0 \<le> v1" "v1 \<le> length all" using un assms v by auto
    have eq: "obs_fold_line all idx = Return (?all, idx\<lparr>hi_value := (v0, v0 + length ?un)\<rparr>)"
      using True range v un by (simp add: obs_fold_line_def Let_def)
    show ?thesis using eq v len lf by (auto simp: min_def)
  qed
qed

lemma obs_fold_lines_ok:
  "list_all (indices_in (length all)) idxs \<Longrightarrow>
   \<exists>all' idxs'. obs_fold_lines all idxs = Return (all', idxs') \<and> length all' = length all \<and>
     list_all (indices_in (length all)) idxs'"
proof (induction idxs arbitrary: all)
  case (Cons idx idxs)
  from Cons.prems have "indices_in (length all) idx" by simp
  with obs_fold_line_ok [of idx all] obtain all1 idx1
    where 1: "obs_fold_line all idx = Return (all1, idx1)" "length all1 = length all" "indices_in (length all) idx1"
    by (auto simp: indices_in_def)
  with Cons.IH [of all1] Cons.prems show ?case by auto
qed simp

section \<open>Parsing\<close>

lemma record_header_indices_ok:
  "record_header_indices hs room = Inr idxs \<Longrightarrow> idxs = map indices_of (take room hs)"
proof (induction hs room arbitrary: idxs rule: record_header_indices.induct)
  case (3 h hs room)
  then show ?case by (cases "record_header_indices hs room") (auto split: if_splits)
qed simp_all

lemma collect_headers_ok:
  "list_all (indices_in (length all)) idxs \<Longrightarrow> \<exists>res. collect_headers False api all idxs headers ka = Return res"
proof (induction idxs arbitrary: headers ka)
  case (Cons idx idxs)
  then have "slice_range all (fst (hi_name idx)) (snd (hi_name idx)) =
      Return (take (snd (hi_name idx) - fst (hi_name idx)) (drop (fst (hi_name idx)) all))"
    "slice_range all (fst (hi_value idx)) (snd (hi_value idx)) =
      Return (take (snd (hi_value idx) - fst (hi_value idx)) (drop (fst (hi_value idx)) all))"
    by (simp_all add: slice_range_def indices_in_def)
  with Cons show ?case by (auto simp: Let_def split: option.splits)
qed simp

lemma map_sum_Inr_eq: "map_sum f g x = Inr y \<longleftrightarrow> (\<exists>z. x = Inr z \<and> y = g z)"
  by (cases x) auto

lemma client_decoder_skips:
  "client_decoder api inc m = Inr None \<longleftrightarrow> h_subject inc = 100 \<or> (102 \<le> h_subject inc \<and> h_subject inc \<le> 199)"
  by (auto simp: client_decoder_def Let_def checked_new_def split: option.splits)

lemma client_decoder_te:
  assumes "hm_contains_key api (h_headers inc) TRANSFER_ENCODING"
    and "hm_get_all api h TRANSFER_ENCODING = hm_get_all api (h_headers inc) TRANSFER_ENCODING"
  shows "client_decoder api (inc\<lparr>h_headers := h\<rparr>) m = client_decoder api inc m"
proof -
  have "hm_contains_key api h TRANSFER_ENCODING" using assms by (simp add: hm_contains_key_def)
  with assms show ?thesis by (simp add: client_decoder_def Let_def transfer_encoding_is_chunked_def)
qed

context httparse_crate
begin

lemma parse_head_ok:
  assumes "parse_head api hp ctx bs = HeadParsed (len, status, reason, version, idxs, n)"
  shows "len \<le> length bs \<and> n \<le> length idxs \<and> list_all (indices_in len) idxs \<and>
    (len = 0 \<longrightarrow> status = 200)"
proof (cases "hp_parse_response hp (pc_parser_config ctx) (max_headers_of ctx) bs")
  case (HpComplete r)
  note len = response_len [OF HpComplete] and hs = response_headers [OF HpComplete]
  from assms HpComplete have idxs: "idxs = map indices_of (take (max_headers_of ctx) (hp_headers r))"
    and eq: "len = hp_len r" "n = length (hp_headers r)"
    by (auto simp: parse_head_def dest!: record_header_indices_ok split: option.splits sum.splits)
  have "indices_in len (indices_of h)" if "h \<in> set (hp_headers r)" for h
    using hs [OF that] by (simp add: indices_in_def indices_of_def eq)
  with len idxs eq show ?thesis by (auto simp: list_all_iff dest: in_set_takeD)
qed (use assms in \<open>auto simp: parse_head_def split: if_splits\<close>)

text \<open>One turn: what it may do to the buffer, and when it goes round again.\<close>

lemma parse_turn_ok:
  "\<exists>ctx' bm' res. parse_turn False api hp ctx bm = Return (ctx', bm', res) \<and>
    (\<exists>w. bm_bytes bm = w @ bm_bytes bm' \<and> (res = None \<longrightarrow> w \<noteq> [])) \<and>
    (\<forall>pm. res = Some (Inr (Some pm)) \<longrightarrow>
       client_decoder api (pm_head pm) (pc_req_method ctx) = Inr (Some (pm_decode pm, pm_wants_upgrade pm)) \<and>
       (pm_wants_upgrade pm \<longrightarrow> \<not> pm_keep_alive pm) \<and> \<not> pm_expect_continue pm) \<and>
    pc_req_method ctx' = pc_req_method ctx"
proof (cases "parse_head api hp ctx (bm_bytes bm)")
  case (HeadParsed p)
  obtain len status reason version idxs n where p: "p = (len, status, reason, version, idxs, n)"
    by (metis prod_cases6)
  from parse_head_ok [OF HeadParsed [unfolded p]]
  have ok: "len \<le> length (bm_bytes bm)" "n \<le> length idxs" "list_all (indices_in len) idxs"
    "len = 0 \<longrightarrow> status = 200" by auto
  let ?raw = "take len (bm_bytes bm)"
  have raw: "length ?raw = len" using ok(1) by simp
  have "list_all (indices_in (length ?raw)) (take n idxs)"
    using ok(3) raw by (auto simp: list_all_iff dest: in_set_takeD)
  then obtain all idxs' where fold:
    "(if allow_obsolete_multiline_headers (pc_parser_config ctx)
      then obs_fold_lines ?raw (take n idxs) else Return (?raw, take n idxs)) = Return (all, idxs')"
    "list_all (indices_in (length all)) idxs'"
    using obs_fold_lines_ok [of ?raw "take n idxs"] by (cases "allow_obsolete_multiline_headers (pc_parser_config ctx)") auto
  obtain collected where col: "collect_headers False api all idxs'
      (case pc_cached_headers ctx of Some h \<Rightarrow> h | None \<Rightarrow> hm_new api) (version = HTTP_11) = Return collected"
    using collect_headers_ok [OF fold(2), of api "case pc_cached_headers ctx of Some h \<Rightarrow> h | None \<Rightarrow> hm_new api"
        "version = HTTP_11"] by blast
  let ?ctx = "ctx\<lparr>pc_cached_headers := None\<rparr>"
  let ?bm = "bm\<lparr>bm_bytes := drop len (bm_bytes bm), bm_cap := bm_cap bm - len\<rparr>"
  have pre: "\<exists>w. bm_bytes bm = w @ bm_bytes ?bm \<and> (len \<noteq> 0 \<longrightarrow> w \<noteq> [])"
    using ok(1) by (intro exI [of _ ?raw]) auto
  show ?thesis
  proof (cases collected)
    case (Inl e)
    have "parse_turn False api hp ctx bm = Return (?ctx, ?bm, Some (Inl e))"
      using HeadParsed p ok(1,2) fold(1) col Inl by (simp add: parse_turn_def bm_split_to_def Let_def)
    with pre show ?thesis by auto
  next
    case (Inr hk)
    obtain headers ka where hk: "hk = (headers, ka)" by fastforce
    let ?head = "\<lparr>h_version = version, h_subject = status, h_headers = headers,
      h_extensions = extensions_default\<lparr>ext_reason_phrase := reason\<rparr>\<rparr>"
    note turn = parse_turn_def HeadParsed p bm_split_to_def Let_def fold(1) col Inr hk
    show ?thesis
    proof (cases "client_decoder api ?head (pc_req_method ctx)")
      case (Inl e)
      have "parse_turn False api hp ctx bm = Return (?ctx, ?bm, Some (Inl e))"
        using ok(1,2) Inl by (simp add: turn)
      with pre show ?thesis by auto
    next
      case dec: (Inr d)
      show ?thesis
      proof (cases d)
        case (Some du)
        obtain dl up where du: "du = (dl, up)" by fastforce
        have "parse_turn False api hp ctx bm = Return (?ctx, ?bm, Some (Inr (Some
            \<lparr>pm_head = ?head, pm_decode = dl, pm_expect_continue = False,
             pm_keep_alive = (ka \<and> \<not> up), pm_wants_upgrade = up\<rparr>)))"
          using ok(1,2) dec Some du by (simp add: turn)
        with pre dec Some du show ?thesis by auto
      next
        case None
        with dec client_decoder_skips [of api ?head "pc_req_method ctx"] have "status \<noteq> 200" by auto
        then have "len \<noteq> 0" using ok(4) by auto
        moreover have "\<exists>ctx' r. parse_turn False api hp ctx bm = Return (ctx', ?bm, r) \<and>
            (r = None \<or> r = Some (Inr None)) \<and> pc_req_method ctx' = pc_req_method ctx"
          using ok(1,2) dec None by (auto simp: turn)
        ultimately show ?thesis using pre by (metis option.distinct(1) option.inject sum.inject(2))
      qed
    qed
  qed
qed (auto simp: parse_turn_def)

lemma client_parse_ok:
  "\<exists>ctx' bm' res. client_parse False api hp ctx bm = Some (Return (ctx', bm', res)) \<and>
    (\<exists>w. bm_bytes bm = w @ bm_bytes bm') \<and>
    (\<forall>pm. res = Inr (Some pm) \<longrightarrow>
       client_decoder api (pm_head pm) (pc_req_method ctx) = Inr (Some (pm_decode pm, pm_wants_upgrade pm)) \<and>
       (pm_wants_upgrade pm \<longrightarrow> \<not> pm_keep_alive pm) \<and> \<not> pm_expect_continue pm) \<and>
    pc_req_method ctx' = pc_req_method ctx"
proof (induction "length (bm_bytes bm)" arbitrary: ctx bm rule: less_induct)
  case less
  from parse_turn_ok [of api ctx bm] obtain ctx1 bm1 res w
    where turn: "parse_turn False api hp ctx bm = Return (ctx1, bm1, res)"
      and w: "bm_bytes bm = w @ bm_bytes bm1" "res = None \<longrightarrow> w \<noteq> []"
      and pm: "\<forall>pm. res = Some (Inr (Some pm)) \<longrightarrow>
         client_decoder api (pm_head pm) (pc_req_method ctx) = Inr (Some (pm_decode pm, pm_wants_upgrade pm)) \<and>
         (pm_wants_upgrade pm \<longrightarrow> \<not> pm_keep_alive pm) \<and> \<not> pm_expect_continue pm"
      and m: "pc_req_method ctx1 = pc_req_method ctx" by blast
  note unfold = client_parse.simps [of False api hp ctx bm] turn
  show ?case
  proof (cases res)
    case None
    with w have "length (bm_bytes bm1) < length (bm_bytes bm)" by simp
    from less.hyps [OF this, of ctx1] None w(1) m show ?thesis by (auto simp: unfold)
  next
    case (Some r)
    with w(1) pm m show ?thesis by (auto simp: unfold)
  qed
qed

lemma parse_headers_ok:
  assumes "\<And>n. prev = Some n \<Longrightarrow> n \<le> length (bm_bytes bm)"
  shows "\<exists>ctx' bm' res. parse_headers False api hp ctx bm prev = Some (Return (ctx', bm', res)) \<and>
    (\<exists>w. bm_bytes bm = w @ bm_bytes bm') \<and>
    (\<forall>pm. res = Inr (Some pm) \<longrightarrow>
       client_decoder api (pm_head pm) (pc_req_method ctx) = Inr (Some (pm_decode pm, pm_wants_upgrade pm)) \<and>
       (pm_wants_upgrade pm \<longrightarrow> \<not> pm_keep_alive pm) \<and> \<not> pm_expect_continue pm) \<and>
    pc_req_method ctx' = pc_req_method ctx"
proof (cases "bm_bytes bm = []")
  case True
  then show ?thesis by (simp add: parse_headers_def)
next
  case False
  have "\<exists>c. (case prev of None \<Rightarrow> Return True | Some n \<Rightarrow> is_complete_fast (bm_bytes bm) n) = Return c"
    using assms by (auto simp: is_complete_fast_def slice_from_def le_diff_conv trans_le_add1 split: option.splits)
  then obtain c where "(case prev of None \<Rightarrow> Return True | Some n \<Rightarrow> is_complete_fast (bm_bytes bm) n) = Return c" ..
  with False client_parse_ok [of api ctx bm] show ?thesis by (cases c) (auto simp: parse_headers_def)
qed

end

section \<open>Framing\<close>

lemma chunked_token: "eq_ignore_ascii_case (str_trim '' chunked'') ''chunked''"
  "eq_ignore_ascii_case (str_trim ''chunked'') ''chunked''"
  by (simp_all add: str_trim_def trim_start_by_def trim_end_by_def is_whitespace_def eq_ignore_ascii_case_def)

lemma split_chunked: "last (split_on COMMA (v @ '', '' @ ''chunked'')) = '' chunked''"
  using split_on_append_sep [of COMMA "'' chunked''" v] by simp

context http_crate
begin

lemma add_chunked_is_chunked:
  assumes "list_all (list_all visible_ascii) (hm_get_all api h TRANSFER_ENCODING)"
  shows "transfer_encoding_is_chunked api (add_chunked api h)"
proof (cases "hm_get_all api h TRANSFER_ENCODING = []")
  case True
  then show ?thesis
    by (simp add: add_chunked_def transfer_encoding_is_chunked_def is_chunked_def to_str_iff
        visible_ascii_def chunked_token)
next
  case False
  let ?vs = "hm_get_all api h TRANSFER_ENCODING"
  have "list_all visible_ascii (last ?vs)" using assms last_in_set [OF False] by (simp add: list_all_iff)
  then have "hv_to_str api (last ?vs @ '', '' @ ''chunked'') = Some (last ?vs @ '', '' @ ''chunked'')"
    by (simp add: to_str_iff visible_ascii_def)
  moreover have "hm_get_all api (add_chunked api h) TRANSFER_ENCODING =
      butlast ?vs @ [last ?vs @ '', '' @ ''chunked'']"
    using False by (simp add: add_chunked_def Let_def get_all_set_values)
  ultimately show ?thesis
    by (simp add: transfer_encoding_is_chunked_def is_chunked_def split_chunked [simplified] chunked_token)
qed

lemma insert_content_length:
  "content_length_parse_all api (hm_insert api h CONTENT_LENGTH (hv_from_u64 api n)) = Some n"
proof -
  have d: "list_all is_digit (fmt_dec (unat n))" "digits_val 10 0 (dec_digits (fmt_dec (unat n))) = unat n"
    using fmt_dec_digits by auto
  then have "list_all visible_ascii (fmt_dec (unat n))" "list_all (\<lambda>b. \<not> is_whitespace b) (fmt_dec (unat n))"
    "COMMA \<notin> set (fmt_dec (unat n))"
    using digit_visible by (auto simp: list_all_iff)
  then have "all_items api (fmt_dec (unat n)) n"
    using d by (simp add: all_items_def to_str_iff split_on_id str_trim_id from_digits_Some)
  then show ?thesis
    by (simp add: content_length_parse_all_def content_length_parse_all_values_iff from_u64_dec)
qed

lemma set_content_length_ok:
  assumes "content_length_parse_all api h = None"
  shows "set_content_length dbg api h n =
    Return (hm_insert api h CONTENT_LENGTH (hv_from_u64 api n), encoder_length n)"
  using assms by (simp add: set_content_length_def content_length_parse_all_def Let_def)

lemma remove_other: "m \<noteq> n \<Longrightarrow> hm_get_all api (hm_remove api h n) m = hm_get_all api h m"
  by simp

lemma content_length_remove_te [simp]:
  "content_length_parse_all api (hm_remove api h TRANSFER_ENCODING) = content_length_parse_all api h"
  by (simp add: content_length_parse_all_def)

lemma te_chunked_keeps:
  "transfer_encoding_is_chunked api (hm_remove api h CONTENT_LENGTH) = transfer_encoding_is_chunked api h"
  "transfer_encoding_is_chunked api (hm_insert api h TRANSFER_ENCODING ''chunked'')"
  by (simp_all add: transfer_encoding_is_chunked_def is_chunked_def to_str_iff visible_ascii_def chunked_token)

lemma with_trailer_fields_chunked [simp]:
  "encoder_is_chunked (with_trailer_fields api h enc) = encoder_is_chunked enc"
  by (cases "e_kind enc")
    (simp_all add: with_trailer_fields_def into_chunked_with_trailing_fields_def encoder_is_chunked_def)

lemma chunked_not_length: "encoder_is_chunked enc \<Longrightarrow> e_kind enc \<noteq> EncLength n"
  by (auto simp: encoder_is_chunked_def)

lemma encoder_simps [simp]:
  "encoder_is_chunked encoder_chunked" "\<not> encoder_is_chunked (encoder_length n)"
  "e_kind (encoder_length n) = EncLength n"
  by (simp_all add: encoder_is_chunked_def encoder_chunked_def encoder_length_def encoder_new_def)

end

text \<open>The framing of a request head and the encoder of its body agree.\<close>

definition request_framed ::
  "'h http_api \<Rightarrow> body_length option \<Rightarrow> 'h \<Rightarrow> 'h request_head \<Rightarrow> encoder \<Rightarrow> bool" where
  "request_framed api body before head enc \<longleftrightarrow>
     (encoder_is_chunked enc \<longrightarrow>
        h_version head = HTTP_11 \<and> transfer_encoding_is_chunked api (h_headers head) \<and>
        (content_length_parse_all api before \<noteq> None \<longrightarrow> \<not> hm_contains_key api (h_headers head) CONTENT_LENGTH)) \<and>
     (\<forall>n. e_kind enc = EncLength n \<longrightarrow>
        \<not> hm_contains_key api (h_headers head) TRANSFER_ENCODING \<and>
        (content_length_parse_all api (h_headers head) = Some n \<or>
         n = 0 \<and> (body = None \<or> body = Some Unknown \<and> content_length_parse_all api (h_headers head) = None)))"

lemma request_framed_length:
  "\<not> hm_contains_key api (h_headers head) TRANSFER_ENCODING \<Longrightarrow>
   content_length_parse_all api (h_headers head) = Some n \<or>
     n = 0 \<and> (body = None \<or> body = Some Unknown \<and> content_length_parse_all api (h_headers head) = None) \<Longrightarrow>
   request_framed api body before head (encoder_length n)"
  by (simp add: request_framed_def encoder_is_chunked_def encoder_length_def encoder_new_def)

lemma request_framed_chunked:
  "encoder_is_chunked enc \<Longrightarrow> h_version head = HTTP_11 \<Longrightarrow> transfer_encoding_is_chunked api (h_headers head) \<Longrightarrow>
   (content_length_parse_all api before \<noteq> None \<Longrightarrow> \<not> hm_contains_key api (h_headers head) CONTENT_LENGTH) \<Longrightarrow>
   request_framed api body before head enc"
  by (auto simp: request_framed_def encoder_is_chunked_def)

context http_crate
begin

lemma no_te_after_remove [simp]: "\<not> hm_contains_key api (hm_remove api h TRANSFER_ENCODING) TRANSFER_ENCODING"
  by simp

lemma set_length_HTTP_10:
  assumes "h_version head \<noteq> HTTP_11"
  shows "\<exists>head' enc. set_length dbg api head (Some body) = Return (head', enc) \<and>
    request_framed api (Some body) (h_headers head) head' enc"
proof (cases "content_length_parse_all api (h_headers head)")
  case (Some n)
  with assms show ?thesis by (auto simp: set_length_def Let_def intro!: request_framed_length)
next
  case None
  then have "set_content_length dbg api (hm_remove api (h_headers head) TRANSFER_ENCODING) n =
      Return (hm_insert api (hm_remove api (h_headers head) TRANSFER_ENCODING) CONTENT_LENGTH (hv_from_u64 api n),
        encoder_length n)" for n
    by (simp add: set_content_length_ok)
  with None assms show ?thesis
    by (cases body)
      (auto simp: set_length_def Let_def insert_content_length intro!: request_framed_length)
qed

lemma set_length_te:
  assumes "h_version head = HTTP_11" and "hm_contains_key api (h_headers head) TRANSFER_ENCODING"
    and te: "list_all (list_all visible_ascii) (hm_get_all api (h_headers head) TRANSFER_ENCODING)"
  shows "\<exists>head' enc. set_length dbg api head (Some body) = Return (head', enc) \<and>
    request_framed api (Some body) (h_headers head) head' enc"
proof -
  let ?h = "h_headers head"
  let ?h1 = "if is_chunked api (hm_get_all api ?h TRANSFER_ENCODING) then ?h else add_chunked api ?h"
  let ?h2 = "if content_length_parse_all api ?h \<noteq> None then hm_remove api ?h1 CONTENT_LENGTH else ?h1"
  have "transfer_encoding_is_chunked api ?h1"
    using add_chunked_is_chunked [OF te] by (simp add: transfer_encoding_is_chunked_def)
  then have "transfer_encoding_is_chunked api ?h2" by (simp add: te_chunked_keeps)
  then have "request_framed api (Some body) ?h (head\<lparr>h_headers := ?h2\<rparr>) (with_trailer_fields api ?h1 encoder_chunked)"
    using assms(1) by (intro request_framed_chunked) simp_all
  with assms(1,2) show ?thesis by (simp add: set_length_def Let_def)
qed

lemma set_length_no_te:
  assumes "h_version head = HTTP_11" and "\<not> hm_contains_key api (h_headers head) TRANSFER_ENCODING"
  shows "\<exists>head' enc. set_length dbg api head (Some body) = Return (head', enc) \<and>
    request_framed api (Some body) (h_headers head) head' enc"
proof (cases "content_length_parse_all api (h_headers head)")
  case (Some n)
  with assms show ?thesis by (auto simp: set_length_def Let_def intro!: request_framed_length)
next
  case None
  show ?thesis
  proof (cases body)
    case (Known n)
    with None assms show ?thesis
      by (auto simp: set_length_def Let_def set_content_length_ok insert_content_length
          intro!: request_framed_length)
  next
    case Unknown
    let ?h1 = "hm_insert api (h_headers head) TRANSFER_ENCODING ''chunked''"
    have "request_framed api (Some body) (h_headers head) (head\<lparr>h_headers := ?h1\<rparr>) (with_trailer_fields api ?h1 encoder_chunked)"
      using assms(1) None te_chunked_keeps(2) by (intro request_framed_chunked) simp_all
    moreover have "request_framed api (Some body) (h_headers head) head (encoder_length 0)"
      using assms(2) None Unknown by (intro request_framed_length) simp_all
    ultimately show ?thesis using None assms Unknown by (auto simp: set_length_def Let_def)
  qed
qed

lemma set_length_framed:
  assumes "list_all (list_all visible_ascii) (hm_get_all api (h_headers head) TRANSFER_ENCODING)"
  shows "\<exists>head' enc. set_length dbg api head body = Return (head', enc) \<and>
    request_framed api body (h_headers head) head' enc"
proof (cases body)
  case None
  have "request_framed api None (h_headers head) (head\<lparr>h_headers := hm_remove api (h_headers head) TRANSFER_ENCODING\<rparr>)
      (encoder_length 0)"
    by (intro request_framed_length) simp_all
  with None show ?thesis by (simp add: set_length_def)
next
  case (Some b)
  with assms set_length_HTTP_10 set_length_te set_length_no_te show ?thesis by metis
qed

end

text \<open>Which encoder is chosen, and with which length.\<close>

lemma trailers_stay_chunked [simp]:
  "encoder_is_chunked enc \<Longrightarrow> encoder_is_chunked (with_trailer_fields api h enc)"
  by (auto simp: with_trailer_fields_def into_chunked_with_trailing_fields_def encoder_is_chunked_def Let_def
      split: encoder_kind.splits)

lemma encoder_plain: "encoder_is_chunked encoder_chunked" "\<not> encoder_is_chunked (encoder_length n)"
  by (simp_all add: encoder_is_chunked_def encoder_chunked_def encoder_length_def encoder_new_def)

lemma set_length_chunked_iff:
  assumes "set_length dbg api head body = Return (head', enc)"
  shows "encoder_is_chunked enc \<longleftrightarrow>
    h_version head = HTTP_11 \<and> body \<noteq> None \<and>
    (hm_contains_key api (h_headers head) TRANSFER_ENCODING \<or>
     content_length_parse_all api (h_headers head) = None \<and> body = Some Unknown \<and>
       fst (h_subject head) \<notin> {GET, HEAD, CONNECT})"
  using assms
  by (auto simp: set_length_def Let_def set_content_length_def encoder_plain split: option.splits if_splits body_length.splits)

lemma set_length_head:
  assumes "set_length dbg api head body = Return (head', enc)"
  shows "h_version head' = h_version head \<and> h_subject head' = h_subject head \<and>
    h_extensions head' = h_extensions head"
  using assms
  by (auto simp: set_length_def Let_def set_content_length_def split: option.splits if_splits body_length.splits)

section \<open>Parsing from a transport\<close>

definition partial_ok :: "('io, 'b) buffered \<Rightarrow> bool" where
  "partial_ok b \<longleftrightarrow> (\<forall>n. partial_len b = Some n \<longrightarrow> n \<le> length (bm_bytes (read_buf b)))"

lemma read_from_io_keeps:
  "poll_read_from_io T b = (b', r) \<Longrightarrow> partial_len b' = partial_len b \<and> flush_pipeline b' = flush_pipeline b"
  by (auto simp: poll_read_from_io_def Let_def split: prod.splits poll.splits sum.splits if_splits)

definition parse_ok ::
  "'h http_api \<Rightarrow> ('io \<Rightarrow> bytes) \<Rightarrow> 'h parse_context \<Rightarrow> ('io, 'b) buffered \<Rightarrow>
   'h parse_context \<times> ('io, 'b) buffered \<times> (error + 'h parsed_message) poll \<Rightarrow> bool" where
  "parse_ok api incoming ctx b out =
     (case out of (ctx', b', res) \<Rightarrow>
        \<not> is_panicked res \<and> pc_req_method ctx' = pc_req_method ctx \<and> flush_pipeline b' = flush_pipeline b \<and> (\<exists>w. stream incoming b = w @ stream incoming b') \<and> write_buf b' = write_buf b \<and>
        (res = Pending \<longrightarrow> partial_ok b') \<and>
        (\<forall>pm. res = Ready (Inr pm) \<longrightarrow> partial_len b' = None \<and>
           client_decoder api (pm_head pm) (pc_req_method ctx) = Inr (Some (pm_decode pm, pm_wants_upgrade pm)) \<and>
           (pm_wants_upgrade pm \<longrightarrow> \<not> pm_keep_alive pm) \<and> \<not> pm_expect_continue pm))"

lemma parse_ok_step:
  assumes "parse_ok api incoming ctx' b' out" and "stream incoming b = w @ stream incoming b'"
    and "write_buf b' = write_buf b" and "flush_pipeline b' = flush_pipeline b" and "pc_req_method ctx' = pc_req_method ctx"
  shows "parse_ok api incoming ctx b out"
proof -
  obtain ctx1 b1 res where out: "out = (ctx1, b1, res)" by (metis prod_cases3)
  from assms(1) obtain v where "stream incoming b' = v @ stream incoming b1" by (auto simp: parse_ok_def out)
  with assms(2) have "stream incoming b = (w @ v) @ stream incoming b1" by simp
  then have "\<exists>w. stream incoming b = w @ stream incoming b1" ..
  with assms show ?thesis by (simp add: parse_ok_def out)
qed

lemma buffered_parse_ok:
  assumes T: "transport_io T incoming sent ok view" and H: "httparse_crate hp"
  shows "partial_ok b \<Longrightarrow>
    \<exists>out. buffered_parse (parse_headers False api hp) T ctx b = Some out \<and> parse_ok api incoming ctx b out"
proof (induction "length (incoming (b_io b))" arbitrary: b ctx rule: less_induct)
  case less
  from httparse_crate.parse_headers_ok [OF H, of "partial_len b" "read_buf b" api ctx] less.prems
  obtain ctx1 rb res w where ph: "parse_headers False api hp ctx (read_buf b) (partial_len b) = Some (Return (ctx1, rb, res))"
    and w: "bm_bytes (read_buf b) = w @ bm_bytes rb" and m: "pc_req_method ctx1 = pc_req_method ctx"
    and pm: "\<forall>pm. res = Inr (Some pm) \<longrightarrow>
       client_decoder api (pm_head pm) (pc_req_method ctx) = Inr (Some (pm_decode pm, pm_wants_upgrade pm)) \<and>
       (pm_wants_upgrade pm \<longrightarrow> \<not> pm_keep_alive pm) \<and> \<not> pm_expect_continue pm"
    by (auto simp: partial_ok_def)
  note unfold = buffered_parse.simps [of "parse_headers False api hp" T ctx b] ph
  let ?n = "length (bm_bytes rb)"
  let ?b1 = "b\<lparr>read_buf := rb, partial_len := (if ?n > 0 then Some ?n else None)\<rparr>"
  have st: "stream incoming b = w @ stream incoming ?b1" using w by (simp add: stream_def)
  consider e where "res = Inl e" | p where "res = Inr (Some p)"
    | "res = Inr None" "?n \<ge> unat (rs_max (read_buf_strategy b))"
    | "res = Inr None" "\<not> ?n \<ge> unat (rs_max (read_buf_strategy b))"
    by (metis option.exhaust sum.exhaust)
  then show ?case
  proof cases
    case 4
    obtain b2 r where rd: "poll_read_from_io T ?b1 = (b2, r)" by fastforce
    note ok = transport_io.poll_read_from_io_ok [OF T rd]
    have fp: "flush_pipeline b2 = flush_pipeline b" using read_from_io_keeps [OF rd] by simp
    have po: "partial_ok b2" if "\<not> (\<exists>n. r = Ready (Inr n))"
    proof -
      have "partial_len b2 = partial_len ?b1" using read_from_io_keeps [OF rd] by simp
      with ok that show ?thesis by (auto simp: partial_ok_def split: poll.splits sum.splits if_splits)
    qed
    show ?thesis
    proof (cases "\<exists>n. r = Ready (Inr n) \<and> n \<noteq> 0")
      case True
      then obtain n where n: "r = Ready (Inr n)" "n \<noteq> 0" by blast
      have pl: "partial_len b2 = partial_len ?b1" using read_from_io_keeps [OF rd] by simp
      from ok n have len: "length (bm_bytes (read_buf b2)) = ?n + n" "stream incoming b2 = stream incoming ?b1"
        "write_buf b2 = write_buf b" by simp_all
      then have "length (incoming (b_io b2)) + n = length (incoming (b_io b))"
        using arg_cong [OF len(2), of length] unfolding stream_def length_append by simp
      then have "length (incoming (b_io b2)) < length (incoming (b_io b))" using n(2) by simp
      moreover have "partial_ok b2" using pl len(1) by (auto simp: partial_ok_def split: if_splits)
      ultimately obtain out where "buffered_parse (parse_headers False api hp) T ctx1 b2 = Some out"
        "parse_ok api incoming ctx1 b2 out" using less.hyps by blast
      moreover have "buffered_parse (parse_headers False api hp) T ctx b =
          buffered_parse (parse_headers False api hp) T ctx1 b2"
        using 4 rd n by (subst unfold(1)) (simp add: ph Let_def)
      moreover have "stream incoming b = w @ stream incoming b2" unfolding len(2) by (rule st)
      ultimately show ?thesis using parse_ok_step [OF _ _ len(3) fp m] by metis
    next
      case False
      with 4 rd ok po st m fp show ?thesis
        by (cases r) (auto simp: unfold Let_def parse_ok_def split: sum.splits if_splits)
    qed
  qed (use st w pm m in \<open>auto simp: unfold parse_ok_def stream_def Let_def\<close>)
qed

section \<open>Properties\<close>

text \<open>
  C37. The fast completeness check is right: when the part of the buffer seen before had no end of
  head in it, looking only at the last three old bytes and the new ones finds an end of head exactly
  when one is anywhere in the buffer, and never reads out of range.
\<close>

theorem is_complete_fast_right:
  assumes "prev \<le> length bs" and "\<not> complete_scan (take prev bs)"
  shows "is_complete_fast bs prev = Return (\<exists>i. head_ends_at bs i)"
  using assms fast_scan_complete [of prev bs]
  by (simp add: is_complete_fast_def slice_from_def complete_scan_iff)

theorem is_complete_fast_right_witness:
  "is_complete_fast (''a: b'' @ [LF, LF] @ ''rest'') 5 = Return True"
proof -
  have "\<not> complete_scan (take 5 (''a: b'' @ [LF, LF] @ ''rest''))" "head_ends_at (''a: b'' @ [LF, LF] @ ''rest'') 4"
    by (simp_all add: head_ends_at_def)
  then show ?thesis using is_complete_fast_right [of 5 "''a: b'' @ [LF, LF] @ ''rest''"] by auto
qed

text \<open>
  Unfolding a header value in place never panics and never grows it: the bytes before and after
  the old value, the header name and the start of the value stay, and the new value, inside the old
  one, has no line feed left.
\<close>

theorem obs_fold_line_in_place:
  assumes "fst (hi_value idx) \<le> snd (hi_value idx)" and "snd (hi_value idx) \<le> length all"
  shows "\<exists>all' idx'. obs_fold_line all idx = Return (all', idx') \<and> length all' = length all \<and>
    hi_name idx' = hi_name idx \<and> fst (hi_value idx') = fst (hi_value idx) \<and>
    fst (hi_value idx') \<le> snd (hi_value idx') \<and> snd (hi_value idx') \<le> snd (hi_value idx) \<and>
    take (fst (hi_value idx)) all' = take (fst (hi_value idx)) all \<and>
    drop (snd (hi_value idx)) all' = drop (snd (hi_value idx)) all \<and>
    LF \<notin> set (take (snd (hi_value idx') - fst (hi_value idx')) (drop (fst (hi_value idx')) all'))"
  by (rule obs_fold_line_ok [OF assms])

theorem obs_fold_line_in_place_witness:
  "\<exists>all' idx'. obs_fold_line (''a: x'' @ [LF] @ '' y z'') \<lparr>hi_name = (0, 1), hi_value = (3, 7)\<rparr> = Return (all', idx') \<and>
     take 3 all' = ''a: '' \<and> drop 7 all' = '' z'' \<and>
     LF \<notin> set (take (snd (hi_value idx') - fst (hi_value idx')) (drop (fst (hi_value idx')) all'))"
  using obs_fold_line_in_place [of "\<lparr>hi_name = (0, 1), hi_value = (3, 7)\<rparr>" "''a: x'' @ [LF] @ '' y z''"] by auto

text \<open>
  C19. Parsing a response head always returns, and without a panic, whatever bytes the peer sends and
  however the headers are folded: it takes a prefix off the buffer and leaves the rest. A message it
  yields is never one of the informational responses it skips, is framed as \<open>Client::decoder\<close> says,
  does not keep the connection alive when it turns into a tunnel, and never asks for a 100 Continue.
\<close>

theorem client_parse_returns:
  assumes "httparse_crate hp"
  shows "\<exists>ctx' bm' res. client_parse False api hp ctx bm = Some (Return (ctx', bm', res)) \<and>
    (\<exists>w. bm_bytes bm = w @ bm_bytes bm') \<and>
    (\<forall>pm. res = Inr (Some pm) \<longrightarrow>
       \<not> (h_subject (pm_head pm) = 100 \<or> (102 \<le> h_subject (pm_head pm) \<and> h_subject (pm_head pm) \<le> 199)) \<and>
       client_decoder api (pm_head pm) (pc_req_method ctx) = Inr (Some (pm_decode pm, pm_wants_upgrade pm)) \<and>
       (pm_wants_upgrade pm \<longrightarrow> \<not> pm_keep_alive pm) \<and> \<not> pm_expect_continue pm)"
proof -
  have "\<not> (h_subject h = 100 \<or> (102 \<le> h_subject h \<and> h_subject h \<le> 199))"
    if "client_decoder api h m = Inr (Some d)" for h m d
    using client_decoder_skips [of api h m] that by auto
  with httparse_crate.client_parse_ok [OF assms, of api ctx bm] show ?thesis by meson
qed

definition sample_context :: "entries parse_context" where
  "sample_context =
     \<lparr>pc_cached_headers = None, pc_req_method = Some GET,
      pc_parser_config = \<lparr>ignore_invalid_headers = False, allow_spaces_after_header_name = False,
        allow_obsolete_multiline_headers = False\<rparr>,
      pc_max_headers = None, pc_h09_responses = False, pc_on_informational = False, pc_informed = []\<rparr>"

lemma sample_context_simps:
  "pc_cached_headers sample_context = None" "sample_context\<lparr>pc_cached_headers := None\<rparr> = sample_context"
  "\<not> allow_obsolete_multiline_headers (pc_parser_config sample_context)"
  "\<not> pc_on_informational sample_context" "pc_req_method sample_context = Some GET"
  by (simp_all add: sample_context_def)

definition sample_response :: bytes where
  "sample_response =
     ''HTTP/1.1 100 Continue'' @ CRLF @ CRLF @ ''HTTP/1.1 200 OK'' @ CRLF @ ''Content-Length: 5'' @ CRLF @ CRLF @ ''hello''"

definition sample_parsed :: "entries parsed_message" where
  "sample_parsed =
     \<lparr>pm_head = \<lparr>h_version = HTTP_11, h_subject = 200, h_headers = [(CONTENT_LENGTH, [''5''])],
        h_extensions = extensions_default\<rparr>,
      pm_decode = DecodedLength 5, pm_expect_continue = False, pm_keep_alive = True, pm_wants_upgrade = False\<rparr>"

lemma record_one:
  "0 < room \<Longrightarrow> hp_name_len h < 2 ^ 16 \<Longrightarrow> record_header_indices [h] room = Inr [indices_of h]"
  by (cases room) simp_all

lemma from_digits_5: "from_digits ''5'' = Some 5"
  by (simp add: from_digits_Some is_digit_def)

lemma sample_heads:
  "parse_head list_api simple_parser sample_context sample_response =
     HeadParsed (25, 100, None, HTTP_11, [], 0)"
  "parse_head list_api simple_parser sample_context (drop 25 sample_response) =
     HeadParsed (38, 200, None, HTTP_11, [\<lparr>hi_name = (17, 31), hi_value = (33, 34)\<rparr>], 1)"
  "collect_headers False list_api (take 38 (drop 25 sample_response)) [\<lparr>hi_name = (17, 31), hi_value = (33, 34)\<rparr>] [] True =
     Return (Inr ([(CONTENT_LENGTH, [''5''])], True))"
  "content_length_parse_all list_api [(CONTENT_LENGTH, [''5''])] = Some 5"
  "length sample_response = 68" "drop 63 sample_response = ''hello''"
  by (simp_all add: sample_response_def parse_head_def simple_parser_def simple_parse_response_def Let_def
      line_header_def max_headers_of_def sample_context_def indices_of_def is_digit_def
      DEFAULT_MAX_HEADERS_def list_api_def record_one slice_range_def is_token_char_def to_ascii_lowercase_def
      content_length_parse_all_def content_length_parse_all_values_def from_digits_5 char_of_def bit_0
      str_trim_def trim_start_by_def trim_end_by_def is_whitespace_def visible_ascii_def)

lemma sample_turns:
  "parse_turn False list_api simple_parser sample_context \<lparr>bm_bytes = sample_response, bm_cap = 100\<rparr> =
     Return (sample_context, \<lparr>bm_bytes = drop 25 sample_response, bm_cap = 75\<rparr>, None)"
  "parse_turn False list_api simple_parser sample_context \<lparr>bm_bytes = drop 25 sample_response, bm_cap = 75\<rparr> =
     Return (sample_context, \<lparr>bm_bytes = ''hello'', bm_cap = 37\<rparr>, Some (Inr (Some sample_parsed)))"
proof -
  note sel = sample_context_simps sample_heads parse_turn_def bm_split_to_def Let_def client_decoder_def
  show "parse_turn False list_api simple_parser sample_context \<lparr>bm_bytes = sample_response, bm_cap = 100\<rparr> =
     Return (sample_context, \<lparr>bm_bytes = drop 25 sample_response, bm_cap = 75\<rparr>, None)"
    by (simp add: sel)
  show "parse_turn False list_api simple_parser sample_context \<lparr>bm_bytes = drop 25 sample_response, bm_cap = 75\<rparr> =
     Return (sample_context, \<lparr>bm_bytes = ''hello'', bm_cap = 37\<rparr>, Some (Inr (Some sample_parsed)))"
    by (simp add: sel sample_parsed_def extensions_default_def checked_new_def MAX_LEN_def hm_contains_key_def
        del: collect_headers.simps)
qed

theorem client_parse_returns_witness:
  "client_parse False list_api simple_parser sample_context \<lparr>bm_bytes = sample_response, bm_cap = 100\<rparr> =
     Some (Return (sample_context, \<lparr>bm_bytes = ''hello'', bm_cap = 37\<rparr>, Inr (Some sample_parsed))) \<and>
   client_decoder list_api (pm_head sample_parsed) (Some GET) = Inr (Some (DecodedLength 5, False))"
proof -
  have run: "client_parse False list_api simple_parser sample_context \<lparr>bm_bytes = sample_response, bm_cap = 100\<rparr> =
     Some (Return (sample_context, \<lparr>bm_bytes = ''hello'', bm_cap = 37\<rparr>, Inr (Some sample_parsed)))"
    using client_parse.simps [of False list_api simple_parser sample_context "\<lparr>bm_bytes = sample_response, bm_cap = 100\<rparr>"]
      client_parse.simps [of False list_api simple_parser sample_context "\<lparr>bm_bytes = drop 25 sample_response, bm_cap = 75\<rparr>"]
    unfolding sample_turns by simp
  with client_parse_returns [OF simple_parser.httparse_crate_axioms, of list_api sample_context
      "\<lparr>bm_bytes = sample_response, bm_cap = 100\<rparr>"]
  show ?thesis by (simp add: sample_context_def sample_parsed_def)
qed

text \<open>
  C15. The framing of a response follows RFC 9112: a tunnel starts exactly at 101 and at a successful
  CONNECT; a body is chunked only when the last transfer coding is \<open>chunked\<close> and the version is not
  HTTP/1.0; a body has a known length other than zero only when there is no \<open>Transfer-Encoding\<close> and
  every \<open>Content-Length\<close> agrees on it. With a \<open>Transfer-Encoding\<close>, no \<open>Content-Length\<close> changes the
  result, so a response that carries both cannot be read two ways.
\<close>

theorem client_decoder_framing:
  assumes "client_decoder api inc m = Inr (Some (dl, up))"
  shows "(up \<longleftrightarrow> h_subject inc = 101 \<or>
            m = Some CONNECT \<and> h_subject inc \<in> {200..299} - {204}) \<and>
    (up \<longrightarrow> dl = ZERO) \<and>
    (dl = CHUNKED \<longrightarrow> transfer_encoding_is_chunked api (h_headers inc) \<and> h_version inc \<noteq> HTTP_10) \<and>
    (is_exact dl \<and> dl \<noteq> ZERO \<longrightarrow> \<not> hm_contains_key api (h_headers inc) TRANSFER_ENCODING \<and>
       content_length_parse_all api (h_headers inc) = Some (dl_val dl)) \<and>
    (\<forall>h. hm_contains_key api (h_headers inc) TRANSFER_ENCODING \<and>
         hm_get_all api h TRANSFER_ENCODING = hm_get_all api (h_headers inc) TRANSFER_ENCODING \<longrightarrow>
         client_decoder api (inc\<lparr>h_headers := h\<rparr>) m = Inr (Some (dl, up)))"
proof (intro conjI)
  have dist: "CHUNKED \<noteq> ZERO" "CLOSE_DELIMITED \<noteq> ZERO" "CHUNKED \<noteq> CLOSE_DELIMITED"
    "\<not> is_exact CHUNKED" "\<not> is_exact CLOSE_DELIMITED"
    by (simp_all add: is_exact_iff) (simp_all add: length_defs)
  note framing = assms [unfolded client_decoder_def Let_def]
  show "up \<longleftrightarrow> h_subject inc = 101 \<or> m = Some CONNECT \<and> h_subject inc \<in> {200..299} - {204}"
    using framing by (auto split: if_splits option.splits simp: map_sum_Inr_eq)
  show "up \<longrightarrow> dl = ZERO" using framing by (auto split: if_splits option.splits simp: map_sum_Inr_eq)
  show "dl = CHUNKED \<longrightarrow> transfer_encoding_is_chunked api (h_headers inc) \<and> h_version inc \<noteq> HTTP_10"
    using framing dist
    by (auto split: if_splits option.splits simp: map_sum_Inr_eq checked_new_Inr is_exact_iff)
  show "is_exact dl \<and> dl \<noteq> ZERO \<longrightarrow> \<not> hm_contains_key api (h_headers inc) TRANSFER_ENCODING \<and>
       content_length_parse_all api (h_headers inc) = Some (dl_val dl)"
    using framing dist
    by (auto split: if_splits option.splits simp: map_sum_Inr_eq checked_new_Inr)
  show "\<forall>h. hm_contains_key api (h_headers inc) TRANSFER_ENCODING \<and>
         hm_get_all api h TRANSFER_ENCODING = hm_get_all api (h_headers inc) TRANSFER_ENCODING \<longrightarrow>
         client_decoder api (inc\<lparr>h_headers := h\<rparr>) m = Inr (Some (dl, up))"
    using client_decoder_te [of api inc _ m] assms by simp
qed

theorem client_decoder_framing_witness:
  "client_decoder list_api
     \<lparr>h_version = HTTP_11, h_subject = 200, h_headers = [(TRANSFER_ENCODING, [''chunked'']), (CONTENT_LENGTH, [''5''])],
      h_extensions = extensions_default\<rparr> (Some GET) = Inr (Some (CHUNKED, False)) \<and>
   transfer_encoding_is_chunked list_api [(TRANSFER_ENCODING, [''chunked'']), (CONTENT_LENGTH, [''5''])]"
proof -
  let ?h = "[(TRANSFER_ENCODING, [''chunked'']), (CONTENT_LENGTH, [''5''])]"
  let ?inc = "\<lparr>h_version = HTTP_11, h_subject = 200, h_headers = ?h, h_extensions = extensions_default\<rparr>"
  have "client_decoder list_api ?inc (Some GET) = Inr (Some (CHUNKED, False))"
    by (simp add: client_decoder_def Let_def hm_contains_key_def transfer_encoding_is_chunked_def is_chunked_def
        visible_ascii_def chunked_token)
  with client_decoder_framing [OF this] show ?thesis by simp
qed

text \<open>
  C20. The framing chosen for a request whose \<open>Transfer-Encoding\<close> values, if any, are visible ASCII,
  whatever else the caller put into its headers. There is no panic. The encoder is chunked exactly for
  an HTTP/1.1 request with a body that has a \<open>Transfer-Encoding\<close>, or that has neither that nor a valid
  \<open>Content-Length\<close>, whose body length is unknown and whose method is not GET, HEAD or CONNECT; then
  \<open>chunked\<close> is the last transfer coding sent, and a valid \<open>Content-Length\<close> has been removed. Otherwise
  the encoder has a length and no \<open>Transfer-Encoding\<close> is sent; the \<open>Content-Length\<close> that is sent says
  that length, except in two cases in which the length is 0: the request has no body, and then the
  \<open>Content-Length\<close> of the caller is sent as it was; or the length of its body is unknown and no valid
  \<open>Content-Length\<close> is sent.
\<close>

theorem set_length_frames_request:
  assumes "http_crate api"
    and "list_all (list_all visible_ascii) (hm_get_all api (h_headers head) TRANSFER_ENCODING)"
  shows "\<exists>head' enc. set_length dbg api head body = Return (head', enc) \<and>
    (encoder_is_chunked enc \<longleftrightarrow>
       h_version head = HTTP_11 \<and> body \<noteq> None \<and>
       (hm_contains_key api (h_headers head) TRANSFER_ENCODING \<or>
        content_length_parse_all api (h_headers head) = None \<and> body = Some Unknown \<and>
          fst (h_subject head) \<notin> {GET, HEAD, CONNECT})) \<and>
    (encoder_is_chunked enc \<longrightarrow>
       h_version head' = HTTP_11 \<and> transfer_encoding_is_chunked api (h_headers head') \<and>
       (content_length_parse_all api (h_headers head) \<noteq> None \<longrightarrow>
          \<not> hm_contains_key api (h_headers head') CONTENT_LENGTH)) \<and>
    (\<forall>n. e_kind enc = EncLength n \<longrightarrow>
       \<not> hm_contains_key api (h_headers head') TRANSFER_ENCODING \<and>
       (content_length_parse_all api (h_headers head') = Some n \<or>
        n = 0 \<and> body = None \<and> h_headers head' = hm_remove api (h_headers head) TRANSFER_ENCODING \<or>
        n = 0 \<and> body = Some Unknown \<and> content_length_parse_all api (h_headers head') = None))"
proof -
  from http_crate.set_length_framed [OF assms, of dbg body] obtain head' enc where
    sl: "set_length dbg api head body = Return (head', enc)" "request_framed api body (h_headers head) head' enc" by blast
  have "body = None \<Longrightarrow> h_headers head' = hm_remove api (h_headers head) TRANSFER_ENCODING"
    using sl(1) by (auto simp: set_length_def Let_def)
  with sl(2) set_length_chunked_iff [OF sl(1)] show ?thesis
    by (intro exI [of _ head'] exI [of _ enc]) (auto simp: sl(1) request_framed_def)
qed

definition post_head :: "entries \<Rightarrow> entries request_head" where
  "post_head headers =
     \<lparr>h_version = HTTP_11, h_subject = (POST, ''/''), h_headers = headers, h_extensions = extensions_default\<rparr>"

theorem set_length_frames_request_witness:
  "(\<exists>head' enc. set_length True list_api (post_head [(TRANSFER_ENCODING, [''gzip'']), (CONTENT_LENGTH, [''5''])])
       (Some (Known 5)) = Return (head', enc) \<and> encoder_is_chunked enc \<and>
     transfer_encoding_is_chunked list_api (h_headers head')) \<and>
   (\<exists>head' enc. set_length True list_api (post_head []) (Some Unknown) = Return (head', enc) \<and> encoder_is_chunked enc)"
proof -
  let ?h = "[(TRANSFER_ENCODING, [''gzip'']), (CONTENT_LENGTH, [''5''])]"
  note frames = set_length_frames_request [OF list_http.http_crate_axioms, of _ True]
  have te: "list_all (list_all visible_ascii) (hm_get_all list_api (h_headers (post_head ?h)) TRANSFER_ENCODING)"
    "list_all (list_all visible_ascii) (hm_get_all list_api (h_headers (post_head [])) TRANSFER_ENCODING)"
    by (simp_all add: post_head_def visible_ascii_def)
  have ch: "h_version (post_head ?h) = HTTP_11" "hm_contains_key list_api (h_headers (post_head ?h)) TRANSFER_ENCODING"
    "h_version (post_head []) = HTTP_11" "fst (h_subject (post_head [])) = POST"
    "content_length_parse_all list_api (h_headers (post_head [])) = None"
    by (simp_all add: post_head_def hm_contains_key_def content_length_parse_all_def
        content_length_parse_all_values_def)
  from frames [OF te(1), of "Some (Known 5)"] ch have
    "\<exists>head' enc. set_length True list_api (post_head ?h) (Some (Known 5)) = Return (head', enc) \<and> encoder_is_chunked enc \<and>
       transfer_encoding_is_chunked list_api (h_headers head')" by blast
  moreover from frames [OF te(2), of "Some Unknown"] ch have
    "\<exists>head' enc. set_length True list_api (post_head []) (Some Unknown) = Return (head', enc) \<and> encoder_is_chunked enc"
    by auto
  ultimately show ?thesis ..
qed

text \<open>
  A request without a body keeps the \<open>Content-Length\<close> of its caller: the head announces five bytes,
  and the encoder writes none.
\<close>

theorem set_length_without_body_keeps_content_length:
  "set_length dbg list_api (post_head [(CONTENT_LENGTH, [''5''])]) None =
     Return (post_head [(CONTENT_LENGTH, [''5''])], encoder_length 0)"
  by (simp add: set_length_def post_head_def ent_del_def)

text \<open>
  A request that carries a \<open>Transfer-Encoding\<close> together with a \<open>Content-Length\<close> that is not a
  number is sent with both headers: \<open>set_length\<close> removes a \<open>Content-Length\<close> only when it parsed.
\<close>

theorem set_length_keeps_invalid_content_length:
  "set_length dbg list_api (post_head [(TRANSFER_ENCODING, [''chunked'']), (CONTENT_LENGTH, [''x''])]) (Some b) =
     Return (post_head [(TRANSFER_ENCODING, [''chunked'']), (CONTENT_LENGTH, [''x''])], encoder_chunked)"
proof -
  let ?h = "[(TRANSFER_ENCODING, [''chunked'']), (CONTENT_LENGTH, [''x''])]"
  have "content_length_parse_all list_api ?h = None"
    by (simp add: content_length_parse_all_def content_length_parse_all_values_def visible_ascii_def
        from_digits_def is_digit_def str_trim_def trim_start_by_def trim_end_by_def is_whitespace_def)
  moreover have "is_chunked list_api [''chunked'']"
    by (simp add: is_chunked_def visible_ascii_def chunked_token)
  moreover have "with_trailer_fields list_api ?h encoder_chunked = encoder_chunked"
    by (simp add: with_trailer_fields_def allowed_trailer_fields_def)
  ultimately show ?thesis
    by (simp add: set_length_def post_head_def Let_def hm_contains_key_def)
qed

text \<open>
  Reading a response head from a transport always returns, whatever the transport delivers and
  in however many pieces: no panic, only bytes from the front of the stream are taken (the rest of the
  stream is left in order), pending output is not touched, the recorded length of a partial head
  stays within the buffer, and a message it yields is framed as \<open>Client::decoder\<close> says.
\<close>

theorem buffered_parse_returns:
  assumes "transport_io T incoming sent ok view" and "httparse_crate hp" and "partial_ok b"
  shows "\<exists>ctx' b' res. buffered_parse (parse_headers False api hp) T ctx b = Some (ctx', b', res) \<and>
    \<not> is_panicked res \<and> (\<exists>w. stream incoming b = w @ stream incoming b') \<and> write_buf b' = write_buf b \<and>
    (res = Pending \<longrightarrow> partial_ok b') \<and>
    (\<forall>pm. res = Ready (Inr pm) \<longrightarrow>
       client_decoder api (pm_head pm) (pc_req_method ctx) = Inr (Some (pm_decode pm, pm_wants_upgrade pm)) \<and>
       (pm_wants_upgrade pm \<longrightarrow> \<not> pm_keep_alive pm) \<and> \<not> pm_expect_continue pm)"
  using buffered_parse_ok [OF assms, of api ctx] unfolding parse_ok_def by force

theorem buffered_parse_returns_witness:
  "\<exists>ctx' b' res. buffered_parse (parse_headers False list_api simple_parser) (sim_transport bytes_ops) sample_context
       (buffered_new (sim_transport bytes_ops) \<lparr>sim_reads = [Some ''HTTP'', None], sim_sent = [], sim_limit = 1\<rparr>) =
     Some (ctx', b', res) \<and> \<not> is_panicked res \<and> (\<exists>w. ''HTTP'' = w @ stream sim_incoming b')"
proof -
  let ?b = "buffered_new (sim_transport bytes_ops) \<lparr>sim_reads = [Some ''HTTP'', None], sim_sent = [], sim_limit = 1\<rparr>"
  have "partial_ok ?b" "stream sim_incoming ?b = ''HTTP''"
    by (simp_all add: partial_ok_def buffered_new_def stream_def sim_incoming_def bm_new_def)
  from buffered_parse_returns [OF sim_bytes.transport_io_axioms simple_parser.httparse_crate_axioms this(1),
      of list_api sample_context] this(2) show ?thesis by fastforce
qed

text \<open>
  Writing a request head appends to the buffer exactly the request line, one line per header in
  the order of the map, and the empty line; it notes the method for the response, clears the map for
  reuse and returns the encoder \<open>set_length\<close> chose.
\<close>

theorem client_encode_writes_head:
  assumes "http_crate api" and "ext_on_preserve_header (h_extensions head) = None"
    and "list_all (list_all visible_ascii) (hm_get_all api (h_headers head) TRANSFER_ENCODING)"
    and "h_version head \<in> {HTTP_10, HTTP_11, HTTP_2}"
  shows "\<exists>head' enc. set_length dbg api head body = Return (head', enc) \<and>
    client_encode dbg api head body dst =
      Return (head'\<lparr>h_headers := hm_new api\<rparr>, Some (fst (h_subject head)),
        dst @ method_as_str (fst (h_subject head)) @ '' '' @ snd (h_subject head) @
        (if h_version head = HTTP_10 then '' HTTP/1.0'' else '' HTTP/1.1'') @ CRLF @
        concat (map header_line (hm_iter api (h_headers head'))) @ CRLF, enc)"
proof -
  from http_crate.set_length_framed [OF assms(1,3), of dbg body] obtain head' enc
    where sl: "set_length dbg api head body = Return (head', enc)" by blast
  from set_length_head [OF this] have keep: "h_version head' = h_version head" "h_subject head' = h_subject head"
    "h_extensions head' = h_extensions head" by auto
  from assms(2,4) sl keep show ?thesis by (auto simp: client_encode_def write_headers_def Let_def)
qed

theorem client_encode_writes_head_witness:
  "\<exists>head' enc. client_encode True list_api (post_head [(''host'', [''a''])]) None ''x'' =
     Return (head', Some POST, ''xPOST / HTTP/1.1'' @ CRLF @ ''host: a'' @ CRLF @ CRLF, enc)"
proof -
  let ?h = "post_head [(''host'', [''a''])]"
  have sl: "set_length True list_api ?h None = Return (?h, encoder_length 0)"
    by (simp add: set_length_def post_head_def ent_del_def)
  have "ext_on_preserve_header (h_extensions ?h) = None" "h_version ?h \<in> {HTTP_10, HTTP_11, HTTP_2}"
    "list_all (list_all visible_ascii) (hm_get_all list_api (h_headers ?h) TRANSFER_ENCODING)"
    by (simp_all add: post_head_def extensions_default_def)
  from client_encode_writes_head [OF list_http.http_crate_axioms this(1,3,2), of True None "''x''"] sl
  show ?thesis by (simp add: post_head_def ent_iter_def header_line_def)
qed

end
