(* ===== verification/Conn.thy ===== *)
theory Conn
  imports Role
begin

text \<open>
  \<open>wreq-proto/src/proto/http1/conn.rs\<close>: the state machine of an HTTP/1 connection for the client
  role. \<open>Conn\<close> is the buffered transport together with \<open>State\<close>; each method is a function on it.
  What the connection calls of other crates is gathered in \<open>conn_env\<close>. An operation that may run a
  loop returns an option, \<open>None\<close> standing for a loop that does not end. The conditions of
  \<open>debug_assert!\<close> are no part of a release build; they reappear as guards of the step relation in
  \<open>Conn_Props\<close>.
\<close>

section \<open>State\<close>

datatype ka = Idle | Busy | Disabled

datatype reading = ReadingInit | ReadingContinue decoder | ReadingBody decoder | ReadingKeepAlive | ReadingClosed

datatype writing = WritingInit | WritingBody encoder | WritingKeepAlive | WritingClosed

text \<open>
  The sender of a pending upgrade is the number of its channel; \<open>s_informed\<close> records the calls of
  the callback for informational responses.
\<close>

record 'h state =
  s_allow_half_close :: bool
  s_cached_headers :: "'h option"
  s_error :: "error option"
  s_keep_alive :: ka
  s_method :: "http_method option"
  s_parser_config :: parser_config
  s_max_headers :: "nat option"
  s_h09_responses :: bool
  s_on_informational :: bool
  s_informed :: "'h response_head list"
  s_notify_read :: bool
  s_reading :: reading
  s_writing :: writing
  s_upgrade :: "nat option"
  s_version :: http_version
  s_allow_trailer_fields :: bool

record ('io, 'b, 'h) conn =
  cn_io :: "('io, 'b encoded_buf) buffered"
  cn_state :: "'h state"

record ('io, 'b, 'h) conn_env =
  env_http :: "'h http_api"
  env_httparse :: httparse_api
  env_transport :: "('io, 'b encoded_buf) transport"
  env_bufs :: "'b bufs_api"

definition parser_config_default :: parser_config where
  "parser_config_default =
     \<lparr>ignore_invalid_headers = False, allow_spaces_after_header_name = False,
      allow_obsolete_multiline_headers = False\<rparr>"

section \<open>Operations of the state\<close>

definition ka_and :: "ka \<Rightarrow> bool \<Rightarrow> ka" where
  "ka_and k enabled = (if enabled then k else Disabled)"

definition is_idle :: "'h state \<Rightarrow> bool" where
  "is_idle s \<longleftrightarrow> s_keep_alive s = Idle"

definition is_read_closed :: "'h state \<Rightarrow> bool" where
  "is_read_closed s \<longleftrightarrow> s_reading s = ReadingClosed"

definition is_write_closed :: "'h state \<Rightarrow> bool" where
  "is_write_closed s \<longleftrightarrow> s_writing s = WritingClosed"

definition state_close :: "'h state \<Rightarrow> 'h state" where
  "state_close s = s\<lparr>s_reading := ReadingClosed, s_writing := WritingClosed, s_keep_alive := Disabled\<rparr>"

definition state_close_read :: "'h state \<Rightarrow> 'h state" where
  "state_close_read s = s\<lparr>s_reading := ReadingClosed, s_keep_alive := Disabled\<rparr>"

definition state_close_write :: "'h state \<Rightarrow> 'h state" where
  "state_close_write s = s\<lparr>s_writing := WritingClosed, s_keep_alive := Disabled\<rparr>"

definition wants_keep_alive :: "'h state \<Rightarrow> bool" where
  "wants_keep_alive s \<longleftrightarrow> s_keep_alive s \<noteq> Disabled"

definition disable_keep_alive :: "'h state \<Rightarrow> 'h state" where
  "disable_keep_alive s = s\<lparr>s_keep_alive := Disabled\<rparr>"

definition state_busy :: "'h state \<Rightarrow> 'h state" where
  "state_busy s = (if s_keep_alive s = Disabled then s else s\<lparr>s_keep_alive := Busy\<rparr>)"

definition state_idle :: "'h state \<Rightarrow> 'h state" where
  "state_idle s =
     (let s' = s\<lparr>s_method := None, s_keep_alive := Idle\<rparr> in
      if \<not> is_idle s' then state_close s'
      else s'\<lparr>s_reading := ReadingInit, s_writing := WritingInit, s_notify_read := True\<rparr>)"

definition state_try_keep_alive :: "'h state \<Rightarrow> 'h state" where
  "state_try_keep_alive s =
     (case (s_reading s, s_writing s) of
        (ReadingKeepAlive, WritingKeepAlive) \<Rightarrow> (if s_keep_alive s = Busy then state_idle s else state_close s)
      | (ReadingClosed, WritingKeepAlive) \<Rightarrow> state_close s
      | (ReadingKeepAlive, WritingClosed) \<Rightarrow> state_close s
      | _ \<Rightarrow> s)"

definition prepare_upgrade :: "'h state \<Rightarrow> nat \<Rightarrow> 'h state" where
  "prepare_upgrade s channel = s\<lparr>s_upgrade := Some channel\<rparr>"

section \<open>Construction and configuration\<close>

abbreviation map_state :: "('h state \<Rightarrow> 'h state) \<Rightarrow> ('io, 'b, 'h) conn \<Rightarrow> ('io, 'b, 'h) conn" where
  "map_state f c \<equiv> c\<lparr>cn_state := f (cn_state c)\<rparr>"

definition conn_new :: "('io, 'b, 'h) conn_env \<Rightarrow> 'io \<Rightarrow> ('io, 'b, 'h) conn" where
  "conn_new E io =
     \<lparr>cn_io = buffered_new (env_transport E) io,
      cn_state =
        \<lparr>s_allow_half_close = False, s_cached_headers = None, s_error = None, s_keep_alive = Busy,
         s_method = None, s_parser_config = parser_config_default, s_max_headers = None,
         s_h09_responses = False, s_on_informational = False, s_informed = [], s_notify_read = False,
         s_reading = ReadingInit, s_writing = WritingInit, s_upgrade = None, s_version = HTTP_11,
         s_allow_trailer_fields = False\<rparr>\<rparr>"

definition conn_set_write_strategy_queue :: "('io, 'b, 'h) conn \<Rightarrow> ('io, 'b, 'h) conn" where
  "conn_set_write_strategy_queue c = c\<lparr>cn_io := set_write_strategy_queue (cn_io c)\<rparr>"

definition conn_set_write_strategy_flatten :: "('io, 'b, 'h) conn \<Rightarrow> ('io, 'b, 'h) conn" where
  "conn_set_write_strategy_flatten c = c\<lparr>cn_io := set_write_strategy_flatten (cn_io c)\<rparr>"

definition conn_set_max_buf_size :: "('io, 'b, 'h) conn \<Rightarrow> usize \<Rightarrow> ('io, 'b, 'h) conn rust" where
  "conn_set_max_buf_size c m = rust_bind (set_max_buf_size (cn_io c) m) (\<lambda>io. Return (c\<lparr>cn_io := io\<rparr>))"

definition conn_set_read_buf_exact_size :: "('io, 'b, 'h) conn \<Rightarrow> usize \<Rightarrow> ('io, 'b, 'h) conn" where
  "conn_set_read_buf_exact_size c sz = c\<lparr>cn_io := set_read_buf_exact_size (cn_io c) sz\<rparr>"

definition set_h1_parser_config :: "('io, 'b, 'h) conn \<Rightarrow> parser_config \<Rightarrow> ('io, 'b, 'h) conn" where
  "set_h1_parser_config c cfg = map_state (\<lambda>s. s\<lparr>s_parser_config := cfg\<rparr>) c"

definition set_h09_responses :: "('io, 'b, 'h) conn \<Rightarrow> ('io, 'b, 'h) conn" where
  "set_h09_responses c = map_state (\<lambda>s. s\<lparr>s_h09_responses := True\<rparr>) c"

definition set_http1_max_headers :: "('io, 'b, 'h) conn \<Rightarrow> nat \<Rightarrow> ('io, 'b, 'h) conn" where
  "set_http1_max_headers c n = map_state (\<lambda>s. s\<lparr>s_max_headers := Some n\<rparr>) c"

definition conn_into_inner :: "('io, 'b, 'h) conn \<Rightarrow> 'io \<times> bytes" where
  "conn_into_inner c = into_inner (cn_io c)"

definition pending_upgrade :: "('io, 'b, 'h) conn \<Rightarrow> ('io, 'b, 'h) conn \<times> nat option" where
  "pending_upgrade c = (map_state (\<lambda>s. s\<lparr>s_upgrade := None\<rparr>) c, s_upgrade (cn_state c))"

definition on_upgrade :: "('io, 'b, 'h) conn \<Rightarrow> nat \<Rightarrow> ('io, 'b, 'h) conn" where
  "on_upgrade c channel = map_state (\<lambda>s. prepare_upgrade s channel) c"

definition take_error :: "('io, 'b, 'h) conn \<Rightarrow> ('io, 'b, 'h) conn \<times> (error + unit)" where
  "take_error c =
     (map_state (\<lambda>s. s\<lparr>s_error := None\<rparr>) c,
      case s_error (cn_state c) of Some e \<Rightarrow> Inl e | None \<Rightarrow> Inr ())"

definition wants_read_again :: "('io, 'b, 'h) conn \<Rightarrow> ('io, 'b, 'h) conn \<times> bool" where
  "wants_read_again c = (map_state (\<lambda>s. s\<lparr>s_notify_read := False\<rparr>) c, s_notify_read (cn_state c))"

definition conn_close_read :: "('io, 'b, 'h) conn \<Rightarrow> ('io, 'b, 'h) conn" where
  "conn_close_read c = map_state state_close_read c"

definition conn_close_write :: "('io, 'b, 'h) conn \<Rightarrow> ('io, 'b, 'h) conn" where
  "conn_close_write c = map_state state_close_write c"

section \<open>Questions\<close>

definition can_read_head :: "('io, 'b, 'h) conn \<Rightarrow> bool" where
  "can_read_head c \<longleftrightarrow> s_reading (cn_state c) = ReadingInit \<and> s_writing (cn_state c) \<noteq> WritingInit"

definition can_read_body :: "('io, 'b, 'h) conn \<Rightarrow> bool" where
  "can_read_body c \<longleftrightarrow>
     (case s_reading (cn_state c) of ReadingBody _ \<Rightarrow> True | ReadingContinue _ \<Rightarrow> True | _ \<Rightarrow> False)"

definition should_error_on_eof :: "('io, 'b, 'h) conn \<Rightarrow> bool" where
  "should_error_on_eof c \<longleftrightarrow> \<not> is_idle (cn_state c)"

definition H2_PREFACE :: bytes where
  "H2_PREFACE = ''PRI * HTTP/2.0'' @ CRLF @ CRLF @ ''SM'' @ CRLF @ CRLF"

definition has_h2_prefix :: "('io, 'b, 'h) conn \<Rightarrow> bool" where
  "has_h2_prefix c \<longleftrightarrow> take (length H2_PREFACE) (bm_bytes (read_buf (cn_io c))) = H2_PREFACE"

definition can_write_head :: "('io, 'b, 'h) conn \<Rightarrow> bool" where
  "can_write_head c \<longleftrightarrow>
     \<not> is_read_closed (cn_state c) \<and> s_writing (cn_state c) = WritingInit \<and> can_headers_buf (cn_io c)"

definition can_write_body :: "('io, 'b, 'h) conn \<Rightarrow> bool" where
  "can_write_body c \<longleftrightarrow> (case s_writing (cn_state c) of WritingBody _ \<Rightarrow> True | _ \<Rightarrow> False)"

definition can_buffer_body :: "('io, 'b, 'h) conn \<Rightarrow> bool" where
  "can_buffer_body c \<longleftrightarrow> can_buffer (cn_io c)"

definition is_mid_message :: "('io, 'b, 'h) conn \<Rightarrow> bool" where
  "is_mid_message c \<longleftrightarrow> \<not> (s_reading (cn_state c) = ReadingInit \<and> s_writing (cn_state c) = WritingInit)"

section \<open>Keep-alive\<close>

text \<open>\<open>maybe_notify\<close>: look whether the transport has more to read once both sides are between messages.\<close>

definition maybe_notify :: "('io, 'b, 'h) conn_env \<Rightarrow> ('io, 'b, 'h) conn \<Rightarrow> ('io, 'b, 'h) conn rust" where
  "maybe_notify E c =
     (if s_reading (cn_state c) \<noteq> ReadingInit then Return c
      else if can_write_body c then Return c
      else if read_blocked (cn_io c) then Return c
      else if bm_bytes (read_buf (cn_io c)) \<noteq> []
      then Return (map_state (\<lambda>s. s\<lparr>s_notify_read := True\<rparr>) c)
      else
        (case poll_read_from_io (env_transport E) (cn_io c) of
           (io, Ready (Inr n)) \<Rightarrow>
             (let c' = c\<lparr>cn_io := io\<rparr> in
              if n = 0
              then Return (map_state (if is_idle (cn_state c) then state_close else state_close_read) c')
              else Return (map_state (\<lambda>s. s\<lparr>s_notify_read := True\<rparr>) c'))
         | (io, Pending) \<Rightarrow> Return (c\<lparr>cn_io := io\<rparr>)
         | (io, Ready (Inl e)) \<Rightarrow>
             Return (map_state (\<lambda>s. (state_close s)\<lparr>s_error := Some (new_io e), s_notify_read := True\<rparr>)
                       (c\<lparr>cn_io := io\<rparr>))
         | (io, Panicked m) \<Rightarrow> Panic m))"

definition conn_try_keep_alive :: "('io, 'b, 'h) conn_env \<Rightarrow> ('io, 'b, 'h) conn \<Rightarrow> ('io, 'b, 'h) conn rust" where
  "conn_try_keep_alive E c = maybe_notify E (map_state state_try_keep_alive c)"

text \<open>An operation that ends with \<open>try_keep_alive\<close> and then gives its result.\<close>

definition then_keep_alive ::
  "('io, 'b, 'h) conn_env \<Rightarrow> ('io, 'b, 'h) conn \<Rightarrow> 'r poll \<Rightarrow> ('io, 'b, 'h) conn \<times> 'r poll" where
  "then_keep_alive E c ret =
     (case conn_try_keep_alive E c of Return c' \<Rightarrow> (c', ret) | Panic m \<Rightarrow> (c, Panicked m))"

section \<open>Writing a head\<close>

definition fix_keep_alive ::
  "'h http_api \<Rightarrow> 'h state \<Rightarrow> 'h request_head \<Rightarrow> 'h state \<times> 'h request_head" where
  "fix_keep_alive api s head =
     (let outgoing_is_keep_alive =
            (case hm_get api (h_headers head) CONNECTION of
               Some v \<Rightarrow> connection_keep_alive api v | None \<Rightarrow> False) in
      if outgoing_is_keep_alive then (s, head)
      else if h_version head = HTTP_10 then (disable_keep_alive s, head)
      else if h_version head = HTTP_11 \<and> wants_keep_alive s
      then (s, head\<lparr>h_headers := hm_insert api (h_headers head) CONNECTION ''keep-alive''\<rparr>)
      else (s, head))"

definition enforce_version ::
  "'h http_api \<Rightarrow> 'h state \<Rightarrow> 'h request_head \<Rightarrow> 'h state \<times> 'h request_head" where
  "enforce_version api s head =
     (if s_version s = HTTP_10 then
        (case fix_keep_alive api s head of (s', head') \<Rightarrow> (s', head'\<lparr>h_version := HTTP_10\<rparr>))
      else if s_version s = HTTP_11 \<and> s_keep_alive s = Disabled
      then (s, head\<lparr>h_headers := hm_insert api (h_headers head) CONNECTION ''close''\<rparr>)
      else (s, head))"

text \<open>
  \<open>encode_head\<close>: \<open>Client::encode\<close> always succeeds, so that the branch for its error is not
  taken by this role. The new head is appended to the header buffer, whose vector grows as for one
  append.
\<close>

definition encode_head ::
  "('io, 'b, 'h) conn_env \<Rightarrow> ('io, 'b, 'h) conn \<Rightarrow> 'h request_head \<Rightarrow> body_length option \<Rightarrow>
   (('io, 'b, 'h) conn \<times> encoder) rust" where
  "encode_head E c head body =
     (case enforce_version (env_http E) (state_busy (cn_state c)) head of
        (s, head1) \<Rightarrow>
          rust_bind (client_encode False (env_http E) head1 body []) (\<lambda>(head2, m, bs, enc).
            Return
              (c\<lparr>cn_io := headers_buf_extend (cn_io c) bs,
                 cn_state := s\<lparr>s_method := m, s_cached_headers := Some (h_headers head2),
                               s_on_informational := ext_on_informational (h_extensions head2)\<rparr>\<rparr>,
               enc)))"

definition write_head ::
  "('io, 'b, 'h) conn_env \<Rightarrow> ('io, 'b, 'h) conn \<Rightarrow> 'h request_head \<Rightarrow> body_length option \<Rightarrow>
   ('io, 'b, 'h) conn rust" where
  "write_head E c head body =
     rust_bind (encode_head E c head body) (\<lambda>(c', enc).
       Return (map_state (\<lambda>s. s\<lparr>s_writing :=
         (if \<not> encoder_is_eof enc then WritingBody enc
          else if e_is_last enc then WritingClosed else WritingKeepAlive)\<rparr>) c'))"

section \<open>Reading a head\<close>

text \<open>\<open>Client::on_error\<close>: a client cannot tell the server about errors.\<close>

definition client_on_error :: "error \<Rightarrow> 'h request_head option" where
  "client_on_error e = None"

definition on_parse_error ::
  "('io, 'b, 'h) conn_env \<Rightarrow> ('io, 'b, 'h) conn \<Rightarrow> error \<Rightarrow> (('io, 'b, 'h) conn \<times> (error + unit)) rust" where
  "on_parse_error E c err =
     (if s_writing (cn_state c) = WritingInit then
        (if has_h2_prefix c then Return (c, Inl new_version_h2)
         else
           (case client_on_error err of
              Some msg \<Rightarrow>
                rust_bind (write_head E (map_state (\<lambda>s. s\<lparr>s_cached_headers := None\<rparr>) c) msg None)
                  (\<lambda>c'. Return (map_state (\<lambda>s. s\<lparr>s_error := Some err\<rparr>) c', Inr ()))
            | None \<Rightarrow> Return (c, Inl err)))
      else Return (c, Inl err))"

definition on_read_head_error ::
  "('io, 'b, 'h) conn_env \<Rightarrow> ('io, 'b, 'h) conn \<Rightarrow> error \<Rightarrow> ('io, 'b, 'h) conn \<times> (error + 'z) option poll" where
  "on_read_head_error E c e =
     (let must_error = should_error_on_eof c;
          c1 = conn_close_read c;
          c2 = c1\<lparr>cn_io := consume_leading_lines (cn_io c1)\<rparr>;
          was_mid_parse = (is_parse e \<or> bm_bytes (read_buf (cn_io c2)) \<noteq> []) in
      if was_mid_parse \<or> must_error then
        (case on_parse_error E c2 e of
           Return (c3, Inr u) \<Rightarrow> (c3, Pending)
         | Return (c3, Inl e') \<Rightarrow> (c3, Ready (Some (Inl e')))
         | Panic m \<Rightarrow> (c2, Panicked m))
      else (conn_close_write c2, Ready None))"

definition context_of :: "'h state \<Rightarrow> 'h parse_context" where
  "context_of s =
     \<lparr>pc_cached_headers = s_cached_headers s, pc_req_method = s_method s,
      pc_parser_config = s_parser_config s, pc_max_headers = s_max_headers s,
      pc_h09_responses = s_h09_responses s, pc_on_informational = s_on_informational s,
      pc_informed = s_informed s\<rparr>"

text \<open>The fields the context borrows, written back.\<close>

definition from_context :: "'h parse_context \<Rightarrow> 'h state \<Rightarrow> 'h state" where
  "from_context ctx s =
     s\<lparr>s_cached_headers := pc_cached_headers ctx, s_method := pc_req_method ctx,
       s_on_informational := pc_on_informational ctx, s_informed := pc_informed ctx\<rparr>"

text \<open>What \<open>poll_read_head\<close> does with a parsed message.\<close>

definition read_head_message ::
  "('io, 'b, 'h) conn_env \<Rightarrow> ('io, 'b, 'h) conn \<Rightarrow> 'h parsed_message \<Rightarrow>
   ('io, 'b, 'h) conn \<times> (error + 'h response_head \<times> decoded_length \<times> wants) option poll" where
  "read_head_message E c msg =
     (let s1 = state_busy ((cn_state c)\<lparr>s_h09_responses := False, s_on_informational := False\<rparr>);
          s2 = s1\<lparr>s_keep_alive := ka_and (s_keep_alive s1) (pm_keep_alive msg), s_version := h_version (pm_head msg)\<rparr>;
          wants0 = (if pm_wants_upgrade msg then WANTS_UPGRADE else WANTS_EMPTY);
          decoder = decoder_new (pm_decode msg) (s_max_headers s2) None;
          trailers = (\<lambda>c. map_state (\<lambda>s. s\<lparr>s_allow_trailer_fields :=
                        hm_get (env_http E) (h_headers (pm_head msg)) TE = Some ''trailers''\<rparr>) c);
          ret = (\<lambda>w. Ready (Some (Inr (pm_head msg, pm_decode msg, w)))) in
      if pm_decode msg = ZERO then
        (case conn_try_keep_alive E (c\<lparr>cn_state := s2\<lparr>s_reading := ReadingKeepAlive\<rparr>\<rparr>) of
           Return c' \<Rightarrow> (trailers c', ret wants0)
         | Panic m \<Rightarrow> (c, Panicked m))
      else if pm_expect_continue msg \<and> h_version (pm_head msg) > HTTP_10 then
        (trailers (c\<lparr>cn_state := s2\<lparr>s_reading := ReadingContinue decoder\<rparr>\<rparr>), ret (wants_add wants0 WANTS_EXPECT))
      else (trailers (c\<lparr>cn_state := s2\<lparr>s_reading := ReadingBody decoder\<rparr>\<rparr>), ret wants0))"

definition poll_read_head ::
  "('io, 'b, 'h) conn_env \<Rightarrow> ('io, 'b, 'h) conn \<Rightarrow>
   (('io, 'b, 'h) conn \<times> (error + 'h response_head \<times> decoded_length \<times> wants) option poll) option" where
  "poll_read_head E c =
     (case buffered_parse (parse_headers False (env_http E) (env_httparse E)) (env_transport E)
             (context_of (cn_state c)) (cn_io c) of
        None \<Rightarrow> None
      | Some (ctx, io, res) \<Rightarrow>
          (let c' = c\<lparr>cn_io := io, cn_state := from_context ctx (cn_state c)\<rparr> in
           Some (case res of
                   Ready (Inr msg) \<Rightarrow> read_head_message E c' msg
                 | Ready (Inl e) \<Rightarrow> on_read_head_error E c' e
                 | Pending \<Rightarrow> (c', Pending)
                 | Panicked m \<Rightarrow> (c', Panicked m))))"

section \<open>Reading a body\<close>

text \<open>The branch of \<open>poll_read_body\<close> for \<open>Reading::Body\<close>; the decoder is updated in place.\<close>

definition read_body_frame ::
  "('io, 'b, 'h) conn_env \<Rightarrow> ('io, 'b, 'h) conn \<Rightarrow> decoder \<Rightarrow>
   (('io, 'b, 'h) conn \<times> (io_error + 'h frame) option poll) option" where
  "read_body_frame E c d =
     (case decode (env_http E) (env_httparse E) (read_mem (env_transport E)) d (cn_io c) of
        None \<Rightarrow> None
      | Some (d', io, res) \<Rightarrow>
          (let c' = c\<lparr>cn_io := io, cn_state := (cn_state c)\<lparr>s_reading := ReadingBody d'\<rparr>\<rparr>;
               finish = (\<lambda>reading ret. then_keep_alive E (map_state (\<lambda>s. s\<lparr>s_reading := reading\<rparr>) c') (Ready ret)) in
           Some
             (case res of
                Ready (Inr (FrameData bs)) \<Rightarrow>
                  (if decoder_is_eof d'
                   then finish ReadingKeepAlive (if bs \<noteq> [] then Some (Inr (FrameData bs)) else None)
                   else if bs = [] then finish ReadingClosed None
                   else (c', Ready (Some (Inr (FrameData bs)))))
              | Ready (Inr (FrameTrailers h)) \<Rightarrow> finish ReadingKeepAlive (Some (Inr (FrameTrailers h)))
              | Ready (Inl e) \<Rightarrow> finish ReadingClosed (Some (Inl e))
              | Pending \<Rightarrow> (c', Pending)
              | Panicked m \<Rightarrow> (c', Panicked m))))"

definition poll_read_body ::
  "('io, 'b, 'h) conn_env \<Rightarrow> ('io, 'b, 'h) conn \<Rightarrow>
   (('io, 'b, 'h) conn \<times> (io_error + 'h frame) option poll) option" where
  "poll_read_body E c =
     (case s_reading (cn_state c) of
        ReadingBody d \<Rightarrow> read_body_frame E c d
      | ReadingContinue d \<Rightarrow>
          (let c1 = (if s_writing (cn_state c) = WritingInit
                     then c\<lparr>cn_io := headers_buf_extend (cn_io c) (''HTTP/1.1 100 Continue'' @ CRLF @ CRLF)\<rparr> else c) in
           read_body_frame E (map_state (\<lambda>s. s\<lparr>s_reading := ReadingBody d\<rparr>) c1) d)
      | _ \<Rightarrow> Some (c, Panicked ''poll_read_body invalid state''))"

text \<open>\<open>poll_drain_or_close_read\<close> discards the result of one read.\<close>

definition poll_drain_or_close_read ::
  "('io, 'b, 'h) conn_env \<Rightarrow> ('io, 'b, 'h) conn \<Rightarrow> ('io, 'b, 'h) conn rust option" where
  "poll_drain_or_close_read E c =
     (let c1 = (case s_reading (cn_state c) of
                  ReadingContinue d \<Rightarrow> map_state (\<lambda>s. s\<lparr>s_reading := ReadingBody d\<rparr>) c | _ \<Rightarrow> c) in
      case poll_read_body E c1 of
        None \<Rightarrow> None
      | Some (c2, Panicked m) \<Rightarrow> Some (Panic m)
      | Some (c2, _) \<Rightarrow>
          Some (Return (if s_reading (cn_state c2) = ReadingInit \<or> s_reading (cn_state c2) = ReadingKeepAlive
                        then c2 else conn_close_read c2)))"

section \<open>Reading between messages\<close>

definition force_io_read ::
  "('io, 'b, 'h) conn_env \<Rightarrow> ('io, 'b, 'h) conn \<Rightarrow> ('io, 'b, 'h) conn \<times> (io_error + nat) poll" where
  "force_io_read E c =
     (case poll_read_from_io (env_transport E) (cn_io c) of
        (io, Ready (Inl e)) \<Rightarrow> (map_state state_close (c\<lparr>cn_io := io\<rparr>), Ready (Inl e))
      | (io, res) \<Rightarrow> (c\<lparr>cn_io := io\<rparr>, res))"

definition require_empty_read ::
  "('io, 'b, 'h) conn_env \<Rightarrow> ('io, 'b, 'h) conn \<Rightarrow> ('io, 'b, 'h) conn \<times> (error + unit) poll" where
  "require_empty_read E c =
     (if bm_bytes (read_buf (cn_io c)) \<noteq> [] then (c, Ready (Inl new_unexpected_message))
      else
        (case force_io_read E c of
           (c', Ready (Inr n)) \<Rightarrow>
             (if n = 0
              then (map_state state_close_read c',
                    Ready (if should_error_on_eof c' then Inl new_incomplete else Inr ()))
              else (c', Ready (Inl new_unexpected_message)))
         | (c', Ready (Inl e)) \<Rightarrow> (c', Ready (Inl (new_io e)))
         | (c', Pending) \<Rightarrow> (c', Pending)
         | (c', Panicked m) \<Rightarrow> (c', Panicked m)))"

definition mid_message_detect_eof ::
  "('io, 'b, 'h) conn_env \<Rightarrow> ('io, 'b, 'h) conn \<Rightarrow> ('io, 'b, 'h) conn \<times> (error + unit) poll" where
  "mid_message_detect_eof E c =
     (if s_allow_half_close (cn_state c) \<or> bm_bytes (read_buf (cn_io c)) \<noteq> [] then (c, Pending)
      else
        (case force_io_read E c of
           (c', Ready (Inr n)) \<Rightarrow>
             (if n = 0 then (map_state state_close_read c', Ready (Inl new_incomplete))
              else (c', Ready (Inr ())))
         | (c', Ready (Inl e)) \<Rightarrow> (c', Ready (Inl (new_io e)))
         | (c', Pending) \<Rightarrow> (c', Pending)
         | (c', Panicked m) \<Rightarrow> (c', Panicked m)))"

definition poll_read_keep_alive ::
  "('io, 'b, 'h) conn_env \<Rightarrow> ('io, 'b, 'h) conn \<Rightarrow> ('io, 'b, 'h) conn \<times> (error + unit) poll" where
  "poll_read_keep_alive E c =
     (if is_read_closed (cn_state c) then (c, Pending)
      else if is_mid_message c then mid_message_detect_eof E c
      else require_empty_read E c)"

section \<open>Writing a body\<close>

definition conn_buffer ::
  "('io, 'b, 'h) conn_env \<Rightarrow> ('io, 'b, 'h) conn \<Rightarrow> 'b encoded_buf \<Rightarrow> ('io, 'b, 'h) conn rust option" where
  "conn_buffer E c b =
     map_option (\<lambda>m. rust_bind m (\<lambda>io. Return (c\<lparr>cn_io := io\<rparr>)))
       (buffered_buffer (encoded_buf_ops (env_bufs E)) (cn_io c) b)"

abbreviation set_writing :: "writing \<Rightarrow> ('io, 'b, 'h) conn \<Rightarrow> ('io, 'b, 'h) conn" where
  "set_writing w c \<equiv> map_state (\<lambda>s. s\<lparr>s_writing := w\<rparr>) c"

abbreviation then_set_writing ::
  "writing \<Rightarrow> ('io, 'b, 'h) conn rust option \<Rightarrow> ('io, 'b, 'h) conn rust option" where
  "then_set_writing w r \<equiv> map_option (\<lambda>m. rust_bind m (\<lambda>c. Return (set_writing w c))) r"

definition ended_writing :: "encoder \<Rightarrow> writing" where
  "ended_writing enc =
     (if e_is_last enc \<or> encoder_is_close_delimited enc then WritingClosed else WritingKeepAlive)"

definition write_body ::
  "('io, 'b, 'h) conn_env \<Rightarrow> ('io, 'b, 'h) conn \<Rightarrow> 'b \<Rightarrow> ('io, 'b, 'h) conn rust option" where
  "write_body E c chunk =
     (case s_writing (cn_state c) of
        WritingBody enc \<Rightarrow>
          (case encode (env_bufs E) enc chunk of
             Panic m \<Rightarrow> Some (Panic m)
           | Return (enc', b) \<Rightarrow>
               then_set_writing
                 (if \<not> encoder_is_eof enc' then WritingBody enc'
                  else if e_is_last enc' then WritingClosed else WritingKeepAlive)
                 (conn_buffer E c b))
      | _ \<Rightarrow> Some (Panic ''write_body invalid state''))"

definition write_trailers ::
  "('io, 'b, 'h) conn_env \<Rightarrow> ('io, 'b, 'h) conn \<Rightarrow> 'h \<Rightarrow> ('io, 'b, 'h) conn rust option" where
  "write_trailers E c trailers =
     (case s_writing (cn_state c) of
        WritingBody enc \<Rightarrow>
          (case encode_trailers (env_http E) enc trailers of
             Panic m \<Rightarrow> Some (Panic m)
           | Return None \<Rightarrow> Some (Return c)
           | Return (Some b) \<Rightarrow> then_set_writing (ended_writing enc) (conn_buffer E c b))
      | _ \<Rightarrow> Some (Panic ''write_trailers invalid state''))"

definition write_body_and_end ::
  "('io, 'b, 'h) conn_env \<Rightarrow> ('io, 'b, 'h) conn \<Rightarrow> 'b \<Rightarrow> ('io, 'b, 'h) conn rust option" where
  "write_body_and_end E c chunk =
     (case s_writing (cn_state c) of
        WritingBody enc \<Rightarrow>
          map_option (\<lambda>m. rust_bind m (\<lambda>(wb, can_keep_alive).
              Return (set_writing (if can_keep_alive then WritingKeepAlive else WritingClosed)
                        (c\<lparr>cn_io := (cn_io c)\<lparr>write_buf := wb\<rparr>\<rparr>))))
            (encode_and_end (env_bufs E) enc chunk (write_buf (cn_io c)))
      | _ \<Rightarrow> Some (Panic ''write_body invalid state''))"

definition end_body ::
  "('io, 'b, 'h) conn_env \<Rightarrow> ('io, 'b, 'h) conn \<Rightarrow> (('io, 'b, 'h) conn \<times> (error + unit)) rust option" where
  "end_body E c =
     (case s_writing (cn_state c) of
        WritingBody enc \<Rightarrow>
          (case encoder_end enc of
             Inr None \<Rightarrow> Some (Return (set_writing (ended_writing enc) c, Inr ()))
           | Inr (Some b) \<Rightarrow>
               map_option (\<lambda>m. rust_bind m (\<lambda>c'. Return (set_writing (ended_writing enc) c', Inr ())))
                 (conn_buffer E c b)
           | Inl (NotEof n) \<Rightarrow>
               Some (Return (set_writing WritingClosed c, Inl (error_with new_body_write_aborted (CauseNotEof n)))))
      | _ \<Rightarrow> Some (Return (c, Inr ())))"

section \<open>Flushing and shutting down\<close>

definition conn_poll_flush ::
  "('io, 'b, 'h) conn_env \<Rightarrow> ('io, 'b, 'h) conn \<Rightarrow> (('io, 'b, 'h) conn \<times> (io_error + unit) poll) option" where
  "conn_poll_flush E c =
     (case buffered_poll_flush (env_transport E) (cn_io c) of
        None \<Rightarrow> None
      | Some (io, Ready (Inr u)) \<Rightarrow> Some (then_keep_alive E (c\<lparr>cn_io := io\<rparr>) (Ready (Inr ())))
      | Some (io, res) \<Rightarrow> Some (c\<lparr>cn_io := io\<rparr>, res))"

definition conn_poll_shutdown ::
  "('io, 'b, 'h) conn_env \<Rightarrow> ('io, 'b, 'h) conn \<Rightarrow> ('io, 'b, 'h) conn \<times> (io_error + unit) poll" where
  "conn_poll_shutdown E c =
     (case tr_poll_shutdown (env_transport E) (b_io (cn_io c)) of
        (io, res) \<Rightarrow> (c\<lparr>cn_io := (cn_io c)\<lparr>b_io := io\<rparr>\<rparr>, res))"

section \<open>Setting up a connection\<close>

text \<open>\<open>Builder::handshake\<close> of \<open>conn/http1.rs\<close>: the connection as the options configure it.\<close>

definition parser_config_of :: "http1_options \<Rightarrow> parser_config" where
  "parser_config_of opts =
     \<lparr>ignore_invalid_headers = o_ignore_invalid_headers opts,
      allow_spaces_after_header_name = o_allow_spaces_after_header_name opts,
      allow_obsolete_multiline_headers = o_allow_obsolete_multiline opts\<rparr>"

definition handshake_conn ::
  "('io, 'b, 'h) conn_env \<Rightarrow> http1_options \<Rightarrow> 'io \<Rightarrow> ('io, 'b, 'h) conn rust" where
  "handshake_conn E opts io =
     (let c1 = set_h1_parser_config (conn_new E io) (parser_config_of opts);
          c2 = (case o_writev opts of
                  Some writev \<Rightarrow>
                    (if writev then conn_set_write_strategy_queue c1 else conn_set_write_strategy_flatten c1)
                | None \<Rightarrow> c1);
          c3 = (case o_max_headers opts of Some n \<Rightarrow> set_http1_max_headers c2 n | None \<Rightarrow> c2);
          c4 = (if o_h09_responses opts then set_h09_responses c3 else c3);
          c5 = (case o_read_buf_exact_size opts of Some sz \<Rightarrow> conn_set_read_buf_exact_size c4 sz | None \<Rightarrow> c4) in
      case o_max_buf_size opts of Some m \<Rightarrow> conn_set_max_buf_size c5 m | None \<Rightarrow> Return c5)"

end
