(* ===== verification/Conn_Steps.thy ===== *)
theory Conn_Steps
  imports Conn Role_Props Encode_Props Decode_Props
begin

text \<open>
  The connection as a transition system: a step is one call of an operation by the dispatcher, under
  the conditions the code asserts (\<open>debug_assert!\<close>). Closing is final, keep-alive once disabled stays
  disabled, and a connection becomes idle only behind a complete exchange.
\<close>

section \<open>The step relation\<close>

text \<open>\<open>valid\<close> tells which buffers the caller hands over as body data.\<close>

inductive conn_step ::
  "('io, 'b, 'h) conn_env \<Rightarrow> ('b \<Rightarrow> bool) \<Rightarrow> ('io, 'b, 'h) conn \<Rightarrow> ('io, 'b, 'h) conn \<Rightarrow> bool"
  for E :: "('io, 'b, 'h) conn_env" and valid :: "'b \<Rightarrow> bool" where
  ReadHead: "can_read_head c \<Longrightarrow> poll_read_head E c = Some (c', r) \<Longrightarrow> \<not> is_panicked r \<Longrightarrow> conn_step E valid c c'"
| ReadBody: "can_read_body c \<Longrightarrow> poll_read_body E c = Some (c', r) \<Longrightarrow> \<not> is_panicked r \<Longrightarrow> conn_step E valid c c'"
| DrainBody: "can_read_body c \<Longrightarrow> poll_drain_or_close_read E c = Some (Return c') \<Longrightarrow> conn_step E valid c c'"
| ReadKeepAlive: "\<not> can_read_head c \<Longrightarrow> \<not> can_read_body c \<Longrightarrow> poll_read_keep_alive E c = (c', r) \<Longrightarrow>
    \<not> is_panicked r \<Longrightarrow> conn_step E valid c c'"
| WriteHead: "can_write_head c \<Longrightarrow> write_head E c head body = Return c' \<Longrightarrow> conn_step E valid c c'"
| WriteBody: "can_write_body c \<Longrightarrow> can_buffer_body c \<Longrightarrow> valid chunk \<Longrightarrow> write_body E c chunk = Some (Return c') \<Longrightarrow>
    conn_step E valid c c'"
| WriteTrailers: "can_write_body c \<Longrightarrow> can_buffer_body c \<Longrightarrow> write_trailers E c trailers = Some (Return c') \<Longrightarrow>
    conn_step E valid c c'"
| WriteBodyAndEnd: "can_write_body c \<Longrightarrow> can_buffer_body c \<Longrightarrow> valid chunk \<Longrightarrow>
    write_body_and_end E c chunk = Some (Return c') \<Longrightarrow>
    conn_step E valid c c'"
| EndBody: "can_write_body c \<Longrightarrow> end_body E c = Some (Return (c', res)) \<Longrightarrow> conn_step E valid c c'"
| Flush: "conn_poll_flush E c = Some (c', fr) \<Longrightarrow> \<not> is_panicked fr \<Longrightarrow> conn_step E valid c c'"
| Shutdown: "conn_poll_shutdown E c = (c', fr) \<Longrightarrow> conn_step E valid c c'"
| CloseRead: "conn_step E valid c (conn_close_read c)"
| CloseWrite: "conn_step E valid c (conn_close_write c)"
| TakeError: "conn_step E valid c (fst (take_error c))"
| WantsReadAgain: "conn_step E valid c (fst (wants_read_again c))"
| OnUpgrade: "conn_step E valid c (on_upgrade c n)"
| PendingUpgrade: "conn_step E valid c (fst (pending_upgrade c))"

inductive conn_reachable ::
  "('io, 'b, 'h) conn_env \<Rightarrow> ('b \<Rightarrow> bool) \<Rightarrow> ('io, 'b, 'h) conn \<Rightarrow> ('io, 'b, 'h) conn \<Rightarrow> bool"
  for E valid c0 where
  start: "conn_reachable E valid c0 c0"
| step: "conn_reachable E valid c0 c \<Longrightarrow> conn_step E valid c c' \<Longrightarrow> conn_reachable E valid c0 c'"

section \<open>What no operation undoes\<close>

definition progress :: "'h state \<Rightarrow> 'h state \<Rightarrow> bool" where
  "progress s s' \<longleftrightarrow>
     (s_reading s = ReadingClosed \<longrightarrow> s_reading s' = ReadingClosed) \<and>
     (s_writing s = WritingClosed \<longrightarrow> s_writing s' = WritingClosed) \<and>
     (s_keep_alive s = Disabled \<longrightarrow> s_keep_alive s' = Disabled)"

lemmas state_defs = state_close_def state_close_read_def state_close_write_def state_busy_def
  disable_keep_alive_def is_idle_def ka_and_def

lemma progress_refl [simp]: "progress s s"
  by (simp add: progress_def)

lemma progress_trans: "progress s t \<Longrightarrow> progress t u \<Longrightarrow> progress s u"
  by (simp add: progress_def)

lemma progress_close [simp]:
  "progress s (state_close s)" "progress s (state_close_read s)" "progress s (state_close_write s)"
  "progress s (state_busy s)" "progress s (disable_keep_alive s)"
  by (simp_all add: progress_def state_defs)

lemma state_idle_eq:
  "state_idle s = s\<lparr>s_method := None, s_keep_alive := Idle, s_reading := ReadingInit,
     s_writing := WritingInit, s_notify_read := True\<rparr>"
  by (simp add: state_idle_def is_idle_def Let_def)

text \<open>The three things \<open>try_keep_alive\<close> may do.\<close>

lemma state_try_keep_alive_cases:
  obtains (keep) "state_try_keep_alive s = s"
  | (idle) "s_reading s = ReadingKeepAlive" "s_writing s = WritingKeepAlive" "s_keep_alive s = Busy"
      "state_try_keep_alive s = state_idle s"
  | (close) "state_try_keep_alive s = state_close s"
proof -
  have "state_try_keep_alive s = s \<or>
      s_reading s = ReadingKeepAlive \<and> s_writing s = WritingKeepAlive \<and> s_keep_alive s = Busy \<and>
        state_try_keep_alive s = state_idle s \<or>
      state_try_keep_alive s = state_close s"
    by (cases "s_reading s"; cases "s_writing s") (simp_all add: state_try_keep_alive_def)
  with that show thesis by blast
qed

lemma progress_try_keep_alive [simp]: "progress s (state_try_keep_alive s)"
  by (cases rule: state_try_keep_alive_cases [of s]) (auto simp: progress_def state_idle_eq state_defs)

text \<open>What \<open>maybe_notify\<close> may do: leave the state, note that there is more to read, or close.\<close>

lemma maybe_notify_cases:
  assumes "maybe_notify E c = Return c'"
  obtains (same) "cn_state c' = cn_state c" | (more) "cn_state c' = (cn_state c)\<lparr>s_notify_read := True\<rparr>"
  | (closed) "cn_state c' = state_close (cn_state c)" "is_idle (cn_state c)"
  | (read) "cn_state c' = state_close_read (cn_state c)" "\<not> is_idle (cn_state c)"
  | (error) e where "cn_state c' = (state_close (cn_state c))\<lparr>s_error := Some e, s_notify_read := True\<rparr>"
  using assms
  by (auto simp: maybe_notify_def Let_def split: if_splits prod.splits poll.splits sum.splits)

lemma maybe_notify_progress: "maybe_notify E c = Return c' \<Longrightarrow> progress (cn_state c) (cn_state c')"
  by (elim maybe_notify_cases) (simp_all add: progress_def state_defs)

lemma try_keep_alive_progress: "conn_try_keep_alive E c = Return c' \<Longrightarrow> progress (cn_state c) (cn_state c')"
  unfolding conn_try_keep_alive_def
  using maybe_notify_progress progress_trans progress_try_keep_alive by fastforce

lemma then_keep_alive_progress:
  assumes "then_keep_alive E c ret = (c', r)" and "\<not> is_panicked r"
  shows "progress (cn_state c) (cn_state c')"
  using assms by (auto simp: then_keep_alive_def dest: try_keep_alive_progress split: rust.splits)

section \<open>Decoding keeps what the reader keeps\<close>

lemma read_byte_keeps:
  assumes "\<And>r n. f (fst (rd r n)) = f r"
  shows "f (fst (read_byte rd r)) = f r"
  using assms [of r 1] by (auto simp: read_byte_def split: prod.splits poll.splits sum.splits list.splits)

lemma chunked_step_keeps:
  assumes "\<And>r n. f (fst (rd r n)) = f r" and "chunked_step rd c r = (c', r', out, res)"
  shows "f r' = f r"
proof -
  have "with_byte rd c r act = (c1, r1, res1) \<Longrightarrow> f r1 = f r" for act c1 r1 res1
    using read_byte_keeps [of f rd, OF assms(1), of r]
    by (auto simp: with_byte_def split: prod.splits poll.splits sum.splits)
  moreover have "read_body rd c r = (c1, r1, out1, res1) \<Longrightarrow> f r1 = f r" for c1 r1 out1 res1
    using assms(1) [of r "min (unat (chunk_len c)) usize_max"]
    by (auto simp: read_body_def Let_def split: prod.splits poll.splits sum.splits if_splits)
  ultimately show ?thesis
    using assms(2) by (auto simp: chunked_step_def split: chunked_state.splits prod.splits)
qed

lemma chunked_loop_keeps_step:
  assumes keeps: "\<And>r n. f (fst (rd r n)) = f r"
    and IH: "\<And>c r y. loop c r = Some y \<Longrightarrow> f (fst (snd y)) = f r"
    and eq: "(case chunked_step rd c r of
        (c', r', out, Ready (Inr st)) \<Rightarrow>
          (let c'' = c'\<lparr>c_state := st\<rparr> in
           if st = End
           then (case finish_chunked api hp c'' of (c3, res) \<Rightarrow> Some (c3, r', Ready res))
           else (case out of Some b \<Rightarrow> Some (c'', r', Ready (Inr (FrameData b))) | None \<Rightarrow> loop c'' r'))
      | (c', r', out, Ready (Inl e)) \<Rightarrow> Some (c', r', Ready (Inl e))
      | (c', r', out, Pending) \<Rightarrow> Some (c', r', Pending)
      | (c', r', out, Panicked m) \<Rightarrow> Some (c', r', Panicked m)) = Some y"
  shows "f (fst (snd y)) = f r"
proof -
  obtain c' r' out res where step: "chunked_step rd c r = (c', r', out, res)" by (metis prod_cases4)
  note same = chunked_step_keeps [of f rd, OF keeps step]
  show ?thesis
    using eq same unfolding step
    by (auto simp: Let_def dest: IH split: poll.splits sum.splits if_splits option.splits prod.splits)
qed

lemma chunked_loop_keeps:
  fixes f :: "'r \<Rightarrow> 'x" and api :: "'h http_api"
  assumes "\<And>r n. f (fst (rd r n)) = f r" and "chunked_loop api hp rd c r = Some y"
  shows "f (fst (snd y)) = f r"
proof -
  have "(\<forall>r n. f (fst (rd r n)) = f r) \<longrightarrow> f (fst (snd y)) = f r"
  proof (rule chunked_loop.raw_induct [where P = "\<lambda>api hp rd c r y.
      (\<forall>r n. f (fst (rd r n)) = f r) \<longrightarrow> f (fst (snd y)) = f r", OF _ assms(2)], intro impI)
    fix loop :: "'h http_api \<Rightarrow> httparse_api \<Rightarrow> 'r reader \<Rightarrow> chunked \<Rightarrow> 'r \<Rightarrow> _" and api hp rd c r y
    assume IH: "\<And>api hp rd c r y. loop api hp rd c r = Some y \<Longrightarrow>
        (\<forall>r n. f (fst (rd r n)) = f r) \<longrightarrow> f (fst (snd y)) = f r"
      and k: "\<forall>r n. f (fst (rd r n)) = f r"
      and eq: "(case chunked_step rd c r of
        (c', r', out, Ready (Inr st)) \<Rightarrow>
          (let c'' = c'\<lparr>c_state := st\<rparr> in
           if st = End
           then (case finish_chunked api hp c'' of (c3, res) \<Rightarrow> Some (c3, r', Ready res))
           else (case out of Some b \<Rightarrow> Some (c'', r', Ready (Inr (FrameData b))) | None \<Rightarrow> loop api hp rd c'' r'))
      | (c', r', out, Ready (Inl e)) \<Rightarrow> Some (c', r', Ready (Inl e))
      | (c', r', out, Pending) \<Rightarrow> Some (c', r', Pending)
      | (c', r', out, Panicked m) \<Rightarrow> Some (c', r', Panicked m)) = Some y"
    show "f (fst (snd y)) = f r"
      by (rule chunked_loop_keeps_step [of f rd "loop api hp rd", OF _ _ eq]) (use k IH in blast)+
  qed
  with assms(1) show ?thesis by blast
qed

lemma decode_keeps:
  assumes "\<And>r n. f (fst (rd r n)) = f r" and "decode api hp rd d r = Some (d', r', res)"
  shows "f r' = f r"
proof (cases "d_kind d")
  case (Length n)
  then show ?thesis
    using assms(2) assms(1) [of r "min (unat n) usize_max"]
    by (auto simp: decode_def decode_length_def Let_def split: prod.splits poll.splits sum.splits if_splits)
next
  case (Chunked c)
  with assms(2) obtain c' where "chunked_loop api hp rd c r = Some (c', r', res)" by (auto simp: decode_def)
  from chunked_loop_keeps [of f rd, OF assms(1) this] show ?thesis by simp
next
  case (Eof b)
  then show ?thesis
    using assms(2) assms(1) [of r 8192]
    by (auto simp: decode_def decode_eof_def split: prod.splits poll.splits sum.splits if_splits)
qed

lemma read_mem_keeps:
  "(partial_len (fst (read_mem T b n)), flush_pipeline (fst (read_mem T b n)), write_buf (fst (read_mem T b n))) =
     (partial_len b, flush_pipeline b, write_buf b)"
  by (auto simp: read_mem_def poll_read_from_io_def Let_def bm_split_to_def
      split: prod.splits poll.splits sum.splits if_splits)

lemma decode_read_mem_keeps:
  assumes "decode api hp (read_mem T) d b = Some (d', b', res)"
  shows "partial_len b' = partial_len b \<and> flush_pipeline b' = flush_pipeline b \<and> write_buf b' = write_buf b"
  using decode_keeps [of "\<lambda>b. (partial_len b, flush_pipeline b, write_buf b)", OF read_mem_keeps assms] by simp

context mem_read
begin

lemma decode_wf:
  assumes "decoder_wf d" and "\<not> decoder_is_eof d" and "decode api hp rd d r = Some (d', r', res)"
  shows "(res = Pending \<longrightarrow> decoder_wf d' \<and> \<not> decoder_is_eof d') \<and>
    (\<forall>b. res = Ready (Inr (FrameData b)) \<longrightarrow> decoder_wf d')"
proof (cases "d_kind d")
  case (Length n)
  with assms show ?thesis
    by (auto simp: decode_def decode_length_def decoder_wf_def decoder_is_eof_def Let_def
        split: prod.splits poll.splits sum.splits if_splits)
next
  case (Chunked c)
  with assms(2) have "c_state c \<noteq> End" by (simp add: decoder_is_eof_def)
  with assms(1) Chunked chunked_loop_refines [of c api hp r] obtain c' r1 res1 w
    where "chunked_loop api hp rd c r = Some (c', r1, res1)" "loop_ok api hp c w (c', res1)"
    by (auto simp: decoder_wf_def)
  with assms(3) Chunked show ?thesis by (auto simp: decode_def loop_ok_def decoder_wf_def decoder_is_eof_def)
next
  case (Eof b)
  with assms show ?thesis
    by (auto simp: decode_def decode_eof_def decoder_wf_def decoder_is_eof_def
        split: prod.splits poll.splits sum.splits if_splits)
qed

end

section \<open>Every step keeps what is closed\<close>

lemma from_context_simps [simp]:
  "s_reading (from_context ctx s) = s_reading s" "s_writing (from_context ctx s) = s_writing s"
  "s_keep_alive (from_context ctx s) = s_keep_alive s" "s_method (from_context ctx s) = pc_req_method ctx"
  "s_max_headers (from_context ctx s) = s_max_headers s"
  by (simp_all add: from_context_def)

lemma progress_reading: "s_reading s \<noteq> ReadingClosed \<Longrightarrow> progress (s\<lparr>s_reading := r\<rparr>) t \<Longrightarrow> progress s t"
  by (simp add: progress_def)

text \<open>The state after a parsed head, before the reading side is set.\<close>

definition head_state :: "'h state \<Rightarrow> 'h parsed_message \<Rightarrow> 'h state" where
  "head_state s msg =
     (let s1 = state_busy (s\<lparr>s_h09_responses := False, s_on_informational := False\<rparr>) in
      s1\<lparr>s_keep_alive := ka_and (s_keep_alive s1) (pm_keep_alive msg), s_version := h_version (pm_head msg)\<rparr>)"

lemma head_state_simps [simp]:
  "s_reading (head_state s msg) = s_reading s" "s_writing (head_state s msg) = s_writing s"
  "s_method (head_state s msg) = s_method s" "s_max_headers (head_state s msg) = s_max_headers s"
  "s_keep_alive (head_state s msg) =
     (if s_keep_alive s = Disabled \<or> \<not> pm_keep_alive msg then Disabled else Busy)"
  by (simp_all add: head_state_def Let_def state_defs)

lemma read_head_message_cases:
  assumes "read_head_message E c msg = (c', res)" and "\<not> is_panicked res"
  obtains (empty) c1 t w where "pm_decode msg = ZERO"
      "conn_try_keep_alive E (c\<lparr>cn_state := (head_state (cn_state c) msg)\<lparr>s_reading := ReadingKeepAlive\<rparr>\<rparr>) = Return c1"
      "c' = map_state (\<lambda>s. s\<lparr>s_allow_trailer_fields := t\<rparr>) c1" "res = Ready (Some (Inr (pm_head msg, pm_decode msg, w)))"
  | (body) t r w where "pm_decode msg \<noteq> ZERO"
      "c' = c\<lparr>cn_state := (head_state (cn_state c) msg)\<lparr>s_reading := r, s_allow_trailer_fields := t\<rparr>\<rparr>"
      "r = (if pm_expect_continue msg \<and> h_version (pm_head msg) > HTTP_10 then ReadingContinue else ReadingBody)
         (decoder_new (pm_decode msg) (s_max_headers (cn_state c)) None)"
      "res = Ready (Some (Inr (pm_head msg, pm_decode msg, w)))"
proof (cases "pm_decode msg = ZERO")
  case True
  with assms that(1) show thesis
    by (auto simp: read_head_message_def head_state_def Let_def split: rust.splits)
next
  case False
  have "s_max_headers (head_state (cn_state c) msg) = s_max_headers (cn_state c)" by simp
  with False assms(1) that(2) show thesis
    by (auto simp: read_head_message_def head_state_def Let_def split: if_splits)
qed

lemma read_head_message_progress:
  assumes "read_head_message E c msg = (c', res)" and "\<not> is_panicked res" and "s_reading (cn_state c) = ReadingInit"
  shows "progress (cn_state c) (cn_state c')"
  using assms(1,2)
proof (cases rule: read_head_message_cases)
  case (empty c1 t w)
  with try_keep_alive_progress [OF empty(2)] assms(3) show ?thesis by (simp add: progress_def)
next
  case (body t r w)
  with assms(3) show ?thesis by (simp add: progress_def)
qed

lemma on_parse_error_client: "on_parse_error E c err =
    Return (c, Inl (if s_writing (cn_state c) = WritingInit \<and> has_h2_prefix c then new_version_h2 else err))"
  by (simp add: on_parse_error_def client_on_error_def)

lemma on_read_head_error_state:
  "on_read_head_error E c e = (c', res) \<Longrightarrow>
   \<not> is_panicked res \<and> write_buf (cn_io c') = write_buf (cn_io c) \<and> flush_pipeline (cn_io c') = flush_pipeline (cn_io c) \<and>
   (cn_state c' = state_close_read (cn_state c) \<or> cn_state c' = state_close_write (state_close_read (cn_state c)))"
  by (auto simp: on_read_head_error_def on_parse_error_client Let_def conn_close_read_def conn_close_write_def
      consume_leading_lines_def split: if_splits)

lemma poll_read_head_progress:
  assumes "can_read_head c" and "poll_read_head E c = Some (c', res)" and "\<not> is_panicked res"
  shows "progress (cn_state c) (cn_state c')"
proof -
  from assms(2) obtain ctx io r where parse: "buffered_parse (parse_headers False (env_http E) (env_httparse E))
      (env_transport E) (context_of (cn_state c)) (cn_io c) = Some (ctx, io, r)"
    by (auto simp: poll_read_head_def split: option.splits)
  note res = assms(2) [unfolded poll_read_head_def parse, simplified Let_def option.case prod.case option.inject]
  have ctx: "progress (cn_state c) (from_context ctx (cn_state c))" by (simp add: progress_def)
  let ?c = "c\<lparr>cn_io := io, cn_state := from_context ctx (cn_state c)\<rparr>"
  consider msg where "r = Ready (Inr msg)" | e where "r = Ready (Inl e)" | "r = Pending" | m where "r = Panicked m"
    by (metis poll.exhaust sum.exhaust)
  then show ?thesis
  proof cases
    case 1
    with res assms(1,3) read_head_message_progress [of E ?c _ c' res] ctx show ?thesis
      by (auto simp: can_read_head_def progress_def)
  next
    case (2 e)
    with res on_read_head_error_state [of E ?c e c' res] show ?thesis
      by (auto simp: progress_def state_defs)
  qed (use res ctx assms(3) in auto)
qed

lemma read_body_frame_progress:
  assumes "read_body_frame E c d = Some (c', res)" and "\<not> is_panicked res" and "s_reading (cn_state c) = ReadingBody d"
  shows "progress (cn_state c) (cn_state c')"
proof -
  from assms(1) obtain d' io r where dec: "decode (env_http E) (env_httparse E) (read_mem (env_transport E)) d (cn_io c) = Some (d', io, r)"
    by (auto simp: read_body_frame_def split: option.splits)
  have fin: "progress (cn_state c) (cn_state c')"
    if "then_keep_alive E (c\<lparr>cn_io := io, cn_state := (cn_state c)\<lparr>s_reading := rd\<rparr>\<rparr>) ret = (c', res)" for rd ret
    using then_keep_alive_progress [OF that assms(2)] assms(3) by (simp add: progress_def)
  show ?thesis
    using assms(1,2,3) dec
    by (auto simp: read_body_frame_def Let_def progress_def [of _ "_\<lparr>s_reading := _\<rparr>"]
        intro: fin split: poll.splits sum.splits frame.splits if_splits)
qed

lemma poll_read_body_progress:
  assumes "can_read_body c" and "poll_read_body E c = Some (c', res)" and "\<not> is_panicked res"
  shows "progress (cn_state c) (cn_state c')"
proof (cases "s_reading (cn_state c)")
  case (ReadingBody d)
  with assms(2,3) read_body_frame_progress show ?thesis by (auto simp: poll_read_body_def)
next
  case (ReadingContinue d)
  with assms(2) obtain c1 where "read_body_frame E c1 d = Some (c', res)"
    "cn_state c1 = (cn_state c)\<lparr>s_reading := ReadingBody d\<rparr>"
    by (auto simp: poll_read_body_def Let_def)
  with read_body_frame_progress [OF this(1) assms(3)] ReadingContinue show ?thesis
    by (auto simp: progress_def)
qed (use assms(1) in \<open>auto simp: can_read_body_def\<close>)

lemma poll_drain_progress:
  assumes "can_read_body c" and "poll_drain_or_close_read E c = Some (Return c')"
  shows "progress (cn_state c) (cn_state c')"
proof -
  let ?c1 = "case s_reading (cn_state c) of
    ReadingContinue d \<Rightarrow> map_state (\<lambda>s. s\<lparr>s_reading := ReadingBody d\<rparr>) c | _ \<Rightarrow> c"
  from assms(1) have c1: "can_read_body ?c1" "progress (cn_state c) (cn_state ?c1)"
    by (auto simp: can_read_body_def progress_def split: reading.splits)
  from assms(2) obtain c2 r where rd: "poll_read_body E ?c1 = Some (c2, r)" "\<not> is_panicked r"
    and c': "c' = c2 \<or> c' = conn_close_read c2"
    by (auto simp: poll_drain_or_close_read_def Let_def split: option.splits poll.splits)
  from poll_read_body_progress [OF c1(1) rd] c1(2) c' show ?thesis
    by (auto simp: conn_close_read_def intro: progress_trans)
qed

lemma force_io_read_state:
  "force_io_read E c = (c', r) \<Longrightarrow> cn_state c' = cn_state c \<or> cn_state c' = state_close (cn_state c)"
  by (auto simp: force_io_read_def split: prod.splits poll.splits sum.splits)

lemma poll_read_keep_alive_progress:
  "poll_read_keep_alive E c = (c', r) \<Longrightarrow> progress (cn_state c) (cn_state c')"
  by (auto simp: poll_read_keep_alive_def mid_message_detect_eof_def require_empty_read_def
      dest!: force_io_read_state split: if_splits prod.splits poll.splits sum.splits
      intro: progress_trans [OF progress_close(1)])

lemma enforce_version_state:
  "enforce_version api s head = (s', head') \<Longrightarrow> s' = s \<or> s' = disable_keep_alive s"
  by (auto simp: enforce_version_def fix_keep_alive_def Let_def split: if_splits prod.splits)

text \<open>What \<open>write_head\<close> leaves behind.\<close>

lemma write_head_state:
  assumes "write_head E c head body = Return c'"
  obtains s head1 head2 bs enc where "enforce_version (env_http E) (state_busy (cn_state c)) head = (s, head1)"
    and "client_encode False (env_http E) head1 body [] = Return (head2, Some (fst (h_subject head1)), bs, enc)"
    and "c' = c\<lparr>cn_io := headers_buf_extend (cn_io c) bs, cn_state := s\<lparr>s_method := Some (fst (h_subject head1)),
      s_cached_headers := Some (h_headers head2), s_on_informational := ext_on_informational (h_extensions head2),
      s_writing := (if \<not> encoder_is_eof enc then WritingBody enc
                    else if e_is_last enc then WritingClosed else WritingKeepAlive)\<rparr>\<rparr>"
proof -
  obtain s head1 where ev: "enforce_version (env_http E) (state_busy (cn_state c)) head = (s, head1)" by fastforce
  from assms obtain head2 m bs enc where enc: "client_encode False (env_http E) head1 body [] = Return (head2, m, bs, enc)"
    and c': "c' = c\<lparr>cn_io := headers_buf_extend (cn_io c) bs, cn_state := s\<lparr>s_method := m,
      s_cached_headers := Some (h_headers head2), s_on_informational := ext_on_informational (h_extensions head2),
      s_writing := (if \<not> encoder_is_eof enc then WritingBody enc
                    else if e_is_last enc then WritingClosed else WritingKeepAlive)\<rparr>\<rparr>"
    by (auto simp: write_head_def encode_head_def ev)
  have "m = Some (fst (h_subject head1))"
    using enc by (auto simp: client_encode_def Let_def dest!: set_length_head)
  with ev enc c' that show thesis by blast
qed

lemma write_head_progress:
  assumes "can_write_head c" and "write_head E c head body = Return c'"
  shows "progress (cn_state c) (cn_state c')"
proof -
  from assms(2) obtain s head1 w where "enforce_version (env_http E) (state_busy (cn_state c)) head = (s, head1)"
    "s_reading (cn_state c') = s_reading s" "s_keep_alive (cn_state c') = s_keep_alive s"
    by (elim write_head_state) auto
  from enforce_version_state [OF this(1)] this(2,3) assms(1) show ?thesis
    by (auto simp: progress_def state_defs can_write_head_def)
qed

text \<open>Writing a body only moves the writing side.\<close>

definition only_writing :: "'h state \<Rightarrow> 'h state \<Rightarrow> bool" where
  "only_writing s s' \<longleftrightarrow> s' = s\<lparr>s_writing := s_writing s'\<rparr>"

lemma only_writing_simps [simp]: "only_writing s s" "only_writing s (s\<lparr>s_writing := w\<rparr>)"
  by (simp_all add: only_writing_def)

lemma conn_buffer_state: "conn_buffer E c b = Some (Return c') \<Longrightarrow> cn_state c' = cn_state c"
  by (auto simp: conn_buffer_def)

lemma write_body_state:
  "write_body E c chunk = Some (Return c') \<Longrightarrow> only_writing (cn_state c) (cn_state c')"
  by (auto simp: write_body_def dest!: conn_buffer_state split: rust.splits writing.splits)

lemma write_trailers_state:
  "write_trailers E c trailers = Some (Return c') \<Longrightarrow> only_writing (cn_state c) (cn_state c')"
  by (auto simp: write_trailers_def dest!: conn_buffer_state
      split: rust.splits writing.splits option.splits)

lemma write_body_and_end_state:
  "write_body_and_end E c chunk = Some (Return c') \<Longrightarrow> only_writing (cn_state c) (cn_state c')"
  by (auto simp: write_body_and_end_def split: writing.splits)

lemma end_body_state:
  "end_body E c = Some (Return (c', res)) \<Longrightarrow> only_writing (cn_state c) (cn_state c')"
  by (auto simp: end_body_def dest!: conn_buffer_state
      split: writing.splits sum.splits option.splits not_eof.splits)

lemmas write_states = write_body_state write_trailers_state write_body_and_end_state end_body_state

lemma progress_writing:
  assumes "can_write_body c" and "only_writing (cn_state c) (cn_state c')"
  shows "progress (cn_state c) (cn_state c')"
proof -
  from assms(1) have "s_writing (cn_state c) \<noteq> WritingClosed" by (auto simp: can_write_body_def)
  then have "progress (cn_state c) ((cn_state c)\<lparr>s_writing := w\<rparr>)" for w by (simp add: progress_def)
  with assms(2) show ?thesis by (metis only_writing_def)
qed

lemma conn_poll_flush_progress:
  assumes "conn_poll_flush E c = Some (c', r)" and "\<not> is_panicked r"
  shows "progress (cn_state c) (cn_state c')"
proof -
  from assms(1) obtain io fr where "buffered_poll_flush (env_transport E) (cn_io c) = Some (io, fr)"
    by (auto simp: conn_poll_flush_def split: option.splits)
  note fl = assms(1) [unfolded conn_poll_flush_def this]
  show ?thesis
  proof (cases "fr = Ready (Inr ())")
    case True
    with fl have "then_keep_alive E (c\<lparr>cn_io := io\<rparr>) (Ready (Inr ())) = (c', r)" by simp
    from then_keep_alive_progress [OF this assms(2)] show ?thesis by simp
  next
    case False
    with fl have "cn_state c' = cn_state c" by (auto split: poll.splits sum.splits)
    then show ?thesis by simp
  qed
qed

lemma conn_step_progress:
  assumes "conn_step E valid c c'"
  shows "progress (cn_state c) (cn_state c')"
  using assms
proof cases
  case (ReadHead r)
  then show ?thesis by (rule poll_read_head_progress)
next
  case (ReadBody r)
  then show ?thesis by (rule poll_read_body_progress)
next
  case DrainBody
  then show ?thesis by (rule poll_drain_progress)
next
  case (ReadKeepAlive r)
  show ?thesis by (rule poll_read_keep_alive_progress [OF ReadKeepAlive(3)])
next
  case (WriteHead head body)
  then show ?thesis by (rule write_head_progress)
next
  case (Flush r)
  then show ?thesis by (rule conn_poll_flush_progress)
next
  case (Shutdown r)
  then show ?thesis by (auto simp: conn_poll_shutdown_def split: prod.splits)
qed (auto simp: conn_close_read_def conn_close_write_def take_error_def wants_read_again_def on_upgrade_def
    pending_upgrade_def prepare_upgrade_def progress_def [of _ "_\<lparr>s_error := _\<rparr>"] progress_def [of _ "_\<lparr>s_upgrade := _\<rparr>"]
    progress_def [of _ "_\<lparr>s_notify_read := _\<rparr>"] intro: progress_writing write_states)

end
