(* ===== verification/Conn_Props.thy ===== *)
theory Conn_Props
  imports Conn_Steps
begin

text \<open>
  What the connection promises: an invariant of every reachable state, that no permitted operation
  panics or runs forever, and what it does to the streams of bytes in both directions.
\<close>

section \<open>The environment\<close>

text \<open>The contracts of everything a connection calls, together.\<close>

locale connection =
  fixes E :: "('io, 'b, 'h) conn_env" and incoming :: "'io \<Rightarrow> bytes" and sent :: "'io \<Rightarrow> bytes"
    and ok :: "'b \<Rightarrow> bool" and view :: "'b \<Rightarrow> bytes"
  assumes http: "http_crate (env_http E)"
    and parser: "httparse_crate (env_httparse E)"
    and transport: "transport_io (env_transport E) incoming sent (encoded_ok ok) (encoded_view view)"
    and bufs: "bytes_crate (env_bufs E) ok view"

sublocale connection \<subseteq> tr: transport_io "env_transport E" incoming sent "encoded_ok ok" "encoded_view view"
  by (rule transport)

sublocale connection \<subseteq> data: bytes_crate "env_bufs E" ok view
  by (rule bufs)

definition valid_chunk :: "('b \<Rightarrow> bool) \<Rightarrow> ('b \<Rightarrow> bytes) \<Rightarrow> 'b \<Rightarrow> bool" where
  "valid_chunk ok view b \<longleftrightarrow> ok b \<and> view b \<noteq> [] \<and> length (view b) < 2 ^ 64"

text \<open>The bytes on their way out: what the transport has, and then what is buffered.\<close>

definition conn_outgoing :: "('io \<Rightarrow> bytes) \<Rightarrow> ('b \<Rightarrow> bytes) \<Rightarrow> ('io, 'b, 'h) conn \<Rightarrow> bytes" where
  "conn_outgoing sent view c = outgoing sent (encoded_view view) (cn_io c)"

section \<open>The invariant\<close>

definition state_ok :: "'h state \<Rightarrow> bool" where
  "state_ok s \<longleftrightarrow>
     (s_keep_alive s = Idle \<longrightarrow> s_reading s = ReadingInit \<and> s_writing s = WritingInit \<and> s_method s = None) \<and>
     (s_writing s = WritingInit \<longrightarrow> s_reading s \<in> {ReadingInit, ReadingClosed}) \<and>
     (\<forall>d. s_reading s \<noteq> ReadingContinue d) \<and>
     (\<forall>d. s_reading s = ReadingBody d \<longrightarrow> decoder_wf d \<and> \<not> decoder_is_eof d) \<and>
     (\<forall>e. s_writing s = WritingBody e \<longrightarrow> \<not> encoder_is_eof e \<and> \<not> e_is_last e) \<and>
     (s_writing s \<notin> {WritingInit, WritingClosed} \<longrightarrow> s_method s \<noteq> None)"

definition io_ok :: "('b \<Rightarrow> bool) \<Rightarrow> ('b \<Rightarrow> bytes) \<Rightarrow> reading \<Rightarrow> ('io, 'b encoded_buf) buffered \<Rightarrow> bool" where
  "io_ok ok view r io \<longleftrightarrow>
     wb_ok (encoded_ok ok) (encoded_view view) (write_buf io) \<and> \<not> flush_pipeline io \<and>
     (case r of
        ReadingClosed \<Rightarrow> True
      | ReadingInit \<Rightarrow> partial_ok io
      | _ \<Rightarrow> partial_len io = None)"

definition conn_ok :: "('b \<Rightarrow> bool) \<Rightarrow> ('b \<Rightarrow> bytes) \<Rightarrow> ('io, 'b, 'h) conn \<Rightarrow> bool" where
  "conn_ok ok view c \<longleftrightarrow> state_ok (cn_state c) \<and> io_ok ok view (s_reading (cn_state c)) (cn_io c)"

lemma state_ok_close [simp]:
  "state_ok (state_close s)" "state_ok s \<Longrightarrow> state_ok (state_close_read s)"
  "state_ok s \<Longrightarrow> state_ok (state_close_write s)"
  by (auto simp: state_ok_def state_defs)

lemma state_ok_keep [simp]:
  "state_ok (s\<lparr>s_notify_read := b\<rparr>) = state_ok s" "state_ok (s\<lparr>s_error := e\<rparr>) = state_ok s"
  "state_ok (s\<lparr>s_upgrade := u\<rparr>) = state_ok s" "state_ok (s\<lparr>s_allow_trailer_fields := b\<rparr>) = state_ok s"
  by (simp_all add: state_ok_def)

lemma state_ok_idle [simp]: "state_ok (state_idle s)"
  by (simp add: state_idle_eq) (simp add: state_ok_def)

lemma state_ok_try_keep_alive: "state_ok s \<Longrightarrow> state_ok (state_try_keep_alive s)"
  by (cases rule: state_try_keep_alive_cases [of s]) simp_all

lemma io_ok_closed: "io_ok ok view r io \<Longrightarrow> io_ok ok view ReadingClosed io"
  by (simp add: io_ok_def)

lemma io_ok_idle: "io_ok ok view ReadingKeepAlive io \<Longrightarrow> io_ok ok view ReadingInit io"
  by (simp add: io_ok_def partial_ok_def)

lemma io_ok_try_keep_alive:
  assumes "io_ok ok view (s_reading s) io"
  shows "io_ok ok view (s_reading (state_try_keep_alive s)) io"
  by (cases rule: state_try_keep_alive_cases [of s])
    (use assms in \<open>auto simp: state_idle_eq state_defs intro: io_ok_idle io_ok_closed\<close>)

lemma read_from_io_writes:
  "poll_read_from_io T b = (b', r) \<Longrightarrow> write_buf b' = write_buf b"
  by (auto simp: poll_read_from_io_def Let_def split: prod.splits poll.splits sum.splits if_splits)

lemma maybe_notify_io:
  assumes "maybe_notify E c = Return c'"
  shows "cn_io c' = cn_io c \<or> (\<exists>r. poll_read_from_io (env_transport E) (cn_io c) = (cn_io c', r))"
  using assms by (auto simp: maybe_notify_def Let_def split: if_splits prod.splits poll.splits sum.splits)

context connection
begin

lemma io_ok_read:
  assumes "poll_read_from_io (env_transport E) io = (io', r)" and "io_ok ok view rd io"
  shows "io_ok ok view rd io'"
  using tr.poll_read_from_io_ok [OF assms(1)] read_from_io_keeps [OF assms(1)] assms(2)
  by (auto simp: io_ok_def partial_ok_def split: reading.splits poll.splits sum.splits)

lemma maybe_notify_ok:
  assumes "maybe_notify E c = Return c'" and "conn_ok ok view c"
  shows "conn_ok ok view c'"
proof -
  from maybe_notify_io [OF assms(1)] io_ok_read assms(2) have io: "io_ok ok view (s_reading (cn_state c)) (cn_io c')"
    by (auto simp: conn_ok_def)
  from assms(1) show ?thesis
    by (cases rule: maybe_notify_cases)
      (use io assms(2) in \<open>auto simp: conn_ok_def intro: io_ok_closed\<close>,
       auto simp: conn_ok_def state_defs intro: io_ok_closed)
qed

lemma maybe_notify_total: "\<exists>c'. maybe_notify E c = Return c'"
proof -
  obtain io r where rd: "poll_read_from_io (env_transport E) (cn_io c) = (io, r)" by fastforce
  from tr.poll_read_from_io_ok [OF rd] have "\<not> is_panicked r" by simp
  with rd show ?thesis by (cases r) (auto simp: maybe_notify_def Let_def split: sum.splits)
qed

lemma try_keep_alive_ok:
  assumes "conn_ok ok view c"
  shows "\<exists>c'. conn_try_keep_alive E c = Return c' \<and> conn_ok ok view c'"
proof -
  have "conn_ok ok view (map_state state_try_keep_alive c)"
    using assms by (simp add: conn_ok_def state_ok_try_keep_alive io_ok_try_keep_alive)
  with maybe_notify_total [of "map_state state_try_keep_alive c"] maybe_notify_ok show ?thesis
    unfolding conn_try_keep_alive_def by blast
qed

lemma then_keep_alive_ok:
  assumes "conn_ok ok view c" and "\<not> is_panicked ret"
  shows "\<exists>c'. then_keep_alive E c ret = (c', ret) \<and> conn_ok ok view c'"
  using try_keep_alive_ok [OF assms(1)] by (auto simp: then_keep_alive_def)

text \<open>Reading a head.\<close>

lemma read_head_message_ok:
  assumes st: "state_ok (cn_state c)" "s_reading (cn_state c) = ReadingInit" "s_writing (cn_state c) \<noteq> WritingInit"
    and io: "wb_ok (encoded_ok ok) (encoded_view view) (write_buf (cn_io c))" "\<not> flush_pipeline (cn_io c)"
      "partial_len (cn_io c) = None" and msg: "\<not> pm_expect_continue msg"
  shows "\<exists>c' res. read_head_message E c msg = (c', res) \<and> \<not> is_panicked res \<and> conn_ok ok view c'"
proof -
  have head: "state_ok ((head_state (cn_state c) msg)\<lparr>s_reading := r\<rparr>)"
    if "r = ReadingKeepAlive \<or> (\<exists>d. r = ReadingBody d \<and> decoder_wf d \<and> \<not> decoder_is_eof d)" for r
    using st that by (auto simp: state_ok_def split: if_splits)
  have io': "io_ok ok view r (cn_io c)" for r
    using io by (auto simp: io_ok_def partial_ok_def split: reading.splits)
  show ?thesis
  proof (cases "pm_decode msg = ZERO")
    case True
    let ?c = "c\<lparr>cn_state := (head_state (cn_state c) msg)\<lparr>s_reading := ReadingKeepAlive\<rparr>\<rparr>"
    have "conn_ok ok view ?c" using head io' by (simp add: conn_ok_def)
    from try_keep_alive_ok [OF this] obtain c1 where "conn_try_keep_alive E ?c = Return c1" "conn_ok ok view c1" by blast
    with True show ?thesis
      by (auto simp: read_head_message_def head_state_def Let_def conn_ok_def)
  next
    case False
    then have "\<not> decoder_is_eof (decoder_new (pm_decode msg) (s_max_headers (cn_state c)) None)"
      by (cases "pm_decode msg") (auto simp: decoder_new_def decoder_is_eof_def decoder_chunked_def decoder_eof_def
          decoder_length_def chunked_new_def danger_len_def ZERO_def)
    with head decoder_wf_new have "state_ok ((head_state (cn_state c) msg)\<lparr>s_reading :=
        ReadingBody (decoder_new (pm_decode msg) (s_max_headers (cn_state c)) None)\<rparr>)" by blast
    moreover have "s_max_headers (state_busy s) = s_max_headers s" for s :: "'h state" by (simp add: state_busy_def)
    ultimately show ?thesis using False msg io'
      by (auto simp: read_head_message_def head_state_def Let_def conn_ok_def)
  qed
qed

lemma on_read_head_error_ok:
  assumes "on_read_head_error E c e = (c', res)" and "state_ok (cn_state c)"
    and "wb_ok (encoded_ok ok) (encoded_view view) (write_buf (cn_io c))" "\<not> flush_pipeline (cn_io c)"
  shows "\<not> is_panicked res \<and> conn_ok ok view c'"
proof -
  note st = on_read_head_error_state [OF assms(1)]
  then have "state_ok (cn_state c')" using assms(2) by auto
  moreover have "s_reading (cn_state c') = ReadingClosed" using st by (auto simp: state_defs)
  ultimately show ?thesis using st assms(3,4) by (simp add: conn_ok_def io_ok_def)
qed

lemma poll_read_head_ok:
  assumes c: "conn_ok ok view c" and "can_read_head c"
  shows "\<exists>c' res. poll_read_head E c = Some (c', res) \<and> \<not> is_panicked res \<and> conn_ok ok view c'"
proof -
  from assms have po: "partial_ok (cn_io c)" and st: "s_reading (cn_state c) = ReadingInit" "s_writing (cn_state c) \<noteq> WritingInit"
    and wb: "wb_ok (encoded_ok ok) (encoded_view view) (write_buf (cn_io c))" "\<not> flush_pipeline (cn_io c)"
    by (auto simp: can_read_head_def conn_ok_def io_ok_def)
  from buffered_parse_ok [OF transport parser po, of "env_http E" "context_of (cn_state c)"]
  obtain ctx io r where parse: "buffered_parse (parse_headers False (env_http E) (env_httparse E)) (env_transport E)
      (context_of (cn_state c)) (cn_io c) = Some (ctx, io, r)"
    and ok: "parse_ok (env_http E) incoming (context_of (cn_state c)) (cn_io c) (ctx, io, r)" by (metis prod_cases3)
  let ?c = "c\<lparr>cn_io := io, cn_state := from_context ctx (cn_state c)\<rparr>"
  have state: "state_ok (from_context ctx (cn_state c))"
    using c ok by (simp add: conn_ok_def state_ok_def parse_ok_def context_of_def)
  have keep: "wb_ok (encoded_ok ok) (encoded_view view) (write_buf io)" "\<not> flush_pipeline io"
    using ok wb by (simp_all add: parse_ok_def)
  note eq = poll_read_head_def parse Let_def
  consider msg where "r = Ready (Inr msg)" | e where "r = Ready (Inl e)" | "r = Pending" | m where "r = Panicked m"
    by (metis poll.exhaust sum.exhaust)
  then show ?thesis
  proof cases
    case (1 msg)
    with ok have "partial_len io = None" "\<not> pm_expect_continue msg" by (auto simp: parse_ok_def)
    with read_head_message_ok [of ?c msg] state st keep 1 show ?thesis by (auto simp: eq)
  next
    case (2 e)
    obtain c' and res :: "(error + 'h response_head \<times> decoded_length \<times> wants) option poll"
      where "on_read_head_error E ?c e = (c', res)" by fastforce
    with on_read_head_error_ok [OF this] state keep 2 show ?thesis by (auto simp: eq)
  next
    case 3
    with ok state st keep show ?thesis by (auto simp: eq conn_ok_def io_ok_def parse_ok_def)
  next
    case 4
    with ok show ?thesis by (simp add: parse_ok_def)
  qed
qed

text \<open>Reading a body.\<close>

lemma read_body_frame_ok:
  assumes c: "conn_ok ok view c" and rd: "s_reading (cn_state c) = ReadingBody d"
  shows "\<exists>c' res. read_body_frame E c d = Some (c', res) \<and> \<not> is_panicked res \<and> conn_ok ok view c'"
proof -
  from c rd have d: "decoder_wf d" "\<not> decoder_is_eof d" by (auto simp: conn_ok_def state_ok_def)
  from mem_read.decode_total [OF tr.read_mem_ok d(1), of "env_http E" "env_httparse E" "cn_io c"] obtain d' io r
    where dec: "decode (env_http E) (env_httparse E) (read_mem (env_transport E)) d (cn_io c) = Some (d', io, r)"
      and np: "\<not> is_panicked r" by blast
  note wf = mem_read.decode_wf [OF tr.read_mem_ok d dec]
  note keeps = decode_read_mem_keeps [OF dec]
  have io: "io_ok ok view rd io" for rd
    using c rd keeps by (auto simp: conn_ok_def io_ok_def partial_ok_def split: reading.splits)
  have st: "state_ok ((cn_state c)\<lparr>s_reading := r\<rparr>)"
    if "r = ReadingKeepAlive \<or> r = ReadingClosed \<or> (\<exists>d. r = ReadingBody d \<and> decoder_wf d \<and> \<not> decoder_is_eof d)" for r
    using c rd that by (auto simp: conn_ok_def state_ok_def)
  have fin: "\<exists>c'. then_keep_alive E (c\<lparr>cn_io := io, cn_state := (cn_state c)\<lparr>s_reading := r\<rparr>\<rparr>) (Ready ret) = (c', Ready ret) \<and>
      conn_ok ok view c'" if "r = ReadingKeepAlive \<or> r = ReadingClosed"
    for r and ret :: "(io_error + 'h frame) option"
    by (rule then_keep_alive_ok) (use st io that in \<open>auto simp: conn_ok_def\<close>)
  show ?thesis
  proof (cases "r = Pending \<or> (\<exists>b. r = Ready (Inr (FrameData b)) \<and> \<not> decoder_is_eof d' \<and> b \<noteq> [])")
    case True
    with wf have "state_ok ((cn_state c)\<lparr>s_reading := ReadingBody d'\<rparr>)" by (intro st) auto
    with True dec io show ?thesis by (auto simp: read_body_frame_def Let_def conn_ok_def)
  next
    case False
    let ?fin = "\<lambda>rd ret. then_keep_alive E (c\<lparr>cn_io := io, cn_state := (cn_state c)\<lparr>s_reading := rd\<rparr>\<rparr>) (Ready ret)"
    consider (eof) b where "r = Ready (Inr (FrameData b))" "decoder_is_eof d'"
      | (short) "r = Ready (Inr (FrameData []))" "\<not> decoder_is_eof d'"
      | (trailers) h where "r = Ready (Inr (FrameTrailers h))" | (error) e where "r = Ready (Inl e)"
      using False np by (metis frame.exhaust is_panicked.simps(1) poll.exhaust sum.exhaust)
    then have "\<exists>rd ret. read_body_frame E c d = Some (?fin rd ret) \<and> (rd = ReadingKeepAlive \<or> rd = ReadingClosed)"
      by cases (simp_all add: read_body_frame_def dec Let_def; fast)+
    then obtain rd ret where "read_body_frame E c d = Some (?fin rd ret)" "rd = ReadingKeepAlive \<or> rd = ReadingClosed"
      by blast
    with fin [of rd ret] show ?thesis by auto
  qed
qed

lemma poll_read_body_ok:
  assumes "conn_ok ok view c" and "can_read_body c"
  shows "\<exists>c' res. poll_read_body E c = Some (c', res) \<and> \<not> is_panicked res \<and> conn_ok ok view c'"
  using assms read_body_frame_ok [OF assms(1)]
  by (auto simp: can_read_body_def poll_read_body_def conn_ok_def state_ok_def split: reading.splits)

lemma poll_drain_ok:
  assumes "conn_ok ok view c" and "can_read_body c"
  shows "\<exists>c'. poll_drain_or_close_read E c = Some (Return c') \<and> conn_ok ok view c'"
proof -
  from assms have eq: "(case s_reading (cn_state c) of
      ReadingContinue d \<Rightarrow> map_state (\<lambda>s. s\<lparr>s_reading := ReadingBody d\<rparr>) c | _ \<Rightarrow> c) = c"
    by (auto simp: conn_ok_def state_ok_def split: reading.splits)
  from poll_read_body_ok [OF assms] obtain c2 r where
    rd: "poll_read_body E c = Some (c2, r)" "\<not> is_panicked r" and c2: "conn_ok ok view c2" by blast
  then have "conn_ok ok view (conn_close_read c2)"
    by (auto simp: conn_ok_def conn_close_read_def intro: io_ok_closed) (simp add: state_defs io_ok_closed)
  with rd c2 show ?thesis by (cases r) (auto simp: poll_drain_or_close_read_def eq Let_def)
qed

text \<open>Reading between messages.\<close>

lemma conn_ok_closes:
  assumes "state_ok (cn_state c)" and "io_ok ok view r (cn_io c)"
  shows "conn_ok ok view (map_state state_close c)" "conn_ok ok view (map_state state_close_read c)"
    "conn_ok ok view (conn_close_read c)"
  using assms io_ok_closed [OF assms(2)] by (auto simp: conn_ok_def conn_close_read_def) (simp_all add: state_defs)

lemma force_io_read_ok:
  assumes "conn_ok ok view c" and "force_io_read E c = (c', r)"
  shows "conn_ok ok view c' \<and> \<not> is_panicked r"
proof -
  obtain io r' where rd: "poll_read_from_io (env_transport E) (cn_io c) = (io, r')" by fastforce
  have "conn_ok ok view (c\<lparr>cn_io := io\<rparr>)" using io_ok_read [OF rd] assms(1) by (auto simp: conn_ok_def)
  moreover from this have "conn_ok ok view (map_state state_close (c\<lparr>cn_io := io\<rparr>))"
    by (intro conn_ok_closes(1)) (auto simp: conn_ok_def)
  moreover have "\<not> is_panicked r'" using tr.poll_read_from_io_ok [OF rd] by simp
  ultimately show ?thesis
    using assms(2) rd by (cases r') (auto simp: force_io_read_def split: sum.splits)
qed

lemma poll_read_keep_alive_ok:
  assumes c: "conn_ok ok view c"
  shows "\<exists>c' res. poll_read_keep_alive E c = (c', res) \<and> \<not> is_panicked res \<and> conn_ok ok view c'"
proof -
  obtain c1 r where rd: "force_io_read E c = (c1, r)" by fastforce
  from force_io_read_ok [OF c rd] have c1: "conn_ok ok view c1" and r: "\<not> is_panicked r" by auto
  from c1 have close: "conn_ok ok view (map_state state_close_read c1)"
    by (intro conn_ok_closes(2)) (auto simp: conn_ok_def)
  from c rd c1 r close show ?thesis
    by (cases r) (auto simp: poll_read_keep_alive_def mid_message_detect_eof_def require_empty_read_def split: sum.splits)
qed

abbreviation out :: "('io, 'b, 'h) conn \<Rightarrow> bytes" where
  "out c \<equiv> conn_outgoing sent view c"

lemma conn_buffer_ok:
  assumes "wb_ok (encoded_ok ok) (encoded_view view) (write_buf (cn_io c))" and "encoded_ok ok b"
    and "encoded_view view b \<noteq> []"
  shows "\<exists>io. conn_buffer E c b = Some (Return (c\<lparr>cn_io := io\<rparr>)) \<and>
    wb_ok (encoded_ok ok) (encoded_view view) (write_buf io) \<and>
    partial_len io = partial_len (cn_io c) \<and> flush_pipeline io = flush_pipeline (cn_io c) \<and>
    outgoing sent (encoded_view view) io = out c @ encoded_view view b"
proof -
  from write_buf_appends [OF data.encoded_buf_is_buf data.encoded_buf_is_buf assms(1), of b "\<lambda>y. y"] assms(2,3)
  obtain wb where "wb_buffer (encoded_buf_ops (env_bufs E)) (\<lambda>y. y) (encoded_buf_ops (env_bufs E)) (write_buf (cn_io c)) b =
      Some (Return wb)" "wb_ok (encoded_ok ok) (encoded_view view) wb"
    "wb_view (encoded_view view) wb = wb_view (encoded_view view) (write_buf (cn_io c)) @ encoded_view view b" by auto
  then show ?thesis
    by (intro exI [of _ "(cn_io c)\<lparr>write_buf := wb\<rparr>"])
      (simp add: conn_buffer_def buffered_buffer_def conn_outgoing_def outgoing_def)
qed

lemma conn_ok_writing:
  assumes "conn_ok ok view c" and "can_write_body c"
    and "w \<noteq> WritingInit" and "\<And>e. w = WritingBody e \<Longrightarrow> \<not> encoder_is_eof e \<and> \<not> e_is_last e"
    and "wb_ok (encoded_ok ok) (encoded_view view) (write_buf io)" "partial_len io = partial_len (cn_io c)"
      "flush_pipeline io = flush_pipeline (cn_io c)" "read_buf io = read_buf (cn_io c)"
  shows "conn_ok ok view (set_writing w (c\<lparr>cn_io := io\<rparr>))"
proof -
  have "state_ok ((cn_state c)\<lparr>s_writing := w\<rparr>)"
    using assms(1-4) by (auto simp: conn_ok_def state_ok_def can_write_body_def split: writing.splits)
  with assms(1,5-) show ?thesis by (auto simp: conn_ok_def io_ok_def partial_ok_def split: reading.splits)
qed

lemma conn_buffer_reads: "conn_buffer E c b = Some (Return c') \<Longrightarrow> read_buf (cn_io c') = read_buf (cn_io c)"
  by (auto simp: conn_buffer_def buffered_buffer_def)

lemma encode_ok:
  assumes "valid_chunk ok view chunk" and "\<not> encoder_is_eof enc"
  shows "\<exists>enc' eb. encode (env_bufs E) enc chunk = Return (enc', eb) \<and> encoded_ok ok eb \<and>
    encoded_view view eb \<noteq> [] \<and> e_is_last enc' = e_is_last enc"
proof (cases "e_kind enc")
  case (EncChunked t)
  with data.encode_chunked [of chunk enc t] assms(1) show ?thesis
    by (auto simp: valid_chunk_def chunk_coding_def)
next
  case (EncLength n)
  with assms(2) have "unat n \<noteq> 0" by (simp add: encoder_is_eof_def unat_eq_0)
  with data.encode_length [of chunk enc n] EncLength assms(1) show ?thesis by (fastforce simp: valid_chunk_def)
qed

lemma write_body_ok:
  assumes c: "conn_ok ok view c" and w: "s_writing (cn_state c) = WritingBody enc" and chunk: "valid_chunk ok view chunk"
  shows "\<exists>c' enc' eb. write_body E c chunk = Some (Return c') \<and> conn_ok ok view c' \<and>
    encode (env_bufs E) enc chunk = Return (enc', eb) \<and> out c' = out c @ encoded_view view eb"
proof -
  from c w have enc: "\<not> encoder_is_eof enc" "\<not> e_is_last enc" by (auto simp: conn_ok_def state_ok_def)
  from encode_ok [OF chunk enc(1)] obtain enc' eb where
    e: "encode (env_bufs E) enc chunk = Return (enc', eb)" "encoded_ok ok eb" "encoded_view view eb \<noteq> []"
      "\<not> e_is_last enc'" using enc(2) by auto
  from c have "wb_ok (encoded_ok ok) (encoded_view view) (write_buf (cn_io c))" by (simp add: conn_ok_def io_ok_def)
  from conn_buffer_ok [OF this e(2,3)] obtain io where
    io: "conn_buffer E c eb = Some (Return (c\<lparr>cn_io := io\<rparr>))" "wb_ok (encoded_ok ok) (encoded_view view) (write_buf io)"
      "partial_len io = partial_len (cn_io c)" "flush_pipeline io = flush_pipeline (cn_io c)"
      "outgoing sent (encoded_view view) io = out c @ encoded_view view eb" by blast
  let ?w = "if \<not> encoder_is_eof enc' then WritingBody enc'
    else if e_is_last enc' then WritingClosed else WritingKeepAlive"
  have "conn_ok ok view (set_writing ?w (c\<lparr>cn_io := io\<rparr>))"
    using c w e(4) io conn_buffer_reads [OF io(1)]
    by (intro conn_ok_writing) (auto simp: can_write_body_def split: if_splits)
  with w e(1) io(1,5) show ?thesis by (auto simp: write_body_def conn_outgoing_def)
qed

lemma encode_trailers_ok:
  "\<exists>r :: 'b encoded_buf option. encode_trailers (env_http E) enc trailers = Return r \<and>
    (\<forall>b. r = Some b \<longrightarrow> encoded_ok ok b \<and> encoded_view view b \<noteq> [])"
proof (cases "\<exists>allowed. e_kind enc = EncChunked (Some allowed)")
  case True
  then obtain allowed where "e_kind enc = EncChunked (Some allowed)" ..
  from http_crate.encode_trailers_eq [OF http this, of trailers] obtain lines where
    "encode_trailers (env_http E) enc trailers = Return (if lines = [] then None
       else Some (\<lparr>eb_kind = Trailers ((''0'' @ CRLF, lines), CRLF)\<rparr> :: 'b encoded_buf))"
    unfolding Let_def by blast
  then show ?thesis by (auto simp: encoded_ok_def encoded_view_def)
next
  case False
  then show ?thesis by (auto simp: encode_trailers_def split: encoder_kind.splits option.splits)
qed

lemma ended_writing_ok: "ended_writing enc \<noteq> WritingInit" "ended_writing enc \<noteq> WritingBody e"
  by (simp_all add: ended_writing_def)

lemma write_trailers_ok:
  assumes c: "conn_ok ok view c" and w: "can_write_body c"
  shows "\<exists>c'. write_trailers E c trailers = Some (Return c') \<and> conn_ok ok view c'"
proof -
  from w obtain enc where enc: "s_writing (cn_state c) = WritingBody enc" by (auto simp: can_write_body_def split: writing.splits)
  from encode_trailers_ok [of enc trailers] obtain r where
    r: "encode_trailers (env_http E) enc trailers = Return r"
      "\<forall>b. r = Some b \<longrightarrow> encoded_ok ok b \<and> encoded_view view b \<noteq> []" by blast
  show ?thesis
  proof (cases r)
    case None
    with c enc r(1) show ?thesis by (simp add: write_trailers_def)
  next
    case (Some b)
    from c have "wb_ok (encoded_ok ok) (encoded_view view) (write_buf (cn_io c))" by (simp add: conn_ok_def io_ok_def)
    from conn_buffer_ok [OF this, of b] Some r(2) obtain io where
      io: "conn_buffer E c b = Some (Return (c\<lparr>cn_io := io\<rparr>))" "wb_ok (encoded_ok ok) (encoded_view view) (write_buf io)"
        "partial_len io = partial_len (cn_io c)" "flush_pipeline io = flush_pipeline (cn_io c)" by blast
    have "conn_ok ok view (set_writing (ended_writing enc) (c\<lparr>cn_io := io\<rparr>))"
      using c w io conn_buffer_reads [OF io(1)] by (intro conn_ok_writing) (auto simp: ended_writing_ok)
    with Some enc r(1) io(1) show ?thesis by (simp add: write_trailers_def)
  qed
qed

lemma write_body_and_end_ok:
  assumes c: "conn_ok ok view c" and w: "s_writing (cn_state c) = WritingBody enc" and chunk: "valid_chunk ok view chunk"
  shows "\<exists>c' enc' eb. write_body_and_end E c chunk = Some (Return c') \<and> conn_ok ok view c' \<and>
    encode (env_bufs E) enc chunk = Return (enc', eb) \<and>
    out c' = out c @ encoded_view view eb @ (case encoder_end enc' of Inr (Some t) \<Rightarrow> encoded_view view t | _ \<Rightarrow> [])"
proof -
  from c w have enc: "\<not> encoder_is_eof enc" by (auto simp: conn_ok_def state_ok_def)
  from c have wb: "wb_ok (encoded_ok ok) (encoded_view view) (write_buf (cn_io c))" by (simp add: conn_ok_def io_ok_def)
  from chunk have m: "ok chunk" "view chunk \<noteq> []" "length (view chunk) < 2 ^ 64" by (auto simp: valid_chunk_def)
  from data.encode_and_end_splits [OF wb m enc] obtain dst flag enc' eb where
    e: "encode_and_end (env_bufs E) enc chunk (write_buf (cn_io c)) = Some (Return (dst, flag))"
      "wb_ok (encoded_ok ok) (encoded_view view) dst" "encode (env_bufs E) enc chunk = Return (enc', eb)"
      "wb_view (encoded_view view) dst = wb_view (encoded_view view) (write_buf (cn_io c)) @ encoded_view view eb @
        (case encoder_end enc' of Inr (Some t) \<Rightarrow> encoded_view view t | _ \<Rightarrow> [])" by blast
  let ?w = "if flag then WritingKeepAlive else WritingClosed" and ?io = "(cn_io c)\<lparr>write_buf := dst\<rparr>"
  have "conn_ok ok view (set_writing ?w (c\<lparr>cn_io := ?io\<rparr>))"
    using c w e(2) by (intro conn_ok_writing) (auto simp: can_write_body_def split: if_splits)
  with w e(1,3,4) show ?thesis by (auto simp: write_body_and_end_def conn_outgoing_def outgoing_def)
qed

lemma end_body_ok:
  assumes c: "conn_ok ok view c" and w: "s_writing (cn_state c) = WritingBody enc"
  shows "\<exists>c' res. end_body E c = Some (Return (c', res)) \<and> conn_ok ok view c' \<and>
    out c' = out c @ (case encoder_end enc of Inr (Some t) \<Rightarrow> encoded_view view t | _ \<Rightarrow> [])"
proof (cases "e_kind enc")
  case (EncChunked t)
  from c have wb: "wb_ok (encoded_ok ok) (encoded_view view) (write_buf (cn_io c))" by (simp add: conn_ok_def io_ok_def)
  let ?b = "\<lparr>eb_kind = ChunkedEnd (''0'' @ CRLF @ CRLF)\<rparr> :: 'b encoded_buf"
  have b: "encoder_end enc = Inr (Some ?b)" "encoded_ok ok ?b" "encoded_view view ?b \<noteq> []"
    using EncChunked by (simp_all add: encoder_end_def encoded_ok_def encoded_view_def)
  from conn_buffer_ok [OF wb b(2,3)] obtain io where
    io: "conn_buffer E c ?b = Some (Return (c\<lparr>cn_io := io\<rparr>))" "wb_ok (encoded_ok ok) (encoded_view view) (write_buf io)"
      "partial_len io = partial_len (cn_io c)" "flush_pipeline io = flush_pipeline (cn_io c)"
      "outgoing sent (encoded_view view) io = out c @ encoded_view view ?b" by blast
  have "conn_ok ok view (set_writing (ended_writing enc) (c\<lparr>cn_io := io\<rparr>))"
    using c w io conn_buffer_reads [OF io(1)] by (intro conn_ok_writing) (auto simp: ended_writing_ok can_write_body_def)
  with w b(1) io(1,5) show ?thesis by (simp add: end_body_def conn_outgoing_def)
next
  case (EncLength n)
  with c w have n: "n \<noteq> 0" by (auto simp: conn_ok_def state_ok_def encoder_is_eof_def)
  have "conn_ok ok view (set_writing WritingClosed (c\<lparr>cn_io := cn_io c\<rparr>))"
    using c w by (intro conn_ok_writing) (auto simp: can_write_body_def conn_ok_def io_ok_def)
  with EncLength n w show ?thesis by (simp add: end_body_def encoder_end_def conn_outgoing_def)
qed

text \<open>Writing a head: its bytes go behind everything that is already on its way.\<close>

lemma headers_buf_extend_ok:
  assumes "wb_ok (encoded_ok ok) (encoded_view view) (write_buf io)"
  shows "wb_ok (encoded_ok ok) (encoded_view view) (write_buf (headers_buf_extend io bs)) \<and>
    (can_headers_buf io \<longrightarrow>
       outgoing sent (encoded_view view) (headers_buf_extend io bs) = outgoing sent (encoded_view view) io @ bs)"
proof -
  have "buf_list_view (encoded_view view) (wb_queue (write_buf io)) = []" if "can_headers_buf io"
    using assms that unfolding wb_ok_def buf_list_ok_def can_headers_buf_def buf_list_view_def by simp
  with assms show ?thesis
    by (auto simp: headers_buf_extend_def wb_ok_def wb_view_def outgoing_def cursor_ok_extend cursor_chunk_extend)
qed

lemma set_length_not_last:
  "set_length dbg api head body = Return (head', enc) \<Longrightarrow> \<not> e_is_last enc"
  by (auto simp: set_length_def Let_def set_content_length_def with_trailer_fields_def
      into_chunked_with_trailing_fields_def encoder_length_def encoder_chunked_def encoder_new_def
      split: option.splits if_splits body_length.splits encoder_kind.splits)

lemma write_head_ok:
  assumes c: "conn_ok ok view c" and can: "can_write_head c" and wh: "write_head E c head body = Return c'"
  shows "conn_ok ok view c' \<and> s_method (cn_state c') \<noteq> None \<and> \<not> is_idle (cn_state c') \<and>
    (\<exists>bs. out c' = out c @ bs)"
  using wh
proof (rule write_head_state)
  fix s head1 head2 bs enc
  assume ev: "enforce_version (env_http E) (state_busy (cn_state c)) head = (s, head1)"
    and enc: "client_encode False (env_http E) head1 body [] = Return (head2, Some (fst (h_subject head1)), bs, enc)"
    and c': "c' = c\<lparr>cn_io := headers_buf_extend (cn_io c) bs, cn_state := s\<lparr>s_method := Some (fst (h_subject head1)),
      s_cached_headers := Some (h_headers head2), s_on_informational := ext_on_informational (h_extensions head2),
      s_writing := (if \<not> encoder_is_eof enc then WritingBody enc
                    else if e_is_last enc then WritingClosed else WritingKeepAlive)\<rparr>\<rparr>"
  have last: "\<not> e_is_last enc"
    using enc by (auto simp: client_encode_def Let_def dest: set_length_not_last)
  have s: "s_reading s = ReadingInit" "s_keep_alive s \<noteq> Idle"
    using c can enforce_version_state [OF ev]
    by (auto simp: conn_ok_def state_ok_def can_write_head_def is_read_closed_def state_defs split: if_splits)
  have "state_ok (cn_state c')" using s last by (auto simp: c' state_ok_def)
  moreover from c have io: "wb_ok (encoded_ok ok) (encoded_view view) (write_buf (cn_io c))" "\<not> flush_pipeline (cn_io c)"
    "partial_ok (cn_io c)" using can
    by (auto simp: conn_ok_def io_ok_def state_ok_def can_write_head_def is_read_closed_def)
  then have "io_ok ok view (s_reading (cn_state c')) (cn_io c')"
    using headers_buf_extend_ok [OF io(1), of bs] s
    by (simp add: c' io_ok_def partial_ok_def headers_buf_extend_def)
  moreover have "out c' = out c @ bs"
    using headers_buf_extend_ok [OF io(1), of bs] can by (simp add: c' conn_outgoing_def can_write_head_def)
  ultimately show ?thesis using s by (simp add: conn_ok_def c' is_idle_def)
qed

text \<open>Flushing.\<close>

lemma conn_poll_flush_ok:
  assumes "conn_ok ok view c"
  shows "\<exists>c' res. conn_poll_flush E c = Some (c', res) \<and> \<not> is_panicked res \<and> conn_ok ok view c'"
proof -
  from assms have io: "wb_ok (encoded_ok ok) (encoded_view view) (write_buf (cn_io c))" "\<not> flush_pipeline (cn_io c)"
    by (auto simp: conn_ok_def io_ok_def)
  from tr.poll_flush_ok [OF io] obtain io' r where
    fl: "buffered_poll_flush (env_transport E) (cn_io c) = Some (io', r)" "tr.flushed (cn_io c) (io', r)" by fastforce
  then have c1: "conn_ok ok view (c\<lparr>cn_io := io'\<rparr>)"
    using assms by (auto simp: flush_ok_def conn_ok_def io_ok_def partial_ok_def split: reading.splits)
  show ?thesis
  proof (cases "r = Ready (Inr ())")
    case True
    from then_keep_alive_ok [OF c1, of "Ready (Inr ()) :: (io_error + unit) poll"] True fl(1) show ?thesis by (auto simp: conn_poll_flush_def)
  next
    case False
    with fl c1 show ?thesis by (auto simp: conn_poll_flush_def flush_ok_def split: poll.splits sum.splits)
  qed
qed

lemma conn_step_ok:
  assumes "conn_step E (valid_chunk ok view) c c'" and c: "conn_ok ok view c"
  shows "conn_ok ok view c'"
  using assms(1)
proof cases
  case (ReadHead r)
  with poll_read_head_ok [OF c] show ?thesis by auto
next
  case (ReadBody r)
  with poll_read_body_ok [OF c] show ?thesis by auto
next
  case DrainBody
  with poll_drain_ok [OF c] show ?thesis by auto
next
  case (ReadKeepAlive r)
  with poll_read_keep_alive_ok [OF c] show ?thesis by auto
next
  case (WriteHead head body)
  with write_head_ok [OF c] show ?thesis by blast
next
  case (WriteBody chunk)
  with write_body_ok [OF c] show ?thesis by (fastforce simp: can_write_body_def split: writing.splits)
next
  case (WriteTrailers trailers)
  with write_trailers_ok [OF c, of trailers] show ?thesis by auto
next
  case (WriteBodyAndEnd chunk)
  with write_body_and_end_ok [OF c] show ?thesis by (fastforce simp: can_write_body_def split: writing.splits)
next
  case (EndBody res)
  with end_body_ok [OF c] show ?thesis by (fastforce simp: can_write_body_def split: writing.splits)
next
  case (Flush r)
  with conn_poll_flush_ok [OF c] show ?thesis by auto
next
  case (Shutdown r)
  with c show ?thesis
    by (auto simp: conn_poll_shutdown_def conn_ok_def io_ok_def partial_ok_def split: prod.splits reading.splits)
next
  case CloseRead
  with c conn_ok_closes(3) show ?thesis by (auto simp: conn_ok_def)
next
  case CloseWrite
  moreover have "s_reading (state_close_write s) = s_reading s" for s :: "'h state" by (simp add: state_close_write_def)
  ultimately show ?thesis using c by (auto simp: conn_ok_def conn_close_write_def)
qed (use c in \<open>auto simp: conn_ok_def take_error_def wants_read_again_def on_upgrade_def pending_upgrade_def
    prepare_upgrade_def\<close>)

lemma conn_new_ok: "conn_ok ok view (conn_new E io)"
  by (simp add: conn_ok_def conn_new_def state_ok_def io_ok_def partial_ok_def buffered_new_def wb_ok_new)

lemma conn_reachable_ok:
  assumes "conn_reachable E (valid_chunk ok view) c0 c" and "conn_ok ok view c0"
  shows "conn_ok ok view c"
  using assms by (induction rule: conn_reachable.induct) (auto intro: conn_step_ok)

end

section \<open>Becoming idle\<close>

lemma try_keep_alive_idle:
  assumes "conn_try_keep_alive E c = Return c'" and "is_idle (cn_state c')" and "\<not> is_idle (cn_state c)"
  shows "s_reading (cn_state c) = ReadingKeepAlive \<and> s_writing (cn_state c) = WritingKeepAlive \<and>
    s_keep_alive (cn_state c) = Busy"
proof -
  let ?s = "state_try_keep_alive (cn_state c)"
  from assms(1) have "maybe_notify E (map_state state_try_keep_alive c) = Return c'"
    by (simp add: conn_try_keep_alive_def)
  then have "is_idle ?s" by (cases rule: maybe_notify_cases) (use assms(2) in \<open>auto simp: state_defs\<close>)
  with assms(3) show ?thesis
    by (cases rule: state_try_keep_alive_cases [of "cn_state c"]) (auto simp: state_defs)
qed

lemma then_keep_alive_idle:
  assumes "then_keep_alive E c ret = (c', r)" and "is_idle (cn_state c')" and "\<not> is_idle (cn_state c)"
  shows "s_reading (cn_state c) = ReadingKeepAlive \<and> s_writing (cn_state c) = WritingKeepAlive \<and>
    s_keep_alive (cn_state c) = Busy"
proof (cases "conn_try_keep_alive E c")
  case (Return c1)
  with assms(1) have "conn_try_keep_alive E c = Return c'" by (simp add: then_keep_alive_def)
  with assms(2,3) show ?thesis by (intro try_keep_alive_idle)
next
  case (Panic m)
  with assms show ?thesis by (simp add: then_keep_alive_def)
qed

text \<open>How the response has ended when a step makes the connection idle.\<close>

definition response_ended :: "('io, 'b, 'h) conn_env \<Rightarrow> ('io, 'b, 'h) conn \<Rightarrow> bool" where
  "response_ended E c \<longleftrightarrow>
     (case s_reading (cn_state c) of
        ReadingInit \<Rightarrow>
          (\<exists>ctx io msg. buffered_parse (parse_headers False (env_http E) (env_httparse E)) (env_transport E)
             (context_of (cn_state c)) (cn_io c) = Some (ctx, io, Ready (Inr msg)) \<and>
             pm_decode msg = ZERO \<and> pm_keep_alive msg)
      | ReadingBody d \<Rightarrow>
          (\<exists>d' io fr. decode (env_http E) (env_httparse E) (read_mem (env_transport E)) d (cn_io c) =
             Some (d', io, Ready (Inr fr)) \<and> (decoder_is_eof d' \<or> (\<exists>h. fr = FrameTrailers h)))
      | ReadingKeepAlive \<Rightarrow> True
      | _ \<Rightarrow> False)"

lemma poll_read_head_idle:
  assumes "can_read_head c" and "poll_read_head E c = Some (c', res)" and "\<not> is_panicked res"
    and "is_idle (cn_state c')" and "\<not> is_idle (cn_state c)"
  shows "s_writing (cn_state c) = WritingKeepAlive \<and> s_keep_alive (cn_state c) = Busy \<and> response_ended E c"
proof -
  from assms(2) obtain ctx io r where parse: "buffered_parse (parse_headers False (env_http E) (env_httparse E))
      (env_transport E) (context_of (cn_state c)) (cn_io c) = Some (ctx, io, r)"
    by (auto simp: poll_read_head_def split: option.splits)
  note res = assms(2) [unfolded poll_read_head_def parse, simplified Let_def option.case prod.case option.inject]
  let ?c = "c\<lparr>cn_io := io, cn_state := from_context ctx (cn_state c)\<rparr>"
  have ni: "\<not> is_idle (from_context ctx (cn_state c))" using assms(5) by (simp add: is_idle_def)
  consider msg where "r = Ready (Inr msg)" | e where "r = Ready (Inl e)" | "r = Pending" | m where "r = Panicked m"
    by (metis poll.exhaust sum.exhaust)
  then show ?thesis
  proof cases
    case (1 msg)
    with res have "read_head_message E ?c msg = (c', res)" by simp
    then show ?thesis using assms(3)
    proof (cases rule: read_head_message_cases)
      case (empty c1 t w)
      from empty(3) assms(4) have "is_idle (cn_state c1)" by (simp add: is_idle_def)
      moreover have "\<not> is_idle (head_state s msg)" for s by (simp add: is_idle_def)
      ultimately have ka: "s_writing (cn_state c) = WritingKeepAlive"
        "(if s_keep_alive (cn_state c) = Disabled \<or> \<not> pm_keep_alive msg then Disabled else Busy) = Busy"
        using try_keep_alive_idle [OF empty(2)] by (simp_all add: is_idle_def)
      then have "s_writing (cn_state c) = WritingKeepAlive" "s_keep_alive (cn_state c) \<noteq> Disabled" "pm_keep_alive msg"
        by (simp_all split: if_splits)
      moreover from this(2) assms(5) have "s_keep_alive (cn_state c) = Busy"
        by (cases "s_keep_alive (cn_state c)") (auto simp: is_idle_def)
      ultimately show ?thesis using empty(1) 1 parse assms(1) by (auto simp: response_ended_def can_read_head_def)
    next
      case (body t r w)
      with assms(4,5) ni show ?thesis by (auto simp: is_idle_def split: if_splits)
    qed
  next
    case (2 e)
    with res on_read_head_error_state [of E ?c e c' res] assms(4) show ?thesis by (auto simp: state_defs)
  qed (use res assms(3,4) ni in auto)
qed

lemma read_body_frame_idle:
  assumes "read_body_frame E c d = Some (c', res)" and "s_reading (cn_state c) = ReadingBody d"
    and "is_idle (cn_state c')" and "\<not> is_idle (cn_state c)"
  shows "s_writing (cn_state c) = WritingKeepAlive \<and> s_keep_alive (cn_state c) = Busy \<and> response_ended E c"
proof -
  from assms(1) obtain d' io r where dec: "decode (env_http E) (env_httparse E) (read_mem (env_transport E)) d (cn_io c) = Some (d', io, r)"
    by (auto simp: read_body_frame_def split: option.splits)
  have fin: "rd = ReadingKeepAlive \<and> s_writing (cn_state c) = WritingKeepAlive \<and> s_keep_alive (cn_state c) = Busy"
    if "then_keep_alive E (c\<lparr>cn_io := io, cn_state := (cn_state c)\<lparr>s_reading := rd\<rparr>\<rparr>) ret = (c', res)" for rd ret
    using then_keep_alive_idle [OF that assms(3)] assms(4) by (simp add: is_idle_def)
  show ?thesis
    using assms dec
    by (auto simp: read_body_frame_def Let_def response_ended_def is_idle_def
        dest!: fin split: poll.splits sum.splits frame.splits if_splits)
qed

lemma poll_read_body_idle:
  assumes "state_ok (cn_state c)" and "poll_read_body E c = Some (c', res)"
    and "is_idle (cn_state c')" and "\<not> is_idle (cn_state c)"
  shows "s_writing (cn_state c) = WritingKeepAlive \<and> s_keep_alive (cn_state c) = Busy \<and> response_ended E c"
proof (cases "s_reading (cn_state c)")
  case (ReadingBody d)
  with assms(2) have "read_body_frame E c d = Some (c', res)" by (simp add: poll_read_body_def)
  from read_body_frame_idle [OF this ReadingBody assms(3,4)] show ?thesis .
qed (use assms in \<open>auto simp: poll_read_body_def state_ok_def\<close>)

lemma conn_step_idle:
  assumes "conn_step E valid c c'" and st: "state_ok (cn_state c)"
    and idle: "is_idle (cn_state c')" "\<not> is_idle (cn_state c)"
  shows "s_writing (cn_state c) = WritingKeepAlive \<and> s_keep_alive (cn_state c) = Busy \<and> response_ended E c"
proof -
  have wr: False if "only_writing (cn_state c) (cn_state c')"
    using arg_cong [OF that [unfolded only_writing_def], of s_keep_alive] idle by (simp add: is_idle_def)
  show ?thesis
    using assms(1)
  proof cases
    case (ReadHead r)
    then show ?thesis using poll_read_head_idle idle by blast
  next
    case (ReadBody r)
    then show ?thesis using poll_read_body_idle [OF st] idle by blast
  next
    case DrainBody
    with st have eq: "(case s_reading (cn_state c) of
        ReadingContinue d \<Rightarrow> map_state (\<lambda>s. s\<lparr>s_reading := ReadingBody d\<rparr>) c | _ \<Rightarrow> c) = c"
      by (auto simp: state_ok_def split: reading.splits)
    from DrainBody obtain c2 r where "poll_read_body E c = Some (c2, r)" "c' = c2 \<or> c' = conn_close_read c2"
      by (auto simp: poll_drain_or_close_read_def eq Let_def split: option.splits poll.splits)
    with idle poll_read_body_idle [OF st, of E c2 r] show ?thesis
      by (auto simp: conn_close_read_def state_defs)
  next
    case (ReadKeepAlive r)
    then show ?thesis using idle
      by (auto simp: poll_read_keep_alive_def mid_message_detect_eof_def require_empty_read_def state_defs
          dest!: force_io_read_state split: if_splits prod.splits poll.splits sum.splits)
  next
    case (WriteHead head body)
    then show ?thesis using idle
      by (elim write_head_state) (auto simp: state_defs dest!: enforce_version_state split: if_splits)
  next
    case (Flush r)
    then obtain io fr where fl: "buffered_poll_flush (env_transport E) (cn_io c) = Some (io, fr)"
      by (auto simp: conn_poll_flush_def split: option.splits)
    note eq = Flush(1) [unfolded conn_poll_flush_def fl]
    have "fr = Ready (Inr ())" using eq idle by (auto split: poll.splits sum.splits)
    with eq have "then_keep_alive E (c\<lparr>cn_io := io\<rparr>) (Ready (Inr ())) = (c', r)" by simp
    from then_keep_alive_idle [OF this idle(1)] idle(2) show ?thesis by (simp add: response_ended_def)
  qed (use idle wr in \<open>auto simp: conn_close_read_def conn_close_write_def take_error_def wants_read_again_def
      on_upgrade_def pending_upgrade_def prepare_upgrade_def conn_poll_shutdown_def state_defs
      dest!: write_states split: prod.splits\<close>)
qed

section \<open>A concrete environment\<close>

definition sim_env :: "(sim_io, bytes, entries) conn_env" where
  "sim_env =
     \<lparr>env_http = list_api, env_httparse = simple_parser,
      env_transport = sim_transport (encoded_buf_ops bytes_api), env_bufs = bytes_api\<rparr>"

interpretation sim_conn: connection sim_env sim_incoming sim_sent "\<lambda>_. True" "\<lambda>b. b"
proof (rule connection.intro)
  show "http_crate (env_http sim_env)" by (simp add: sim_env_def list_http.http_crate_axioms)
  show "httparse_crate (env_httparse sim_env)" by (simp add: sim_env_def simple_parser.httparse_crate_axioms)
  show "transport_io (env_transport sim_env) sim_incoming sim_sent (encoded_ok (\<lambda>_. True)) (encoded_view (\<lambda>b. b))"
    using sim_transport_io [OF bytes_crate.encoded_buf_is_buf [OF bytes_api.bytes_crate_axioms]]
    by (simp add: sim_env_def)
  show "bytes_crate (env_bufs sim_env) (\<lambda>_. True) (\<lambda>b. b)" by (simp add: sim_env_def bytes_api.bytes_crate_axioms)
qed

section \<open>Which heads can be written\<close>

lemma set_length_returns: "\<exists>head' enc. set_length False api head body = Return (head', enc)"
  by (simp add: set_length_def set_content_length_def Let_def split: option.splits body_length.splits)

definition known_version :: "http_version \<Rightarrow> bool" where
  "known_version v \<longleftrightarrow> v \<in> {HTTP_10, HTTP_11, HTTP_2}"

lemma version_str_returns: "(\<exists>s. version_str v = Return s) \<longleftrightarrow> known_version v"
  by (cases v) (auto simp: known_version_def)

lemma enforce_version_version:
  "enforce_version api s head = (s', head') \<Longrightarrow>
   h_version head' = (if s_version s = HTTP_10 then HTTP_10 else h_version head)"
  by (auto simp: enforce_version_def split: if_splits prod.splits)

text \<open>
  A head is written exactly when \<open>Client::encode\<close> knows its version, which is lowered to 1.0 first
  behind a peer of that version; otherwise the call panics.
\<close>

lemma write_head_returns_iff:
  "(\<exists>c'. write_head E c head body = Return c') \<longleftrightarrow>
     known_version (h_version head) \<or> s_version (cn_state c) = HTTP_10"
proof -
  obtain s head1 where ev: "enforce_version (env_http E) (state_busy (cn_state c)) head = (s, head1)" by fastforce
  obtain head2 enc where sl: "set_length False (env_http E) head1 body = Return (head2, enc)"
    using set_length_returns by blast
  have v: "h_version head2 = (if s_version (cn_state c) = HTTP_10 then HTTP_10 else h_version head)"
    using set_length_head [OF sl] enforce_version_version [OF ev] by (simp add: state_busy_def)
  have "(\<exists>c'. write_head E c head body = Return c') \<longleftrightarrow> (\<exists>w. version_str (h_version head2) = Return w)"
    using ev sl by (cases "version_str (h_version head2)") (simp_all add: write_head_def encode_head_def client_encode_def Let_def)
  then show ?thesis by (simp add: version_str_returns v known_version_def)
qed

lemma write_head_returns:
  "h_version head \<in> {HTTP_10, HTTP_11, HTTP_2} \<Longrightarrow> \<exists>c'. write_head E c head body = Return c'"
  by (simp add: write_head_returns_iff known_version_def)

section \<open>Properties\<close>

text \<open>
  C2. In every state a connection reaches, by whatever calls in whatever order: it is idle only
  between exchanges and then remembers no request method; a request head may be written only while
  no response is in progress; the client never waits to send a 100 Continue; a body being read or
  written is never already complete; and while a response is owed the method of its request is known.
\<close>

theorem conn_invariant:
  assumes "connection E incoming sent ok view"
    and "conn_reachable E (valid_chunk ok view) (conn_new E io) c"
  shows "(is_idle (cn_state c) \<longrightarrow> s_reading (cn_state c) = ReadingInit \<and> s_writing (cn_state c) = WritingInit \<and>
       s_method (cn_state c) = None) \<and>
    (can_write_head c \<longrightarrow> s_reading (cn_state c) = ReadingInit) \<and>
    (\<forall>d. s_reading (cn_state c) \<noteq> ReadingContinue d) \<and>
    (\<forall>d. s_reading (cn_state c) = ReadingBody d \<longrightarrow> \<not> decoder_is_eof d) \<and>
    (\<forall>e. s_writing (cn_state c) = WritingBody e \<longrightarrow> \<not> encoder_is_eof e) \<and>
    (s_writing (cn_state c) \<notin> {WritingInit, WritingClosed} \<longrightarrow> s_method (cn_state c) \<noteq> None)"
proof -
  from connection.conn_reachable_ok [OF assms connection.conn_new_ok [OF assms(1)]]
  have "state_ok (cn_state c)" by (simp add: conn_ok_def)
  then show ?thesis by (auto simp: state_ok_def is_idle_def can_write_head_def is_read_closed_def)
qed

definition sim_start :: sim_io where
  "sim_start = \<lparr>sim_reads = [None], sim_sent = [], sim_limit = 1\<rparr>"

theorem conn_invariant_witness:
  "\<forall>d. s_reading (cn_state (conn_close_write (conn_new sim_env sim_start))) \<noteq> ReadingContinue d"
proof -
  have "conn_reachable sim_env (valid_chunk (\<lambda>_. True) (\<lambda>b. b)) (conn_new sim_env sim_start)
      (conn_close_write (conn_new sim_env sim_start))"
    by (rule conn_reachable.step [OF conn_reachable.start conn_step.CloseWrite])
  from conn_invariant [OF sim_conn.connection_axioms this] show ?thesis by simp
qed

text \<open>
  C3. The operations of a connection in a reachable state, whatever the peer and the transport do:
  reading a head, reading or draining a body, watching an idle connection, writing body data, trailers
  and the end of a body, and flushing all return without a panic when the dispatcher may call them.
  Writing a request head returns exactly when the version of the request is HTTP/1.0, 1.1 or 2 or the
  peer is known to speak HTTP/1.0; a request of version HTTP/0.9 or HTTP/3 panics otherwise. Shutting
  down panics only when the transport's own shutdown does.
\<close>

theorem conn_operations_return:
  assumes "connection E incoming sent ok view"
    and "conn_reachable E (valid_chunk ok view) (conn_new E io) c"
  shows "(can_read_head c \<longrightarrow> (\<exists>c' r. poll_read_head E c = Some (c', r) \<and> \<not> is_panicked r)) \<and>
    (can_read_body c \<longrightarrow> (\<exists>c' r. poll_read_body E c = Some (c', r) \<and> \<not> is_panicked r) \<and>
       (\<exists>c'. poll_drain_or_close_read E c = Some (Return c'))) \<and>
    (\<exists>c' r. poll_read_keep_alive E c = (c', r) \<and> \<not> is_panicked r) \<and>
    (can_write_body c \<longrightarrow> (\<forall>chunk. valid_chunk ok view chunk \<longrightarrow>
         (\<exists>c'. write_body E c chunk = Some (Return c')) \<and> (\<exists>c'. write_body_and_end E c chunk = Some (Return c'))) \<and>
       (\<forall>trailers. \<exists>c'. write_trailers E c trailers = Some (Return c')) \<and>
       (\<exists>c' r. end_body E c = Some (Return (c', r)))) \<and>
    (\<exists>c' r. conn_poll_flush E c = Some (c', r) \<and> \<not> is_panicked r) \<and>
    (\<forall>head body. (\<exists>c'. write_head E c head body = Return c') \<longleftrightarrow>
       h_version head \<in> {HTTP_10, HTTP_11, HTTP_2} \<or> s_version (cn_state c) = HTTP_10) \<and>
    (is_panicked (snd (conn_poll_shutdown E c)) \<longrightarrow>
       is_panicked (snd (tr_poll_shutdown (env_transport E) (b_io (cn_io c)))))"
proof -
  note C = assms(1)
  have shut: "is_panicked (snd (conn_poll_shutdown E c)) \<longrightarrow>
       is_panicked (snd (tr_poll_shutdown (env_transport E) (b_io (cn_io c))))"
    by (auto simp: conn_poll_shutdown_def split: prod.splits)
  have head: "(\<exists>c'. write_head E c head body = Return c') \<longleftrightarrow>
       h_version head \<in> {HTTP_10, HTTP_11, HTTP_2} \<or> s_version (cn_state c) = HTTP_10" for head body
    by (simp add: write_head_returns_iff known_version_def)
  have ok: "conn_ok ok view c" by (rule connection.conn_reachable_ok [OF assms connection.conn_new_ok [OF C]])
  have wr: "(\<forall>chunk. valid_chunk ok view chunk \<longrightarrow>
         (\<exists>c'. write_body E c chunk = Some (Return c')) \<and> (\<exists>c'. write_body_and_end E c chunk = Some (Return c'))) \<and>
       (\<exists>c' r. end_body E c = Some (Return (c', r)))" if w: "can_write_body c"
  proof -
    from w obtain enc where "s_writing (cn_state c) = WritingBody enc"
      by (auto simp: can_write_body_def split: writing.splits)
    with connection.write_body_ok [OF C ok this] connection.write_body_and_end_ok [OF C ok this]
      connection.end_body_ok [OF C ok this] show ?thesis by blast
  qed
  from connection.poll_read_head_ok [OF C ok] connection.poll_read_body_ok [OF C ok] connection.poll_drain_ok [OF C ok]
    connection.poll_read_keep_alive_ok [OF C ok] connection.write_trailers_ok [OF C ok]
    connection.conn_poll_flush_ok [OF C ok] wr head shut
  show ?thesis by blast
qed

definition sim_head :: "http_version \<Rightarrow> entries request_head" where
  "sim_head v = \<lparr>h_version = v, h_subject = (GET, ''/''), h_headers = [], h_extensions = extensions_default\<rparr>"

theorem conn_operations_return_witness:
  "(\<exists>c' r. conn_poll_flush sim_env (conn_new sim_env sim_start) = Some (c', r) \<and> \<not> is_panicked r) \<and>
   (\<exists>c'. write_head sim_env (conn_new sim_env sim_start) (sim_head HTTP_11) None = Return c') \<and>
   \<not> (\<exists>c'. write_head sim_env (conn_new sim_env sim_start) (sim_head HTTP_3) None = Return c')"
proof -
  note ops = conn_operations_return [OF sim_conn.connection_axioms conn_reachable.start, of sim_start]
  from ops have "\<exists>c' r. conn_poll_flush sim_env (conn_new sim_env sim_start) = Some (c', r) \<and> \<not> is_panicked r"
    by blast
  moreover from ops have "(\<exists>c'. write_head sim_env (conn_new sim_env sim_start) head body = Return c') \<longleftrightarrow>
       h_version head \<in> {HTTP_10, HTTP_11, HTTP_2} \<or> s_version (cn_state (conn_new sim_env sim_start)) = HTTP_10"
    for head body by blast
  ultimately show ?thesis by (simp add: sim_head_def conn_new_def)
qed

text \<open>
  C31. Closing is final: from any state on, by whatever permitted calls, a reading or writing side that is
  closed stays closed, and once keep-alive is disabled no later call makes the connection idle again.
\<close>

theorem conn_closing_is_final:
  assumes "conn_reachable E valid c c'"
  shows "(is_read_closed (cn_state c) \<longrightarrow> is_read_closed (cn_state c')) \<and>
    (is_write_closed (cn_state c) \<longrightarrow> is_write_closed (cn_state c')) \<and>
    (s_keep_alive (cn_state c) = Disabled \<longrightarrow> \<not> is_idle (cn_state c'))"
proof -
  have "progress (cn_state c) (cn_state c')"
    using assms by (induction rule: conn_reachable.induct) (auto intro: progress_trans conn_step_progress)
  then show ?thesis by (simp add: progress_def is_read_closed_def is_write_closed_def is_idle_def)
qed

theorem conn_closing_is_final_witness:
  "is_read_closed (cn_state (conn_close_write (conn_close_read (conn_new sim_env sim_start))))"
proof -
  let ?c = "conn_close_read (conn_new sim_env sim_start)"
  have "conn_reachable sim_env (\<lambda>_. True) ?c (conn_close_write ?c)"
    by (rule conn_reachable.step [OF conn_reachable.start conn_step.CloseWrite])
  moreover have "is_read_closed (cn_state ?c)" by (simp add: is_read_closed_def conn_close_read_def state_close_read_def)
  ultimately show ?thesis using conn_closing_is_final by blast
qed

text \<open>
  C5. A connection becomes reusable only behind a complete exchange: the step that makes it idle
  starts with the request completely written and keep-alive not disabled, and the response ends with
  it: its head has just been parsed with an empty body and allows keep-alive, or the body decoder has
  reached its end or the trailers, or the body had been read before.
\<close>

theorem conn_idle_after_exchange:
  assumes "conn_step E valid c c'" and "state_ok (cn_state c)"
    and "is_idle (cn_state c')" and "\<not> is_idle (cn_state c)"
  shows "s_writing (cn_state c) = WritingKeepAlive \<and> s_keep_alive (cn_state c) = Busy \<and> response_ended E c"
  by (rule conn_step_idle [OF assms])

definition sim_done :: "(sim_io, bytes, entries) conn" where
  "sim_done = map_state (\<lambda>s. s\<lparr>s_reading := ReadingKeepAlive, s_writing := WritingKeepAlive, s_method := Some GET\<rparr>)
     ((conn_new sim_env sim_start)\<lparr>cn_io := (cn_io (conn_new sim_env sim_start))\<lparr>read_blocked := True\<rparr>\<rparr>)"

theorem conn_idle_after_exchange_witness:
  "\<exists>c'. conn_step sim_env (\<lambda>_. True) sim_done c' \<and> is_idle (cn_state c') \<and>
     s_writing (cn_state sim_done) = WritingKeepAlive \<and> response_ended sim_env sim_done"
proof -
  note defs = sim_done_def conn_new_def sim_env_def sim_start_def buffered_new_def sim_transport_def
  obtain c' r where fl: "conn_poll_flush sim_env sim_done = Some (c', r)" "\<not> is_panicked r" "is_idle (cn_state c')"
    by (simp add: conn_poll_flush_def buffered_poll_flush_def defs write_buf_new_def wb_remaining_def cursor_remaining_def
        buf_list_new_def flush_io_def then_keep_alive_def conn_try_keep_alive_def state_try_keep_alive_def state_idle_eq
        maybe_notify_def can_write_body_def bm_new_def is_idle_def cursor_new_def)
  then have step: "conn_step sim_env (\<lambda>_. True) sim_done c'" by (intro conn_step.Flush)
  have st: "state_ok (cn_state sim_done)" "\<not> is_idle (cn_state sim_done)"
    by (simp_all add: sim_done_def conn_new_def state_ok_def is_idle_def)
  from conn_idle_after_exchange [OF step st(1) fl(3) st(2)] step fl(3) show ?thesis by blast
qed

text \<open>
  Output goes out in order: writing a head appends to the bytes on their way (sent and buffered,
  whichever strategy buffers them), writing body data appends exactly its encoding, the last data its
  encoding and the end of the body, and ending a body the end its encoder gives. Nothing that is on
  its way is ever changed.
\<close>

theorem conn_writes_append:
  assumes "connection E incoming sent ok view" and "conn_ok ok view c"
  shows "(can_write_head c \<and> write_head E c head body = Return c1 \<longrightarrow>
       (\<exists>bs. conn_outgoing sent view c1 = conn_outgoing sent view c @ bs)) \<and>
    (s_writing (cn_state c) = WritingBody enc \<and> valid_chunk ok view chunk \<longrightarrow>
       (\<exists>c' enc' eb. write_body E c chunk = Some (Return c') \<and> encode (env_bufs E) enc chunk = Return (enc', eb) \<and>
          conn_outgoing sent view c' = conn_outgoing sent view c @ encoded_view view eb) \<and>
       (\<exists>c' enc' eb. write_body_and_end E c chunk = Some (Return c') \<and>
          encode (env_bufs E) enc chunk = Return (enc', eb) \<and>
          conn_outgoing sent view c' = conn_outgoing sent view c @ encoded_view view eb @
            (case encoder_end enc' of Inr (Some t) \<Rightarrow> encoded_view view t | _ \<Rightarrow> []))) \<and>
    (s_writing (cn_state c) = WritingBody enc \<longrightarrow>
       (\<exists>c' res. end_body E c = Some (Return (c', res)) \<and>
          conn_outgoing sent view c' = conn_outgoing sent view c @
            (case encoder_end enc of Inr (Some t) \<Rightarrow> encoded_view view t | _ \<Rightarrow> [])))"
  using connection.write_head_ok [OF assms, of head body c1] connection.write_body_ok [OF assms, of enc chunk]
    connection.write_body_and_end_ok [OF assms, of enc chunk] connection.end_body_ok [OF assms, of enc]
  by blast

definition sim_writing :: "(sim_io, bytes, entries) conn" where
  "sim_writing = map_state (\<lambda>s. s\<lparr>s_writing := WritingBody encoder_chunked, s_method := Some POST\<rparr>)
     (conn_new sim_env sim_start)"

theorem conn_writes_append_witness:
  "\<exists>c' enc' eb. write_body sim_env sim_writing ''hello'' = Some (Return c') \<and>
     encode bytes_api encoder_chunked ''hello'' = Return (enc', eb) \<and>
     conn_outgoing sim_sent (\<lambda>b. b) c' = encoded_view (\<lambda>b. b) eb"
proof -
  have ok: "conn_ok (\<lambda>_. True) (\<lambda>b. b) sim_writing"
    using sim_conn.conn_new_ok [of sim_start]
    by (simp add: conn_ok_def sim_writing_def conn_new_def state_ok_def encoder_is_eof_def encoder_chunked_def encoder_new_def)
  have "conn_outgoing sim_sent (\<lambda>b. b) sim_writing = []"
    by (simp add: conn_outgoing_def outgoing_def sim_writing_def conn_new_def buffered_new_def wb_view_new sim_start_def)
  moreover have "s_writing (cn_state sim_writing) = WritingBody encoder_chunked"
    "valid_chunk (\<lambda>_. True) (\<lambda>b. b) ''hello''"
    by (simp_all add: sim_writing_def valid_chunk_def)
  ultimately show ?thesis
    using conn_writes_append [OF sim_conn.connection_axioms ok, of undefined undefined undefined encoder_chunked "''hello''"]
    by (auto simp: sim_env_def)
qed

text \<open>
  Watching an idle connection for data: bytes that arrive, or are already buffered, are reported
  as an unexpected message; the end of the stream closes the reading side for good and is an error
  only when the connection is not idle; an I/O error closes both sides.
\<close>

theorem require_empty_read_outcomes:
  "(bm_bytes (read_buf (cn_io c)) \<noteq> [] \<longrightarrow> require_empty_read E c = (c, Ready (Inl new_unexpected_message))) \<and>
   (bm_bytes (read_buf (cn_io c)) = [] \<and> poll_read_from_io (env_transport E) (cn_io c) = (io, r) \<longrightarrow>
     (case r of
        Ready (Inr n) \<Rightarrow>
          (if n = 0 then
             (\<exists>c'. require_empty_read E c =
                (c', Ready (if is_idle (cn_state c) then Inr () else Inl new_incomplete)) \<and> is_read_closed (cn_state c') \<and>
                \<not> is_idle (cn_state c'))
           else require_empty_read E c = (c\<lparr>cn_io := io\<rparr>, Ready (Inl new_unexpected_message)))
      | Ready (Inl e) \<Rightarrow>
          (\<exists>c'. require_empty_read E c = (c', Ready (Inl (new_io e))) \<and> is_read_closed (cn_state c') \<and>
             is_write_closed (cn_state c'))
      | Pending \<Rightarrow> require_empty_read E c = (c\<lparr>cn_io := io\<rparr>, Pending)
      | Panicked m \<Rightarrow> True))"
  by (cases r) (auto simp: require_empty_read_def force_io_read_def should_error_on_eof_def state_defs
      is_read_closed_def is_write_closed_def split: sum.splits)

theorem require_empty_read_outcomes_witness:
  "require_empty_read sim_env ((conn_new sim_env sim_start)\<lparr>cn_io :=
       (cn_io (conn_new sim_env sim_start))\<lparr>read_buf := \<lparr>bm_bytes = ''x'', bm_cap = 1\<rparr>\<rparr>\<rparr>) =
     ((conn_new sim_env sim_start)\<lparr>cn_io :=
       (cn_io (conn_new sim_env sim_start))\<lparr>read_buf := \<lparr>bm_bytes = ''x'', bm_cap = 1\<rparr>\<rparr>\<rparr>,
      Ready (Inl new_unexpected_message))"
  using require_empty_read_outcomes [of "(conn_new sim_env sim_start)\<lparr>cn_io :=
       (cn_io (conn_new sim_env sim_start))\<lparr>read_buf := \<lparr>bm_bytes = ''x'', bm_cap = 1\<rparr>\<rparr>\<rparr>" sim_env] by simp

text \<open>
  Options put together by any sequence of builder calls set a connection up without a panic: the
  check of the maximum buffer size that the connection repeats cannot fail, the parser configuration
  and header limit arrive, and the read strategy is the last of the two sizes that was set.
\<close>

inductive built :: "http1_options \<Rightarrow> bool" where
  start: "built options_builder"
| http09: "built opts \<Longrightarrow> built (opt_http09_responses opts b)"
| writev: "built opts \<Longrightarrow> built (opt_writev opts w)"
| max_headers: "built opts \<Longrightarrow> built (opt_max_headers opts n)"
| exact_size: "built opts \<Longrightarrow> built (opt_read_buf_exact_size opts sz)"
| max_buf_size: "built opts \<Longrightarrow> opt_max_buf_size opts m = Return opts' \<Longrightarrow> built opts'"
| spaces: "built opts \<Longrightarrow> built (opt_allow_spaces opts b)"
| ignore_invalid: "built opts \<Longrightarrow> built (opt_ignore_invalid opts b)"
| multiline: "built opts \<Longrightarrow> built (opt_allow_multiline opts b)"

lemma built_ok: "built opts \<Longrightarrow> options_ok opts"
  by (induction rule: built.induct) (auto intro: options_ok_builder options_ok_keep)

theorem handshake_conn_returns:
  assumes "built opts"
  shows "\<exists>c. handshake_conn E opts io = Return c \<and> s_parser_config (cn_state c) = parser_config_of opts \<and>
    s_max_headers (cn_state c) = o_max_headers opts \<and> s_h09_responses (cn_state c) = o_h09_responses opts \<and>
    read_buf_strategy (cn_io c) =
      (case (o_read_buf_exact_size opts, o_max_buf_size opts) of
         (Some sz, None) \<Rightarrow> ExactSize sz | (None, Some m) \<Rightarrow> rs_with_max m | _ \<Rightarrow> rs_default)"
  using built_ok [OF assms]
  by (auto simp: handshake_conn_def Let_def options_ok_def conn_new_def set_h1_parser_config_def set_h09_responses_def
      set_http1_max_headers_def conn_set_write_strategy_queue_def conn_set_write_strategy_flatten_def
      conn_set_read_buf_exact_size_def conn_set_max_buf_size_def set_max_buf_size_def set_read_buf_exact_size_def
      set_write_strategy_queue_def set_write_strategy_flatten_def buffered_new_def split: option.splits if_splits)

theorem handshake_conn_returns_witness:
  "\<exists>c. handshake_conn sim_env (opt_writev (opt_max_headers options_builder 5) (Some True)) sim_start = Return c \<and>
     s_max_headers (cn_state c) = Some 5"
proof -
  have "built (opt_writev (opt_max_headers options_builder 5) (Some True))" by (intro built.intros)
  from handshake_conn_returns [OF this, of sim_env sim_start] show ?thesis
    by (auto simp: opt_writev_def opt_max_headers_def)
qed

end
