(* ===== verification/F64.thy ===== *)
theory F64
  imports Prelude "HOL-Library.Log_Nat"
begin

text \<open>
  The part of \<open>f64\<close> that the bandwidth estimate uses: IEEE 754 binary64 values with signed
  zeros, infinities and NaN, and \<open>+\<close>, \<open>-\<close>, \<open>*\<close>, \<open>/\<close>, the conversion from integers and the
  comparisons, each the exact result rounded to nearest, ties to even. A finite value is its sign
  and its magnitude as a rational number. The lemmas show that every operation yields a value that
  binary64 has (\<open>f64_valid\<close>) and that integers below \<open>2 ^ 53\<close> are converted exactly.
\<close>

datatype f64 = NaN | Infinite (is_negative: bool) | Finite (is_negative: bool) (magnitude: rat)

definition pow2 :: "int \<Rightarrow> rat" where
  "pow2 k = (if 0 \<le> k then 2 ^ nat k else 1 / 2 ^ nat (- k))"

definition round_half_even :: "rat \<Rightarrow> int" where
  "round_half_even q =
     (let n = \<lfloor>q\<rfloor>; r = q - of_int n in
      if r < 1 / 2 then n else if 1 / 2 < r then n + 1 else if even n then n else n + 1)"

text \<open>The binary exponent of a positive rational: \<open>pow2 e \<le> q < pow2 (e + 1)\<close>.\<close>

definition exponent :: "rat \<Rightarrow> int" where
  "exponent q =
     (let (n, d) = quotient_of q;
          e = int (floorlog 2 (nat n)) - int (floorlog 2 (nat d)) in
      if pow2 e \<le> q then e else e - 1)"

definition ulp_exponent :: "rat \<Rightarrow> int" where
  "ulp_exponent q = (if q = 0 then - 1074 else max (- 1074) (exponent q - 52))"

definition f64_round :: "bool \<Rightarrow> rat \<Rightarrow> f64" where
  "f64_round neg q =
     (let k = ulp_exponent q;
          v = of_int (round_half_even (q / pow2 k)) * pow2 k in
      if 2 ^ 1024 \<le> v then Infinite neg else Finite neg v)"

fun f64_neg :: "f64 \<Rightarrow> f64" where
  "f64_neg NaN = NaN"
| "f64_neg (Infinite s) = Infinite (\<not> s)"
| "f64_neg (Finite s x) = Finite (\<not> s) x"

definition signed :: "bool \<Rightarrow> rat \<Rightarrow> rat" where
  "signed s x = (if s then - x else x)"

fun f64_add :: "f64 \<Rightarrow> f64 \<Rightarrow> f64" where
  "f64_add (Finite s x) (Finite t y) =
     (if s = t then f64_round s (x + y)
      else let z = signed s x + signed t y in f64_round (z < 0) \<bar>z\<bar>)"
| "f64_add (Infinite s) (Infinite t) = (if s = t then Infinite s else NaN)"
| "f64_add (Infinite s) (Finite t y) = Infinite s"
| "f64_add (Finite s x) (Infinite t) = Infinite t"
| "f64_add _ _ = NaN"

definition f64_sub :: "f64 \<Rightarrow> f64 \<Rightarrow> f64" where
  "f64_sub a b = f64_add a (f64_neg b)"

fun f64_mul :: "f64 \<Rightarrow> f64 \<Rightarrow> f64" where
  "f64_mul (Finite s x) (Finite t y) = f64_round (s \<noteq> t) (x * y)"
| "f64_mul (Infinite s) (Infinite t) = Infinite (s \<noteq> t)"
| "f64_mul (Infinite s) (Finite t y) = (if y = 0 then NaN else Infinite (s \<noteq> t))"
| "f64_mul (Finite s x) (Infinite t) = (if x = 0 then NaN else Infinite (s \<noteq> t))"
| "f64_mul _ _ = NaN"

fun f64_div :: "f64 \<Rightarrow> f64 \<Rightarrow> f64" where
  "f64_div (Finite s x) (Finite t y) =
     (if y = 0 then (if x = 0 then NaN else Infinite (s \<noteq> t)) else f64_round (s \<noteq> t) (x / y))"
| "f64_div (Infinite s) (Finite t y) = Infinite (s \<noteq> t)"
| "f64_div (Finite s x) (Infinite t) = Finite (s \<noteq> t) 0"
| "f64_div _ _ = NaN"

fun f64_lt :: "f64 \<Rightarrow> f64 \<Rightarrow> bool" where
  "f64_lt (Finite s x) (Finite t y) \<longleftrightarrow> signed s x < signed t y"
| "f64_lt (Infinite s) (Infinite t) \<longleftrightarrow> s \<and> \<not> t"
| "f64_lt (Infinite s) (Finite t y) \<longleftrightarrow> s"
| "f64_lt (Finite s x) (Infinite t) \<longleftrightarrow> \<not> t"
| "f64_lt _ _ \<longleftrightarrow> False"

fun f64_eq :: "f64 \<Rightarrow> f64 \<Rightarrow> bool" where
  "f64_eq (Finite s x) (Finite t y) \<longleftrightarrow> signed s x = signed t y"
| "f64_eq (Infinite s) (Infinite t) \<longleftrightarrow> s = t"
| "f64_eq _ _ \<longleftrightarrow> False"

definition f64_of_nat :: "nat \<Rightarrow> f64" where
  "f64_of_nat n = f64_round False (of_nat n)"

abbreviation f64_zero :: f64 where "f64_zero \<equiv> Finite False 0"

section \<open>Rounding yields binary64 values\<close>

text \<open>A finite binary64 value is an integer below \<open>2 ^ 53\<close> times a power of two, in range.\<close>

definition f64_valid :: "f64 \<Rightarrow> bool" where
  "f64_valid v = (case v of NaN \<Rightarrow> True | Infinite s \<Rightarrow> True
     | Finite s x \<Rightarrow>
         x < 2 ^ 1024 \<and> (\<exists>m k. 0 \<le> m \<and> m < 2 ^ 53 \<and> - 1074 \<le> k \<and> x = of_int m * pow2 k))"

lemma pow2_pos [simp]: "0 < pow2 k"
  by (simp add: pow2_def)

lemma pow2_nonzero [simp]: "pow2 k \<noteq> 0"
  using pow2_pos [of k] by (rule less_imp_neq [THEN not_sym])

lemma pow2_nonneg [simp]: "0 \<le> pow2 k"
  by (rule less_imp_le [OF pow2_pos])

lemma pow2_powi: "pow2 k = 2 powi k"
  by (simp add: pow2_def power_int_def field_simps power_inverse [symmetric] inverse_eq_divide)

lemma pow2_add: "pow2 (a + b) = pow2 a * pow2 b"
  by (simp add: pow2_powi power_int_add)

lemma pow2_diff: "pow2 (a - b) = pow2 a / pow2 b"
  by (simp add: pow2_powi power_int_diff)

lemma pow2_simps [simp]: "pow2 0 = 1" "pow2 1 = 2" "pow2 (int n) = 2 ^ n"
  by (simp_all add: pow2_def)

lemma pow2_mono: "a \<le> b \<Longrightarrow> pow2 a \<le> pow2 b"
  by (simp add: pow2_powi power_int_increasing)

lemma round_half_even_bounds:
  "0 \<le> q \<Longrightarrow> 0 \<le> round_half_even q" "q < of_int m \<Longrightarrow> round_half_even q \<le> m"
  by (simp_all add: round_half_even_def Let_def) linarith+

lemma round_half_even_int [simp]: "round_half_even (of_int m) = m"
  by (simp add: round_half_even_def)

lemma floorlog_2_bounds:
  assumes "0 < n"
  shows "(of_nat n :: rat) < pow2 (int (floorlog 2 n))"
    and "pow2 (int (floorlog 2 n) - 1) \<le> (of_nat n :: rat)"
proof -
  have "n < 2 ^ floorlog 2 n" and "2 ^ (floorlog 2 n - 1) \<le> n"
    using floorlog_bounds [of n 2] assms by simp_all
  then have "(of_nat n :: rat) < of_nat (2 ^ floorlog 2 n)"
    and "(of_nat (2 ^ (floorlog 2 n - 1)) :: rat) \<le> of_nat n"
    by (simp_all only: of_nat_less_iff of_nat_le_iff)
  moreover have "int (floorlog 2 n) - 1 = int (floorlog 2 n - 1)"
    using assms by (cases "floorlog 2 n") (simp_all add: floorlog_eq_zero_iff)
  ultimately show "(of_nat n :: rat) < pow2 (int (floorlog 2 n))"
    and "pow2 (int (floorlog 2 n) - 1) \<le> (of_nat n :: rat)"
    by (simp_all only: pow2_simps of_nat_power of_nat_numeral)
qed

lemma exponent_bounds:
  assumes "0 < q"
  shows "pow2 (exponent q) \<le> q" and "q < pow2 (exponent q + 1)"
proof -
  obtain n d where nd: "quotient_of q = (n, d)" by (cases "quotient_of q")
  then have q: "q = of_int n / of_int d" and "0 < d"
    using quotient_of_div quotient_of_denom_pos by blast+
  with assms have "0 < n" by (simp add: zero_less_divide_iff)
  define a b where "a = int (floorlog 2 (nat n))" and "b = int (floorlog 2 (nat d))"
  have n: "(of_int n :: rat) < pow2 a" "pow2 (a - 1) \<le> (of_int n :: rat)"
    using floorlog_2_bounds [of "nat n"] \<open>0 < n\<close> by (simp_all add: a_def of_nat_nat)
  have d: "(of_int d :: rat) < pow2 b" "pow2 (b - 1) \<le> (of_int d :: rat)"
    using floorlog_2_bounds [of "nat d"] \<open>0 < d\<close> by (simp_all add: b_def of_nat_nat)
  have "q < pow2 a / pow2 (b - 1)"
    unfolding q using n d \<open>0 < d\<close> \<open>0 < n\<close> by (intro frac_less) simp_all
  then have hi: "q < pow2 (a - b + 1)" by (simp flip: pow2_diff) (simp add: algebra_simps)
  have "pow2 (a - 1) / pow2 b \<le> q"
    unfolding q using n d \<open>0 < d\<close> \<open>0 < n\<close> by (intro frac_le) simp_all
  then have lo: "pow2 (a - b - 1) \<le> q" by (simp flip: pow2_diff) (simp add: algebra_simps)
  have e: "exponent q = (if pow2 (a - b) \<le> q then a - b else a - b - 1)"
    by (simp add: exponent_def nd a_def b_def Let_def)
  show "pow2 (exponent q) \<le> q" and "q < pow2 (exponent q + 1)"
    using lo hi by (simp_all add: e)
qed

lemma scaled_below_2p53:
  assumes "0 \<le> q"
  shows "q / pow2 (ulp_exponent q) < 2 ^ 53"
proof (cases "q = 0")
  case False
  then have "q < pow2 (exponent q + 1)" using assms exponent_bounds by simp
  also have "\<dots> \<le> pow2 (ulp_exponent q + 53)"
    using False by (intro pow2_mono) (simp add: ulp_exponent_def)
  finally have "q < pow2 53 * pow2 (ulp_exponent q)" by (simp add: pow2_add mult.commute)
  moreover have "pow2 53 = 2 ^ 53" by (simp add: pow2_def)
  ultimately show ?thesis by (simp only: pos_divide_less_eq [OF pow2_pos])
qed simp

lemma f64_round_valid [simp]:
  assumes "0 \<le> q"
  shows "f64_valid (f64_round neg q)"
proof -
  let ?k = "ulp_exponent q" and ?m = "round_half_even (q / pow2 (ulp_exponent q))"
  have k: "- 1074 \<le> ?k" by (simp add: ulp_exponent_def)
  have "0 \<le> ?m" using assms by (intro round_half_even_bounds) simp
  moreover have "?m \<le> 2 ^ 53"
    using scaled_below_2p53 [OF assms] by (intro round_half_even_bounds) simp
  ultimately consider "0 \<le> ?m \<and> ?m < 2 ^ 53" | "?m = 2 ^ 53" by linarith
  then have "\<exists>m k. 0 \<le> m \<and> m < 2 ^ 53 \<and> - 1074 \<le> k \<and> of_int ?m * pow2 ?k = of_int m * pow2 k"
  proof cases
    case 1
    with k show ?thesis by blast
  next
    case 2
    have "(2 :: rat) ^ 53 * pow2 ?k = 2 ^ 52 * pow2 (?k + 1)" by (simp add: pow2_add)
    with 2 k show ?thesis
      by (intro exI [of _ "2 ^ 52"] exI [of _ "?k + 1"]) simp
  qed
  then show ?thesis by (simp add: f64_round_def f64_valid_def Let_def not_le)
qed

lemma f64_valid_simps [simp]:
  "f64_valid NaN" "f64_valid (Infinite s)" "f64_valid (Finite s 0)"
  by (auto simp: f64_valid_def intro!: exI [of _ 0])

lemma f64_valid_nonneg: "f64_valid (Finite s x) \<Longrightarrow> 0 \<le> x"
  by (auto simp: f64_valid_def intro!: mult_nonneg_nonneg)

lemma f64_add_valid [simp]: "f64_valid a \<Longrightarrow> f64_valid b \<Longrightarrow> f64_valid (f64_add a b)"
  by (cases "(a, b)" rule: f64_add.cases) (auto simp: Let_def dest!: f64_valid_nonneg)

lemma f64_neg_valid [simp]: "f64_valid a \<Longrightarrow> f64_valid (f64_neg a)"
  by (cases a) (auto simp: f64_valid_def)

lemma f64_sub_valid [simp]: "f64_valid a \<Longrightarrow> f64_valid b \<Longrightarrow> f64_valid (f64_sub a b)"
  by (simp add: f64_sub_def)

lemma f64_mul_valid [simp]: "f64_valid a \<Longrightarrow> f64_valid b \<Longrightarrow> f64_valid (f64_mul a b)"
  by (cases "(a, b)" rule: f64_mul.cases) (auto dest!: f64_valid_nonneg)

lemma f64_div_valid [simp]: "f64_valid a \<Longrightarrow> f64_valid b \<Longrightarrow> f64_valid (f64_div a b)"
  by (cases "(a, b)" rule: f64_div.cases) (auto dest!: f64_valid_nonneg)

lemma f64_of_nat_valid [simp]: "f64_valid (f64_of_nat n)"
  by (simp add: f64_of_nat_def)

lemma f64_of_nat_exact:
  assumes "n < 2 ^ 53"
  shows "f64_of_nat n = Finite False (of_nat n)"
proof -
  let ?q = "of_nat n :: rat"
  have "?q < of_nat (2 ^ 53)" using assms by (simp only: of_nat_less_iff)
  then have q: "?q < 2 ^ 53" by simp
  have "pow2 53 = 2 ^ 53" by (simp add: pow2_def)
  with q have "pow2 (exponent ?q) < pow2 53" if "0 < n"
    using exponent_bounds(1) [of ?q] that by (metis le_less_trans of_nat_0_less_iff)
  then have "exponent ?q < 53" if "0 < n"
    using that pow2_mono [of 53 "exponent ?q"] by (meson leD not_less)
  then have k: "ulp_exponent ?q \<le> 0" by (cases "n = 0") (auto simp: ulp_exponent_def)
  then have "?q / pow2 (ulp_exponent ?q) = of_int (int n * 2 ^ nat (- ulp_exponent ?q))"
    by (cases "ulp_exponent ?q = 0") (simp_all add: pow2_def)
  then have r: "of_int (round_half_even (?q / pow2 (ulp_exponent ?q))) = ?q / pow2 (ulp_exponent ?q)"
    by (metis round_half_even_int)
  have "?q < 2 ^ 1024"
    using q power_increasing [of 53 1024 "2 :: rat"] by linarith
  with r show ?thesis by (simp add: f64_of_nat_def f64_round_def Let_def)
qed

end
