(* ===== verification/Ping.thy ===== *)
theory Ping
  imports F64 Errors
begin

text \<open>
  \<open>proto/http2/ping.rs\<close> and the \<open>Time\<close> wrapper of \<open>rt/timer.rs\<close>: the bandwidth estimate that
  sizes the HTTP/2 windows and the keep-alive state machine, which share one PING at a time.

  An \<open>Instant\<close> and a \<open>Duration\<close> are numbers of nanoseconds. Adding a duration to an instant panics
  when the platform cannot represent the sum (\<open>instant_max\<close>); a difference of instants saturates
  at zero. The user's timer, the sleeps it returns, the system clock, the waker and the
  \<open>PingPong\<close> handle of the crate \<open>http2\<close> are the fields of \<open>ping_env\<close>; all of them act on a
  world \<open>'w\<close>, so that the clock may advance between any two calls. The mutex around \<open>Shared\<close>
  makes each operation below atomic. A poisoned lock presupposes a panic inside one of them.
\<close>

type_synonym u32 = "32 word"
type_synonym instant = nat
type_synonym duration = nat

definition from_millis :: "nat \<Rightarrow> duration" where
  "from_millis n = n * 1000000"

definition from_secs :: "nat \<Rightarrow> duration" where
  "from_secs n = n * 1000000000"

definition as_secs :: "duration \<Rightarrow> nat" where
  "as_secs d = d div 1000000000"

definition subsec_nanos :: "duration \<Rightarrow> nat" where
  "subsec_nanos d = d mod 1000000000"

text \<open>\<open>Duration * u32\<close> panics when the seconds exceed a \<open>u64\<close>.\<close>

definition duration_mul :: "duration \<Rightarrow> nat \<Rightarrow> duration rust" where
  "duration_mul d k =
     (if as_secs (d * k) < 2 ^ 64 then Return (d * k)
      else Panic ''overflow when multiplying duration by scalar'')"

record ('w, 't, 'sl, 'pp) ping_env =
  instant_max :: nat
  system_now :: "'w \<Rightarrow> instant \<times> 'w"
  timer_now :: "'t \<Rightarrow> 'w \<Rightarrow> instant \<times> 'w"
  timer_sleep :: "'t \<Rightarrow> duration \<Rightarrow> 'w \<Rightarrow> 'sl \<times> 'w"
  timer_sleep_until :: "'t \<Rightarrow> instant \<Rightarrow> 'w \<Rightarrow> 'sl \<times> 'w"
  timer_reset :: "'t \<Rightarrow> 'sl \<Rightarrow> instant \<Rightarrow> 'w \<Rightarrow> 'sl \<times> 'w"
  sleep_poll :: "'sl \<Rightarrow> 'w \<Rightarrow> bool \<times> 'sl \<times> 'w"
  pp_send_ping :: "'pp \<Rightarrow> 'w \<Rightarrow> bool \<times> 'pp \<times> 'w"
  pp_poll_pong :: "'pp \<Rightarrow> 'w \<Rightarrow> bool poll \<times> 'pp \<times> 'w"
  wake_by_ref :: "'w \<Rightarrow> 'w"

definition instant_add :: "('w, 't, 'sl, 'pp) ping_env \<Rightarrow> instant \<Rightarrow> duration \<Rightarrow> instant rust" where
  "instant_add E i d =
     (if i + d \<le> instant_max E then Return (i + d)
      else Panic ''overflow when adding duration to instant'')"

section \<open>Time\<close>

datatype 't time = Timer 't | Empty

fun time_sleep :: "('w, 't, 'sl, 'pp) ping_env \<Rightarrow> 't time \<Rightarrow> duration \<Rightarrow> 'w \<Rightarrow> ('sl \<times> 'w) rust" where
  "time_sleep E Empty d w = Panic ''You must supply a timer.''"
| "time_sleep E (Timer t) d w = Return (timer_sleep E t d w)"

fun time_now :: "('w, 't, 'sl, 'pp) ping_env \<Rightarrow> 't time \<Rightarrow> 'w \<Rightarrow> instant \<times> 'w" where
  "time_now E Empty w = system_now E w"
| "time_now E (Timer t) w = timer_now E t w"

fun time_sleep_until :: "('w, 't, 'sl, 'pp) ping_env \<Rightarrow> 't time \<Rightarrow> instant \<Rightarrow> 'w \<Rightarrow> ('sl \<times> 'w) rust" where
  "time_sleep_until E Empty i w = Panic ''You must supply a timer.''"
| "time_sleep_until E (Timer t) i w = Return (timer_sleep_until E t i w)"

fun time_reset :: "('w, 't, 'sl, 'pp) ping_env \<Rightarrow> 't time \<Rightarrow> 'sl \<Rightarrow> instant \<Rightarrow> 'w \<Rightarrow> ('sl \<times> 'w) rust" where
  "time_reset E Empty sl i w = Panic ''You must supply a timer.''"
| "time_reset E (Timer t) sl i w = Return (timer_reset E t sl i w)"

section \<open>Data\<close>

record config =
  bdp_initial_window :: "u32 option"
  keep_alive_interval :: "duration option"
  keep_alive_timeout :: duration
  keep_alive_while_idle :: bool

record ('t, 'pp) shared =
  ping_pong :: 'pp
  ping_sent_at :: "instant option"
  sh_bytes :: "usize option"
  next_bdp_at :: "instant option"
  last_read_at :: "instant option"
  is_keep_alive_timed_out :: bool
  sh_timer :: "'t time"

record Bdp =
  bdp :: u32
  max_bandwidth :: f64
  rtt :: f64
  ping_delay :: duration
  stable_count :: u32

datatype keep_alive_state = KaInit | Scheduled instant | PingSent

record ('t, 'sl) keep_alive =
  interval :: duration
  timeout :: duration
  while_idle :: bool
  ka_state :: keep_alive_state
  sleep :: 'sl
  ka_timer :: "'t time"

datatype ponged = SizeUpdate u32 | KeepAliveTimedOut

text \<open>
  A \<open>Recorder\<close> and the \<open>Ponger\<close> point to the same \<open>Shared\<close>, which is passed beside them; a
  recorder only says whether it has the pointer.
\<close>

datatype recorder = Recorder (enabled: bool)

record ('t, 'sl) ponger =
  pg_bdp :: "Bdp option"
  pg_keep_alive :: "('t, 'sl) keep_alive option"

section \<open>Config and the channel\<close>

definition config_new :: "bool \<Rightarrow> u32 \<Rightarrow> duration option \<Rightarrow> duration \<Rightarrow> bool \<Rightarrow> config" where
  "config_new adaptive_window initial_window_size ka_interval ka_timeout ka_while_idle =
     \<lparr>bdp_initial_window = (if adaptive_window then Some initial_window_size else None),
      keep_alive_interval = ka_interval, keep_alive_timeout = ka_timeout,
      keep_alive_while_idle = ka_while_idle\<rparr>"

definition is_enabled :: "config \<Rightarrow> bool" where
  "is_enabled c \<longleftrightarrow> bdp_initial_window c \<noteq> None \<or> keep_alive_interval c \<noteq> None"

definition new_bdp :: "u32 \<Rightarrow> Bdp" where
  "new_bdp wnd = \<lparr>bdp = wnd, max_bandwidth = f64_zero, rtt = f64_zero,
     ping_delay = from_millis 100, stable_count = 0\<rparr>"

definition new_shared :: "'pp \<Rightarrow> bool \<Rightarrow> bool \<Rightarrow> instant \<Rightarrow> 't time \<Rightarrow> ('t, 'pp) shared" where
  "new_shared pp has_bdp has_ka now timer =
     \<lparr>ping_pong = pp, ping_sent_at = None,
      sh_bytes = (if has_bdp then Some 0 else None),
      next_bdp_at = (if has_bdp then Some now else None),
      last_read_at = (if has_ka then Some now else None),
      is_keep_alive_timed_out = False, sh_timer = timer\<rparr>"

definition ping_channel ::
  "('w, 't, 'sl, 'pp) ping_env \<Rightarrow> 'pp \<Rightarrow> config \<Rightarrow> 't time \<Rightarrow> 'w \<Rightarrow>
   (recorder \<times> ('t, 'sl) ponger \<times> ('t, 'pp) shared \<times> 'w) rust" where
  "ping_channel E pp c timer w =
     (let b = map_option new_bdp (bdp_initial_window c);
          (now, w) = time_now E timer w in
      rust_bind
        (case keep_alive_interval c of
           None \<Rightarrow> Return (None, w)
         | Some i \<Rightarrow> rust_bind (time_sleep E timer i w) (\<lambda>(sl, w).
             Return (Some \<lparr>interval = i, timeout = keep_alive_timeout c,
                           while_idle = keep_alive_while_idle c, ka_state = KaInit,
                           sleep = sl, ka_timer = timer\<rparr>, w)))
        (\<lambda>(ka, w).
           Return (Recorder True, \<lparr>pg_bdp = b, pg_keep_alive = ka\<rparr>,
                   new_shared pp (b \<noteq> None) (ka \<noteq> None) now timer, w)))"

section \<open>Shared\<close>

definition shared_send_ping ::
  "('w, 't, 'sl, 'pp) ping_env \<Rightarrow> ('t, 'pp) shared \<Rightarrow> 'w \<Rightarrow> ('t, 'pp) shared \<times> 'w" where
  "shared_send_ping E sh w =
     (case pp_send_ping E (ping_pong sh) w of
        (True, pp, w) \<Rightarrow>
          (case time_now E (sh_timer sh) w of
             (now, w) \<Rightarrow> (sh\<lparr>ping_pong := pp, ping_sent_at := Some now\<rparr>, w))
      | (False, pp, w) \<Rightarrow> (sh\<lparr>ping_pong := pp\<rparr>, w))"

definition is_ping_sent :: "('t, 'pp) shared \<Rightarrow> bool" where
  "is_ping_sent sh \<longleftrightarrow> ping_sent_at sh \<noteq> None"

definition update_last_read_at ::
  "('w, 't, 'sl, 'pp) ping_env \<Rightarrow> ('t, 'pp) shared \<Rightarrow> 'w \<Rightarrow> ('t, 'pp) shared \<times> 'w" where
  "update_last_read_at E sh w =
     (if last_read_at sh \<noteq> None
      then (case time_now E (sh_timer sh) w of (now, w) \<Rightarrow> (sh\<lparr>last_read_at := Some now\<rparr>, w))
      else (sh, w))"

definition shared_last_read_at :: "('t, 'pp) shared \<Rightarrow> instant rust" where
  "shared_last_read_at sh = (case last_read_at sh of
     Some t \<Rightarrow> Return t | None \<Rightarrow> Panic ''keep_alive expects last_read_at'')"

section \<open>Recorder\<close>

definition disabled :: recorder where
  "disabled = Recorder False"

definition record_data ::
  "('w, 't, 'sl, 'pp) ping_env \<Rightarrow> recorder \<Rightarrow> ('t, 'pp) shared \<Rightarrow> usize \<Rightarrow> 'w \<Rightarrow> ('t, 'pp) shared \<times> 'w" where
  "record_data E r sh len w =
     (if \<not> enabled r then (sh, w)
      else case update_last_read_at E sh w of (sh, w) \<Rightarrow>
        let (wait, sh, w) =
              (case next_bdp_at sh of
                 None \<Rightarrow> (False, sh, w)
               | Some due \<Rightarrow> (case system_now E w of (now, w) \<Rightarrow>
                   if now < due then (True, sh, w) else (False, sh\<lparr>next_bdp_at := None\<rparr>, w))) in
        if wait then (sh, w)
        else case sh_bytes sh of
               None \<Rightarrow> (sh, w)
             | Some n \<Rightarrow>
                 let sh = sh\<lparr>sh_bytes := Some (n + len)\<rparr> in
                 if is_ping_sent sh then (sh, w) else shared_send_ping E sh w)"

definition record_non_data ::
  "('w, 't, 'sl, 'pp) ping_env \<Rightarrow> recorder \<Rightarrow> ('t, 'pp) shared \<Rightarrow> 'w \<Rightarrow> ('t, 'pp) shared \<times> 'w" where
  "record_non_data E r sh w = (if enabled r then update_last_read_at E sh w else (sh, w))"

definition for_stream :: "recorder \<Rightarrow> bool \<Rightarrow> recorder" where
  "for_stream r is_end_stream = (if is_end_stream then disabled else r)"

definition keep_alive_error :: error where
  "keep_alive_error = error_with (error_new KindHttp2) CauseKeepAliveTimedOut"

definition ensure_not_timed_out :: "recorder \<Rightarrow> ('t, 'pp) shared \<Rightarrow> error + unit" where
  "ensure_not_timed_out r sh =
     (if enabled r \<and> is_keep_alive_timed_out sh then Inl keep_alive_error else Inr ())"

section \<open>Bdp\<close>

definition BDP_LIMIT :: nat where
  "BDP_LIMIT = 1024 * 1024 * 16"

definition seconds :: "duration \<Rightarrow> f64" where
  "seconds dur =
     f64_add (f64_of_nat (as_secs dur))
       (f64_div (f64_of_nat (subsec_nanos dur)) (f64_of_nat 1000000000))"

definition stabilize_delay :: "Bdp \<Rightarrow> Bdp rust" where
  "stabilize_delay b =
     (if ping_delay b < from_secs 10 then
        let b = b\<lparr>stable_count := stable_count b + 1\<rparr> in
        if 2 \<le> stable_count b
        then rust_bind (duration_mul (ping_delay b) 4)
               (\<lambda>d. Return (b\<lparr>ping_delay := d, stable_count := 0\<rparr>))
        else Return b
      else Return b)"

definition average_rtt :: "Bdp \<Rightarrow> f64 \<Rightarrow> f64" where
  "average_rtt b s =
     (if f64_eq (rtt b) f64_zero then s
      else f64_add (rtt b) (f64_mul (f64_sub s (rtt b)) (Finite False (1 / 8))))"

definition bandwidth :: "usize \<Rightarrow> f64 \<Rightarrow> f64" where
  "bandwidth n t = f64_div (f64_of_nat (unat n)) (f64_mul t (Finite False (3 / 2)))"

definition bdp_calculate :: "Bdp \<Rightarrow> usize \<Rightarrow> duration \<Rightarrow> (Bdp \<times> u32 option) rust" where
  "bdp_calculate b n dur =
     (if ucast (bdp b) = (of_nat BDP_LIMIT :: usize)
      then rust_bind (stabilize_delay b) (\<lambda>b. Return (b, None))
      else
        let b = b\<lparr>rtt := average_rtt b (seconds dur)\<rparr>;
            bw = bandwidth n (rtt b) in
        if f64_lt bw (max_bandwidth b)
        then rust_bind (stabilize_delay b) (\<lambda>b. Return (b, None))
        else
          let b = b\<lparr>max_bandwidth := bw\<rparr> in
          if ucast (bdp b) * 2 div 3 \<le> n
          then let wnd = ucast (min (n * 2) (of_nat BDP_LIMIT)) in
               Return (b\<lparr>bdp := wnd, stable_count := 0, ping_delay := ping_delay b div 2\<rparr>, Some wnd)
          else rust_bind (stabilize_delay b) (\<lambda>b. Return (b, None)))"

section \<open>KeepAlive\<close>

definition schedule ::
  "('w, 't, 'sl, 'pp) ping_env \<Rightarrow> ('t, 'sl) keep_alive \<Rightarrow> ('t, 'pp) shared \<Rightarrow> 'w \<Rightarrow>
   (('t, 'sl) keep_alive \<times> 'w) rust" where
  "schedule E ka sh w =
     rust_bind (shared_last_read_at sh) (\<lambda>t.
     rust_bind (instant_add E t (interval ka)) (\<lambda>due.
     rust_bind (time_reset E (ka_timer ka) (sleep ka) due w) (\<lambda>(sl, w).
       Return (ka\<lparr>ka_state := Scheduled due, sleep := sl\<rparr>, w))))"

definition maybe_schedule ::
  "('w, 't, 'sl, 'pp) ping_env \<Rightarrow> ('t, 'sl) keep_alive \<Rightarrow> bool \<Rightarrow> ('t, 'pp) shared \<Rightarrow> 'w \<Rightarrow>
   (('t, 'sl) keep_alive \<times> 'w) rust" where
  "maybe_schedule E ka is_idle sh w =
     (case ka_state ka of
        KaInit \<Rightarrow> if \<not> while_idle ka \<and> is_idle then Return (ka, w) else schedule E ka sh w
      | PingSent \<Rightarrow> if is_ping_sent sh then Return (ka, w) else schedule E ka sh w
      | Scheduled due \<Rightarrow> Return (ka, w))"

definition maybe_ping ::
  "('w, 't, 'sl, 'pp) ping_env \<Rightarrow> ('t, 'sl) keep_alive \<Rightarrow> bool \<Rightarrow> ('t, 'pp) shared \<Rightarrow> 'w \<Rightarrow>
   (('t, 'sl) keep_alive \<times> ('t, 'pp) shared \<times> 'w) rust" where
  "maybe_ping E ka is_idle sh w =
     (case ka_state ka of
        Scheduled due \<Rightarrow>
          (case sleep_poll E (sleep ka) w of (done, sl, w) \<Rightarrow>
             let ka = ka\<lparr>sleep := sl\<rparr> in
             if \<not> done then Return (ka, sh, w)
             else
               rust_bind (shared_last_read_at sh) (\<lambda>t.
               rust_bind (instant_add E t (interval ka)) (\<lambda>next_at.
               if due < next_at then Return (ka\<lparr>ka_state := KaInit\<rparr>, sh, wake_by_ref E w)
               else if \<not> while_idle ka \<and> is_idle then Return (ka, sh, w)
               else
                 case shared_send_ping E sh w of (sh, w) \<Rightarrow>
                 case time_now E (ka_timer ka) w of (now, w) \<Rightarrow>
                 rust_bind (instant_add E now (timeout ka)) (\<lambda>deadline.
                 rust_bind (time_reset E (ka_timer ka) (sleep ka) deadline w) (\<lambda>(sl, w).
                   Return (ka\<lparr>ka_state := PingSent, sleep := sl\<rparr>, sh, w))))))
      | _ \<Rightarrow> Return (ka, sh, w))"

text \<open>The result \<open>True\<close> is \<open>Err(KeepAliveTimedOut)\<close>.\<close>

definition maybe_timeout ::
  "('w, 't, 'sl, 'pp) ping_env \<Rightarrow> ('t, 'sl) keep_alive \<Rightarrow> 'w \<Rightarrow> bool \<times> ('t, 'sl) keep_alive \<times> 'w" where
  "maybe_timeout E ka w =
     (case ka_state ka of
        PingSent \<Rightarrow> (case sleep_poll E (sleep ka) w of (done, sl, w) \<Rightarrow> (done, ka\<lparr>sleep := sl\<rparr>, w))
      | _ \<Rightarrow> (False, ka, w))"

section \<open>Ponger\<close>

text \<open>\<open>Arc::strong_count\<close> is the argument: the ponger and the connection task hold one each.\<close>

definition ponger_is_idle :: "nat \<Rightarrow> bool" where
  "ponger_is_idle strong_count \<longleftrightarrow> strong_count \<le> 2"

text \<open>The two calls that \<open>Ponger::poll\<close> makes on the keep-alive, if there is one.\<close>

definition run_keep_alive ::
  "('w, 't, 'sl, 'pp) ping_env \<Rightarrow> ('t, 'sl) ponger \<Rightarrow> bool \<Rightarrow> ('t, 'pp) shared \<Rightarrow> 'w \<Rightarrow>
   (('t, 'sl) ponger \<times> ('t, 'pp) shared \<times> 'w) rust" where
  "run_keep_alive E p is_idle sh w =
     (case pg_keep_alive p of
        None \<Rightarrow> Return (p, sh, w)
      | Some ka \<Rightarrow>
          rust_bind (maybe_schedule E ka is_idle sh w) (\<lambda>(ka, w).
          rust_bind (maybe_ping E ka is_idle sh w) (\<lambda>(ka, sh, w).
            Return (p\<lparr>pg_keep_alive := Some ka\<rparr>, sh, w))))"

definition ponger_bdp_ack ::
  "('w, 't, 'sl, 'pp) ping_env \<Rightarrow> instant \<Rightarrow> duration \<Rightarrow> ('t, 'sl) ponger \<Rightarrow> ('t, 'pp) shared \<Rightarrow>
   (ponged poll \<times> ('t, 'sl) ponger \<times> ('t, 'pp) shared) rust" where
  "ponger_bdp_ack E now dur p sh =
     (case pg_bdp p of
        None \<Rightarrow> Return (Pending, p, sh)
      | Some b \<Rightarrow>
          (case sh_bytes sh of
             None \<Rightarrow> Panic ''bdp enabled implies bytes''
           | Some n \<Rightarrow>
               let sh = sh\<lparr>sh_bytes := Some 0\<rparr> in
               rust_bind (bdp_calculate b n dur) (\<lambda>(b, update).
               rust_bind (instant_add E now (ping_delay b)) (\<lambda>due.
                 Return (case update of Some wnd \<Rightarrow> Ready (SizeUpdate wnd) | None \<Rightarrow> Pending,
                         p\<lparr>pg_bdp := Some b\<rparr>, sh\<lparr>next_bdp_at := Some due\<rparr>)))))"

definition ponger_pong ::
  "('w, 't, 'sl, 'pp) ping_env \<Rightarrow> instant \<Rightarrow> bool \<Rightarrow> ('t, 'sl) ponger \<Rightarrow> ('t, 'pp) shared \<Rightarrow> 'w \<Rightarrow>
   (ponged poll \<times> ('t, 'sl) ponger \<times> ('t, 'pp) shared \<times> 'w) rust" where
  "ponger_pong E now is_idle p sh w =
     (case ping_sent_at sh of
        None \<Rightarrow> Panic ''pong received implies ping_sent_at''
      | Some start \<Rightarrow>
          let sh = sh\<lparr>ping_sent_at := None\<rparr>;
              (sh, w) = (if pg_keep_alive p \<noteq> None then update_last_read_at E sh w else (sh, w)) in
          rust_bind (run_keep_alive E p is_idle sh w) (\<lambda>(p, sh, w).
          rust_bind (ponger_bdp_ack E now (now - start) p sh) (\<lambda>(r, p, sh).
            Return (r, p, sh, w))))"

definition ponger_no_pong ::
  "('w, 't, 'sl, 'pp) ping_env \<Rightarrow> ('t, 'sl) ponger \<Rightarrow> ('t, 'pp) shared \<Rightarrow> 'w \<Rightarrow>
   ponged poll \<times> ('t, 'sl) ponger \<times> ('t, 'pp) shared \<times> 'w" where
  "ponger_no_pong E p sh w =
     (case pg_keep_alive p of
        None \<Rightarrow> (Pending, p, sh, w)
      | Some ka \<Rightarrow>
          (case maybe_timeout E ka w of (timed_out, ka, w) \<Rightarrow>
             if timed_out
             then (Ready KeepAliveTimedOut, p\<lparr>pg_keep_alive := None\<rparr>,
                   sh\<lparr>is_keep_alive_timed_out := True\<rparr>, w)
             else (Pending, p\<lparr>pg_keep_alive := Some ka\<rparr>, sh, w)))"

definition ponger_poll ::
  "('w, 't, 'sl, 'pp) ping_env \<Rightarrow> nat \<Rightarrow> ('t, 'sl) ponger \<Rightarrow> ('t, 'pp) shared \<Rightarrow> 'w \<Rightarrow>
   (ponged poll \<times> ('t, 'sl) ponger \<times> ('t, 'pp) shared \<times> 'w) rust" where
  "ponger_poll E strong_count p sh w =
     (case time_now E (sh_timer sh) w of (now, w) \<Rightarrow>
      let is_idle = ponger_is_idle strong_count in
      rust_bind (run_keep_alive E p is_idle sh w) (\<lambda>(p, sh, w).
        if \<not> is_ping_sent sh then Return (Pending, p, sh, w)
        else
          case pp_poll_pong E (ping_pong sh) w of (polled, pp, w) \<Rightarrow>
          let sh = sh\<lparr>ping_pong := pp\<rparr> in
          case polled of
            Panicked m \<Rightarrow> Panic m
          | Ready ok \<Rightarrow>
              if ok then ponger_pong E now is_idle p sh w else Return (Pending, p, sh, w)
          | Pending \<Rightarrow> Return (ponger_no_pong E p sh w)))"

end
