(* ===== verification/Ping_Props.thy ===== *)
theory Ping_Props
  imports Ping
begin

text \<open>
  What the PING machinery of \<open>proto/http2/ping.rs\<close> guarantees: the bandwidth estimate stays in
  bounds and only grows, no operation of a reachable state panics, a keep-alive ping is sent only
  after a silent interval, and a connection is declared dead only with a ping outstanding for at
  least the configured timeout, for good. The locale \<open>ping_world\<close> states what the timer, the
  clock and the crate \<open>http2\<close> promise.
\<close>

section \<open>The bandwidth estimate\<close>

definition bdp_ok :: "Bdp \<Rightarrow> bool" where
  "bdp_ok b \<longleftrightarrow> ping_delay b < from_secs 40 \<and> stable_count b < 2 \<and>
     f64_valid (rtt b) \<and> f64_valid (max_bandwidth b)"

lemma new_bdp_ok [simp]: "bdp_ok (new_bdp wnd)"
  by (simp add: bdp_ok_def new_bdp_def from_millis_def from_secs_def)

lemma seconds_valid [simp]: "f64_valid (seconds d)"
  by (simp add: seconds_def)

lemma f64_consts_valid [simp]: "f64_valid (Finite False (1 / 8))" "f64_valid (Finite False (3 / 2))"
proof -
  have "f64_valid (Finite False (of_int m * pow2 k))"
    if "0 \<le> m" "m < 2 ^ 53" "- 1074 \<le> k" "of_int m * pow2 k < 2 ^ 1024" for m k
    using that by (auto simp: f64_valid_def)
  from this [of 1 "- 3"] this [of 3 "- 1"]
  show "f64_valid (Finite False (1 / 8))" "f64_valid (Finite False (3 / 2))"
    by (simp_all add: pow2_def)
qed

lemma stabilize_delay_ok:
  assumes "bdp_ok b"
  shows "\<exists>b'. stabilize_delay b = Return b' \<and> bdp_ok b' \<and> bdp b' = bdp b"
proof -
  have "stable_count b + 1 < 2" if "\<not> 2 \<le> stable_count b + 1" using that by simp
  moreover have "as_secs (ping_delay b * 4) < 2 ^ 64" if "ping_delay b < from_secs 10"
    using that by (simp add: as_secs_def from_secs_def)
  ultimately show ?thesis
    using assms by (auto simp: stabilize_delay_def duration_mul_def bdp_ok_def Let_def from_secs_def)
qed

lemma unat_u32 [word_nat]: "unat (ucast (b :: u32) :: usize) = unat b"
  using unat_bound [of b] by (simp add: unsigned_ucast_eq take_bit_nat_eq_self)

lemma min_BDP_LIMIT:
  "unat (ucast (min (n :: usize) (of_nat BDP_LIMIT)) :: u32) = min (unat n) BDP_LIMIT"
proof -
  have "unat (min n (of_nat BDP_LIMIT)) = min (unat n) BDP_LIMIT"
    by (simp add: min_def word_le_nat_alt BDP_LIMIT_def)
  then show ?thesis
    by (simp add: unsigned_ucast_eq take_bit_nat_eq_self min_def BDP_LIMIT_def)
qed

lemma at_limit: "ucast (b :: u32) = (of_nat BDP_LIMIT :: usize) \<longleftrightarrow> unat b = BDP_LIMIT"
  by (simp add: word_unat_eq_iff unat_u32 BDP_LIMIT_def)

lemma two_thirds: "unat (ucast (b :: u32) * 2 div 3 :: usize) = unat b * 2 div 3"
proof -
  have "unat (ucast b * 2 :: usize) = unat b * 2"
    using unat_bound [of b] by (simp add: unat_word_ariths unat_u32)
  then show ?thesis by (simp add: unat_div_distrib)
qed

lemma bdp_calculate_ok:
  assumes "bdp_ok b"
  shows "\<exists>b' u. bdp_calculate b n d = Return (b', u) \<and> bdp_ok b' \<and>
    (case u of None \<Rightarrow> bdp b' = bdp b
     | Some wnd \<Rightarrow> bdp b' = wnd \<and> unat (bdp b) \<noteq> BDP_LIMIT \<and> unat (bdp b) * 2 div 3 \<le> unat n \<and>
         unat wnd = min (unat (n * 2)) BDP_LIMIT)"
proof -
  define b1 where "b1 = b\<lparr>rtt := average_rtt b (seconds d)\<rparr>"
  define b2 where "b2 = b1\<lparr>max_bandwidth := bandwidth n (rtt b1)\<rparr>"
  have ok1: "bdp_ok b1"
    using assms by (simp add: bdp_ok_def b1_def average_rtt_def)
  then have ok2: "bdp_ok b2" by (simp add: bdp_ok_def b2_def bandwidth_def)
  have stay: "\<exists>b' u. rust_bind (stabilize_delay c) (\<lambda>c. Return (c, None)) = Return (b', u) \<and>
      bdp_ok b' \<and> u = None \<and> bdp b' = bdp b" if "bdp_ok c" "bdp c = bdp b" for c
    using stabilize_delay_ok [OF that(1)] that(2) by force
  have eqs: "bdp b1 = bdp b" "bdp b2 = bdp b" by (simp_all add: b1_def b2_def)
  have grow: "bdp_ok (b2\<lparr>bdp := wnd, stable_count := 0, ping_delay := ping_delay b2 div 2\<rparr>)" for wnd
    using ok2 by (auto simp: bdp_ok_def)
  have le: "(ucast (bdp b) * 2 div 3 \<le> n) = (unat (bdp b) * 2 div 3 \<le> unat n)"
    by (simp only: word_le_nat_alt two_thirds)
  consider "unat (bdp b) = BDP_LIMIT"
    | "unat (bdp b) \<noteq> BDP_LIMIT" "f64_lt (bandwidth n (rtt b1)) (max_bandwidth b1)"
    | "unat (bdp b) \<noteq> BDP_LIMIT" "\<not> f64_lt (bandwidth n (rtt b1)) (max_bandwidth b1)"
        "\<not> unat (bdp b) * 2 div 3 \<le> unat n"
    | "unat (bdp b) \<noteq> BDP_LIMIT" "\<not> f64_lt (bandwidth n (rtt b1)) (max_bandwidth b1)"
        "unat (bdp b) * 2 div 3 \<le> unat n"
    by blast
  then show ?thesis
  proof cases
    case 1
    with stay [OF assms] show ?thesis by (fastforce simp: bdp_calculate_def at_limit)
  next
    case 2
    with stay [OF ok1 eqs(1)] show ?thesis
      by (fastforce simp: bdp_calculate_def at_limit Let_def simp flip: b1_def)
  next
    case 3
    with stay [OF ok2 eqs(2)] show ?thesis
      by (fastforce simp: bdp_calculate_def at_limit Let_def le eqs simp flip: b1_def b2_def)
  next
    case 4
    then have "bdp_calculate b n d =
      Return (b2\<lparr>bdp := ucast (min (n * 2) (of_nat BDP_LIMIT)), stable_count := 0,
                 ping_delay := ping_delay b2 div 2\<rparr>, Some (ucast (min (n * 2) (of_nat BDP_LIMIT))))"
      by (simp add: bdp_calculate_def at_limit Let_def le eqs flip: b1_def b2_def)
    with grow 4 show ?thesis by (simp add: min_BDP_LIMIT)
  qed
qed

text \<open>The updates that a sequence of samples (bytes, round trip time) produces.\<close>

fun bdp_run :: "Bdp \<Rightarrow> (usize \<times> duration) list \<Rightarrow> (Bdp \<times> u32 list) rust" where
  "bdp_run b [] = Return (b, [])"
| "bdp_run b ((n, d) # xs) =
     rust_bind (bdp_calculate b n d) (\<lambda>(b, u).
     rust_bind (bdp_run b xs) (\<lambda>(b, us).
       Return (b, (case u of None \<Rightarrow> us | Some wnd \<Rightarrow> wnd # us))))"

lemma bdp_update_grows:
  assumes "5 \<le> unat b" "unat b \<le> BDP_LIMIT" "unat b \<noteq> BDP_LIMIT"
    "unat b * 2 div 3 \<le> unat n" "unat (n :: usize) < 2 ^ 63"
  shows "unat b < min (unat (n * 2)) BDP_LIMIT"
proof -
  have "unat (n * 2) = unat n * 2" using assms(5) by (simp add: unat_word_ariths)
  moreover have "unat b < unat b * 2 div 3 * 2" using assms(1) by linarith
  ultimately show ?thesis using assms(2-4) by simp
qed

lemma bdp_run_ok:
  assumes "bdp_ok b" "5 \<le> unat (bdp b)" "unat (bdp b) \<le> BDP_LIMIT"
    "\<forall>(n, d) \<in> set xs. unat n < 2 ^ 63"
  shows "\<exists>b' us. bdp_run b xs = Return (b', us) \<and> bdp_ok b' \<and> bdp b' = last (bdp b # us) \<and>
    sorted_wrt (<) (map unat (bdp b # us)) \<and> (\<forall>u \<in> set us. unat u \<le> BDP_LIMIT)"
  using assms
proof (induction xs arbitrary: b)
  case (Cons x xs)
  obtain n d where x: "x = (n, d)" by (cases x)
  obtain b1 u where c: "bdp_calculate b n d = Return (b1, u)" "bdp_ok b1"
    and u: "case u of None \<Rightarrow> bdp b1 = bdp b
     | Some wnd \<Rightarrow> bdp b1 = wnd \<and> unat (bdp b) \<noteq> BDP_LIMIT \<and> unat (bdp b) * 2 div 3 \<le> unat n \<and>
         unat wnd = min (unat (n * 2)) BDP_LIMIT"
    using bdp_calculate_ok [OF Cons.prems(1)] by blast
  have grow: "unat (bdp b) < unat (bdp b1)" "unat (bdp b1) \<le> BDP_LIMIT" if "u = Some w" for w
    using that u bdp_update_grows [of "bdp b" n] Cons.prems by (auto simp: x)
  then have "5 \<le> unat (bdp b1) \<and> unat (bdp b1) \<le> BDP_LIMIT"
    using u Cons.prems by (cases u) fastforce+
  with Cons.IH [OF c(2)] Cons.prems(4) obtain b' us where
    run: "bdp_run b1 xs = Return (b', us)" "bdp_ok b'" "bdp b' = last (bdp b1 # us)"
      "sorted_wrt (<) (map unat (bdp b1 # us))" "\<forall>u \<in> set us. unat u \<le> BDP_LIMIT"
    by auto
  show ?case
  proof (cases u)
    case None
    with u c run show ?thesis by (auto simp: x)
  next
    case (Some w)
    with u have "w = bdp b1" by simp
    with c run grow [OF Some] show ?thesis by (auto simp: x Some)
  qed
qed simp

section \<open>The environment's contract\<close>

text \<open>
  \<open>clock\<close> is the time of the user's timer in a world and \<open>deadline\<close> the instant a sleep waits for.
  Time does not run backwards, a sleep completes only at its deadline, and instants stay \<open>slack\<close>
  away from the end of the platform's range. \<open>adv\<close> is what may happen between two operations.
\<close>

locale ping_world =
  fixes E :: "('w, 't, 'sl, 'pp) ping_env"
    and clock :: "'w \<Rightarrow> instant"
    and deadline :: "'sl \<Rightarrow> instant"
    and slack :: nat
    and adv :: "'w \<Rightarrow> 'w \<Rightarrow> bool"
  assumes timer_clock: "timer_now E t w = (i, w') \<Longrightarrow> i = clock w' \<and> clock w \<le> clock w'"
    and system_clock: "system_now E w = (i, w') \<Longrightarrow> i + slack \<le> instant_max E \<and> clock w \<le> clock w'"
    and sleep_clock: "timer_sleep E t d w = (sl, w') \<Longrightarrow> clock w \<le> clock w'"
    and reset_deadline: "timer_reset E t sl i w = (sl', w') \<Longrightarrow> deadline sl' = i \<and> clock w \<le> clock w'"
    and sleep_completes: "sleep_poll E sl w = (fin, sl', w') \<Longrightarrow>
      clock w \<le> clock w' \<and> deadline sl' = deadline sl \<and> (fin \<longrightarrow> deadline sl \<le> clock w')"
    and send_clock: "pp_send_ping E pp w = (ok, pp', w') \<Longrightarrow> clock w \<le> clock w'"
    and pong_clock: "pp_poll_pong E pp w = (r, pp', w') \<Longrightarrow> clock w \<le> clock w' \<and> \<not> is_panicked r"
    and wake_clock: "clock w \<le> clock (wake_by_ref E w)"
    and adv_clock: "adv w w' \<Longrightarrow> clock w \<le> clock w'"
    and clock_in_range: "clock w + slack \<le> instant_max E"
    and slack_delay: "from_secs 40 \<le> slack"

section \<open>The invariant\<close>

text \<open>
  The keep-alive of a connection opened at \<open>t0\<close>: its timer exists, the last read is recorded, and
  the running sleep ends when the state says.
\<close>

definition ka_ok ::
  "('w \<Rightarrow> instant) \<Rightarrow> ('sl \<Rightarrow> instant) \<Rightarrow> nat \<Rightarrow> instant \<Rightarrow> ('t, 'sl) keep_alive \<Rightarrow> ('t, 'pp) shared \<Rightarrow> 'w \<Rightarrow> bool" where
  "ka_ok clock deadline slack t0 ka sh w \<longleftrightarrow>
     interval ka \<le> slack \<and> timeout ka \<le> slack \<and>
     (\<exists>x. ka_timer ka = Timer x) \<and> (\<exists>x. sh_timer sh = Timer x) \<and>
     (\<exists>t. last_read_at sh = Some t \<and> t0 \<le> t \<and> t \<le> clock w) \<and>
     (case ka_state ka of
        KaInit \<Rightarrow> True
      | Scheduled due \<Rightarrow> deadline (sleep ka) = due \<and> t0 + interval ka \<le> due
      | PingSent \<Rightarrow> t0 + interval ka + timeout ka \<le> deadline (sleep ka))"

definition ping_inv ::
  "('w \<Rightarrow> instant) \<Rightarrow> ('sl \<Rightarrow> instant) \<Rightarrow> nat \<Rightarrow> instant \<Rightarrow> config \<Rightarrow> ('t, 'sl) ponger \<Rightarrow> ('t, 'pp) shared \<Rightarrow> 'w \<Rightarrow> bool" where
  "ping_inv clock deadline slack t0 c p sh w \<longleftrightarrow>
     t0 \<le> clock w \<and>
     (sh_bytes sh \<noteq> None) = (pg_bdp p \<noteq> None) \<and>
     (case pg_bdp p of None \<Rightarrow> True | Some b \<Rightarrow> bdp_ok b) \<and>
     (case pg_keep_alive p of None \<Rightarrow> True
      | Some ka \<Rightarrow> \<not> is_keep_alive_timed_out sh \<and>
          keep_alive_interval c = Some (interval ka) \<and> keep_alive_timeout c = timeout ka \<and>
          keep_alive_while_idle c = while_idle ka \<and> ka_ok clock deadline slack t0 ka sh w)"

text \<open>What the operations of \<open>Shared\<close> leave alone.\<close>

definition same_flags :: "('t, 'pp) shared \<Rightarrow> ('t, 'pp) shared \<Rightarrow> bool" where
  "same_flags sh sh' \<longleftrightarrow>
     (sh_bytes sh' \<noteq> None) = (sh_bytes sh \<noteq> None) \<and> sh_timer sh' = sh_timer sh \<and>
     is_keep_alive_timed_out sh' = is_keep_alive_timed_out sh"

lemma same_flags_refl [simp]: "same_flags sh sh"
  by (simp add: same_flags_def)

lemma same_flags_trans: "same_flags a b \<Longrightarrow> same_flags b c \<Longrightarrow> same_flags a c"
  by (simp add: same_flags_def)

context ping_world
begin

abbreviation kok where "kok \<equiv> ka_ok clock deadline slack"
abbreviation pinv where "pinv \<equiv> ping_inv clock deadline slack"

lemma time_now_clock:
  assumes "time_now E t w = (i, w')"
  shows "clock w \<le> clock w'" "i + slack \<le> instant_max E" "t = Timer x \<Longrightarrow> i = clock w'"
  using assms timer_clock system_clock clock_in_range [of w'] by (cases t; force)+

lemma instant_add_ok: "i \<le> clock w \<Longrightarrow> d \<le> slack \<Longrightarrow> instant_add E i d = Return (i + d)"
  using clock_in_range [of w] by (simp add: instant_add_def)

lemma send_ping_ok:
  assumes "shared_send_ping E sh w = (sh', w')"
  shows "clock w \<le> clock w'" "same_flags sh sh'" "last_read_at sh' = last_read_at sh"
    "sh_bytes sh' = sh_bytes sh" "is_ping_sent sh \<Longrightarrow> is_ping_sent sh'"
  using assms send_clock time_now_clock(1)
  by (auto simp: shared_send_ping_def same_flags_def is_ping_sent_def
      split: prod.splits bool.splits dest!: send_clock time_now_clock(1))

lemma update_last_read_at_ok:
  assumes "update_last_read_at E sh w = (sh', w')"
  shows "clock w \<le> clock w'" "same_flags sh sh'" "sh_bytes sh' = sh_bytes sh"
    "sh_timer sh = Timer x \<Longrightarrow> last_read_at sh = Some t \<Longrightarrow> last_read_at sh' = Some (clock w')"
  using assms by (auto simp: update_last_read_at_def same_flags_def split: if_splits prod.splits
      dest: time_now_clock(1) timer_clock)

lemma ka_ok_mono:
  assumes "kok t0 ka sh w" "clock w \<le> clock w'" "sh_timer sh' = sh_timer sh"
    "last_read_at sh' = last_read_at sh \<or> (\<exists>t. last_read_at sh' = Some t \<and> clock w \<le> t \<and> t \<le> clock w')"
  shows "kok t0 ka sh' w'"
  using assms unfolding ka_ok_def by (elim conjE exE disjE) (auto intro: order_trans)

lemma schedule_ok:
  assumes "kok t0 ka sh w"
  shows "\<exists>ka' w'. schedule E ka sh w = Return (ka', w') \<and> clock w \<le> clock w' \<and>
    ka' = ka\<lparr>ka_state := ka_state ka', sleep := sleep ka'\<rparr> \<and> kok t0 ka' sh w'"
proof -
  obtain t x where t: "last_read_at sh = Some t" "t0 \<le> t" "t \<le> clock w" "ka_timer ka = Timer x"
    and i: "interval ka \<le> slack" using assms by (auto simp: ka_ok_def)
  obtain sl w' where r: "timer_reset E x (sleep ka) (t + interval ka) w = (sl, w')" by fastforce
  then have "deadline sl = t + interval ka" "clock w \<le> clock w'" by (auto dest: reset_deadline)
  moreover have "schedule E ka sh w = Return (ka\<lparr>ka_state := Scheduled (t + interval ka), sleep := sl\<rparr>, w')"
    using t r instant_add_ok [OF t(3) i] by (simp add: schedule_def shared_last_read_at_def)
  ultimately show ?thesis using assms t by (auto simp: ka_ok_def)
qed

lemma maybe_schedule_ok:
  assumes "kok t0 ka sh w"
  shows "\<exists>ka' w'. maybe_schedule E ka is_idle sh w = Return (ka', w') \<and> clock w \<le> clock w' \<and>
    ka' = ka\<lparr>ka_state := ka_state ka', sleep := sleep ka'\<rparr> \<and> kok t0 ka' sh w'"
  using assms schedule_ok [OF assms]
  by (auto simp: maybe_schedule_def split: keep_alive_state.splits)

lemma maybe_ping_ok:
  assumes "kok t0 ka sh w"
  shows "\<exists>ka' sh' w'. maybe_ping E ka is_idle sh w = Return (ka', sh', w') \<and> clock w \<le> clock w' \<and>
    same_flags sh sh' \<and> last_read_at sh' = last_read_at sh \<and>
    sh_bytes sh' = sh_bytes sh \<and> (is_ping_sent sh \<longrightarrow> is_ping_sent sh') \<and>
    ka' = ka\<lparr>ka_state := ka_state ka', sleep := sleep ka'\<rparr> \<and> kok t0 ka' sh' w' \<and>
    (sh' \<noteq> sh \<or> ka_state ka' = PingSent \<and> ka_state ka \<noteq> PingSent \<longrightarrow>
       (\<exists>t. last_read_at sh = Some t \<and> t + interval ka \<le> clock w') \<and> (while_idle ka \<or> \<not> is_idle))"
proof (cases "\<exists>due. ka_state ka = Scheduled due")
  case False
  then show ?thesis using assms by (auto simp: maybe_ping_def split: keep_alive_state.splits)
next
  case True
  then obtain due where due: "ka_state ka = Scheduled due" by blast
  obtain t x where t: "last_read_at sh = Some t" "t0 \<le> t" "t \<le> clock w" "ka_timer ka = Timer x"
    and i: "interval ka \<le> slack" "timeout ka \<le> slack"
    using assms by (auto simp: ka_ok_def)
  have dl: "deadline (sleep ka) = due" using assms due by (simp add: ka_ok_def)
  obtain fin sl w1 where p: "sleep_poll E (sleep ka) w = (fin, sl, w1)" by (metis prod_cases3)
  then have c1: "clock w \<le> clock w1" "deadline sl = due" "fin \<Longrightarrow> due \<le> clock w1"
    using sleep_completes [OF p] dl by auto
  define ka1 where "ka1 = ka\<lparr>sleep := sl\<rparr>"
  have k1: "kok t0 ka1 sh w1"
    using assms c1 t due by (auto simp: ka_ok_def ka1_def)
  have add: "instant_add E t (interval ka) = Return (t + interval ka)"
    using t i by (intro instant_add_ok) auto
  obtain sh2 w2 where s: "shared_send_ping E sh w1 = (sh2, w2)" by fastforce
  note s_ok = send_ping_ok [OF s]
  obtain now w3 where n: "timer_now E x w2 = (now, w3)" by fastforce
  then have now: "now = clock w3" "clock w2 \<le> clock w3" by (auto dest: timer_clock)
  obtain sl4 w4 where r: "timer_reset E x sl (now + timeout ka) w3 = (sl4, w4)" by fastforce
  then have r_ok: "deadline sl4 = now + timeout ka" "clock w3 \<le> clock w4"
    by (auto dest: reset_deadline)
  have add2: "instant_add E now (timeout ka) = Return (now + timeout ka)"
    using now i by (intro instant_add_ok) auto
  consider "\<not> fin" | "fin" "due < t + interval ka" | "fin" "t + interval ka \<le> due" "\<not> while_idle ka" is_idle
    | "fin" "t + interval ka \<le> due" "while_idle ka \<or> \<not> is_idle" by (metis not_less)
  then show ?thesis
  proof cases
    case 1
    then have "maybe_ping E ka is_idle sh w = Return (ka1, sh, w1)"
      by (simp add: maybe_ping_def due p ka1_def)
    with k1 c1 due show ?thesis by (auto simp: ka1_def)
  next
    case 2
    then have "maybe_ping E ka is_idle sh w = Return (ka1\<lparr>ka_state := KaInit\<rparr>, sh, wake_by_ref E w1)"
      by (simp add: maybe_ping_def due p ka1_def shared_last_read_at_def t add)
    moreover have "kok t0 (ka1\<lparr>ka_state := KaInit\<rparr>) sh (wake_by_ref E w1)"
      using k1 wake_clock [of w1] by (auto simp: ka_ok_def intro: order_trans)
    ultimately show ?thesis using c1 wake_clock [of w1] by (auto simp: ka1_def)
  next
    case 3
    then have "maybe_ping E ka is_idle sh w = Return (ka1, sh, w1)"
      by (simp add: maybe_ping_def due p ka1_def shared_last_read_at_def t add)
    with k1 c1 due show ?thesis by (auto simp: ka1_def)
  next
    case 4
    then have e: "maybe_ping E ka is_idle sh w = Return (ka1\<lparr>ka_state := PingSent, sleep := sl4\<rparr>, sh2, w4)"
      by (auto simp: maybe_ping_def due p ka1_def shared_last_read_at_def t add s n add2 r)
    have "t0 + interval ka + timeout ka \<le> deadline sl4"
      using r_ok now s_ok(1) c1 4 t by simp
    then have "kok t0 (ka1\<lparr>ka_state := PingSent, sleep := sl4\<rparr>) sh2 w4"
      using k1 now s_ok r_ok by (auto simp: ka_ok_def ka1_def same_flags_def)
    moreover have "t + interval ka \<le> clock w4" "clock w \<le> clock w4"
      using 4 c1 s_ok(1) now r_ok by linarith+
    ultimately show ?thesis using e s_ok t 4 by (auto simp: ka1_def)
  qed
qed

lemma run_keep_alive_ok:
  assumes "pinv t0 c p sh w"
  shows "\<exists>p' sh' w'. run_keep_alive E p is_idle sh w = Return (p', sh', w') \<and> pinv t0 c p' sh' w' \<and>
    clock w \<le> clock w' \<and> same_flags sh sh' \<and> pg_bdp p' = pg_bdp p \<and>
    (pg_keep_alive p' \<noteq> None) = (pg_keep_alive p \<noteq> None)"
proof (cases "pg_keep_alive p")
  case None
  then show ?thesis using assms by (simp add: run_keep_alive_def)
next
  case (Some ka)
  with assms have k: "kok t0 ka sh w" by (simp add: ping_inv_def)
  from maybe_schedule_ok [OF k] obtain ka1 w1 where
    1: "maybe_schedule E ka is_idle sh w = Return (ka1, w1)" "clock w \<le> clock w1"
      "ka1 = ka\<lparr>ka_state := ka_state ka1, sleep := sleep ka1\<rparr>" "kok t0 ka1 sh w1" by blast
  from maybe_ping_ok [OF 1(4)] obtain ka2 sh2 w2 where
    2: "maybe_ping E ka1 is_idle sh w1 = Return (ka2, sh2, w2)" "clock w1 \<le> clock w2" "same_flags sh sh2"
      "sh_bytes sh2 = sh_bytes sh" "kok t0 ka2 sh2 w2"
      "ka2 = ka1\<lparr>ka_state := ka_state ka2, sleep := sleep ka2\<rparr>" by blast
  have "interval ka2 = interval ka" "timeout ka2 = timeout ka" "while_idle ka2 = while_idle ka"
    by (subst 2(6), subst 1(3), simp)+
  moreover have "run_keep_alive E p is_idle sh w = Return (p\<lparr>pg_keep_alive := Some ka2\<rparr>, sh2, w2)"
    using 1 2 by (simp add: run_keep_alive_def Some)
  ultimately show ?thesis
    using assms 1(2) 2 Some by (auto simp: ping_inv_def same_flags_def)
qed

lemma ponger_bdp_ack_ok:
  assumes "pinv t0 c p sh w" "now + slack \<le> instant_max E"
  shows "\<exists>r p' sh'. ponger_bdp_ack E now dur p sh = Return (r, p', sh') \<and> pinv t0 c p' sh' w \<and>
    same_flags sh sh' \<and> r \<noteq> Ready KeepAliveTimedOut \<and>
    (\<forall>wnd. r = Ready (SizeUpdate wnd) \<longrightarrow> unat wnd \<le> BDP_LIMIT)"
proof (cases "pg_bdp p")
  case None
  then show ?thesis using assms by (simp add: ponger_bdp_ack_def)
next
  case (Some b)
  with assms obtain n where n: "sh_bytes sh = Some n" and b: "bdp_ok b" by (auto simp: ping_inv_def)
  from bdp_calculate_ok [OF b] obtain b' u where
    c: "bdp_calculate b n dur = Return (b', u)" "bdp_ok b'"
    and u: "case u of None \<Rightarrow> True | Some wnd \<Rightarrow> unat wnd \<le> BDP_LIMIT"
    by (fastforce split: option.splits)
  have "instant_add E now (ping_delay b') = Return (now + ping_delay b')"
    using c(2) assms(2) slack_delay by (simp add: instant_add_def bdp_ok_def)
  then have "ponger_bdp_ack E now dur p sh =
    Return (case u of Some wnd \<Rightarrow> Ready (SizeUpdate wnd) | None \<Rightarrow> Pending, p\<lparr>pg_bdp := Some b'\<rparr>,
            sh\<lparr>sh_bytes := Some 0, next_bdp_at := Some (now + ping_delay b')\<rparr>)"
    by (simp add: ponger_bdp_ack_def Some n c)
  moreover have "pinv t0 c (p\<lparr>pg_bdp := Some b'\<rparr>)
      (sh\<lparr>sh_bytes := Some 0, next_bdp_at := Some (now + ping_delay b')\<rparr>) w"
    using assms(1) c(2) n by (auto simp: ping_inv_def ka_ok_def Some split: option.splits)
  ultimately show ?thesis
    using u n by (auto simp: same_flags_def split: option.splits)
qed

lemma ping_inv_shared:
  assumes "pinv t0 c p sh w" "clock w \<le> clock w'" "same_flags sh sh'"
    "last_read_at sh' = last_read_at sh \<or> (\<exists>t. last_read_at sh' = Some t \<and> clock w \<le> t \<and> t \<le> clock w')"
  shows "pinv t0 c p sh' w'"
  using assms ka_ok_mono [OF _ assms(2) _ assms(4)]
  by (auto simp: ping_inv_def same_flags_def split: option.splits)

lemma update_last_read_at_inv:
  assumes "pinv t0 c p sh w" "update_last_read_at E sh w = (sh', w')" "pg_keep_alive p \<noteq> None"
  shows "pinv t0 c p sh' w'"
proof -
  obtain x t where "sh_timer sh = Timer x" "last_read_at sh = Some t"
    using assms(1,3) by (auto simp: ping_inv_def ka_ok_def)
  with update_last_read_at_ok [OF assms(2)] show ?thesis
    by (intro ping_inv_shared [OF assms(1)]) auto
qed

lemma ping_inv_no_ka:
  assumes "pinv t0 c p sh w" "clock w \<le> clock w'" "same_flags sh sh'" "pg_keep_alive p = None"
  shows "pinv t0 c p sh' w'"
  using assms by (auto simp: ping_inv_def same_flags_def)

lemma update_inv:
  assumes "pinv t0 c p sh w" "update_last_read_at E sh w = (sh', w')"
  shows "pinv t0 c p sh' w' \<and> clock w \<le> clock w' \<and> same_flags sh sh'"
  using update_last_read_at_inv [OF assms] update_last_read_at_ok [OF assms(2)]
    ping_inv_no_ka [OF assms(1)] by blast

lemma ponger_pong_ok:
  assumes "pinv t0 c p sh w" "now + slack \<le> instant_max E" "is_ping_sent sh"
  shows "\<exists>r p' sh' w'. ponger_pong E now is_idle p sh w = Return (r, p', sh', w') \<and> pinv t0 c p' sh' w' \<and>
    clock w \<le> clock w' \<and> same_flags sh sh' \<and> r \<noteq> Ready KeepAliveTimedOut \<and>
    (\<forall>wnd. r = Ready (SizeUpdate wnd) \<longrightarrow> unat wnd \<le> BDP_LIMIT)"
proof -
  obtain start where start: "ping_sent_at sh = Some start" using assms(3) by (auto simp: is_ping_sent_def)
  define sh1 where "sh1 = sh\<lparr>ping_sent_at := None\<rparr>"
  have 1: "pinv t0 c p sh1 w" "same_flags sh sh1"
    using assms(1) by (auto simp: sh1_def same_flags_def ping_inv_def ka_ok_def split: option.splits)
  obtain sh2 w2 where u: "(if pg_keep_alive p \<noteq> None then update_last_read_at E sh1 w else (sh1, w)) = (sh2, w2)"
    by (metis surj_pair)
  have 2: "pinv t0 c p sh2 w2" "clock w \<le> clock w2" "same_flags sh1 sh2"
    using u update_inv [OF 1(1)] 1 by (auto split: if_splits)
  from run_keep_alive_ok [OF 2(1)] obtain p3 sh3 w3 where
    3: "run_keep_alive E p is_idle sh2 w2 = Return (p3, sh3, w3)" "pinv t0 c p3 sh3 w3"
      "clock w2 \<le> clock w3" "same_flags sh2 sh3" by blast
  from ponger_bdp_ack_ok [OF 3(2) assms(2)] obtain r p4 sh4 where
    4: "ponger_bdp_ack E now (now - start) p3 sh3 = Return (r, p4, sh4)" "pinv t0 c p4 sh4 w3"
      "same_flags sh3 sh4" "r \<noteq> Ready KeepAliveTimedOut"
      "\<forall>wnd. r = Ready (SizeUpdate wnd) \<longrightarrow> unat wnd \<le> BDP_LIMIT" by blast
  have "ponger_pong E now is_idle p sh w = Return (r, p4, sh4, w3)"
    using u 3(1) 4(1) by (simp add: ponger_pong_def start Let_def flip: sh1_def)
  moreover have "same_flags sh sh4" using 1(2) 2(3) 3(4) 4(3) by (blast intro: same_flags_trans)
  ultimately show ?thesis using 2(2) 3(3) 4 by (auto intro: order_trans)
qed

lemma ponger_no_pong_ok:
  assumes "pinv t0 c p sh w" "is_ping_sent sh" "ponger_no_pong E p sh w = (r, p', sh', w')"
  shows "pinv t0 c p' sh' w' \<and> clock w \<le> clock w' \<and>
    (is_keep_alive_timed_out sh \<longrightarrow> is_keep_alive_timed_out sh') \<and>
    (r = Pending \<or> r = Ready KeepAliveTimedOut \<and> is_ping_sent sh' \<and> is_keep_alive_timed_out sh' \<and>
       (\<exists>i. keep_alive_interval c = Some i \<and> t0 + i + keep_alive_timeout c \<le> clock w'))"
proof (cases "pg_keep_alive p")
  case None
  then show ?thesis using assms by (auto simp: ponger_no_pong_def)
next
  case (Some ka)
  with assms(1) have k: "kok t0 ka sh w" and cfg: "keep_alive_interval c = Some (interval ka)"
      "keep_alive_timeout c = timeout ka" by (simp_all add: ping_inv_def)
  obtain fin sl w1 where s: "sleep_poll E (sleep ka) w = (fin, sl, w1)" by (metis prod_cases3)
  note s_ok = sleep_completes [OF s]
  show ?thesis
  proof (cases "ka_state ka = PingSent")
    case False
    then show ?thesis using assms Some
      by (auto simp: ponger_no_pong_def maybe_timeout_def ping_inv_def split: keep_alive_state.splits)
  next
    case True
    with k have d: "t0 + interval ka + timeout ka \<le> deadline (sleep ka)" by (simp add: ka_ok_def)
    have k1: "kok t0 (ka\<lparr>sleep := sl\<rparr>) sh w1" using k s_ok True by (auto simp: ka_ok_def)
    show ?thesis
    proof (cases fin)
      case True
      with s \<open>ka_state ka = PingSent\<close> Some assms(3)
      have "r = Ready KeepAliveTimedOut" "p' = p\<lparr>pg_keep_alive := None\<rparr>"
        "sh' = sh\<lparr>is_keep_alive_timed_out := True\<rparr>" "w' = w1"
        by (auto simp: ponger_no_pong_def maybe_timeout_def)
      with True s_ok d cfg assms(1,2) show ?thesis by (auto simp: ping_inv_def is_ping_sent_def)
    next
      case False
      with s \<open>ka_state ka = PingSent\<close> Some assms(3)
      have "r = Pending" "p' = p\<lparr>pg_keep_alive := Some (ka\<lparr>sleep := sl\<rparr>)\<rparr>" "sh' = sh" "w' = w1"
        by (auto simp: ponger_no_pong_def maybe_timeout_def)
      with Some k1 s_ok assms(1) show ?thesis by (auto simp: ping_inv_def)
    qed
  qed
qed

lemma ponger_poll_ok:
  assumes "pinv t0 c p sh w"
  shows "\<exists>r p' sh' w'. ponger_poll E n p sh w = Return (r, p', sh', w') \<and> pinv t0 c p' sh' w' \<and>
    (is_keep_alive_timed_out sh \<longrightarrow> is_keep_alive_timed_out sh') \<and> clock w \<le> clock w' \<and>
    (\<forall>wnd. r = Ready (SizeUpdate wnd) \<longrightarrow> unat wnd \<le> BDP_LIMIT) \<and>
    (r = Ready KeepAliveTimedOut \<longrightarrow> is_ping_sent sh' \<and> is_keep_alive_timed_out sh' \<and>
       (\<exists>i. keep_alive_interval c = Some i \<and> t0 + i + keep_alive_timeout c \<le> clock w'))"
proof -
  let ?idle = "ponger_is_idle n"
  obtain now w1 where n: "time_now E (sh_timer sh) w = (now, w1)" by fastforce
  note n_ok = time_now_clock [OF n]
  have "pinv t0 c p sh w1" using ping_inv_shared [OF assms n_ok(1)] by simp
  from run_keep_alive_ok [OF this] obtain p2 sh2 w2 where
    2: "run_keep_alive E p ?idle sh w1 = Return (p2, sh2, w2)" "pinv t0 c p2 sh2 w2"
      "clock w1 \<le> clock w2" "same_flags sh sh2" by blast
  note flag = 2(4) [unfolded same_flags_def]
  show ?thesis
  proof (cases "is_ping_sent sh2")
    case False
    with 2 n flag n_ok(1) show ?thesis by (auto simp: ponger_poll_def)
  next
    case True
    obtain polled pp w3 where q: "pp_poll_pong E (ping_pong sh2) w2 = (polled, pp, w3)"
      by (metis prod_cases3)
    define sh3 where "sh3 = sh2\<lparr>ping_pong := pp\<rparr>"
    have 3: "pinv t0 c p2 sh3 w3" "clock w2 \<le> clock w3" "is_ping_sent sh3" "same_flags sh2 sh3"
      using pong_clock [OF q] ping_inv_shared [OF 2(2), of w3 sh3] True
      by (auto simp: sh3_def same_flags_def is_ping_sent_def)
    note flag3 = 3(4) [unfolded same_flags_def]
    have e: "ponger_poll E n p sh w = (case polled of Panicked m \<Rightarrow> Panic m
        | Ready ok \<Rightarrow> if ok then ponger_pong E now ?idle p2 sh3 w3 else Return (Pending, p2, sh3, w3)
        | Pending \<Rightarrow> Return (ponger_no_pong E p2 sh3 w3))"
      using True by (cases polled) (simp_all add: ponger_poll_def n 2(1) q sh3_def Let_def)
    have "\<not> is_panicked polled" using pong_clock [OF q] by simp
    then consider "polled = Ready True" | "polled = Ready False" | "polled = Pending"
      by (cases polled) auto
    then show ?thesis
    proof cases
      case 1
      with e ponger_pong_ok [OF 3(1) n_ok(2) 3(3), of ?idle] 2 3(2) flag flag3 n_ok(1)
      show ?thesis by (fastforce simp: same_flags_def intro: order_trans)
    next
      case 2
      with e 3 flag flag3 \<open>clock w1 \<le> clock w2\<close> n_ok(1) show ?thesis by auto
    next
      case 3
      obtain r p4 sh4 w4 where m: "ponger_no_pong E p2 sh3 w3 = (r, p4, sh4, w4)" by (metis prod_cases4)
      from ponger_no_pong_ok [OF \<open>pinv t0 c p2 sh3 w3\<close> \<open>is_ping_sent sh3\<close> m]
      show ?thesis using e 3 m flag flag3 \<open>clock w1 \<le> clock w2\<close> \<open>clock w2 \<le> clock w3\<close> n_ok(1) by auto
    qed
  qed
qed

lemma record_data_ok:
  assumes "pinv t0 c p sh w" "record_data E r sh len w = (sh', w')"
  shows "pinv t0 c p sh' w' \<and> clock w \<le> clock w' \<and> same_flags sh sh'"
proof (cases "enabled r")
  case False
  then show ?thesis using assms by (simp add: record_data_def)
next
  case True
  obtain sh1 w1 where u: "update_last_read_at E sh w = (sh1, w1)" by fastforce
  note 1 = update_inv [OF assms(1) u]
  obtain wait sh2 w2 where d: "(case next_bdp_at sh1 of None \<Rightarrow> (False, sh1, w1)
      | Some due \<Rightarrow> (case system_now E w1 of (now, w) \<Rightarrow>
          if now < due then (True, sh1, w) else (False, sh1\<lparr>next_bdp_at := None\<rparr>, w))) = (wait, sh2, w2)"
    by (rule prod_cases3)
  have 2: "clock w1 \<le> clock w2" "same_flags sh1 sh2" "last_read_at sh2 = last_read_at sh1"
    using d by (auto simp: same_flags_def split: option.splits prod.splits if_splits dest: system_clock)
  have "clock w2 \<le> clock w' \<and> same_flags sh2 sh' \<and> last_read_at sh' = last_read_at sh2"
  proof -
    have e: "(if wait then (sh2, w2) else case sh_bytes sh2 of None \<Rightarrow> (sh2, w2)
        | Some n \<Rightarrow> let sh = sh2\<lparr>sh_bytes := Some (n + len)\<rparr> in
            if is_ping_sent sh then (sh, w2) else shared_send_ping E sh w2) = (sh', w')"
      using assms(2) True u d by (simp add: record_data_def)
    show ?thesis
    proof (cases "wait \<or> sh_bytes sh2 = None")
      case True
      with e show ?thesis by (auto split: if_splits)
    next
      case False
      then obtain n where n: "\<not> wait" "sh_bytes sh2 = Some n" by auto
      have "same_flags sh2 (sh2\<lparr>sh_bytes := Some (n + len)\<rparr>)" using n by (simp add: same_flags_def)
      with e n show ?thesis
        by (auto simp: Let_def split: if_splits dest: send_ping_ok intro: same_flags_trans)
    qed
  qed
  with 2 have 3: "clock w1 \<le> clock w'" "same_flags sh1 sh'" "last_read_at sh' = last_read_at sh1"
    by (auto intro: same_flags_trans)
  from ping_inv_shared [OF _ 3(1,2)] 1 3 show ?thesis by (auto intro: same_flags_trans)
qed

lemma record_non_data_ok:
  assumes "pinv t0 c p sh w" "record_non_data E r sh w = (sh', w')"
  shows "pinv t0 c p sh' w' \<and> clock w \<le> clock w' \<and> same_flags sh sh'"
  using assms update_inv by (auto simp: record_non_data_def split: if_splits)

lemma ping_channel_ok:
  assumes "\<forall>i. keep_alive_interval c = Some i \<longrightarrow>
      i \<le> slack \<and> keep_alive_timeout c \<le> slack \<and> (\<exists>x. timer = Timer x)"
  shows "\<exists>p sh w'. ping_channel E pp c timer w = Return (Recorder True, p, sh, w') \<and>
    pinv (clock w) c p sh w' \<and> clock w \<le> clock w' \<and> \<not> is_keep_alive_timed_out sh"
proof -
  obtain now w1 where n: "time_now E timer w = (now, w1)" by fastforce
  note n_ok = time_now_clock [OF n]
  show ?thesis
  proof (cases "keep_alive_interval c")
    case None
    then show ?thesis using n n_ok
      by (auto simp: ping_channel_def new_shared_def ping_inv_def option.map_disc_iff split: option.splits)
  next
    case (Some i)
    with assms obtain x where x: "timer = Timer x" "i \<le> slack" "keep_alive_timeout c \<le> slack" by blast
    obtain sl w2 where s: "timer_sleep E x i w1 = (sl, w2)" by fastforce
    have "clock w1 \<le> clock w2" by (rule sleep_clock [OF s])
    with Some x s n n_ok(1) n_ok(3) [OF x(1)] show ?thesis
      by (auto simp: ping_channel_def new_shared_def ping_inv_def ka_ok_def option.map_disc_iff
          split: option.splits)
  qed
qed

end

section \<open>Reachable states\<close>

text \<open>
  The ponger, the shared state, the number of pointers to it and the world. Between two operations
  recorders are cloned and dropped and the world moves on.
\<close>

type_synonym ('w, 't, 'sl, 'pp) ping_state = "('t, 'sl) ponger \<times> ('t, 'pp) shared \<times> nat \<times> 'w"

inductive ping_step ::
  "('w, 't, 'sl, 'pp) ping_env \<Rightarrow> ('w \<Rightarrow> 'w \<Rightarrow> bool) \<Rightarrow>
   ('w, 't, 'sl, 'pp) ping_state \<Rightarrow> ('w, 't, 'sl, 'pp) ping_state \<Rightarrow> bool"
  for E :: "('w, 't, 'sl, 'pp) ping_env" and adv :: "'w \<Rightarrow> 'w \<Rightarrow> bool" where
  Poll: "ponger_poll E n p sh w = Return (r, p', sh', w') \<Longrightarrow> ping_step E adv (p, sh, n, w) (p', sh', n, w')"
| Data: "record_data E r sh len w = (sh', w') \<Longrightarrow> ping_step E adv (p, sh, n, w) (p, sh', n, w')"
| NonData: "record_non_data E r sh w = (sh', w') \<Longrightarrow> ping_step E adv (p, sh, n, w) (p, sh', n, w')"
| Clone: "ping_step E adv (p, sh, n, w) (p, sh, n + 1, w)"
| Drop: "1 < n \<Longrightarrow> ping_step E adv (p, sh, n, w) (p, sh, n - 1, w)"
| Advance: "adv w w' \<Longrightarrow> ping_step E adv (p, sh, n, w) (p, sh, n, w')"

inductive ping_reaches ::
  "('w, 't, 'sl, 'pp) ping_env \<Rightarrow> ('w \<Rightarrow> 'w \<Rightarrow> bool) \<Rightarrow>
   ('w, 't, 'sl, 'pp) ping_state \<Rightarrow> ('w, 't, 'sl, 'pp) ping_state \<Rightarrow> bool"
  for E :: "('w, 't, 'sl, 'pp) ping_env" and adv :: "'w \<Rightarrow> 'w \<Rightarrow> bool" where
  Start: "ping_reaches E adv s s"
| Step: "ping_reaches E adv s s' \<Longrightarrow> ping_step E adv s' s'' \<Longrightarrow> ping_reaches E adv s s''"

text \<open>The states of a channel that \<open>ping_channel\<close> opened in the world \<open>w0\<close>.\<close>

definition ping_opened ::
  "('w, 't, 'sl, 'pp) ping_env \<Rightarrow> ('w \<Rightarrow> 'w \<Rightarrow> bool) \<Rightarrow> config \<Rightarrow> 't time \<Rightarrow> 'w \<Rightarrow>
   ('w, 't, 'sl, 'pp) ping_state \<Rightarrow> bool" where
  "ping_opened E adv c timer w0 s \<longleftrightarrow>
     (\<exists>pp r p sh w. ping_channel E pp c timer w0 = Return (r, p, sh, w) \<and>
        ping_reaches E adv (p, sh, 2, w) s)"

text \<open>The configuration is representable: a keep-alive comes with a timer and durations in range.\<close>

definition config_ok :: "nat \<Rightarrow> 't time \<Rightarrow> config \<Rightarrow> bool" where
  "config_ok slack timer c \<longleftrightarrow>
     (case keep_alive_interval c of None \<Rightarrow> True
      | Some i \<Rightarrow> i \<le> slack \<and> keep_alive_timeout c \<le> slack \<and> timer \<noteq> Empty)"

lemma config_ok_Some:
  "config_ok slack timer c \<Longrightarrow> keep_alive_interval c = Some i \<Longrightarrow>
   i \<le> slack \<and> keep_alive_timeout c \<le> slack \<and> (\<exists>x. timer = Timer x)"
  by (cases timer) (auto simp: config_ok_def)

context ping_world
begin

lemma ping_step_ok:
  assumes "ping_step E adv (p, sh, n, w) (p', sh', n', w')" "pinv t0 c p sh w"
  shows "pinv t0 c p' sh' w' \<and> clock w \<le> clock w' \<and>
    (is_keep_alive_timed_out sh \<longrightarrow> is_keep_alive_timed_out sh')"
  using assms(1)
proof (cases rule: ping_step.cases)
  case (Poll r)
  with ponger_poll_ok [OF assms(2), of n] show ?thesis by auto
next
  case (Data r len)
  with record_data_ok [OF assms(2)] show ?thesis by (auto simp: same_flags_def)
next
  case (NonData r)
  with record_non_data_ok [OF assms(2)] show ?thesis by (auto simp: same_flags_def)
next
  case Advance
  with adv_clock ping_inv_shared [OF assms(2)] show ?thesis by auto
qed (use assms(2) in auto)

lemma ping_reaches_ok:
  assumes "ping_reaches E adv s s'"
  shows "case s of (p, sh, n, w) \<Rightarrow> case s' of (p', sh', n', w') \<Rightarrow>
    pinv t0 c p sh w \<longrightarrow> pinv t0 c p' sh' w' \<and> clock w \<le> clock w' \<and>
      (is_keep_alive_timed_out sh \<longrightarrow> is_keep_alive_timed_out sh')"
  using assms
proof (induction rule: ping_reaches.induct)
  case (Step s s' s'')
  then show ?case
    using ping_step_ok by (cases s; cases s'; cases s'') (fastforce intro: order_trans)
qed (simp split: prod.splits)

lemma ping_opened_inv:
  assumes "ping_opened E adv c timer w0 (p, sh, n, w)" "config_ok slack timer c"
  shows "pinv (clock w0) c p sh w"
proof -
  obtain pp r p1 sh1 w1 where c: "ping_channel E pp c timer w0 = Return (r, p1, sh1, w1)"
    and r: "ping_reaches E adv (p1, sh1, 2, w1) (p, sh, n, w)"
    using assms(1) by (auto simp: ping_opened_def)
  with ping_channel_ok [of c timer pp w0] config_ok_Some [OF assms(2)]
  have "pinv (clock w0) c p1 sh1 w1" by auto
  with ping_reaches_ok [OF r] show ?thesis by simp
qed

end

section \<open>A simulated environment\<close>

text \<open>
  A clock that an execution sets, sleeps that remember their deadline, and a peer that answers
  every ping at once or, without \<open>reply\<close>, never.
\<close>

definition sim_horizon :: nat where
  "sim_horizon = 1000000000000000"

definition sim_clock :: "nat \<Rightarrow> instant" where
  "sim_clock w = min w sim_horizon"

definition sim_ping :: "bool \<Rightarrow> (nat, unit, nat, bool) ping_env" where
  "sim_ping reply = \<lparr>
     instant_max = 2 * sim_horizon,
     system_now = (\<lambda>w. (sim_clock w, w)),
     timer_now = (\<lambda>t w. (sim_clock w, w)),
     timer_sleep = (\<lambda>t d w. (sim_clock w + d, w)),
     timer_sleep_until = (\<lambda>t i w. (i, w)),
     timer_reset = (\<lambda>t sl i w. (i, w)),
     sleep_poll = (\<lambda>sl w. (sl \<le> sim_clock w, sl, w)),
     pp_send_ping = (\<lambda>pp w. (\<not> pp, True, w)),
     pp_poll_pong = (\<lambda>pp w. if pp \<and> reply then (Ready True, False, w) else (Pending, pp, w)),
     wake_by_ref = (\<lambda>w. w)\<rparr>"

interpretation sim_pw: ping_world "sim_ping reply" sim_clock "\<lambda>sl. sl" sim_horizon "(\<le>)"
  by unfold_locales
    (auto simp: sim_ping_def sim_clock_def sim_horizon_def from_secs_def split: if_splits)

lemmas ping_eval = sim_ping_def sim_clock_def sim_horizon_def ping_channel_def new_shared_def
  ponger_poll_def run_keep_alive_def maybe_schedule_def maybe_ping_def schedule_def
  shared_last_read_at_def instant_add_def shared_send_ping_def is_ping_sent_def ponger_is_idle_def
  ponger_no_pong_def maybe_timeout_def ponger_pong_def ponger_bdp_ack_def update_last_read_at_def
  record_data_def record_non_data_def

section \<open>Properties\<close>



text \<open>
  Every sample keeps the estimate well formed: round trip time and bandwidth are binary64 values,
  the delay between pings stays below 40 seconds and the stability counter below 2, and the window
  changes exactly when an update is returned. In particular scaling the delay never overflows.
\<close>

theorem bdp_calculate_well_formed:
  assumes "f64_valid (rtt b)" and "f64_valid (max_bandwidth b)"
    and "ping_delay b < from_secs 40" and "stable_count b < 2"
  shows "\<exists>b' u. bdp_calculate b n d = Return (b', u) \<and> f64_valid (rtt b') \<and>
    f64_valid (max_bandwidth b') \<and> ping_delay b' < from_secs 40 \<and> stable_count b' < 2 \<and>
    bdp b' = (case u of None \<Rightarrow> bdp b | Some wnd \<Rightarrow> wnd)"
proof -
  have "bdp_ok b" using assms by (simp add: bdp_ok_def)
  from bdp_calculate_ok [OF this, of n d] obtain b' u where
    "bdp_calculate b n d = Return (b', u)" "bdp_ok b'" "bdp b' = (case u of None \<Rightarrow> bdp b | Some wnd \<Rightarrow> wnd)"
    by (fastforce split: option.splits)
  then show ?thesis by (auto simp: bdp_ok_def)
qed

theorem bdp_calculate_well_formed_witness:
  "\<exists>b' u. bdp_calculate (new_bdp 65535) 60000 1000000 = Return (b', u) \<and> f64_valid (rtt b')"
  using bdp_calculate_well_formed [of "new_bdp 65535" 60000 1000000]
  by (auto simp: new_bdp_def from_millis_def from_secs_def)

text \<open>Opening a channel panics exactly when a keep-alive is configured and no timer is given.\<close>

lemma ping_channel_returns_iff:
  "(\<exists>x. ping_channel E pp c timer w = Return x) \<longleftrightarrow> keep_alive_interval c = None \<or> timer \<noteq> Empty"
  by (cases timer) (auto simp: ping_channel_def Let_def split: option.splits prod.splits)

text \<open>
  C23. Opening a ping channel returns exactly when the configuration has no keep-alive interval or a
  timer is given: with a keep-alive and no timer, which is the default, it panics. For a configuration
  whose keep-alive, if there is one, comes with a timer and with an interval and a timeout within the
  range of the clock, and in every state the channel reaches however the clock advances, frames arrive
  and recorders come and go, polling the ponger returns (no \<open>expect\<close> fails and no instant overflows),
  and the windows it announces are at most 16 MiB.
\<close>

theorem ping_operations_return:
  assumes "ping_world E clock deadline slack adv"
  shows "((\<exists>x. ping_channel E pp c timer w0 = Return x) \<longleftrightarrow> keep_alive_interval c = None \<or> timer \<noteq> Empty) \<and>
    ((\<forall>i. keep_alive_interval c = Some i \<longrightarrow> i \<le> slack \<and> keep_alive_timeout c \<le> slack \<and> timer \<noteq> Empty) \<longrightarrow>
     (\<forall>p sh n w. ping_opened E adv c timer w0 (p, sh, n, w) \<longrightarrow>
       (\<exists>r p' sh' w'. ponger_poll E n p sh w = Return (r, p', sh', w') \<and>
          (\<forall>wnd. r = Ready (SizeUpdate wnd) \<longrightarrow> unat wnd \<le> BDP_LIMIT))))"
proof (intro conjI allI impI)
  show "(\<exists>x. ping_channel E pp c timer w0 = Return x) \<longleftrightarrow> keep_alive_interval c = None \<or> timer \<noteq> Empty"
    by (rule ping_channel_returns_iff)
next
  fix p sh n w
  assume "\<forall>i. keep_alive_interval c = Some i \<longrightarrow> i \<le> slack \<and> keep_alive_timeout c \<le> slack \<and> timer \<noteq> Empty"
  then have "config_ok slack timer c" by (auto simp: config_ok_def split: option.splits)
  moreover assume "ping_opened E adv c timer w0 (p, sh, n, w)"
  ultimately have "ping_inv clock deadline slack (clock w0) c p sh w"
    using ping_world.ping_opened_inv [OF assms] by blast
  from ping_world.ponger_poll_ok [OF assms this]
  show "\<exists>r p' sh' w'. ponger_poll E n p sh w = Return (r, p', sh', w') \<and>
          (\<forall>wnd. r = Ready (SizeUpdate wnd) \<longrightarrow> unat wnd \<le> BDP_LIMIT)"
    by blast
qed

definition sim_config :: config where
  "sim_config = config_new True 65535 (Some 10) 5 True"

lemma sim_config_ok: "config_ok sim_horizon (Timer ()) sim_config"
  by (simp add: config_ok_def sim_config_def config_new_def sim_horizon_def)

lemma sim_opened:
  "ping_channel (sim_ping reply) False sim_config (Timer ()) 0 =
     Return (Recorder True,
       \<lparr>pg_bdp = Some (new_bdp 65535),
        pg_keep_alive = Some \<lparr>interval = 10, timeout = 5, while_idle = True, ka_state = KaInit,
          sleep = 10, ka_timer = Timer ()\<rparr>\<rparr>,
       new_shared False True True 0 (Timer ()), 0)"
  by (simp add: ping_channel_def sim_config_def config_new_def sim_ping_def sim_clock_def)

theorem ping_operations_return_witness:
  "(\<exists>r p' sh' w'. ponger_poll (sim_ping True) 2
       \<lparr>pg_bdp = Some (new_bdp 65535),
        pg_keep_alive = Some \<lparr>interval = 10, timeout = 5, while_idle = True, ka_state = KaInit,
          sleep = 10, ka_timer = Timer ()\<rparr>\<rparr>
       (new_shared False True True 0 (Timer ())) 0 = Return (r, p', sh', w')) \<and>
   \<not> (\<exists>x. ping_channel (sim_ping True) False sim_config Empty 0 = Return x)"
proof -
  let ?p = "\<lparr>pg_bdp = Some (new_bdp 65535),
        pg_keep_alive = Some \<lparr>interval = 10, timeout = 5, while_idle = True, ka_state = KaInit,
          sleep = 10, ka_timer = Timer ()\<rparr>\<rparr>"
  let ?sh = "new_shared False True True 0 (Timer ()) :: (unit, bool) shared"
  have o: "ping_opened (sim_ping True) (\<le>) sim_config (Timer ()) 0 (?p, ?sh, 2, 0)"
    unfolding ping_opened_def using sim_opened ping_reaches.Start by blast
  have c: "keep_alive_interval sim_config = Some 10" "keep_alive_timeout sim_config = 5" "10 \<le> sim_horizon"
    by (simp_all add: sim_config_def config_new_def sim_horizon_def)
  then have "\<forall>i. keep_alive_interval sim_config = Some i \<longrightarrow>
      i \<le> sim_horizon \<and> keep_alive_timeout sim_config \<le> sim_horizon \<and> Timer () \<noteq> Empty" by simp
  with ping_operations_return [OF sim_pw.ping_world_axioms, THEN conjunct2] o
  have "\<exists>r p' sh' w'. ponger_poll (sim_ping True) 2 ?p ?sh 0 = Return (r, p', sh', w')" by blast
  moreover have "\<not> (\<exists>x. ping_channel (sim_ping True) False sim_config Empty 0 = Return x)"
    using ping_operations_return [OF sim_pw.ping_world_axioms, THEN conjunct1] c(1) by simp
  ultimately show ?thesis ..
qed

text \<open>
  The keep-alive sends a ping, or starts waiting for a pong, only when the last frame was read at
  least one interval ago, and for an idle connection only when it is configured to do so.
\<close>

theorem keep_alive_ping_after_silence:
  assumes "ping_world E clock deadline slack adv" and "config_ok slack timer c"
    and "ping_opened E adv c timer w0 (p, sh, n, w)" and "pg_keep_alive p = Some ka"
    and "maybe_ping E ka is_idle sh w = Return (ka', sh', w')"
    and "sh' \<noteq> sh \<or> ka_state ka' = PingSent \<and> ka_state ka \<noteq> PingSent"
  shows "\<exists>i t. keep_alive_interval c = Some i \<and> last_read_at sh = Some t \<and> t + i \<le> clock w' \<and>
    (keep_alive_while_idle c \<or> \<not> is_idle)"
proof -
  have "ping_inv clock deadline slack (clock w0) c p sh w"
    by (rule ping_world.ping_opened_inv [OF assms(1,3,2)])
  then have k: "ka_ok clock deadline slack (clock w0) ka sh w"
    "keep_alive_interval c = Some (interval ka)" "keep_alive_while_idle c = while_idle ka"
    using assms(4) by (simp_all add: ping_inv_def)
  from ping_world.maybe_ping_ok [OF assms(1) k(1), of is_idle] assms(5,6) k(2,3) show ?thesis by auto
qed

definition sim_scheduled :: "(unit, nat) keep_alive" where
  "sim_scheduled = \<lparr>interval = 10, timeout = 5, while_idle = True, ka_state = Scheduled 10,
     sleep = 10, ka_timer = Timer ()\<rparr>"

lemma sim_scheduled_reached:
  "ping_opened (sim_ping False) (\<le>) sim_config (Timer ()) 0
     (\<lparr>pg_bdp = Some (new_bdp 65535), pg_keep_alive = Some sim_scheduled\<rparr>,
      new_shared False True True 0 (Timer ()), 2, 10)"
proof -
  let ?p = "\<lparr>pg_bdp = Some (new_bdp 65535), pg_keep_alive = Some \<lparr>interval = 10, timeout = 5,
    while_idle = True, ka_state = KaInit, sleep = 10, ka_timer = Timer ()\<rparr>\<rparr>"
  let ?q = "\<lparr>pg_bdp = Some (new_bdp 65535), pg_keep_alive = Some sim_scheduled\<rparr>"
  let ?sh = "new_shared False True True 0 (Timer ()) :: (unit, bool) shared"
  have "ponger_poll (sim_ping False) 2 ?p ?sh 0 = Return (Pending, ?q, ?sh, 0)"
    by (simp add: ping_eval sim_scheduled_def)
  then have "ping_reaches (sim_ping False) (\<le>) (?p, ?sh, 2, 0) (?q, ?sh, 2, 0)"
    by (rule ping_reaches.Step [OF ping_reaches.Start ping_step.Poll])
  moreover have "ping_step (sim_ping False) (\<le>) (?q, ?sh, 2, 0) (?q, ?sh, 2, 10)"
    by (rule ping_step.Advance) simp
  ultimately show ?thesis
    unfolding ping_opened_def using sim_opened by (blast intro: ping_reaches.Step)
qed

lemma sim_ping_sent:
  "maybe_ping (sim_ping False) sim_scheduled False (new_shared False True True 0 (Timer ())) 10 =
     Return (sim_scheduled\<lparr>ka_state := PingSent, sleep := 15\<rparr>,
       new_shared False True True 0 (Timer ())\<lparr>ping_pong := True, ping_sent_at := Some 10\<rparr>, 10)"
  by (simp add: ping_eval sim_scheduled_def)

theorem keep_alive_ping_after_silence_witness:
  "\<exists>i t. keep_alive_interval sim_config = Some i \<and>
     last_read_at (new_shared False True True 0 (Timer ()) :: (unit, bool) shared) = Some t \<and>
     t + i \<le> sim_clock 10"
  using keep_alive_ping_after_silence
    [OF sim_pw.ping_world_axioms sim_config_ok sim_scheduled_reached _ sim_ping_sent]
  by (simp add: sim_scheduled_def)

text \<open>
  C39. The connection is declared dead only with a ping outstanding and at least the keep-alive interval
  plus the timeout after it was opened; then, in every later state, a request in flight on any
  recorder ends with an HTTP/2 error that is a timeout. The keep-alive comes with a timer and with
  durations within the range of the clock.
\<close>

theorem keep_alive_timeout_sound_and_final:
  assumes "ping_world E clock deadline slack adv" and "config_ok slack timer c"
    and "ping_opened E adv c timer w0 (p, sh, n, w)"
    and "ponger_poll E n p sh w = Return (Ready KeepAliveTimedOut, p', sh', w')"
  shows "(\<exists>i. keep_alive_interval c = Some i \<and> clock w0 + i + keep_alive_timeout c \<le> clock w') \<and>
    is_ping_sent sh' \<and>
    (\<forall>p'' sh'' n'' w''. ping_reaches E adv (p', sh', n, w') (p'', sh'', n'', w'') \<longrightarrow>
       ensure_not_timed_out (Recorder True) sh'' = Inl keep_alive_error) \<and>
    is_timeout keep_alive_error"
proof -
  have inv: "ping_inv clock deadline slack (clock w0) c p sh w"
    by (rule ping_world.ping_opened_inv [OF assms(1,3,2)])
  from ping_world.ponger_poll_ok [OF assms(1) inv, of n] assms(4)
  have r: "ping_inv clock deadline slack (clock w0) c p' sh' w'" "is_ping_sent sh'" "is_keep_alive_timed_out sh'"
    "\<exists>i. keep_alive_interval c = Some i \<and> clock w0 + i + keep_alive_timeout c \<le> clock w'" by auto
  have "is_keep_alive_timed_out sh''"
    if "ping_reaches E adv (p', sh', n, w') (p'', sh'', n'', w'')" for p'' sh'' n'' w''
    using ping_world.ping_reaches_ok [OF assms(1) that] r by auto
  moreover have "is_timeout keep_alive_error" 
    by (simp add: keep_alive_error_def is_timeout_def find_source_def sources_def error_with_def error_new_def as_timed_out_def)
  ultimately show ?thesis using r by (auto simp: ensure_not_timed_out_def)
qed

lemma sim_ping_sent_reached:
  "ping_opened (sim_ping False) (\<le>) sim_config (Timer ()) 0
     (\<lparr>pg_bdp = Some (new_bdp 65535), pg_keep_alive = Some (sim_scheduled\<lparr>ka_state := PingSent, sleep := 15\<rparr>)\<rparr>,
      new_shared False True True 0 (Timer ())\<lparr>ping_pong := True, ping_sent_at := Some 10\<rparr>, 2, 15)"
  (is "ping_opened ?E ?adv ?c ?t 0 (?q, ?sh', 2, 15)")
proof -
  let ?p = "\<lparr>pg_bdp = Some (new_bdp 65535), pg_keep_alive = Some sim_scheduled\<rparr>"
  let ?sh = "new_shared False True True 0 (Timer ()) :: (unit, bool) shared"
  have "ponger_poll ?E 2 ?p ?sh 10 = Return (Pending, ?q, ?sh', 10)"
    by (simp add: ping_eval sim_scheduled_def)
  then have 1: "ping_step ?E ?adv (?p, ?sh, 2, 10) (?q, ?sh', 2, 10)" by (rule ping_step.Poll)
  have 2: "ping_step ?E ?adv (?q, ?sh', 2, 10) (?q, ?sh', 2, 15)" by (rule ping_step.Advance) simp
  from sim_scheduled_reached show ?thesis
    unfolding ping_opened_def by (blast intro: ping_reaches.Step 1 2)
qed

theorem keep_alive_timeout_sound_and_final_witness:
  "\<exists>p' sh' w'. ponger_poll (sim_ping False) 2
      \<lparr>pg_bdp = Some (new_bdp 65535), pg_keep_alive = Some (sim_scheduled\<lparr>ka_state := PingSent, sleep := 15\<rparr>)\<rparr>
      (new_shared False True True 0 (Timer ())\<lparr>ping_pong := True, ping_sent_at := Some 10\<rparr>) 15 =
      Return (Ready KeepAliveTimedOut, p', sh', w') \<and> is_ping_sent sh' \<and>
    ensure_not_timed_out (Recorder True) sh' = Inl keep_alive_error"
  (is "\<exists>p' sh' w'. ponger_poll ?E 2 ?p ?sh 15 = _ p' sh' w' \<and> _")
proof -
  let ?q = "?p\<lparr>pg_keep_alive := None\<rparr>"
  let ?sh' = "?sh\<lparr>is_keep_alive_timed_out := True\<rparr>"
  have e: "ponger_poll ?E 2 ?p ?sh 15 = Return (Ready KeepAliveTimedOut, ?q, ?sh', 15)"
    by (simp add: ping_eval sim_scheduled_def)
  from keep_alive_timeout_sound_and_final [OF sim_pw.ping_world_axioms sim_config_ok sim_ping_sent_reached e]
  show ?thesis using e ping_reaches.Start by fast
qed

end
