(* ===== verification/Watch.thy ===== *)
theory Watch
  imports Errors
begin

text \<open>
  \<open>body/watch.rs\<close>: the one-value channel by which the reader of a body tells its producer that it
  wants data or is gone. The two ends run on different threads, so beside the operations there is a
  step relation over their atomic actions; the theorem is that no wake-up is lost between a
  \<open>poll_ready\<close> that returned \<open>Pending\<close> and a change of the value.

  \<open>AtomicWaker\<close> is a parameter: \<open>wk_register\<close> stores the task's waker and \<open>wk_wake\<close> returns
  whether a stored waker was called.
\<close>

type_synonym watch_value = "8 word"

definition READY :: watch_value where "READY = 2"
definition PENDING :: watch_value where "PENDING = 1"
definition CLOSED :: watch_value where "CLOSED = 0"

record 'k waker_api =
  wk_new :: 'k
  wk_register :: "'k \<Rightarrow> 'k"
  wk_wake :: "'k \<Rightarrow> bool \<times> 'k"

record 'k watch =
  wt_value :: watch_value
  wt_waker :: 'k

definition watch_channel :: "'k waker_api \<Rightarrow> bool \<Rightarrow> 'k watch" where
  "watch_channel A wanter =
     \<lparr>wt_value = (if wanter then PENDING else READY), wt_waker = wk_new A\<rparr>"

text \<open>The result is the shared state and whether the receiving task was woken.\<close>

definition watch_send :: "'k waker_api \<Rightarrow> watch_value \<Rightarrow> 'k watch \<Rightarrow> 'k watch \<times> bool" where
  "watch_send A v s =
     (let old = wt_value s; s = s\<lparr>wt_value := v\<rparr> in
      if old \<noteq> v
      then (case wk_wake A (wt_waker s) of (woken, k) \<Rightarrow> (s\<lparr>wt_waker := k\<rparr>, woken))
      else (s, False))"

definition watch_ready :: "'k waker_api \<Rightarrow> 'k watch \<Rightarrow> 'k watch \<times> bool" where
  "watch_ready A s = watch_send A READY s"

definition watch_drop :: "'k waker_api \<Rightarrow> 'k watch \<Rightarrow> 'k watch \<times> bool" where
  "watch_drop A s = watch_send A CLOSED s"

definition watch_outcome :: "watch_value \<Rightarrow> (error + unit) poll" where
  "watch_outcome v =
     (if v = READY then Ready (Inr ())
      else if v = PENDING then Pending
      else if v = CLOSED then Ready (Inl new_closed)
      else Panicked ''internal error: entered unreachable code: watch value'')"

definition watch_poll_ready :: "'k waker_api \<Rightarrow> 'k watch \<Rightarrow> 'k watch \<times> (error + unit) poll" where
  "watch_poll_ready A s =
     (let s = s\<lparr>wt_waker := wk_register A (wt_waker s)\<rparr> in (s, watch_outcome (wt_value s)))"

lemma watch_values [simp]:
  "READY \<noteq> PENDING" "PENDING \<noteq> READY" "READY \<noteq> CLOSED" "CLOSED \<noteq> READY" "PENDING \<noteq> CLOSED" "CLOSED \<noteq> PENDING"
  by (simp_all add: READY_def PENDING_def CLOSED_def)

section \<open>Interleaved ends\<close>

text \<open>
  The receiver registers its waker and then loads the value; the sender swaps the value and then
  wakes. \<open>tp_notified\<close> is the state of the receiving task: the executor clears it when it
  polls the task, and a called waker sets it.
\<close>

datatype receiver_pc = RecvIdle | RecvRegistered | RecvPolled "(error + unit) poll"
datatype sender_pc = SendIdle | SendSwapped watch_value bool | SendDropped

record 'k two_party =
  tp_watch :: "'k watch"
  tp_recv :: receiver_pc
  tp_send :: sender_pc
  tp_notified :: bool

definition after_send :: "watch_value \<Rightarrow> sender_pc" where
  "after_send v = (if v = CLOSED then SendDropped else SendIdle)"

definition do_register :: "'k waker_api \<Rightarrow> 'k two_party \<Rightarrow> 'k two_party" where
  "do_register A t = t\<lparr>tp_watch := (tp_watch t)\<lparr>wt_waker := wk_register A (wt_waker (tp_watch t))\<rparr>,
     tp_recv := RecvRegistered, tp_notified := False\<rparr>"

definition do_load :: "'k two_party \<Rightarrow> 'k two_party" where
  "do_load t = t\<lparr>tp_recv := RecvPolled (watch_outcome (wt_value (tp_watch t)))\<rparr>"

definition do_swap :: "watch_value \<Rightarrow> 'k two_party \<Rightarrow> 'k two_party" where
  "do_swap v t = t\<lparr>tp_watch := (tp_watch t)\<lparr>wt_value := v\<rparr>,
     tp_send := SendSwapped v (wt_value (tp_watch t) \<noteq> v)\<rparr>"

definition do_wake :: "'k waker_api \<Rightarrow> watch_value \<Rightarrow> bool \<Rightarrow> 'k two_party \<Rightarrow> 'k two_party" where
  "do_wake A v changed t =
     (if changed then
        case wk_wake A (wt_waker (tp_watch t)) of (woken, k) \<Rightarrow>
          t\<lparr>tp_watch := (tp_watch t)\<lparr>wt_waker := k\<rparr>, tp_send := after_send v,
            tp_notified := (tp_notified t \<or> woken)\<rparr>
      else t\<lparr>tp_send := after_send v\<rparr>)"

inductive watch_step :: "'k waker_api \<Rightarrow> 'k two_party \<Rightarrow> 'k two_party \<Rightarrow> bool" for A where
  Register: "tp_recv t \<noteq> RecvRegistered \<Longrightarrow> watch_step A t (do_register A t)"
| Load: "tp_recv t = RecvRegistered \<Longrightarrow> watch_step A t (do_load t)"
| Swap: "tp_send t = SendIdle \<Longrightarrow> v \<in> {READY, CLOSED} \<Longrightarrow> watch_step A t (do_swap v t)"
| Wake: "tp_send t = SendSwapped v changed \<Longrightarrow> watch_step A t (do_wake A v changed t)"

inductive watch_reachable :: "'k waker_api \<Rightarrow> bool \<Rightarrow> 'k two_party \<Rightarrow> bool" for A wanter where
  start: "watch_reachable A wanter
     \<lparr>tp_watch = watch_channel A wanter, tp_recv = RecvIdle, tp_send = SendIdle, tp_notified = False\<rparr>"
| step: "watch_reachable A wanter t \<Longrightarrow> watch_step A t t' \<Longrightarrow> watch_reachable A wanter t'"

text \<open>The operations are their atomic actions run without interruption.\<close>

lemma watch_send_is_swap_wake:
  "watch_send A v (tp_watch t) =
     (tp_watch (do_wake A v (wt_value (tp_watch t) \<noteq> v) (do_swap v t)),
      tp_notified (do_wake A v (wt_value (tp_watch t) \<noteq> v) (do_swap v t\<lparr>tp_notified := False\<rparr>)))"
  by (auto simp: watch_send_def do_wake_def do_swap_def split: prod.splits)

lemma watch_poll_ready_is_register_load:
  "watch_poll_ready A (tp_watch t) =
     (tp_watch (do_load (do_register A t)),
      (case tp_recv (do_load (do_register A t)) of RecvPolled r \<Rightarrow> r | _ \<Rightarrow> Pending))"
  by (simp add: watch_poll_ready_def do_load_def do_register_def Let_def)

section \<open>No lost wake-up\<close>

text \<open>The contract of \<open>AtomicWaker\<close>: a registered waker is called by the next wake.\<close>

locale atomic_waker =
  fixes A :: "'k waker_api" and armed :: "'k \<Rightarrow> bool"
  assumes armed_register: "armed (wk_register A k)"
    and wake_armed: "armed k \<Longrightarrow> fst (wk_wake A k)"

definition watch_inv :: "('k \<Rightarrow> bool) \<Rightarrow> 'k two_party \<Rightarrow> bool" where
  "watch_inv armed t \<longleftrightarrow>
     wt_value (tp_watch t) \<in> {READY, PENDING, CLOSED} \<and>
     (tp_recv t \<noteq> RecvIdle \<longrightarrow> armed (wt_waker (tp_watch t)) \<or> tp_notified t) \<and>
     (tp_recv t = RecvPolled Pending \<and> wt_value (tp_watch t) \<noteq> PENDING \<longrightarrow>
        tp_notified t \<or> (\<exists>v. tp_send t = SendSwapped v True)) \<and>
     (\<forall>v b. tp_send t = SendSwapped v b \<longrightarrow> v = wt_value (tp_watch t) \<and> v \<in> {READY, CLOSED}) \<and>
     (tp_send t = SendDropped \<longrightarrow> wt_value (tp_watch t) = CLOSED) \<and>
     (\<forall>m. tp_recv t \<noteq> RecvPolled (Panicked m))"

lemma watch_outcome_Pending [simp]:
  "v \<in> {READY, PENDING, CLOSED} \<Longrightarrow> watch_outcome v = Pending \<longleftrightarrow> v = PENDING"
  "v \<in> {READY, PENDING, CLOSED} \<Longrightarrow> watch_outcome v \<noteq> Panicked m"
  by (auto simp: watch_outcome_def)

context atomic_waker
begin

lemma watch_inv_start:
  "watch_inv armed \<lparr>tp_watch = watch_channel A wanter, tp_recv = RecvIdle, tp_send = SendIdle, tp_notified = False\<rparr>"
  by (auto simp: watch_inv_def watch_channel_def)

lemma watch_inv_step: "watch_step A t t' \<Longrightarrow> watch_inv armed t \<Longrightarrow> watch_inv armed t'"
proof (induction rule: watch_step.induct)
  case (Wake t v changed)
  show ?case
  proof (cases changed)
    case True
    have "tp_recv t \<noteq> RecvIdle \<longrightarrow> tp_notified t \<or> fst (wk_wake A (wt_waker (tp_watch t)))"
      using Wake.prems wake_armed by (auto simp: watch_inv_def)
    with Wake True show ?thesis
      by (cases "wk_wake A (wt_waker (tp_watch t))") (auto simp: watch_inv_def do_wake_def after_send_def)
  next
    case False
    with Wake show ?thesis by (auto simp: watch_inv_def do_wake_def after_send_def)
  qed
next
  case (Swap t v)
  then show ?case by (cases "tp_recv t") (auto simp: watch_inv_def do_swap_def)
qed (auto simp: watch_inv_def do_register_def do_load_def armed_register)

lemma watch_reachable_inv: "watch_reachable A wanter t \<Longrightarrow> watch_inv armed t"
  by (induction rule: watch_reachable.induct) (auto intro: watch_inv_start watch_inv_step)

end

text \<open>An atomic waker that remembers whether a waker is stored.\<close>

definition flag_waker :: "bool waker_api" where
  "flag_waker = \<lparr>wk_new = False, wk_register = (\<lambda>_. True), wk_wake = (\<lambda>k. (k, False))\<rparr>"

interpretation flag_waker: atomic_waker flag_waker "\<lambda>k. k"
  by unfold_locales (simp_all add: flag_waker_def)

text \<open>
  C33. However the atomic actions of the two ends interleave, no wake-up is lost: when the producer's
  last poll returned \<open>Pending\<close> and no call of the reader is in progress, either the value still is
  \<open>PENDING\<close> or the producer's task has been notified. Polling never meets an unexpected value, and
  once the reader is dropped the value is \<open>CLOSED\<close>.
\<close>

theorem watch_no_lost_wakeup:
  assumes "atomic_waker A armed" and "watch_reachable A wanter t"
  shows "(tp_recv t = RecvPolled Pending \<and> (\<forall>v b. tp_send t \<noteq> SendSwapped v b) \<longrightarrow>
      wt_value (tp_watch t) = PENDING \<or> tp_notified t) \<and>
    (\<forall>m. snd (watch_poll_ready A (tp_watch t)) \<noteq> Panicked m) \<and>
    (tp_send t = SendDropped \<longrightarrow> snd (watch_poll_ready A (tp_watch t)) = Ready (Inl new_closed))"
proof -
  have inv: "watch_inv armed t" by (rule atomic_waker.watch_reachable_inv [OF assms])
  then have "wt_value (tp_watch t) \<in> {READY, PENDING, CLOSED}" by (simp add: watch_inv_def)
  then have "\<forall>m. snd (watch_poll_ready A (tp_watch t)) \<noteq> Panicked m"
    by (simp add: watch_poll_ready_def Let_def)
  with inv show ?thesis
    by (auto simp: watch_inv_def watch_poll_ready_def Let_def watch_outcome_def)
qed

theorem watch_no_lost_wakeup_witness:
  "\<exists>t. watch_reachable flag_waker True t \<and> tp_recv t = RecvPolled Pending \<and>
     wt_value (tp_watch t) = READY \<and> tp_notified t"
proof -
  define t0 where "t0 = \<lparr>tp_watch = watch_channel flag_waker True, tp_recv = RecvIdle,
    tp_send = SendIdle, tp_notified = False\<rparr>"
  define t1 where "t1 = do_load (do_register flag_waker t0)"
  define t2 where "t2 = do_wake flag_waker READY True (do_swap READY t1)"
  have "watch_reachable flag_waker True t0" unfolding t0_def by (rule watch_reachable.start)
  moreover have "watch_step flag_waker t0 (do_register flag_waker t0)"
    by (rule watch_step.Register) (simp add: t0_def)
  moreover have "watch_step flag_waker (do_register flag_waker t0) t1"
    unfolding t1_def by (rule watch_step.Load) (simp add: do_register_def)
  moreover have "watch_step flag_waker t1 (do_swap READY t1)"
    by (rule watch_step.Swap) (simp_all add: t1_def t0_def do_load_def do_register_def)
  moreover have "watch_step flag_waker (do_swap READY t1) t2"
    unfolding t2_def by (rule watch_step.Wake)
      (simp add: do_swap_def t1_def t0_def do_load_def do_register_def watch_channel_def)
  ultimately have r: "watch_reachable flag_waker True t2" by (blast intro: watch_reachable.step)
  have "tp_recv t2 = RecvPolled Pending" "wt_value (tp_watch t2) = READY" "tp_send t2 = SendIdle"
    by (simp_all add: t2_def t1_def t0_def do_wake_def do_swap_def do_load_def do_register_def
        watch_channel_def watch_outcome_def after_send_def flag_waker_def)
  with watch_no_lost_wakeup [OF flag_waker.atomic_waker_axioms r] r show ?thesis by auto
qed

end
