(* ===== verification/Incoming.thy ===== *)
theory Incoming
  imports Watch Ping Body_Length Decode
begin

text \<open>
  \<open>body/incoming.rs\<close>: the body of a response as its reader sees it, fed by the HTTP/1 dispatcher
  through a channel (\<open>Kind::H1\<close>), read from an HTTP/2 stream (\<open>Kind::H2\<close>), or empty.

  The bounded channel and the one-shot channel of \<open>futures_channel\<close>, and \<open>http2::RecvStream\<close>, are
  parameters. The state the two ends of an HTTP/1 body share is a \<open>body_chan\<close>, which is passed
  beside the ends.
\<close>

record ('m, 'o, 'h) channel_api =
  mp_new :: 'm
  mp_is_terminated :: "'m \<Rightarrow> bool"
  mp_poll_next :: "'m \<Rightarrow> (error + bytes) option poll \<times> 'm"
  mp_poll_ready :: "'m \<Rightarrow> bool poll \<times> 'm"
  mp_try_send :: "'m \<Rightarrow> error + bytes \<Rightarrow> bool \<times> 'm"
  mp_clone_try_send :: "'m \<Rightarrow> error + bytes \<Rightarrow> bool \<times> 'm"
  mp_drop_tx :: "'m \<Rightarrow> 'm"
  os_new :: 'o
  os_send :: "'o \<Rightarrow> 'h \<Rightarrow> bool \<times> 'o"
  os_poll :: "'o \<Rightarrow> 'h option poll \<times> 'o"
  os_drop_tx :: "'o \<Rightarrow> 'o"

record ('r, 'h) recv_stream_api =
  rs_is_end_stream :: "'r \<Rightarrow> bool"
  rs_poll_data :: "'r \<Rightarrow> (h2_error + bytes) option poll \<times> 'r"
  rs_release_capacity :: "'r \<Rightarrow> nat \<Rightarrow> 'r"
  rs_poll_trailers :: "'r \<Rightarrow> (h2_error + 'h option) poll \<times> 'r"

record ('k, 'm, 'o) body_chan =
  bc_want :: "'k watch"
  bc_data :: 'm
  bc_trailers :: 'o

text \<open>\<open>http_body::SizeHint\<close>: a lower bound and possibly an upper bound.\<close>

record size_hint =
  hint_lower :: u64
  hint_upper :: "u64 option"

definition hint_exact :: "size_hint \<Rightarrow> u64 option" where
  "hint_exact s = (if hint_upper s = Some (hint_lower s) then Some (hint_lower s) else None)"

definition with_exact :: "u64 \<Rightarrow> size_hint" where
  "with_exact n = \<lparr>hint_lower = n, hint_upper = Some n\<rparr>"

definition hint_default :: size_hint where
  "hint_default = \<lparr>hint_lower = 0, hint_upper = None\<rparr>"

section \<open>Incoming\<close>

datatype 'r incoming =
    KindH1 decoded_length
  | KindH2 recorder 'r decoded_length bool
  | KindEmpty

text \<open>The producer's end: whether \<open>trailers_tx\<close> is still there.\<close>

datatype body_sender = Sender (trailers_tx: bool)

definition incoming_empty :: "'r incoming" where
  "incoming_empty = KindEmpty"

definition incoming_h1 ::
  "'k waker_api \<Rightarrow> ('m, 'o, 'h) channel_api \<Rightarrow> decoded_length \<Rightarrow> bool \<Rightarrow>
   body_sender \<times> 'r incoming \<times> ('k, 'm, 'o) body_chan" where
  "incoming_h1 A C content_length wanter =
     (Sender True, KindH1 content_length,
      \<lparr>bc_want = watch_channel A wanter, bc_data = mp_new C, bc_trailers = os_new C\<rparr>)"

definition incoming_h2 ::
  "('r, 'h) recv_stream_api \<Rightarrow> 'r \<Rightarrow> decoded_length \<Rightarrow> recorder \<Rightarrow> 'r incoming" where
  "incoming_h2 R recv content_length ping =
     KindH2 ping recv
       (if \<not> is_exact content_length \<and> rs_is_end_stream R recv then ZERO else content_length) False"

text \<open>Polling the trailers of an HTTP/1 body, after the data has ended.\<close>

definition h1_poll_trailers ::
  "('m, 'o, 'h) channel_api \<Rightarrow> decoded_length \<Rightarrow> ('k, 'm, 'o) body_chan \<Rightarrow>
   (error + 'h frame) option poll \<times> decoded_length \<times> ('k, 'm, 'o) body_chan" where
  "h1_poll_trailers C len ch =
     (case os_poll C (bc_trailers ch) of (r, tr) \<Rightarrow>
        let ch = ch\<lparr>bc_trailers := tr\<rparr> in
        case r of
          Pending \<Rightarrow> (Pending, len, ch)
        | Panicked m \<Rightarrow> (Panicked m, len, ch)
        | Ready (Some t) \<Rightarrow> (Ready (Some (Inr (FrameTrailers t))), len, ch)
        | Ready None \<Rightarrow> (Ready None, len, ch))"

definition h1_poll_frame ::
  "'k waker_api \<Rightarrow> ('m, 'o, 'h) channel_api \<Rightarrow> decoded_length \<Rightarrow> ('k, 'm, 'o) body_chan \<Rightarrow>
   (error + 'h frame) option poll \<times> decoded_length \<times> ('k, 'm, 'o) body_chan" where
  "h1_poll_frame A C len ch =
     (let ch = ch\<lparr>bc_want := fst (watch_ready A (bc_want ch))\<rparr> in
      if mp_is_terminated C (bc_data ch) then h1_poll_trailers C len ch
      else case mp_poll_next C (bc_data ch) of (r, d) \<Rightarrow>
        let ch = ch\<lparr>bc_data := d\<rparr> in
        case r of
          Pending \<Rightarrow> (Pending, len, ch)
        | Panicked m \<Rightarrow> (Panicked m, len, ch)
        | Ready (Some (Inl e)) \<Rightarrow> (Ready (Some (Inl e)), len, ch)
        | Ready (Some (Inr chunk)) \<Rightarrow>
            (Ready (Some (Inr (FrameData chunk))), sub_if len (of_nat (length chunk)), ch)
        | Ready None \<Rightarrow> h1_poll_trailers C len ch)"

text \<open>\<open>http2::Reason::NO_ERROR\<close>: the peer answered early and needs no more of the stream.\<close>

definition H2_NO_ERROR :: nat where "H2_NO_ERROR = 0"

definition h2_poll_trailers ::
  "('w, 't, 'sl, 'pp) ping_env \<Rightarrow> ('r, 'h) recv_stream_api \<Rightarrow> recorder \<Rightarrow> 'r \<Rightarrow>
   ('t, 'pp) shared \<Rightarrow> 'w \<Rightarrow> (error + 'h frame) option poll \<times> 'r \<times> ('t, 'pp) shared \<times> 'w" where
  "h2_poll_trailers E R ping recv sh w =
     (case rs_poll_trailers R recv of
        (Pending, recv) \<Rightarrow> (Pending, recv, sh, w)
      | (Panicked m, recv) \<Rightarrow> (Panicked m, recv, sh, w)
      | (Ready (Inr t), recv) \<Rightarrow>
          (case record_non_data E ping sh w of (sh, w) \<Rightarrow>
             (Ready (map_option (\<lambda>h. Inr (FrameTrailers h)) t), recv, sh, w))
      | (Ready (Inl e), recv) \<Rightarrow>
          (Ready (if h2_error_reason e = Some H2_NO_ERROR then None else Some (Inl (new_h2 e))),
           recv, sh, w))"

definition h2_poll_frame ::
  "('w, 't, 'sl, 'pp) ping_env \<Rightarrow> ('r, 'h) recv_stream_api \<Rightarrow> recorder \<Rightarrow> 'r \<Rightarrow> decoded_length \<Rightarrow> bool \<Rightarrow>
   ('t, 'pp) shared \<Rightarrow> 'w \<Rightarrow>
   (error + 'h frame) option poll \<times> 'r incoming \<times> ('t, 'pp) shared \<times> 'w" where
  "h2_poll_frame E R ping recv len data_done sh w =
     (let trailers = (\<lambda>recv. case h2_poll_trailers E R ping recv sh w of (r, recv, sh, w) \<Rightarrow>
            (r, KindH2 ping recv len True, sh, w)) in
      if data_done then trailers recv
      else case rs_poll_data R recv of
        (Pending, recv) \<Rightarrow> (Pending, KindH2 ping recv len False, sh, w)
      | (Panicked m, recv) \<Rightarrow> (Panicked m, KindH2 ping recv len False, sh, w)
      | (Ready (Some (Inr chunk)), recv) \<Rightarrow>
          let recv = rs_release_capacity R recv (length chunk);
              len = sub_if len (of_nat (length chunk)) in
          (case record_data E ping sh (of_nat (length chunk)) w of (sh, w) \<Rightarrow>
             (Ready (Some (Inr (FrameData chunk))), KindH2 ping recv len False, sh, w))
      | (Ready (Some (Inl e)), recv) \<Rightarrow>
          (Ready (if h2_error_reason e = Some H2_NO_ERROR then None
                  else Some (Inl (new_body (CauseH2 e)))),
           KindH2 ping recv len False, sh, w)
      | (Ready None, recv) \<Rightarrow> trailers recv)"

fun incoming_poll_frame ::
  "('w, 't, 'sl, 'pp) ping_env \<Rightarrow> ('r, 'h) recv_stream_api \<Rightarrow> 'k waker_api \<Rightarrow> ('m, 'o, 'h) channel_api \<Rightarrow>
   'r incoming \<Rightarrow> ('k, 'm, 'o) body_chan \<times> ('t, 'pp) shared \<times> 'w \<Rightarrow>
   (error + 'h frame) option poll \<times> 'r incoming \<times> ('k, 'm, 'o) body_chan \<times> ('t, 'pp) shared \<times> 'w" where
  "incoming_poll_frame E R A C (KindH1 len) (ch, sh, w) =
     (case h1_poll_frame A C len ch of (r, len, ch) \<Rightarrow> (r, KindH1 len, ch, sh, w))"
| "incoming_poll_frame E R A C (KindH2 ping recv len data_done) (ch, sh, w) =
     (case h2_poll_frame E R ping recv len data_done sh w of (r, b, sh, w) \<Rightarrow> (r, b, ch, sh, w))"
| "incoming_poll_frame E R A C KindEmpty (ch, sh, w) = (Ready None, KindEmpty, ch, sh, w)"

fun incoming_is_end_stream :: "('r, 'h) recv_stream_api \<Rightarrow> 'r incoming \<Rightarrow> bool" where
  "incoming_is_end_stream R (KindH1 len) \<longleftrightarrow> len = ZERO"
| "incoming_is_end_stream R (KindH2 ping recv len data_done) \<longleftrightarrow> rs_is_end_stream R recv"
| "incoming_is_end_stream R KindEmpty \<longleftrightarrow> True"

definition hint_of_length :: "decoded_length \<Rightarrow> size_hint" where
  "hint_of_length len = (case into_opt len of None \<Rightarrow> hint_default | Some n \<Rightarrow> with_exact n)"

fun incoming_size_hint :: "'r incoming \<Rightarrow> size_hint" where
  "incoming_size_hint (KindH1 len) = hint_of_length len"
| "incoming_size_hint (KindH2 ping recv len data_done) = hint_of_length len"
| "incoming_size_hint KindEmpty = with_exact 0"

section \<open>Sender\<close>

definition sender_poll_ready ::
  "'k waker_api \<Rightarrow> ('m, 'o, 'h) channel_api \<Rightarrow> ('k, 'm, 'o) body_chan \<Rightarrow>
   ('k, 'm, 'o) body_chan \<times> (error + unit) poll" where
  "sender_poll_ready A C ch =
     (case watch_poll_ready A (bc_want ch) of (wt, r) \<Rightarrow>
        let ch = ch\<lparr>bc_want := wt\<rparr> in
        case r of
          Pending \<Rightarrow> (ch, Pending)
        | Panicked m \<Rightarrow> (ch, Panicked m)
        | Ready (Inl e) \<Rightarrow> (ch, Ready (Inl e))
        | Ready (Inr u) \<Rightarrow>
            (case mp_poll_ready C (bc_data ch) of (r, d) \<Rightarrow>
               (ch\<lparr>bc_data := d\<rparr>,
                case r of Pending \<Rightarrow> Pending | Panicked m \<Rightarrow> Panicked m
                | Ready ok \<Rightarrow> Ready (if ok then Inr () else Inl new_closed))))"

definition sender_send_data ::
  "('m, 'o, 'h) channel_api \<Rightarrow> bytes \<Rightarrow> ('k, 'm, 'o) body_chan \<Rightarrow>
   (bytes + unit) \<times> ('k, 'm, 'o) body_chan" where
  "sender_send_data C chunk ch =
     (case mp_try_send C (bc_data ch) (Inr chunk) of (ok, d) \<Rightarrow>
        (if ok then Inr () else Inl chunk, ch\<lparr>bc_data := d\<rparr>))"

definition sender_send_trailers ::
  "('m, 'o, 'h) channel_api \<Rightarrow> body_sender \<Rightarrow> 'h \<Rightarrow> ('k, 'm, 'o) body_chan \<Rightarrow>
   ('h option + unit) \<times> body_sender \<times> ('k, 'm, 'o) body_chan" where
  "sender_send_trailers C s trailers ch =
     (if trailers_tx s
      then case os_send C (bc_trailers ch) trailers of (ok, tr) \<Rightarrow>
             (if ok then Inr () else Inl (Some trailers), Sender False, ch\<lparr>bc_trailers := tr\<rparr>)
      else (Inl None, s, ch))"

definition sender_send_error ::
  "('m, 'o, 'h) channel_api \<Rightarrow> error \<Rightarrow> ('k, 'm, 'o) body_chan \<Rightarrow> ('k, 'm, 'o) body_chan" where
  "sender_send_error C e ch = ch\<lparr>bc_data := snd (mp_clone_try_send C (bc_data ch) (Inl e))\<rparr>"

text \<open>Dropping the producer's end drops what is left of its two senders.\<close>

definition sender_drop ::
  "('m, 'o, 'h) channel_api \<Rightarrow> body_sender \<Rightarrow> ('k, 'm, 'o) body_chan \<Rightarrow> ('k, 'm, 'o) body_chan" where
  "sender_drop C s ch =
     ch\<lparr>bc_data := mp_drop_tx C (bc_data ch),
        bc_trailers := (if trailers_tx s then os_drop_tx C (bc_trailers ch) else bc_trailers ch)\<rparr>"

end
