(* ===== verification/Request_Channel.thy ===== *)
theory Request_Channel
  imports Errors
begin

text \<open>
  \<open>dispatch.rs\<close>: the channel by which requests reach a connection, each with the callback that
  resolves the caller's promise. Dropping values has effects here, so the drops that Rust inserts
  are operations of their own: a callback that is dropped and an envelope that is dropped resolve
  the promise they carry.

  The queue and the promises are the \<open>mpsc\<close> and \<open>oneshot\<close> channels of \<open>tokio\<close> and the demand
  signal is the crate \<open>want\<close>: parameters (\<open>dispatch_api\<close>). A promise is known by the name \<open>'tx\<close>
  of its sending half.
\<close>

record 't try_send_error =
  tse_error :: error
  tse_message :: "'t option"

type_synonym ('t, 'u) reply = "'t try_send_error + 'u"

datatype 'tx callback = Callback (cb_sender: "'tx option")

datatype ('t, 'tx) envelope = Envelope (env_content: "('t \<times> 'tx callback) option")

record ('t, 'u, 'tx, 'q, 'g, 'p) dispatch_api =
  q_new :: 'q
  q_send :: "'q \<Rightarrow> ('t, 'tx) envelope \<Rightarrow> bool \<times> 'q"
  q_poll_recv :: "'q \<Rightarrow> ('t, 'tx) envelope option poll \<times> 'q"
  q_recv_now :: "'q \<Rightarrow> ('t, 'tx) envelope option option \<times> 'q"
  q_close :: "'q \<Rightarrow> 'q"
  q_drop_rx :: "'q \<Rightarrow> ('t, 'tx) envelope list \<times> 'q"
  g_new :: 'g
  g_give :: "'g \<Rightarrow> bool \<times> 'g"
  g_poll_want :: "'g \<Rightarrow> bool poll \<times> 'g"
  g_is_wanting :: "'g \<Rightarrow> bool"
  g_is_canceled :: "'g \<Rightarrow> bool"
  g_want :: "'g \<Rightarrow> 'g"
  g_cancel :: "'g \<Rightarrow> 'g"
  p_new :: "'p \<Rightarrow> 'tx \<times> 'p"
  p_send :: "'p \<Rightarrow> 'tx \<Rightarrow> ('t, 'u) reply \<Rightarrow> bool \<times> 'p"
  p_is_closed :: "'p \<Rightarrow> 'tx \<Rightarrow> bool"
  p_poll_closed :: "'p \<Rightarrow> 'tx \<Rightarrow> unit poll \<times> 'p"

text \<open>What the two ends share: the queue, the demand signal and the promises.\<close>

record ('q, 'g, 'p) chan =
  ch_queue :: 'q
  ch_want :: 'g
  ch_promises :: 'p

datatype request_sender = RequestSender (buffered_once: bool)

definition dispatch_channel :: "('t, 'u, 'tx, 'q, 'g, 'p) dispatch_api \<Rightarrow> 'p \<Rightarrow> request_sender \<times> ('q, 'g, 'p) chan" where
  "dispatch_channel D p = (RequestSender False, \<lparr>ch_queue = q_new D, ch_want = g_new D, ch_promises = p\<rparr>)"

section \<open>Callback and Envelope\<close>

text \<open>\<open>panicking\<close> is \<open>std::thread::panicking()\<close>.\<close>

definition dispatch_gone :: "bool \<Rightarrow> error" where
  "dispatch_gone panicking =
     error_with new_user_dispatch_gone
       (CauseMessage (if panicking then ''user code panicked'' else ''runtime dropped the dispatch task''))"

definition callback_drop ::
  "('t, 'u, 'tx, 'q, 'g, 'p) dispatch_api \<Rightarrow> bool \<Rightarrow> 'tx callback \<Rightarrow> 'p \<Rightarrow> 'p" where
  "callback_drop D panicking cb p =
     (case cb_sender cb of
        None \<Rightarrow> p
      | Some tx \<Rightarrow> snd (p_send D p tx (Inl \<lparr>tse_error = dispatch_gone panicking, tse_message = None\<rparr>)))"

definition MISSING_SENDER :: string where
  "MISSING_SENDER = ''callback sender missing''"

definition callback_is_canceled ::
  "('t, 'u, 'tx, 'q, 'g, 'p) dispatch_api \<Rightarrow> 'tx callback \<Rightarrow> 'p \<Rightarrow> bool rust" where
  "callback_is_canceled D cb p = (case cb_sender cb of
     None \<Rightarrow> Panic MISSING_SENDER | Some tx \<Rightarrow> Return (p_is_closed D p tx))"

definition callback_poll_canceled ::
  "('t, 'u, 'tx, 'q, 'g, 'p) dispatch_api \<Rightarrow> 'tx callback \<Rightarrow> 'p \<Rightarrow> unit poll \<times> 'p" where
  "callback_poll_canceled D cb p = (case cb_sender cb of
     None \<Rightarrow> (Panicked MISSING_SENDER, p) | Some tx \<Rightarrow> p_poll_closed D p tx)"

text \<open>\<open>send\<close> takes the sender out, so that the drop of the callback that follows does nothing.\<close>

definition callback_send ::
  "('t, 'u, 'tx, 'q, 'g, 'p) dispatch_api \<Rightarrow> 'tx callback \<Rightarrow> ('t, 'u) reply \<Rightarrow> 'p \<Rightarrow> 'p rust" where
  "callback_send D cb val p = (case cb_sender cb of
     None \<Rightarrow> Panic MISSING_SENDER
   | Some tx \<Rightarrow> Return (callback_drop D False (Callback None) (snd (p_send D p tx val))))"

definition envelope_drop ::
  "('t, 'u, 'tx, 'q, 'g, 'p) dispatch_api \<Rightarrow> ('t, 'tx) envelope \<Rightarrow> 'p \<Rightarrow> 'p rust" where
  "envelope_drop D env p = (case env_content env of
     None \<Rightarrow> Return p
   | Some (val, cb) \<Rightarrow>
       callback_send D cb
         (Inl \<lparr>tse_error = error_with new_canceled (CauseMessage ''connection closed''), tse_message = Some val\<rparr>) p)"

section \<open>Sender\<close>

definition dispatch_poll_ready ::
  "('t, 'u, 'tx, 'q, 'g, 'p) dispatch_api \<Rightarrow> ('q, 'g, 'p) chan \<Rightarrow> (error + unit) poll \<times> ('q, 'g, 'p) chan" where
  "dispatch_poll_ready D c =
     (case g_poll_want D (ch_want c) of (r, g) \<Rightarrow>
        (case r of Pending \<Rightarrow> Pending | Panicked m \<Rightarrow> Panicked m
         | Ready ok \<Rightarrow> Ready (if ok then Inr () else Inl new_closed), c\<lparr>ch_want := g\<rparr>))"

definition dispatch_is_ready :: "('t, 'u, 'tx, 'q, 'g, 'p) dispatch_api \<Rightarrow> ('q, 'g, 'p) chan \<Rightarrow> bool" where
  "dispatch_is_ready D c = g_is_wanting D (ch_want c)"

text \<open>
  The tail both senders share: a new promise, whose name the caller gets, and the envelope in the
  queue. When the receiver is gone the value comes back and its callback is dropped.
\<close>

definition enqueue ::
  "('t, 'u, 'tx, 'q, 'g, 'p) dispatch_api \<Rightarrow> 't \<Rightarrow> ('q, 'g, 'p) chan \<Rightarrow> ('t + 'tx) \<times> ('q, 'g, 'p) chan" where
  "enqueue D val c =
     (case p_new D (ch_promises c) of (tx, p) \<Rightarrow>
      case q_send D (ch_queue c) (Envelope (Some (val, Callback (Some tx)))) of (ok, q) \<Rightarrow>
        if ok then (Inr tx, c\<lparr>ch_queue := q, ch_promises := p\<rparr>)
        else (Inl val, c\<lparr>ch_queue := q, ch_promises := callback_drop D False (Callback (Some tx)) p\<rparr>))"

definition dispatch_try_send ::
  "('t, 'u, 'tx, 'q, 'g, 'p) dispatch_api \<Rightarrow> request_sender \<Rightarrow> 't \<Rightarrow> ('q, 'g, 'p) chan \<Rightarrow>
   ('t + 'tx) \<times> request_sender \<times> ('q, 'g, 'p) chan" where
  "dispatch_try_send D s val c =
     (case g_give D (ch_want c) of (given, g) \<Rightarrow>
        let c = c\<lparr>ch_want := g\<rparr> in
        if given \<or> \<not> buffered_once s
        then (case enqueue D val c of (r, c) \<Rightarrow> (r, RequestSender True, c))
        else (Inl val, s, c))"

text \<open>The unbounded sender has no state of its own.\<close>

definition unbounded_is_ready :: "('t, 'u, 'tx, 'q, 'g, 'p) dispatch_api \<Rightarrow> ('q, 'g, 'p) chan \<Rightarrow> bool" where
  "unbounded_is_ready D c \<longleftrightarrow> \<not> g_is_canceled D (ch_want c)"

definition unbounded_is_closed :: "('t, 'u, 'tx, 'q, 'g, 'p) dispatch_api \<Rightarrow> ('q, 'g, 'p) chan \<Rightarrow> bool" where
  "unbounded_is_closed D c = g_is_canceled D (ch_want c)"

definition unbounded_try_send ::
  "('t, 'u, 'tx, 'q, 'g, 'p) dispatch_api \<Rightarrow> 't \<Rightarrow> ('q, 'g, 'p) chan \<Rightarrow> ('t + 'tx) \<times> ('q, 'g, 'p) chan" where
  "unbounded_try_send D val c = enqueue D val c"

section \<open>Receiver\<close>

definition dispatch_poll_recv ::
  "('t, 'u, 'tx, 'q, 'g, 'p) dispatch_api \<Rightarrow> ('q, 'g, 'p) chan \<Rightarrow>
   ('t \<times> 'tx callback) option poll \<times> ('q, 'g, 'p) chan" where
  "dispatch_poll_recv D c =
     (case q_poll_recv D (ch_queue c) of (r, q) \<Rightarrow>
        let c = c\<lparr>ch_queue := q\<rparr> in
        case r of
          Ready None \<Rightarrow> (Ready None, c)
        | Ready (Some env) \<Rightarrow>
            (case env_content env of
               None \<Rightarrow> (Panicked ''envelope not dropped'', c)
             | Some m \<Rightarrow> (Ready (Some m), c))
        | Pending \<Rightarrow> (Pending, c\<lparr>ch_want := g_want D (ch_want c)\<rparr>)
        | Panicked m \<Rightarrow> (Panicked m, c))"

definition dispatch_close :: "('t, 'u, 'tx, 'q, 'g, 'p) dispatch_api \<Rightarrow> ('q, 'g, 'p) chan \<Rightarrow> ('q, 'g, 'p) chan" where
  "dispatch_close D c = c\<lparr>ch_want := g_cancel D (ch_want c), ch_queue := q_close D (ch_queue c)\<rparr>"

definition dispatch_try_recv ::
  "('t, 'u, 'tx, 'q, 'g, 'p) dispatch_api \<Rightarrow> ('q, 'g, 'p) chan \<Rightarrow>
   ('t \<times> 'tx callback) option \<times> ('q, 'g, 'p) chan" where
  "dispatch_try_recv D c =
     (case q_recv_now D (ch_queue c) of (r, q) \<Rightarrow>
        (case r of Some (Some env) \<Rightarrow> env_content env | _ \<Rightarrow> None, c\<lparr>ch_queue := q\<rparr>))"

fun drop_all ::
  "('t, 'u, 'tx, 'q, 'g, 'p) dispatch_api \<Rightarrow> ('t, 'tx) envelope list \<Rightarrow> 'p \<Rightarrow> 'p rust" where
  "drop_all D [] p = Return p"
| "drop_all D (e # es) p = rust_bind (envelope_drop D e p) (drop_all D es)"

text \<open>Dropping the receiver cancels the demand first and then drops the queue and what is in it.\<close>

definition dispatch_drop_receiver ::
  "('t, 'u, 'tx, 'q, 'g, 'p) dispatch_api \<Rightarrow> ('q, 'g, 'p) chan \<Rightarrow> ('q, 'g, 'p) chan rust" where
  "dispatch_drop_receiver D c =
     (let c = c\<lparr>ch_want := g_cancel D (ch_want c)\<rparr> in
      case q_drop_rx D (ch_queue c) of (es, q) \<Rightarrow>
        rust_bind (drop_all D es (ch_promises c)) (\<lambda>p. Return (c\<lparr>ch_queue := q, ch_promises := p\<rparr>)))"

section \<open>SendWhen\<close>

text \<open>
  The task that waits for an HTTP/2 response. The response future is a parameter: \<open>fut_poll\<close>
  yields a response or an error with the request it may return, \<open>fut_cancel\<close> cancels it.
\<close>

record ('f, 't, 'u) response_fut =
  fut_poll :: "'f \<Rightarrow> ((error \<times> 't option) + 'u) poll \<times> 'f"
  fut_cancel :: "'f \<Rightarrow> 'f"

record ('f, 'tx) send_when =
  sw_when :: 'f
  sw_call_back :: "'tx callback option"

definition send_when_poll ::
  "('t, 'u, 'tx, 'q, 'g, 'p) dispatch_api \<Rightarrow> ('f, 't, 'u) response_fut \<Rightarrow> ('f, 'tx) send_when \<Rightarrow> 'p \<Rightarrow>
   (unit poll \<times> ('f, 'tx) send_when \<times> 'p) rust" where
  "send_when_poll D F s p =
     (case sw_call_back s of
        None \<Rightarrow> Panic ''polled after complete''
      | Some cb \<Rightarrow>
          (case fut_poll F (sw_when s) of (r, f) \<Rightarrow>
             let s = s\<lparr>sw_when := f, sw_call_back := None\<rparr> in
             case r of
               Panicked m \<Rightarrow> Panic m
             | Ready (Inr res) \<Rightarrow>
                 rust_bind (callback_send D cb (Inr res) p) (\<lambda>p. Return (Ready (), s, p))
             | Ready (Inl (e, msg)) \<Rightarrow>
                 rust_bind (callback_send D cb (Inl \<lparr>tse_error = e, tse_message = msg\<rparr>) p)
                   (\<lambda>p. Return (Ready (), s, p))
             | Pending \<Rightarrow>
                 (case callback_poll_canceled D cb p of
                    (Panicked m, p) \<Rightarrow> Panic m
                  | (Pending, p) \<Rightarrow> Return (Pending, s\<lparr>sw_call_back := Some cb\<rparr>, p)
                  | (Ready u, p) \<Rightarrow>
                      Return (Ready (), s\<lparr>sw_when := fut_cancel F f\<rparr>, callback_drop D False cb p))))"

end
