(* ===== verification/Dispatcher.thy ===== *)
theory Dispatcher
  imports Conn Incoming Request_Channel
begin

text \<open>
  \<open>proto/http1/dispatch.rs\<close>: the task that drives an HTTP/1 connection. It takes requests from the
  request channel, writes them and their bodies, reads responses, answers the callback of the
  request and feeds the response body into its channel.

  The loops of \<open>poll_read\<close> and \<open>poll_write\<close> are iterations of a turn, which says whether the loop
  goes on; a loop that does not end is \<open>None\<close>. The state that the dispatcher shares with the caller
  (the request channel) and with the reader of the current response body is kept beside it. A value
  that goes out of scope is dropped explicitly where dropping has an effect. The user's body is a
  parameter (\<open>user_body\<close>). The type \<open>D\<close> of the source is fixed to \<open>Client\<close>, its only instance.
\<close>

section \<open>Data\<close>

record ('h, 'bd) request =
  rq_head :: "'h request_head"
  rq_body :: 'bd

text \<open>A response: its head, the pending upgrade put into its extensions, and its body.\<close>

record ('h, 'r) response =
  rp_head :: "'h response_head"
  rp_upgrade :: "nat option"
  rp_body :: "'r incoming"

datatype ('b, 'h) user_frame = UserData 'b | UserTrailers 'h | UserOther

record ('bd, 'b, 'h) user_body =
  ub_is_end_stream :: "'bd \<Rightarrow> bool"
  ub_size_exact :: "'bd \<Rightarrow> u64 option"
  ub_poll_frame :: "'bd \<Rightarrow> (cause + ('b, 'h) user_frame) option poll \<times> 'bd"

record ('io, 'b, 'h, 'tx, 'q, 'g, 'p, 'k, 'm, 'o, 'bd, 'r) disp_env =
  de_conn :: "('io, 'b, 'h) conn_env"
  de_chan :: "(('h, 'bd) request, ('h, 'r) response, 'tx, 'q, 'g, 'p) dispatch_api"
  de_waker :: "'k waker_api"
  de_body :: "('m, 'o, 'h) channel_api"
  de_user :: "('bd, 'b, 'h) user_body"
  de_upgrade :: nat

text \<open>
  The dispatcher with the \<open>Client\<close> inside it (\<open>d_callback\<close>, \<open>d_rx_closed\<close>); \<open>d_woken\<close> records that
  the task asked to be polled again.
\<close>

record ('io, 'b, 'h, 'tx, 'q, 'g, 'p, 'k, 'm, 'o, 'bd) dispatcher =
  d_conn :: "('io, 'b, 'h) conn"
  d_callback :: "'tx callback option"
  d_rx_closed :: bool
  d_body_tx :: "body_sender option"
  d_body_rx :: "'bd option"
  d_is_closing :: bool
  d_woken :: bool
  d_chan :: "('q, 'g, 'p) chan"
  d_body_chan :: "('k, 'm, 'o) body_chan"

datatype dispatched = DispatchedShutdown | DispatchedUpgrade nat

datatype 'a turn = Again | Done 'a

text \<open>\<open>Dispatcher::new\<close> with \<open>Client::new\<close>; there is no response body yet.\<close>

definition dispatcher_new ::
  "('io, 'b, 'h) conn \<Rightarrow> ('q, 'g, 'p) chan \<Rightarrow> ('k, 'm, 'o) body_chan \<Rightarrow>
   ('io, 'b, 'h, 'tx, 'q, 'g, 'p, 'k, 'm, 'o, 'bd) dispatcher" where
  "dispatcher_new c chan ch =
     \<lparr>d_conn = c, d_callback = None, d_rx_closed = False, d_body_tx = None, d_body_rx = None,
      d_is_closing = False, d_woken = False, d_chan = chan, d_body_chan = ch\<rparr>"

definition dispatcher_into_inner ::
  "('io, 'b, 'h, 'tx, 'q, 'g, 'p, 'k, 'm, 'o, 'bd) dispatcher \<Rightarrow> 'io \<times> bytes" where
  "dispatcher_into_inner d = conn_into_inner (d_conn d)"

section \<open>SenderGuard\<close>

text \<open>Dropping a body sender, and assigning one over another.\<close>

definition drop_body ::
  "('io, 'b, 'h, 'tx, 'q, 'g, 'p, 'k, 'm, 'o, 'bd, 'r) disp_env \<Rightarrow> body_sender option \<Rightarrow>
   ('io, 'b, 'h, 'tx, 'q, 'g, 'p, 'k, 'm, 'o, 'bd) dispatcher \<Rightarrow>
   ('io, 'b, 'h, 'tx, 'q, 'g, 'p, 'k, 'm, 'o, 'bd) dispatcher" where
  "drop_body E s d = (case s of None \<Rightarrow> d
     | Some t \<Rightarrow> d\<lparr>d_body_chan := sender_drop (de_body E) t (d_body_chan d)\<rparr>)"

definition set_body_tx ::
  "('io, 'b, 'h, 'tx, 'q, 'g, 'p, 'k, 'm, 'o, 'bd, 'r) disp_env \<Rightarrow> body_sender \<Rightarrow>
   ('io, 'b, 'h, 'tx, 'q, 'g, 'p, 'k, 'm, 'o, 'bd) dispatcher \<Rightarrow>
   ('io, 'b, 'h, 'tx, 'q, 'g, 'p, 'k, 'm, 'o, 'bd) dispatcher" where
  "set_body_tx E s d = (drop_body E (d_body_tx d) d)\<lparr>d_body_tx := Some s\<rparr>"

definition guard_drop ::
  "('io, 'b, 'h, 'tx, 'q, 'g, 'p, 'k, 'm, 'o, 'bd, 'r) disp_env \<Rightarrow> error \<Rightarrow>
   ('io, 'b, 'h, 'tx, 'q, 'g, 'p, 'k, 'm, 'o, 'bd) dispatcher \<Rightarrow>
   ('io, 'b, 'h, 'tx, 'q, 'g, 'p, 'k, 'm, 'o, 'bd) dispatcher" where
  "guard_drop E e d = (case d_body_tx d of None \<Rightarrow> d
     | Some s \<Rightarrow> drop_body E (Some s)
         (d\<lparr>d_body_tx := None, d_body_chan := sender_send_error (de_body E) e (d_body_chan d)\<rparr>))"

section \<open>Client\<close>

definition client_poll_msg ::
  "('io, 'b, 'h, 'tx, 'q, 'g, 'p, 'k, 'm, 'o, 'bd, 'r) disp_env \<Rightarrow>
   ('io, 'b, 'h, 'tx, 'q, 'g, 'p, 'k, 'm, 'o, 'bd) dispatcher \<Rightarrow>
   ('io, 'b, 'h, 'tx, 'q, 'g, 'p, 'k, 'm, 'o, 'bd) dispatcher \<times> ('h request_head \<times> 'bd) option poll" where
  "client_poll_msg E d =
     (case dispatch_poll_recv (de_chan E) (d_chan d) of (r, chan) \<Rightarrow>
        let d = d\<lparr>d_chan := chan\<rparr> in
        case r of
          Pending \<Rightarrow> (d, Pending)
        | Panicked m \<Rightarrow> (d, Panicked m)
        | Ready None \<Rightarrow> (d\<lparr>d_rx_closed := True\<rparr>, Ready None)
        | Ready (Some (req, cb)) \<Rightarrow>
            (case callback_poll_canceled (de_chan E) cb (ch_promises chan) of (canceled, p) \<Rightarrow>
               let d = d\<lparr>d_chan := chan\<lparr>ch_promises := p\<rparr>\<rparr> in
               case canceled of
                 Panicked m \<Rightarrow> (d, Panicked m)
               | Ready u \<Rightarrow>
                   (d\<lparr>d_chan := chan\<lparr>ch_promises := callback_drop (de_chan E) False cb p\<rparr>\<rparr>, Ready None)
               | Pending \<Rightarrow> (d\<lparr>d_callback := Some cb\<rparr>, Ready (Some (rq_head req, rq_body req)))))"

text \<open>Answering a callback.\<close>

definition answer ::
  "('io, 'b, 'h, 'tx, 'q, 'g, 'p, 'k, 'm, 'o, 'bd, 'r) disp_env \<Rightarrow> 'tx callback \<Rightarrow>
   (('h, 'bd) request, ('h, 'r) response) reply \<Rightarrow>
   ('io, 'b, 'h, 'tx, 'q, 'g, 'p, 'k, 'm, 'o, 'bd) dispatcher \<Rightarrow>
   (('io, 'b, 'h, 'tx, 'q, 'g, 'p, 'k, 'm, 'o, 'bd) dispatcher \<times> (error + unit)) rust" where
  "answer E cb val d =
     rust_bind (callback_send (de_chan E) cb val (ch_promises (d_chan d))) (\<lambda>p.
       Return (d\<lparr>d_chan := (d_chan d)\<lparr>ch_promises := p\<rparr>\<rparr>, Inr ()))"

definition client_recv_msg ::
  "('io, 'b, 'h, 'tx, 'q, 'g, 'p, 'k, 'm, 'o, 'bd, 'r) disp_env \<Rightarrow> error + ('h, 'r) response \<Rightarrow>
   ('io, 'b, 'h, 'tx, 'q, 'g, 'p, 'k, 'm, 'o, 'bd) dispatcher \<Rightarrow>
   (('io, 'b, 'h, 'tx, 'q, 'g, 'p, 'k, 'm, 'o, 'bd) dispatcher \<times> (error + unit)) rust" where
  "client_recv_msg E msg d =
     (case msg of
        Inr res \<Rightarrow>
          (case d_callback d of
             Some cb \<Rightarrow> answer E cb (Inr res) (d\<lparr>d_callback := None\<rparr>)
           | None \<Rightarrow> Return (d, Inl new_unexpected_message))
      | Inl err \<Rightarrow>
          (case d_callback d of
             Some cb \<Rightarrow>
               answer E cb (Inl \<lparr>tse_error = err, tse_message = None\<rparr>) (d\<lparr>d_callback := None\<rparr>)
           | None \<Rightarrow>
               if \<not> d_rx_closed d then
                 (case dispatch_try_recv (de_chan E) (dispatch_close (de_chan E) (d_chan d)) of
                    (Some (req, cb), chan) \<Rightarrow>
                      answer E cb (Inl \<lparr>tse_error = error_with new_canceled (CauseError err), tse_message = Some req\<rparr>)
                        (d\<lparr>d_chan := chan\<rparr>)
                  | (None, chan) \<Rightarrow> Return (d\<lparr>d_chan := chan\<rparr>, Inl err))
               else Return (d, Inl err)))"

definition client_poll_ready ::
  "('io, 'b, 'h, 'tx, 'q, 'g, 'p, 'k, 'm, 'o, 'bd, 'r) disp_env \<Rightarrow>
   ('io, 'b, 'h, 'tx, 'q, 'g, 'p, 'k, 'm, 'o, 'bd) dispatcher \<Rightarrow>
   ('io, 'b, 'h, 'tx, 'q, 'g, 'p, 'k, 'm, 'o, 'bd) dispatcher \<times> bool poll" where
  "client_poll_ready E d =
     (case d_callback d of
        Some cb \<Rightarrow>
          (case callback_poll_canceled (de_chan E) cb (ch_promises (d_chan d)) of (r, p) \<Rightarrow>
             (d\<lparr>d_chan := (d_chan d)\<lparr>ch_promises := p\<rparr>\<rparr>,
              case r of Panicked m \<Rightarrow> Panicked m | Ready u \<Rightarrow> Ready False | Pending \<Rightarrow> Ready True))
      | None \<Rightarrow> (d, Ready False))"

definition client_should_poll :: "('io, 'b, 'h, 'tx, 'q, 'g, 'p, 'k, 'm, 'o, 'bd) dispatcher \<Rightarrow> bool" where
  "client_should_poll d \<longleftrightarrow> d_callback d = None"

section \<open>Reading\<close>

definition disp_close ::
  "('io, 'b, 'h, 'tx, 'q, 'g, 'p, 'k, 'm, 'o, 'bd) dispatcher \<Rightarrow>
   ('io, 'b, 'h, 'tx, 'q, 'g, 'p, 'k, 'm, 'o, 'bd) dispatcher" where
  "disp_close d = d\<lparr>d_is_closing := True, d_conn := conn_close_write (conn_close_read (d_conn d))\<rparr>"

text \<open>A call of \<open>recv_msg\<close> whose error ends the poll.\<close>

definition recv_then ::
  "('io, 'b, 'h, 'tx, 'q, 'g, 'p, 'k, 'm, 'o, 'bd, 'r) disp_env \<Rightarrow> error + ('h, 'r) response \<Rightarrow>
   ('io, 'b, 'h, 'tx, 'q, 'g, 'p, 'k, 'm, 'o, 'bd) dispatcher \<Rightarrow>
   (('io, 'b, 'h, 'tx, 'q, 'g, 'p, 'k, 'm, 'o, 'bd) dispatcher \<Rightarrow>
    ('io, 'b, 'h, 'tx, 'q, 'g, 'p, 'k, 'm, 'o, 'bd) dispatcher) \<Rightarrow>
   ('io, 'b, 'h, 'tx, 'q, 'g, 'p, 'k, 'm, 'o, 'bd) dispatcher \<times> (error + unit) poll" where
  "recv_then E msg d k =
     (case client_recv_msg E msg d of
        Panic m \<Rightarrow> (d, Panicked m)
      | Return (d, Inl e) \<Rightarrow> (d, Ready (Inl e))
      | Return (d, Inr u) \<Rightarrow> (k d, Ready (Inr ())))"

definition deliver_head ::
  "('io, 'b, 'h, 'tx, 'q, 'g, 'p, 'k, 'm, 'o, 'bd, 'r) disp_env \<Rightarrow>
   'h response_head \<times> decoded_length \<times> wants \<Rightarrow>
   ('io, 'b, 'h, 'tx, 'q, 'g, 'p, 'k, 'm, 'o, 'bd) dispatcher \<Rightarrow>
   ('io, 'b, 'h, 'tx, 'q, 'g, 'p, 'k, 'm, 'o, 'bd) dispatcher \<times> (error + unit) poll" where
  "deliver_head E msg d =
     (case msg of (head, body_len, wants) \<Rightarrow>
        let (d, body) =
              (if body_len = ZERO then (d, incoming_empty)
               else case incoming_h1 (de_waker E) (de_body E) body_len (wants_contains wants WANTS_EXPECT) of
                 (tx, rx, ch) \<Rightarrow> ((set_body_tx E tx d)\<lparr>d_body_chan := ch\<rparr>, rx));
            upgrading = wants_contains wants WANTS_UPGRADE;
            d = (if upgrading then d\<lparr>d_conn := on_upgrade (d_conn d) (de_upgrade E)\<rparr> else d) in
        recv_then E (Inr \<lparr>rp_head = head, rp_upgrade = (if upgrading then Some (de_upgrade E) else None),
          rp_body = body\<rparr>) d (\<lambda>d. d))"

definition disp_poll_read_head ::
  "('io, 'b, 'h, 'tx, 'q, 'g, 'p, 'k, 'm, 'o, 'bd, 'r) disp_env \<Rightarrow>
   ('io, 'b, 'h, 'tx, 'q, 'g, 'p, 'k, 'm, 'o, 'bd) dispatcher \<Rightarrow>
   (('io, 'b, 'h, 'tx, 'q, 'g, 'p, 'k, 'm, 'o, 'bd) dispatcher \<times> (error + unit) poll) option" where
  "disp_poll_read_head E d =
     (case client_poll_ready E d of
        (d, Panicked m) \<Rightarrow> Some (d, Panicked m)
      | (d, Pending) \<Rightarrow> Some (d, Pending)
      | (d, Ready False) \<Rightarrow> Some (disp_close d, Ready (Inr ()))
      | (d, Ready True) \<Rightarrow>
          (case poll_read_head (de_conn E) (d_conn d) of
             None \<Rightarrow> None
           | Some (c, r) \<Rightarrow>
               let d = d\<lparr>d_conn := c\<rparr> in
               Some (case r of
                       Pending \<Rightarrow> (d, Pending)
                     | Panicked m \<Rightarrow> (d, Panicked m)
                     | Ready (Some (Inr msg)) \<Rightarrow> deliver_head E msg d
                     | Ready (Some (Inl err)) \<Rightarrow> recv_then E (Inl err) d disp_close
                     | Ready None \<Rightarrow>
                         (if is_write_closed (cn_state c) then disp_close d else d, Ready (Inr ())))))"

text \<open>What \<open>poll_read\<close> does with a frame; the sender is dropped unless it is put back.\<close>

definition keep_or_close ::
  "('io, 'b, 'h, 'tx, 'q, 'g, 'p, 'k, 'm, 'o, 'bd, 'r) disp_env \<Rightarrow> body_sender \<Rightarrow> bool \<Rightarrow>
   ('io, 'b, 'h, 'tx, 'q, 'g, 'p, 'k, 'm, 'o, 'bd) dispatcher \<Rightarrow>
   ('io, 'b, 'h, 'tx, 'q, 'g, 'p, 'k, 'm, 'o, 'bd) dispatcher" where
  "keep_or_close E body sent d =
     (if sent then d\<lparr>d_body_tx := Some body\<rparr>
      else drop_body E (Some body)
        (if can_read_body (d_conn d) then d\<lparr>d_conn := conn_close_read (d_conn d)\<rparr> else d))"

definition forward_frame ::
  "('io, 'b, 'h, 'tx, 'q, 'g, 'p, 'k, 'm, 'o, 'bd, 'r) disp_env \<Rightarrow> body_sender \<Rightarrow>
   (io_error + 'h frame) option poll \<Rightarrow>
   ('io, 'b, 'h, 'tx, 'q, 'g, 'p, 'k, 'm, 'o, 'bd) dispatcher \<Rightarrow>
   ('io, 'b, 'h, 'tx, 'q, 'g, 'p, 'k, 'm, 'o, 'bd) dispatcher \<times> (error + unit) poll turn" where
  "forward_frame E body r d =
     (case r of
        Pending \<Rightarrow> (d\<lparr>d_body_tx := Some body\<rparr>, Done Pending)
      | Panicked m \<Rightarrow> (d, Done (Panicked m))
      | Ready None \<Rightarrow> (drop_body E (Some body) d, Again)
      | Ready (Some (Inl e)) \<Rightarrow>
          (drop_body E (Some body)
             (d\<lparr>d_body_chan := sender_send_error (de_body E) (new_body (CauseIo e)) (d_body_chan d)\<rparr>), Again)
      | Ready (Some (Inr (FrameData chunk))) \<Rightarrow>
          (case sender_send_data (de_body E) chunk (d_body_chan d) of (res, ch) \<Rightarrow>
             (keep_or_close E body (res = Inr ()) (d\<lparr>d_body_chan := ch\<rparr>), Again))
      | Ready (Some (Inr (FrameTrailers t))) \<Rightarrow>
          (case sender_send_trailers (de_body E) body t (d_body_chan d) of (res, body, ch) \<Rightarrow>
             (keep_or_close E body (case res of Inr u \<Rightarrow> True | Inl u \<Rightarrow> False) (d\<lparr>d_body_chan := ch\<rparr>), Again)))"

definition disp_read_body ::
  "('io, 'b, 'h, 'tx, 'q, 'g, 'p, 'k, 'm, 'o, 'bd, 'r) disp_env \<Rightarrow> body_sender \<Rightarrow>
   ('io, 'b, 'h, 'tx, 'q, 'g, 'p, 'k, 'm, 'o, 'bd) dispatcher \<Rightarrow>
   (('io, 'b, 'h, 'tx, 'q, 'g, 'p, 'k, 'm, 'o, 'bd) dispatcher \<times> (error + unit) poll turn) option" where
  "disp_read_body E body d =
     (case sender_poll_ready (de_waker E) (de_body E) (d_body_chan d) of (ch, r) \<Rightarrow>
        let d = d\<lparr>d_body_chan := ch\<rparr> in
        case r of
          Pending \<Rightarrow> Some (d\<lparr>d_body_tx := Some body\<rparr>, Done Pending)
        | Panicked m \<Rightarrow> Some (d, Done (Panicked m))
        | Ready (Inl canceled) \<Rightarrow>
            (case poll_drain_or_close_read (de_conn E) (d_conn d) of
               None \<Rightarrow> None
             | Some (Panic m) \<Rightarrow> Some (d, Done (Panicked m))
             | Some (Return c) \<Rightarrow> Some (drop_body E (Some body) (d\<lparr>d_conn := c\<rparr>), Again))
        | Ready (Inr u) \<Rightarrow>
            (case poll_read_body (de_conn E) (d_conn d) of
               None \<Rightarrow> None
             | Some (c, r) \<Rightarrow> Some (forward_frame E body r (d\<lparr>d_conn := c\<rparr>))))"

definition poll_read_turn ::
  "('io, 'b, 'h, 'tx, 'q, 'g, 'p, 'k, 'm, 'o, 'bd, 'r) disp_env \<Rightarrow>
   ('io, 'b, 'h, 'tx, 'q, 'g, 'p, 'k, 'm, 'o, 'bd) dispatcher \<Rightarrow>
   (('io, 'b, 'h, 'tx, 'q, 'g, 'p, 'k, 'm, 'o, 'bd) dispatcher \<times> (error + unit) poll turn) option" where
  "poll_read_turn E d =
     (if d_is_closing d then Some (d, Done (Ready (Inr ())))
      else if can_read_head (d_conn d) then
        (case disp_poll_read_head E d of
           None \<Rightarrow> None
         | Some (d, Ready (Inr u)) \<Rightarrow> Some (d, Again)
         | Some (d, r) \<Rightarrow> Some (d, Done r))
      else
        (case d_body_tx d of
           Some body \<Rightarrow>
             let d = d\<lparr>d_body_tx := None\<rparr> in
             if can_read_body (d_conn d) then disp_read_body E body d
             else Some (drop_body E (Some body) d, Again)
         | None \<Rightarrow>
             (case poll_read_keep_alive (de_conn E) (d_conn d) of (c, r) \<Rightarrow>
                Some (d\<lparr>d_conn := c\<rparr>, Done r))))"

partial_function (option) disp_poll_read ::
  "('io, 'b, 'h, 'tx, 'q, 'g, 'p, 'k, 'm, 'o, 'bd, 'r) disp_env \<Rightarrow>
   ('io, 'b, 'h, 'tx, 'q, 'g, 'p, 'k, 'm, 'o, 'bd) dispatcher \<Rightarrow>
   (('io, 'b, 'h, 'tx, 'q, 'g, 'p, 'k, 'm, 'o, 'bd) dispatcher \<times> (error + unit) poll) option" where
  "disp_poll_read E d =
     (case poll_read_turn E d of
        None \<Rightarrow> None
      | Some (d, Done r) \<Rightarrow> Some (d, r)
      | Some (d, Again) \<Rightarrow> disp_poll_read E d)"

section \<open>Writing\<close>

definition disp_poll_flush ::
  "('io, 'b, 'h, 'tx, 'q, 'g, 'p, 'k, 'm, 'o, 'bd, 'r) disp_env \<Rightarrow>
   ('io, 'b, 'h, 'tx, 'q, 'g, 'p, 'k, 'm, 'o, 'bd) dispatcher \<Rightarrow>
   (('io, 'b, 'h, 'tx, 'q, 'g, 'p, 'k, 'm, 'o, 'bd) dispatcher \<times> (error + unit) poll) option" where
  "disp_poll_flush E d =
     (case conn_poll_flush (de_conn E) (d_conn d) of
        None \<Rightarrow> None
      | Some (c, r) \<Rightarrow>
          Some (d\<lparr>d_conn := c\<rparr>,
            case r of Pending \<Rightarrow> Pending | Panicked m \<Rightarrow> Panicked m
            | Ready (Inr u) \<Rightarrow> Ready (Inr ())
            | Ready (Inl e) \<Rightarrow> Ready (Inl (new_body_write (CauseIo e)))))"

text \<open>The next request: its head is written, and its body kept unless it is already at its end.\<close>

definition write_request ::
  "('io, 'b, 'h, 'tx, 'q, 'g, 'p, 'k, 'm, 'o, 'bd, 'r) disp_env \<Rightarrow>
   ('io, 'b, 'h, 'tx, 'q, 'g, 'p, 'k, 'm, 'o, 'bd) dispatcher \<Rightarrow>
   ('io, 'b, 'h, 'tx, 'q, 'g, 'p, 'k, 'm, 'o, 'bd) dispatcher \<times> (error + unit) poll turn" where
  "write_request E d =
     (case client_poll_msg E d of
        (d, Pending) \<Rightarrow> (d, Done Pending)
      | (d, Panicked m) \<Rightarrow> (d, Done (Panicked m))
      | (d, Ready None) \<Rightarrow> (disp_close d, Done (Ready (Inr ())))
      | (d, Ready (Some (head, body))) \<Rightarrow>
          let (d, body_type) =
                (if ub_is_end_stream (de_user E) body then (d\<lparr>d_body_rx := None\<rparr>, None)
                 else (d\<lparr>d_body_rx := Some body\<rparr>,
                       case ub_size_exact (de_user E) body of
                         Some n \<Rightarrow> Some (Known n) | None \<Rightarrow> Some Unknown)) in
          (case write_head (de_conn E) (d_conn d) head body_type of
             Panic m \<Rightarrow> (d, Done (Panicked m))
           | Return c \<Rightarrow> (d\<lparr>d_conn := c\<rparr>, Again)))"

text \<open>The writing operations of the connection, as the end of a turn.\<close>

definition then_again ::
  "('io, 'b, 'h, 'tx, 'q, 'g, 'p, 'k, 'm, 'o, 'bd) dispatcher \<Rightarrow>
   ('io, 'b, 'h) conn rust option \<Rightarrow>
   (('io, 'b, 'h, 'tx, 'q, 'g, 'p, 'k, 'm, 'o, 'bd) dispatcher \<times> (error + unit) poll turn) option" where
  "then_again d m =
     (case m of None \<Rightarrow> None
      | Some (Panic msg) \<Rightarrow> Some (d, Done (Panicked msg))
      | Some (Return c) \<Rightarrow> Some (d\<lparr>d_conn := c\<rparr>, Again))"

definition end_then_again ::
  "('io, 'b, 'h, 'tx, 'q, 'g, 'p, 'k, 'm, 'o, 'bd, 'r) disp_env \<Rightarrow>
   ('io, 'b, 'h, 'tx, 'q, 'g, 'p, 'k, 'm, 'o, 'bd) dispatcher \<Rightarrow>
   (('io, 'b, 'h, 'tx, 'q, 'g, 'p, 'k, 'm, 'o, 'bd) dispatcher \<times> (error + unit) poll turn) option" where
  "end_then_again E d =
     (case end_body (de_conn E) (d_conn d) of None \<Rightarrow> None
      | Some (Panic msg) \<Rightarrow> Some (d, Done (Panicked msg))
      | Some (Return (c, Inl e)) \<Rightarrow> Some (d\<lparr>d_conn := c\<rparr>, Done (Ready (Inl e)))
      | Some (Return (c, Inr u)) \<Rightarrow> Some (d\<lparr>d_conn := c\<rparr>, Again))"

definition chunk_remaining ::
  "('io, 'b, 'h, 'tx, 'q, 'g, 'p, 'k, 'm, 'o, 'bd, 'r) disp_env \<Rightarrow> 'b \<Rightarrow> nat" where
  "chunk_remaining E chunk = b_remaining (user_ops (env_bufs (de_conn E))) chunk"

text \<open>One frame of the user's body; \<open>d_body_rx := None\<close> is what the \<open>OptGuard\<close> does when it is told to.\<close>

definition write_frame ::
  "('io, 'b, 'h, 'tx, 'q, 'g, 'p, 'k, 'm, 'o, 'bd, 'r) disp_env \<Rightarrow> 'bd \<Rightarrow>
   ('io, 'b, 'h, 'tx, 'q, 'g, 'p, 'k, 'm, 'o, 'bd) dispatcher \<Rightarrow>
   (('io, 'b, 'h, 'tx, 'q, 'g, 'p, 'k, 'm, 'o, 'bd) dispatcher \<times> (error + unit) poll turn) option" where
  "write_frame E body d =
     (case ub_poll_frame (de_user E) body of (r, body) \<Rightarrow>
        let keep = d\<lparr>d_body_rx := Some body\<rparr>; clear = d\<lparr>d_body_rx := None\<rparr> in
        case r of
          Pending \<Rightarrow> Some (keep, Done Pending)
        | Panicked m \<Rightarrow> Some (keep, Done (Panicked m))
        | Ready None \<Rightarrow> end_then_again E clear
        | Ready (Some (Inl e)) \<Rightarrow> Some (clear, Done (Ready (Inl (new_user_body e))))
        | Ready (Some (Inr (UserData chunk))) \<Rightarrow>
            if ub_is_end_stream (de_user E) body
            then (if chunk_remaining E chunk = 0 then end_then_again E clear
                  else then_again clear (write_body_and_end (de_conn E) (d_conn clear) chunk))
            else (if chunk_remaining E chunk = 0 then Some (keep, Again)
                  else then_again keep (write_body (de_conn E) (d_conn keep) chunk))
        | Ready (Some (Inr (UserTrailers t))) \<Rightarrow>
            then_again clear (write_trailers (de_conn E) (d_conn clear) t)
        | Ready (Some (Inr UserOther)) \<Rightarrow> Some (keep, Again))"

definition poll_write_turn ::
  "('io, 'b, 'h, 'tx, 'q, 'g, 'p, 'k, 'm, 'o, 'bd, 'r) disp_env \<Rightarrow>
   ('io, 'b, 'h, 'tx, 'q, 'g, 'p, 'k, 'm, 'o, 'bd) dispatcher \<Rightarrow>
   (('io, 'b, 'h, 'tx, 'q, 'g, 'p, 'k, 'm, 'o, 'bd) dispatcher \<times> (error + unit) poll turn) option" where
  "poll_write_turn E d =
     (if d_is_closing d then Some (d, Done (Ready (Inr ())))
      else if d_body_rx d = None \<and> can_write_head (d_conn d) \<and> client_should_poll d
      then Some (write_request E d)
      else if \<not> can_buffer_body (d_conn d) then
        (case disp_poll_flush E d of
           None \<Rightarrow> None
         | Some (d, Ready (Inr u)) \<Rightarrow> Some (d, Again)
         | Some (d, r) \<Rightarrow> Some (d, Done r))
      else
        (case d_body_rx d of
           Some body \<Rightarrow>
             if \<not> can_write_body (d_conn d) then Some (d\<lparr>d_body_rx := None\<rparr>, Again)
             else write_frame E body d
         | None \<Rightarrow>
             if can_write_body (d_conn d) then end_then_again E d else Some (d, Done Pending)))"

partial_function (option) disp_poll_write ::
  "('io, 'b, 'h, 'tx, 'q, 'g, 'p, 'k, 'm, 'o, 'bd, 'r) disp_env \<Rightarrow>
   ('io, 'b, 'h, 'tx, 'q, 'g, 'p, 'k, 'm, 'o, 'bd) dispatcher \<Rightarrow>
   (('io, 'b, 'h, 'tx, 'q, 'g, 'p, 'k, 'm, 'o, 'bd) dispatcher \<times> (error + unit) poll) option" where
  "disp_poll_write E d =
     (case poll_write_turn E d of
        None \<Rightarrow> None
      | Some (d, Done r) \<Rightarrow> Some (d, r)
      | Some (d, Again) \<Rightarrow> disp_poll_write E d)"

section \<open>The poll\<close>

definition can_write_again :: "('io, 'b, 'h, 'tx, 'q, 'g, 'p, 'k, 'm, 'o, 'bd) dispatcher \<Rightarrow> bool" where
  "can_write_again d \<longleftrightarrow> \<not> d_is_closing d \<and> d_body_rx d \<noteq> None \<and> can_write_body (d_conn d)"

definition is_done :: "('io, 'b, 'h, 'tx, 'q, 'g, 'p, 'k, 'm, 'o, 'bd) dispatcher \<Rightarrow> bool" where
  "is_done d =
     (if d_is_closing d then True
      else
        let read_done = is_read_closed (cn_state (d_conn d)) in
        if read_done then True
        else
          let write_done = (is_write_closed (cn_state (d_conn d)) \<or>
                \<not> client_should_poll d \<and> d_body_rx d = None) in
          read_done \<and> write_done)"

text \<open>
  \<open>?\<close> on a poll: an error (or a panic) ends the caller, anything else goes on with whether it was
  ready.
\<close>

definition poll_try ::
  "(('io, 'b, 'h, 'tx, 'q, 'g, 'p, 'k, 'm, 'o, 'bd) dispatcher \<times> (error + unit) poll) option \<Rightarrow>
   (('io, 'b, 'h, 'tx, 'q, 'g, 'p, 'k, 'm, 'o, 'bd) dispatcher \<Rightarrow> bool \<Rightarrow>
    (('io, 'b, 'h, 'tx, 'q, 'g, 'p, 'k, 'm, 'o, 'bd) dispatcher \<times> (error + unit) poll) option) \<Rightarrow>
   (('io, 'b, 'h, 'tx, 'q, 'g, 'p, 'k, 'm, 'o, 'bd) dispatcher \<times> (error + unit) poll) option" where
  "poll_try m k =
     (case m of None \<Rightarrow> None
      | Some (d, Panicked msg) \<Rightarrow> Some (d, Panicked msg)
      | Some (d, Ready (Inl e)) \<Rightarrow> Some (d, Ready (Inl e))
      | Some (d, Ready (Inr u)) \<Rightarrow> k d True
      | Some (d, Pending) \<Rightarrow> k d False)"

fun poll_loop ::
  "nat \<Rightarrow> ('io, 'b, 'h, 'tx, 'q, 'g, 'p, 'k, 'm, 'o, 'bd, 'r) disp_env \<Rightarrow>
   ('io, 'b, 'h, 'tx, 'q, 'g, 'p, 'k, 'm, 'o, 'bd) dispatcher \<Rightarrow>
   (('io, 'b, 'h, 'tx, 'q, 'g, 'p, 'k, 'm, 'o, 'bd) dispatcher \<times> (error + unit) poll) option" where
  "poll_loop 0 E d = Some (d\<lparr>d_woken := True\<rparr>, Pending)"
| "poll_loop (Suc n) E d =
     poll_try (disp_poll_read E d) (\<lambda>d read_ready.
     poll_try (disp_poll_write E d) (\<lambda>d write_ready.
     poll_try (disp_poll_flush E d) (\<lambda>d flush_ready.
       let wants_write_again = (can_write_again d \<and> (write_ready \<or> flush_ready));
           (c, wants_read_again) = wants_read_again (d_conn d);
           d = d\<lparr>d_conn := c\<rparr> in
       if \<not> (wants_write_again \<or> wants_read_again) then Some (d, Ready (Inr ()))
       else if \<not> wants_read_again \<and> wants_write_again
       then poll_try (disp_poll_write E d) (\<lambda>d write_ready.
              if \<not> write_ready then Some (d, Ready (Inr ())) else poll_loop n E d)
       else poll_loop n E d)))"

definition finish_poll ::
  "('io, 'b, 'h, 'tx, 'q, 'g, 'p, 'k, 'm, 'o, 'bd) dispatcher \<Rightarrow> dispatched \<Rightarrow>
   ('io, 'b, 'h, 'tx, 'q, 'g, 'p, 'k, 'm, 'o, 'bd) dispatcher \<times> (error + dispatched) poll" where
  "finish_poll d out =
     (case take_error (d_conn d) of
        (c, Inl e) \<Rightarrow> (d\<lparr>d_conn := c\<rparr>, Ready (Inl e))
      | (c, Inr u) \<Rightarrow> (d\<lparr>d_conn := c\<rparr>, Ready (Inr out)))"

definition poll_inner ::
  "('io, 'b, 'h, 'tx, 'q, 'g, 'p, 'k, 'm, 'o, 'bd, 'r) disp_env \<Rightarrow> bool \<Rightarrow>
   ('io, 'b, 'h, 'tx, 'q, 'g, 'p, 'k, 'm, 'o, 'bd) dispatcher \<Rightarrow>
   (('io, 'b, 'h, 'tx, 'q, 'g, 'p, 'k, 'm, 'o, 'bd) dispatcher \<times> (error + dispatched) poll) option" where
  "poll_inner E should_shutdown d =
     (case poll_loop 16 E d of
        None \<Rightarrow> None
      | Some (d, Pending) \<Rightarrow> Some (d, Pending)
      | Some (d, Panicked m) \<Rightarrow> Some (d, Panicked m)
      | Some (d, Ready (Inl e)) \<Rightarrow> Some (d, Ready (Inl e))
      | Some (d, Ready (Inr u)) \<Rightarrow>
          Some
            (if \<not> is_done d then (d, Pending)
             else
               case pending_upgrade (d_conn d) of (c, up) \<Rightarrow>
                 let d = d\<lparr>d_conn := c\<rparr> in
                 case up of
                   Some n \<Rightarrow> finish_poll d (DispatchedUpgrade n)
                 | None \<Rightarrow>
                     if should_shutdown then
                       (case conn_poll_shutdown (de_conn E) (d_conn d) of (c, r) \<Rightarrow>
                          let d = d\<lparr>d_conn := c\<rparr> in
                          case r of
                            Pending \<Rightarrow> (d, Pending)
                          | Panicked m \<Rightarrow> (d, Panicked m)
                          | Ready (Inl e) \<Rightarrow> (d, Ready (Inl (new_shutdown e)))
                          | Ready (Inr u) \<Rightarrow> finish_poll d DispatchedShutdown)
                     else finish_poll d DispatchedShutdown))"

definition on_connection_error ::
  "('io, 'b, 'h, 'tx, 'q, 'g, 'p, 'k, 'm, 'o, 'bd, 'r) disp_env \<Rightarrow> error \<Rightarrow>
   ('io, 'b, 'h, 'tx, 'q, 'g, 'p, 'k, 'm, 'o, 'bd) dispatcher \<Rightarrow>
   ('io, 'b, 'h, 'tx, 'q, 'g, 'p, 'k, 'm, 'o, 'bd) dispatcher \<times> (error + dispatched) poll" where
  "on_connection_error E e d =
     (let d = guard_drop E (new_body (CauseMessage ''connection error'')) d in
      case client_recv_msg E (Inl e) d of
        Panic m \<Rightarrow> (d, Panicked m)
      | Return (d, Inl e) \<Rightarrow> (d, Ready (Inl e))
      | Return (d, Inr u) \<Rightarrow> (d, Ready (Inr DispatchedShutdown)))"

definition poll_catch ::
  "('io, 'b, 'h, 'tx, 'q, 'g, 'p, 'k, 'm, 'o, 'bd, 'r) disp_env \<Rightarrow> bool \<Rightarrow>
   ('io, 'b, 'h, 'tx, 'q, 'g, 'p, 'k, 'm, 'o, 'bd) dispatcher \<Rightarrow>
   (('io, 'b, 'h, 'tx, 'q, 'g, 'p, 'k, 'm, 'o, 'bd) dispatcher \<times> (error + dispatched) poll) option" where
  "poll_catch E should_shutdown d =
     (case poll_inner E should_shutdown d of
        None \<Rightarrow> None
      | Some (d, Ready (Inl e)) \<Rightarrow> Some (on_connection_error E e d)
      | Some (d, r) \<Rightarrow> Some (d, r))"

definition dispatcher_poll ::
  "('io, 'b, 'h, 'tx, 'q, 'g, 'p, 'k, 'm, 'o, 'bd, 'r) disp_env \<Rightarrow>
   ('io, 'b, 'h, 'tx, 'q, 'g, 'p, 'k, 'm, 'o, 'bd) dispatcher \<Rightarrow>
   (('io, 'b, 'h, 'tx, 'q, 'g, 'p, 'k, 'm, 'o, 'bd) dispatcher \<times> (error + dispatched) poll) option" where
  "dispatcher_poll E d = poll_catch E True d"

text \<open>The result \<open>Some n\<close> stands for the call \<open>pending.manual()\<close> on the upgrade \<open>n\<close>.\<close>

definition poll_without_shutdown ::
  "('io, 'b, 'h, 'tx, 'q, 'g, 'p, 'k, 'm, 'o, 'bd, 'r) disp_env \<Rightarrow>
   ('io, 'b, 'h, 'tx, 'q, 'g, 'p, 'k, 'm, 'o, 'bd) dispatcher \<Rightarrow>
   (('io, 'b, 'h, 'tx, 'q, 'g, 'p, 'k, 'm, 'o, 'bd) dispatcher \<times> (error + nat option) poll) option" where
  "poll_without_shutdown E d =
     map_option (\<lambda>(d, r).
       (d, case r of Pending \<Rightarrow> Pending | Panicked m \<Rightarrow> Panicked m
           | Ready (Inl e) \<Rightarrow> Ready (Inl e)
           | Ready (Inr DispatchedShutdown) \<Rightarrow> Ready (Inr None)
           | Ready (Inr (DispatchedUpgrade n)) \<Rightarrow> Ready (Inr (Some n))))
       (poll_catch E False d)"

text \<open>Dropping the dispatcher drops its fields in order: the client with its receiver, then the guard.\<close>

definition dispatcher_drop ::
  "('io, 'b, 'h, 'tx, 'q, 'g, 'p, 'k, 'm, 'o, 'bd, 'r) disp_env \<Rightarrow> bool \<Rightarrow>
   ('io, 'b, 'h, 'tx, 'q, 'g, 'p, 'k, 'm, 'o, 'bd) dispatcher \<Rightarrow>
   (('io, 'b, 'h, 'tx, 'q, 'g, 'p, 'k, 'm, 'o, 'bd) dispatcher) rust" where
  "dispatcher_drop E panicking d =
     (let p = (case d_callback d of None \<Rightarrow> ch_promises (d_chan d)
               | Some cb \<Rightarrow> callback_drop (de_chan E) panicking cb (ch_promises (d_chan d))) in
      rust_bind (dispatch_drop_receiver (de_chan E) ((d_chan d)\<lparr>ch_promises := p\<rparr>)) (\<lambda>chan.
        Return (guard_drop E new_incomplete (d\<lparr>d_callback := None, d_chan := chan\<rparr>))))"

end
