(* ===== verification/Conn_Progress.thy ===== *)
theory Conn_Progress
  imports Conn_Props
begin

text \<open>
  Progress of a connection, for the termination of the loops that drive it: reading never adds to
  what is left of the stream, a data frame takes something off it or ends the body, and the end of
  a head or a body leaves the body state.
\<close>

definition unread :: "('io \<Rightarrow> bytes) \<Rightarrow> ('io, 'b, 'h) conn \<Rightarrow> nat" where
  "unread incoming c = length (stream incoming (cn_io c))"

fun reading_rank :: "reading \<Rightarrow> nat" where
  "reading_rank ReadingClosed = 0"
| "reading_rank ReadingInit = 1"
| "reading_rank ReadingKeepAlive = 2"
| "reading_rank (ReadingBody d) = 3"
| "reading_rank (ReadingContinue d) = 3"

lemma can_read_body_rank: "can_read_body c \<longleftrightarrow> reading_rank (s_reading (cn_state c)) = 3"
  by (simp add: can_read_body_def split: reading.splits)

lemma reading_rank_le: "reading_rank r \<le> 3"
  by (cases r) simp_all

context mem_read
begin

lemma decode_consumes:
  fixes res :: "(io_error + 'h frame) poll"
  assumes "decoder_wf d" "\<not> decoder_is_eof d" "decode api hp rd d r = Some (d', r', res)"
  shows "length (content r') \<le> length (content r) \<and>
    (\<forall>bs. res = Ready (Inr (FrameData bs)) \<and> bs \<noteq> [] \<longrightarrow> length (content r') < length (content r))"
proof (cases "d_kind d")
  case (Length n)
  obtain n' r1 and res1 :: "(io_error + 'h frame) poll" where dl: "decode_length rd n r = (n', r1, res1)" by (metis prod_cases3)
  from decode_length_accounting [OF dl] obtain w where w: "content r = w @ content r1"
    "case res1 of Ready (Inr (FrameData d)) \<Rightarrow> d = w \<and> (n \<noteq> 0 \<longrightarrow> w \<noteq> []) | Ready (Inr (FrameTrailers _)) \<Rightarrow> False
     | Panicked _ \<Rightarrow> False | _ \<Rightarrow> w = [] \<and> n \<noteq> 0" by blast
  have "r' = r1" "res = res1" using assms(3) Length dl by (auto simp: decode_def)
  with w show ?thesis by auto
next
  case (Chunked c)
  have "c_state c \<noteq> End" using assms(2) Chunked by (auto simp: decoder_is_eof_def)
  with assms(1) Chunked chunked_loop_refines [of c api hp r] obtain c' r1 res1 w where
    l: "chunked_loop api hp rd c r = Some (c', r1, res1)" "content r = w @ content r1" "loop_ok api hp c w (c', res1)"
    by (auto simp: decoder_wf_def)
  then have "r' = r1" "res = res1" using assms(3) Chunked by (auto simp: decode_def)
  with l show ?thesis by (auto simp: loop_ok_def)
next
  case (Eof b)
  obtain b' r1 and res1 :: "(io_error + 'h frame) poll" where de: "decode_eof rd b r = (b', r1, res1)" by (metis prod_cases3)
  have "\<not> b" using assms(2) Eof by (simp add: decoder_is_eof_def)
  have "r' = r1" "res = res1" using assms(3) Eof de by (auto simp: decode_def)
  moreover obtain r2 x where x: "rd r 8192 = (r2, x)" by fastforce
  ultimately show ?thesis
    using de \<open>\<not> b\<close> read_data [of r 8192 r2] read_pending [of r 8192 r2] read_error [of r 8192 r2] read_no_panic [of r 8192 r2]
    by (auto simp: decode_eof_def split: poll.splits sum.splits if_splits)
qed

end

context connection
begin

abbreviation left :: "('io, 'b, 'h) conn \<Rightarrow> nat" where
  "left \<equiv> unread incoming"

lemma maybe_notify_unread: "maybe_notify E c = Return c' \<Longrightarrow> left c' = left c"
  using maybe_notify_io [of E c c'] tr.poll_read_from_io_ok by (fastforce simp: unread_def)

lemma try_keep_alive_unread: "conn_try_keep_alive E c = Return c' \<Longrightarrow> left c' = left c"
  unfolding conn_try_keep_alive_def by (drule maybe_notify_unread) (simp add: unread_def)

text \<open>What \<open>try_keep_alive\<close> does to the reading side.\<close>

lemma try_keep_alive_reading:
  assumes "conn_try_keep_alive E c = Return c'" "\<not> can_read_body c"
  shows "\<not> can_read_body c'"
proof -
  have r: "reading_rank (s_reading (state_try_keep_alive (cn_state c))) \<noteq> 3"
    using assms(2) by (cases rule: state_try_keep_alive_cases [of "cn_state c"])
      (auto simp: can_read_body_rank state_idle_eq state_defs)
  from assms(1) [unfolded conn_try_keep_alive_def] show ?thesis
    by (cases rule: maybe_notify_cases) (use r in \<open>auto simp: can_read_body_rank state_defs\<close>)
qed

lemma then_keep_alive_left:
  assumes "then_keep_alive E c ret = (c', r)" "\<not> is_panicked r"
  shows "left c' = left c" "\<not> can_read_body c \<Longrightarrow> \<not> can_read_body c'" "r = ret"
  using assms by (auto simp: then_keep_alive_def split: rust.splits
      dest: try_keep_alive_unread try_keep_alive_reading)

lemma read_body_frame_left:
  assumes "conn_ok ok view c" "s_reading (cn_state c) = ReadingBody d"
    and "read_body_frame E c d = Some (c', r)" "\<not> is_panicked r"
  shows "left c' \<le> left c \<and>
    (can_read_body c' \<longrightarrow> r = Pending \<or> (\<exists>bs. r = Ready (Some (Inr (FrameData bs))) \<and> left c' < left c))"
proof -
  from assms(1,2) have d: "decoder_wf d" "\<not> decoder_is_eof d" by (auto simp: conn_ok_def state_ok_def)
  obtain d' io res where dec: "decode (env_http E) (env_httparse E) (read_mem (env_transport E)) d (cn_io c) = Some (d', io, res)"
    using assms(3) by (auto simp: read_body_frame_def split: option.splits)
  note cons = mem_read.decode_consumes [OF tr.read_mem_ok d dec]
  let ?c = "c\<lparr>cn_io := io, cn_state := (cn_state c)\<lparr>s_reading := ReadingBody d'\<rparr>\<rparr>"
  have fin: "left c' \<le> left c \<and> \<not> can_read_body c'"
    if "then_keep_alive E (map_state (\<lambda>s. s\<lparr>s_reading := rd\<rparr>) ?c) (Ready ret) = (c', r)" "rd = ReadingKeepAlive \<or> rd = ReadingClosed"
    for rd ret
    using then_keep_alive_left [OF that(1) assms(4)] that(2) cons
    by (auto simp: unread_def can_read_body_def)
  show ?thesis
    using assms(3,4) dec cons fin
    by (auto simp: read_body_frame_def Let_def unread_def split: poll.splits sum.splits frame.splits if_splits)
qed

lemma poll_read_body_left:
  assumes "conn_ok ok view c" "can_read_body c" "poll_read_body E c = Some (c', r)" "\<not> is_panicked r"
  shows "left c' \<le> left c \<and>
    (can_read_body c' \<longrightarrow> r = Pending \<or> (\<exists>bs. r = Ready (Some (Inr (FrameData bs))) \<and> left c' < left c))"
proof -
  from assms(1,2) obtain d where d: "s_reading (cn_state c) = ReadingBody d"
    by (auto simp: conn_ok_def state_ok_def can_read_body_def split: reading.splits)
  with assms(3) have "read_body_frame E c d = Some (c', r)" by (simp add: poll_read_body_def)
  from read_body_frame_left [OF assms(1) d this assms(4)] show ?thesis .
qed

lemma poll_drain_left:
  assumes "conn_ok ok view c" "can_read_body c" "poll_drain_or_close_read E c = Some (Return c')"
  shows "left c' \<le> left c \<and> \<not> can_read_body c'"
proof -
  from assms(1,2) have eq: "(case s_reading (cn_state c) of
      ReadingContinue d \<Rightarrow> map_state (\<lambda>s. s\<lparr>s_reading := ReadingBody d\<rparr>) c | _ \<Rightarrow> c) = c"
    by (auto simp: conn_ok_def state_ok_def split: reading.splits)
  from poll_read_body_ok [OF assms(1,2)] obtain c2 r where
    rd: "poll_read_body E c = Some (c2, r)" "\<not> is_panicked r" by blast
  from poll_read_body_left [OF assms(1,2) rd] have "left c2 \<le> left c" by simp
  with rd assms(3) show ?thesis
    by (cases r) (auto simp: poll_drain_or_close_read_def eq Let_def unread_def can_read_body_def
        conn_close_read_def state_defs split: if_splits)
qed

lemma length_leading_lines: "leading_lines bs \<le> length bs"
  by (induction bs) auto

lemma on_read_head_error_left:
  assumes "on_read_head_error E c e = (c', res)"
  shows "left c' \<le> left c \<and> s_reading (cn_state c') = ReadingClosed"
proof -
  have le: "length (stream incoming (consume_leading_lines io)) \<le> length (stream incoming io)" for io
    by (simp add: stream_def consume_leading_lines_def bm_split_to_def)
  have "cn_io c' = consume_leading_lines (cn_io c)"
    using assms by (auto simp: on_read_head_error_def on_parse_error_client Let_def conn_close_read_def
        conn_close_write_def split: if_splits)
  with le on_read_head_error_state [OF assms] show ?thesis by (auto simp: unread_def state_defs)
qed

lemma poll_read_head_left:
  assumes "conn_ok ok view c" "can_read_head c" "poll_read_head E c = Some (c', res)" "\<not> is_panicked res"
  shows "left c' \<le> left c" "res = Ready None \<Longrightarrow> s_reading (cn_state c') = ReadingClosed"
    "can_read_body c' \<Longrightarrow> \<exists>h len w. res = Ready (Some (Inr (h, len, w))) \<and> len \<noteq> ZERO"
proof -
  from assms(1,2) have po: "partial_ok (cn_io c)" by (auto simp: can_read_head_def conn_ok_def io_ok_def)
  from buffered_parse_ok [OF transport parser po, of "env_http E" "context_of (cn_state c)"]
  obtain ctx io r where parse: "buffered_parse (parse_headers False (env_http E) (env_httparse E)) (env_transport E)
      (context_of (cn_state c)) (cn_io c) = Some (ctx, io, r)"
    and ok: "parse_ok (env_http E) incoming (context_of (cn_state c)) (cn_io c) (ctx, io, r)" by (metis prod_cases3)
  let ?c = "c\<lparr>cn_io := io, cn_state := from_context ctx (cn_state c)\<rparr>"
  have le: "left ?c \<le> left c" using ok by (auto simp: parse_ok_def unread_def)
  note res = assms(3) [unfolded poll_read_head_def parse, simplified Let_def option.case prod.case option.inject]
  have init: "\<not> can_read_body ?c" using assms(2) by (simp add: can_read_body_def can_read_head_def)
  have "left c' \<le> left ?c \<and> (res = Ready None \<longrightarrow> s_reading (cn_state c') = ReadingClosed) \<and>
    (can_read_body c' \<longrightarrow> (\<exists>h len w. res = Ready (Some (Inr (h, len, w))) \<and> len \<noteq> ZERO))"
  proof (cases r)
    case (Ready x)
    show ?thesis
    proof (cases x)
      case (Inl e)
      with res Ready on_read_head_error_left [of ?c e c' res] show ?thesis by (simp add: can_read_body_rank)
    next
      case (Inr msg)
      with res Ready have "read_head_message E ?c msg = (c', res)" by simp
      from this assms(4) show ?thesis
      proof (cases rule: read_head_message_cases)
        case (empty c1 t w)
        from try_keep_alive_reading [OF empty(2)] try_keep_alive_unread [OF empty(2)] empty show ?thesis
          by (simp add: unread_def can_read_body_rank)
      qed (simp add: unread_def)
    qed
  qed (use res init in auto)
  with le show "left c' \<le> left c" "res = Ready None \<Longrightarrow> s_reading (cn_state c') = ReadingClosed"
    "can_read_body c' \<Longrightarrow> \<exists>h len w. res = Ready (Some (Inr (h, len, w))) \<and> len \<noteq> ZERO" by auto
qed

end

section \<open>The limit of the write buffer\<close>

text \<open>No operation of a connection changes the size up to which it buffers.\<close>

abbreviation limit :: "('io, 'b, 'h) conn \<Rightarrow> nat" where
  "limit c \<equiv> wb_max_buf_size (write_buf (cn_io c))"

definition limit_kept :: "('io, 'b) transport \<Rightarrow> bool" where
  "limit_kept T \<longleftrightarrow> (\<forall>io wb. wb_max_buf_size (fst (snd (tr_poll_write_buf T io wb))) = wb_max_buf_size wb)"

lemma flush_io_limit: "flush_io T b = (b', r) \<Longrightarrow> write_buf b' = write_buf b"
  by (auto simp: flush_io_def split: prod.splits)

lemma flush_flattened_limit:
  assumes "poll_flush_flattened T b = Some y"
  shows "wb_max_buf_size (write_buf (fst y)) = wb_max_buf_size (write_buf b)"
  by (rule poll_flush_flattened.raw_induct [OF _ assms])
    (auto simp: Let_def dest!: flush_io_limit split: prod.splits poll.splits sum.splits if_splits)

lemma flush_queue_limit:
  assumes "flush_queue_loop T b = Some y" "limit_kept T"
  shows "wb_max_buf_size (write_buf (fst y)) = wb_max_buf_size (write_buf b)"
proof -
  have "limit_kept T \<longrightarrow> wb_max_buf_size (write_buf (fst y)) = wb_max_buf_size (write_buf b)"
  proof (rule flush_queue_loop.raw_induct [OF _ assms(1)], intro impI)
    fix loop :: "('a, 'b) transport \<Rightarrow> ('a, 'b) buffered \<Rightarrow> (('a, 'b) buffered \<times> (io_error + unit) poll) option"
      and T b y
    assume IH: "\<And>T b y. loop T b = Some y \<Longrightarrow> limit_kept T \<longrightarrow>
        wb_max_buf_size (write_buf (fst y)) = wb_max_buf_size (write_buf b)"
      and k: "limit_kept T"
      and eq: "(case tr_poll_write_buf T (b_io b) (write_buf b) of
        (io, wb, Ready (Inr n)) \<Rightarrow>
          (let b' = b\<lparr>b_io := io, write_buf := wb\<rparr> in
           if wb_remaining wb = 0 then Some (flush_io T b')
           else if n = 0 then Some (b', Ready (Inl write_zero))
           else loop T b')
      | (io, wb, Ready (Inl e)) \<Rightarrow> Some (b\<lparr>b_io := io, write_buf := wb\<rparr>, Ready (Inl e))
      | (io, wb, Pending) \<Rightarrow> Some (b\<lparr>b_io := io, write_buf := wb\<rparr>, Pending)
      | (io, wb, Panicked m) \<Rightarrow> Some (b\<lparr>b_io := io, write_buf := wb\<rparr>, Panicked m)) = Some y"
    obtain io wb r where w: "tr_poll_write_buf T (b_io b) (write_buf b) = (io, wb, r)" by (rule prod_cases3)
    have "wb_max_buf_size wb = wb_max_buf_size (write_buf b)"
      using k w by (metis fst_conv limit_kept_def snd_conv)
    with eq k IH show "wb_max_buf_size (write_buf (fst y)) = wb_max_buf_size (write_buf b)"
      unfolding w by (cases y) (auto simp: Let_def dest!: flush_io_limit split: poll.splits sum.splits if_splits)
  qed
  with assms(2) show ?thesis by blast
qed

lemma buffered_parse_writes:
  assumes "buffered_parse ph T ctx b = Some y"
  shows "write_buf (fst (snd y)) = write_buf b"
  by (rule buffered_parse.raw_induct [OF _ assms])
    (auto simp: Let_def dest!: read_from_io_writes split: prod.splits poll.splits sum.splits if_splits
      option.splits rust.splits)

lemma maybe_notify_writes: "maybe_notify E c = Return c' \<Longrightarrow> write_buf (cn_io c') = write_buf (cn_io c)"
  using maybe_notify_io [of E c c'] read_from_io_writes by fastforce

lemma then_keep_alive_writes:
  "then_keep_alive E c ret = (c', r) \<Longrightarrow> write_buf (cn_io c') = write_buf (cn_io c)"
  by (auto simp: then_keep_alive_def conn_try_keep_alive_def dest!: maybe_notify_writes split: rust.splits)

lemma flush_limit:
  assumes "conn_poll_flush E c = Some (c', r)" "limit_kept (env_transport E)"
  shows "limit c' = limit c"
proof -
  from assms(1) obtain io fr where fl: "buffered_poll_flush (env_transport E) (cn_io c) = Some (io, fr)"
    by (auto simp: conn_poll_flush_def split: option.splits)
  have "wb_max_buf_size (write_buf io) = limit c"
    using fl flush_queue_limit [of _ _ "(io, fr)", OF _ assms(2)] flush_flattened_limit [of _ _ "(io, fr)"]
    by (auto simp: buffered_poll_flush_def dest!: flush_io_limit split: if_splits write_strategy.splits)
  with assms(1) fl show ?thesis
    by (auto simp: conn_poll_flush_def dest!: then_keep_alive_writes split: poll.splits sum.splits)
qed

lemma wb_buffer_limit: "wb_buffer bops f ops wb b = Some (Return wb') \<Longrightarrow> wb_max_buf_size wb' = wb_max_buf_size wb"
  by (auto simp: wb_buffer_def split: write_strategy.splits option.splits rust.splits)

lemma conn_buffer_limit: "conn_buffer E c b = Some (Return c') \<Longrightarrow> limit c' = limit c"
  by (auto simp: conn_buffer_def buffered_buffer_def dest!: wb_buffer_limit)

lemma encode_and_end_limit:
  "encode_and_end B enc chunk wb = Some (Return (wb', k)) \<Longrightarrow> wb_max_buf_size wb' = wb_max_buf_size wb"
  by (auto simp: encode_and_end_def buffered_flag_def Let_def dest: wb_buffer_limit
      split: encoder_kind.splits if_splits rust.splits)

lemma read_body_frame_writes:
  assumes "read_body_frame E c d = Some (c', r)"
  shows "write_buf (cn_io c') = write_buf (cn_io c)"
proof -
  obtain d' io res where dec:
    "decode (env_http E) (env_httparse E) (read_mem (env_transport E)) d (cn_io c) = Some (d', io, res)"
    using assms by (auto simp: read_body_frame_def split: option.splits)
  with assms decode_read_mem_keeps [OF dec] show ?thesis
    by (auto simp: read_body_frame_def Let_def dest!: then_keep_alive_writes
        split: poll.splits sum.splits frame.splits if_splits)
qed

lemma poll_read_body_limit: "poll_read_body E c = Some (c', r) \<Longrightarrow> limit c' = limit c"
  by (auto simp: poll_read_body_def headers_buf_extend_def Let_def dest!: read_body_frame_writes
      split: reading.splits if_splits)

lemma poll_read_head_writes:
  assumes "poll_read_head E c = Some (c', r)" "\<not> is_panicked r"
  shows "write_buf (cn_io c') = write_buf (cn_io c)"
proof -
  from assms(1) obtain ctx io res where parse: "buffered_parse (parse_headers False (env_http E) (env_httparse E))
      (env_transport E) (context_of (cn_state c)) (cn_io c) = Some (ctx, io, res)"
    by (auto simp: poll_read_head_def split: option.splits)
  let ?c = "c\<lparr>cn_io := io, cn_state := from_context ctx (cn_state c)\<rparr>"
  have head: "write_buf (cn_io c') = write_buf io" if "read_head_message E ?c msg = (c', r)" for msg
    using that assms(2) by (cases rule: read_head_message_cases)
      (auto simp: conn_try_keep_alive_def dest!: maybe_notify_writes)
  have "write_buf (cn_io c') = write_buf io"
    using assms(1) parse on_read_head_error_state [of E ?c _ c' r] head
    by (auto simp: poll_read_head_def Let_def split: poll.splits sum.splits)
  with buffered_parse_writes [OF parse] show ?thesis by simp
qed

lemma conn_step_limit:
  assumes "conn_step E valid c c'" "limit_kept (env_transport E)"
  shows "limit c' = limit c"
  using assms(1)
proof cases
  case (ReadHead r)
  with poll_read_head_writes show ?thesis by metis
next
  case (ReadBody r)
  with poll_read_body_limit show ?thesis by metis
next
  case DrainBody
  then show ?thesis
    by (auto simp: poll_drain_or_close_read_def Let_def conn_close_read_def dest!: poll_read_body_limit
        split: reading.splits option.splits poll.splits if_splits)
next
  case (ReadKeepAlive r)
  then show ?thesis
    by (auto simp: poll_read_keep_alive_def mid_message_detect_eof_def require_empty_read_def force_io_read_def
        dest!: read_from_io_writes split: if_splits prod.splits poll.splits sum.splits)
next
  case (WriteHead head body)
  then show ?thesis by (auto simp: headers_buf_extend_def elim: write_head_state)
next
  case (WriteBody chunk)
  then show ?thesis by (auto simp: write_body_def dest!: conn_buffer_limit split: writing.splits rust.splits)
next
  case (WriteTrailers trailers)
  then show ?thesis
    by (auto simp: write_trailers_def dest!: conn_buffer_limit split: writing.splits rust.splits option.splits)
next
  case (WriteBodyAndEnd chunk)
  then show ?thesis by (auto simp: write_body_and_end_def dest!: encode_and_end_limit split: writing.splits)
next
  case (EndBody res)
  then show ?thesis
    by (auto simp: end_body_def dest!: conn_buffer_limit split: writing.splits sum.splits option.splits not_eof.splits)
next
  case (Flush r)
  with flush_limit assms(2) show ?thesis by metis
next
  case (Shutdown r)
  then show ?thesis by (auto simp: conn_poll_shutdown_def split: prod.splits)
qed (auto simp: take_error_def wants_read_again_def on_upgrade_def pending_upgrade_def conn_close_read_def
  conn_close_write_def)

lemma conn_reachable_limit:
  "conn_reachable E valid c c' \<Longrightarrow> limit_kept (env_transport E) \<Longrightarrow> limit c' = limit c"
  by (induction rule: conn_reachable.induct) (auto dest: conn_step_limit)

context connection
begin

text \<open>After a flush that succeeds there is room for body data again.\<close>

lemma flushed_can_buffer:
  assumes "conn_ok ok view c" "conn_poll_flush E c = Some (c', Ready (Inr u))"
    and "limit_kept (env_transport E)" "0 < limit c"
  shows "can_buffer_body c'"
proof -
  from assms(1) have io: "wb_ok (encoded_ok ok) (encoded_view view) (write_buf (cn_io c))" "\<not> flush_pipeline (cn_io c)"
    by (auto simp: conn_ok_def io_ok_def)
  from tr.poll_flush_ok [OF io] obtain io' r where
    fl: "buffered_poll_flush (env_transport E) (cn_io c) = Some (io', r)" "tr.flushed (cn_io c) (io', r)" by fastforce
  with assms(2) have r: "r = Ready (Inr ())" by (auto simp: conn_poll_flush_def split: poll.splits sum.splits)
  with fl assms(2) have "then_keep_alive E (c\<lparr>cn_io := io'\<rparr>) (Ready (Inr ()) :: (io_error + unit) poll) = (c', Ready (Inr u))"
    by (auto simp: conn_poll_flush_def)
  from then_keep_alive_writes [OF this] have wb: "write_buf (cn_io c') = write_buf io'" by simp
  have "wb_ok (encoded_ok ok) (encoded_view view) (write_buf io')" "wb_view (encoded_view view) (write_buf io') = []"
    using fl(2) r by (auto simp: flush_ok_def)
  then have "wb_remaining (write_buf io') = 0" "bl_bufs (wb_queue (write_buf io')) = []"
    by (auto simp: wb_ok_def wb_view_def wb_remaining_def cursor_remaining_chunk buf_list_ok_def buf_list_view_def
        list_all_iff)
  with flush_limit [OF assms(2,3)] assms(4) wb show ?thesis
    by (simp add: can_buffer_body_def can_buffer_def wb_can_buffer_def bufs_cnt_def MAX_BUF_LIST_BUFFERS_def
        split: write_strategy.splits)
qed

end

end
