(* ===== verification/Incoming_Props.thy ===== *)
theory Incoming_Props
  imports Incoming
begin

text \<open>
  The body channel between the HTTP/1 dispatcher and the reader of a response is a reliable queue:
  the reader gets exactly the accepted chunks, in order, then the trailers, then the end, and its
  size hint is what is still to come. The locale \<open>body_channel\<close> states what the two channels of
  \<open>futures_channel\<close> promise.
\<close>

locale body_channel =
  fixes C :: "('m, 'o, 'h) channel_api"
    and queue :: "'m \<Rightarrow> (error + bytes) list" and tx_open :: "'m \<Rightarrow> bool"
    and slot :: "'o \<Rightarrow> 'h option" and os_open :: "'o \<Rightarrow> bool"
  assumes mp_new: "queue (mp_new C) = []" "tx_open (mp_new C)"
    and mp_terminated: "mp_is_terminated C m \<Longrightarrow> queue m = [] \<and> \<not> tx_open m"
    and mp_next: "mp_poll_next C m = (r, m') \<Longrightarrow> tx_open m' = tx_open m \<and>
      (case r of Ready (Some x) \<Rightarrow> queue m = x # queue m'
       | Ready None \<Rightarrow> queue m = [] \<and> queue m' = [] \<and> \<not> tx_open m
       | Pending \<Rightarrow> queue m = [] \<and> queue m' = [] \<and> tx_open m
       | Panicked e \<Rightarrow> False)"
    and mp_ready: "mp_poll_ready C m = (b, m') \<Longrightarrow>
      queue m' = queue m \<and> tx_open m' = tx_open m \<and> \<not> is_panicked b"
    and mp_send: "mp_try_send C m x = (ok, m') \<Longrightarrow>
      queue m' = queue m @ (if ok then [x] else []) \<and> tx_open m' = tx_open m"
    and mp_clone_send: "mp_clone_try_send C m x = (ok, m') \<Longrightarrow>
      queue m' = queue m @ (if ok then [x] else []) \<and> tx_open m' = tx_open m"
    and mp_drop: "queue (mp_drop_tx C m) = queue m" "\<not> tx_open (mp_drop_tx C m)"
    and os_new: "slot (os_new C) = None" "os_open (os_new C)"
    and os_send: "os_send C ot h = (ok, ot') \<Longrightarrow>
      slot ot' = (if ok then Some h else slot ot) \<and> \<not> os_open ot'"
    and os_poll: "os_poll C ot = (q, ot') \<Longrightarrow> os_open ot' = os_open ot \<and> slot ot' = None \<and>
      (case q of Ready (Some h) \<Rightarrow> slot ot = Some h
       | Ready None \<Rightarrow> slot ot = None \<and> \<not> os_open ot
       | Pending \<Rightarrow> slot ot = None \<and> os_open ot
       | Panicked e \<Rightarrow> False)"
    and os_drop: "slot (os_drop_tx C ot) = slot ot" "\<not> os_open (os_drop_tx C ot)"

section \<open>Executions of the two ends\<close>

text \<open>
  The state of an HTTP/1 body with its history: the chunks and errors the producer handed over,
  the trailers it handed over, and what the reader received.
\<close>

record ('k, 'm, 'o, 'h) body_sys =
  by_chan :: "('k, 'm, 'o) body_chan"
  by_sender :: "body_sender option"
  by_len :: decoded_length
  by_sent :: "(error + bytes) list"
  by_trailers :: "'h option"
  by_got :: "(error + 'h frame) list"

definition received :: "(error + 'h frame) option poll \<Rightarrow> (error + 'h frame) list" where
  "received r = (case r of Ready (Some x) \<Rightarrow> [x] | _ \<Rightarrow> [])"

definition accepted :: "'e + unit \<Rightarrow> 'x list \<Rightarrow> 'x list" where
  "accepted r xs = (case r of Inr _ \<Rightarrow> xs | Inl _ \<Rightarrow> [])"

inductive body_step ::
  "'k waker_api \<Rightarrow> ('m, 'o, 'h) channel_api \<Rightarrow>
   ('k, 'm, 'o, 'h) body_sys \<Rightarrow> ('k, 'm, 'o, 'h) body_sys \<Rightarrow> bool" for A C where
  PollFrame: "h1_poll_frame A C (by_len s) (by_chan s) = (r, len, ch) \<Longrightarrow>
     body_step A C s (s\<lparr>by_chan := ch, by_len := len, by_got := by_got s @ received r\<rparr>)"
| PollReady: "by_sender s = Some t \<Longrightarrow> sender_poll_ready A C (by_chan s) = (ch, u) \<Longrightarrow>
     body_step A C s (s\<lparr>by_chan := ch\<rparr>)"
| SendData: "by_sender s = Some t \<Longrightarrow> sender_send_data C chunk (by_chan s) = (d, ch) \<Longrightarrow>
     body_step A C s (s\<lparr>by_chan := ch, by_sent := by_sent s @ accepted d [Inr chunk]\<rparr>)"
| SendTrailers: "by_sender s = Some t \<Longrightarrow> sender_send_trailers C t h (by_chan s) = (v, t', ch) \<Longrightarrow>
     body_step A C s (s\<lparr>by_chan := ch, by_sender := Some t',
       by_trailers := (case v of Inr _ \<Rightarrow> Some h | Inl _ \<Rightarrow> by_trailers s)\<rparr>)"
| SendError: "by_sender s = Some t \<Longrightarrow> sender_send_error C e (by_chan s) = ch \<Longrightarrow>
     mp_clone_try_send C (bc_data (by_chan s)) (Inl e) = (ok, m) \<Longrightarrow>
     body_step A C s (s\<lparr>by_chan := ch, by_sent := by_sent s @ (if ok then [Inl e] else [])\<rparr>)"
| DropSender: "by_sender s = Some t \<Longrightarrow>
     body_step A C s (s\<lparr>by_chan := sender_drop C t (by_chan s), by_sender := None\<rparr>)"

definition body_start ::
  "'k waker_api \<Rightarrow> ('m, 'o, 'h) channel_api \<Rightarrow> decoded_length \<Rightarrow> bool \<Rightarrow> ('k, 'm, 'o, 'h) body_sys" where
  "body_start A C len wanter =
     (case incoming_h1 A C len wanter :: body_sender \<times> unit incoming \<times> _ of (s, b, ch) \<Rightarrow>
        \<lparr>by_chan = ch, by_sender = Some s, by_len = len, by_sent = [], by_trailers = None, by_got = []\<rparr>)"

inductive body_reachable ::
  "'k waker_api \<Rightarrow> ('m, 'o, 'h) channel_api \<Rightarrow> decoded_length \<Rightarrow> bool \<Rightarrow>
   ('k, 'm, 'o, 'h) body_sys \<Rightarrow> bool" for A C len wanter where
  start: "body_reachable A C len wanter (body_start A C len wanter)"
| step: "body_reachable A C len wanter s \<Longrightarrow> body_step A C s s' \<Longrightarrow> body_reachable A C len wanter s'"

section \<open>The queue invariant\<close>

definition frame_of :: "error + bytes \<Rightarrow> error + 'h frame" where
  "frame_of x = (case x of Inl e \<Rightarrow> Inl e | Inr chunk \<Rightarrow> Inr (FrameData chunk))"

definition chunk_bytes :: "(error + bytes) list \<Rightarrow> nat" where
  "chunk_bytes xs = sum_list (map (case_sum (\<lambda>_. 0) length) xs)"

lemma chunk_bytes_simps [simp]:
  "chunk_bytes [] = 0" "chunk_bytes (x # xs) = case_sum (\<lambda>_. 0) length x + chunk_bytes xs"
  "chunk_bytes (xs @ ys) = chunk_bytes xs + chunk_bytes ys"
  by (simp_all add: chunk_bytes_def)

text \<open>
  \<open>gone\<close> is what the reader has taken from the queue. The trailers are in their slot until
  the reader takes them, which it does only when the producer is gone and the queue is empty.
\<close>

definition fifo ::
  "('m \<Rightarrow> (error + bytes) list) \<Rightarrow> ('m \<Rightarrow> bool) \<Rightarrow> ('o \<Rightarrow> 'h option) \<Rightarrow> ('o \<Rightarrow> bool) \<Rightarrow>
   (error + bytes) list \<Rightarrow> ('k, 'm, 'o, 'h) body_sys \<Rightarrow> bool" where
  "fifo queue tx_open slot os_open gone s \<longleftrightarrow>
     by_sent s = gone @ queue (bc_data (by_chan s)) \<and>
     (tx_open (bc_data (by_chan s)) \<longleftrightarrow> by_sender s \<noteq> None) \<and>
     (os_open (bc_trailers (by_chan s)) \<longleftrightarrow> by_sender s = Some (Sender True)) \<and>
     (os_open (bc_trailers (by_chan s)) \<longrightarrow> by_trailers s = None) \<and>
     (by_got s = map frame_of gone \<and> slot (bc_trailers (by_chan s)) = by_trailers s \<or>
      by_sender s = None \<and> queue (bc_data (by_chan s)) = [] \<and> slot (bc_trailers (by_chan s)) = None \<and>
      (\<exists>h. by_trailers s = Some h \<and> by_got s = map frame_of gone @ [Inr (FrameTrailers h)]))"

text \<open>The remaining length, for a body of a declared length that the producer does not exceed.\<close>

definition remaining :: "decoded_length \<Rightarrow> (error + bytes) list \<Rightarrow> ('k, 'm, 'o, 'h) body_sys \<Rightarrow> bool" where
  "remaining len0 gone s \<longleftrightarrow>
     (if is_exact len0
      then chunk_bytes (by_sent s) \<le> unat (dl_val len0) \<longrightarrow>
             is_exact (by_len s) \<and> unat (dl_val (by_len s)) + chunk_bytes gone = unat (dl_val len0)
      else by_len s = len0)"

lemma sub_if_inexact: "\<not> is_exact len \<Longrightarrow> sub_if len n = len"
  by (cases len) (auto simp: sub_if_def is_exact_def max_len_iff CHUNKED_def CLOSE_DELIMITED_def)

lemma sub_if_exact_bytes:
  assumes "is_exact len" "length chunk \<le> unat (dl_val len)"
  shows "is_exact (sub_if len (of_nat (length chunk))) \<and>
    unat (dl_val (sub_if len (of_nat (length chunk)))) = unat (dl_val len) - length chunk"
proof -
  have le: "of_nat (length chunk) \<le> dl_val len" and n: "unat (of_nat (length chunk) :: u64) = length chunk"
    using assms(2) unat_bound [of "dl_val len"] by (auto intro: of_nat_le_u64 unat_of_nat_u64)
  have "len \<noteq> CHUNKED" "len \<noteq> CLOSE_DELIMITED"
    using assms(1) by (auto simp: is_exact_def CHUNKED_def CLOSE_DELIMITED_def max_len_iff)
  moreover have "unat (dl_val len - of_nat (length chunk)) = unat (dl_val len) - length chunk"
    using unat_minus_le [OF le] n by simp
  ultimately show ?thesis
    using assms(1) by (simp add: sub_if_def is_exact_def word_le_nat_alt)
qed

context body_channel
begin

abbreviation fifo_inv where "fifo_inv \<equiv> fifo queue tx_open slot os_open"

lemma h1_poll_trailers_ok:
  assumes "fifo_inv gone s" "remaining len0 gone s" "by_sender s = None" "queue (bc_data (by_chan s)) = []"
    "h1_poll_trailers C (by_len s) (by_chan s) = (r, len, ch)"
  shows "fifo_inv gone (s\<lparr>by_chan := ch, by_len := len, by_got := by_got s @ received r\<rparr>) \<and>
    remaining len0 gone (s\<lparr>by_chan := ch, by_len := len, by_got := by_got s @ received r\<rparr>) \<and>
    \<not> is_panicked r \<and>
    (r = Ready None \<longrightarrow> by_sent s = gone \<and> (\<forall>h. by_trailers s = Some h \<longrightarrow> by_got s \<noteq> map frame_of gone))"
proof -
  obtain q tr where q: "os_poll C (bc_trailers (by_chan s)) = (q, tr)" by fastforce
  note p = os_poll [OF q]
  consider h where "q = Ready (Some h)" | "q = Ready None" | "q = Pending" | m where "q = Panicked m"
    by (metis option.exhaust poll.exhaust)
  then show ?thesis
  proof cases
    case 1
    with q assms(5) have e: "r = Ready (Some (Inr (FrameTrailers h)))" "len = by_len s"
      "ch = (by_chan s)\<lparr>bc_trailers := tr\<rparr>" by (auto simp: h1_poll_trailers_def)
    from p 1 have "slot (bc_trailers (by_chan s)) = Some h" by simp
    with e p assms(1-4) show ?thesis by (auto simp: fifo_def remaining_def received_def)
  next
    case 2
    with q assms(5) have e: "r = Ready None" "len = by_len s" "ch = (by_chan s)\<lparr>bc_trailers := tr\<rparr>"
      by (auto simp: h1_poll_trailers_def)
    from p 2 have "slot (bc_trailers (by_chan s)) = None" by simp
    with e p assms(1-4) show ?thesis by (auto simp: fifo_def remaining_def received_def)
  next
    case 3
    with p assms(1,3) show ?thesis by (auto simp: fifo_def)
  next
    case 4
    with p show ?thesis by simp
  qed
qed

lemma take_item_ok:
  assumes "fifo_inv gone s" "remaining len0 gone s" "mp_poll_next C (bc_data (by_chan s)) = (Ready (Some x), m)"
    "len = (case x of Inl e \<Rightarrow> by_len s | Inr chunk \<Rightarrow> sub_if (by_len s) (of_nat (length chunk)))"
  shows "fifo_inv (gone @ [x]) (s\<lparr>by_chan := (by_chan s)\<lparr>bc_data := m\<rparr>, by_len := len, by_got := by_got s @ [frame_of x]\<rparr>)"
    and "remaining len0 (gone @ [x]) (s\<lparr>by_chan := (by_chan s)\<lparr>bc_data := m\<rparr>, by_len := len, by_got := by_got s @ [frame_of x]\<rparr>)"
proof -
  have q: "queue (bc_data (by_chan s)) = x # queue m" "tx_open m = tx_open (bc_data (by_chan s))"
    using mp_next [OF assms(3)] by simp_all
  then show "fifo_inv (gone @ [x]) (s\<lparr>by_chan := (by_chan s)\<lparr>bc_data := m\<rparr>, by_len := len, by_got := by_got s @ [frame_of x]\<rparr>)"
    using assms(1) by (auto simp: fifo_def)
  have sent: "by_sent s = gone @ x # queue m" using assms(1) q by (simp add: fifo_def)
  show "remaining len0 (gone @ [x]) (s\<lparr>by_chan := (by_chan s)\<lparr>bc_data := m\<rparr>, by_len := len, by_got := by_got s @ [frame_of x]\<rparr>)"
  proof (cases x)
    case (Inl e)
    with assms(2,4) show ?thesis by (simp add: remaining_def)
  next
    case (Inr chunk)
    then show ?thesis
      using assms(2,4) sent sub_if_exact_bytes [of "by_len s" chunk]
      by (auto simp: remaining_def sub_if_inexact)
  qed
qed

lemma h1_poll_frame_ok:
  assumes "fifo_inv gone s" "remaining len0 gone s"
    "h1_poll_frame A C (by_len s) (by_chan s) = (r, len, ch)"
  shows "\<exists>gone'. fifo_inv gone' (s\<lparr>by_chan := ch, by_len := len, by_got := by_got s @ received r\<rparr>) \<and>
    remaining len0 gone' (s\<lparr>by_chan := ch, by_len := len, by_got := by_got s @ received r\<rparr>) \<and>
    \<not> is_panicked r \<and>
    (r = Ready None \<longrightarrow> by_sender s = None \<and> by_sent s = gone \<and>
       (\<forall>h. by_trailers s = Some h \<longrightarrow> by_got s \<noteq> map frame_of gone))"
proof -
  define s1 where "s1 = s\<lparr>by_chan := (by_chan s)\<lparr>bc_want := fst (watch_ready A (bc_want (by_chan s)))\<rparr>\<rparr>"
  have 1: "fifo_inv gone s1" "remaining len0 gone s1" "by_len s1 = by_len s" "by_got s1 = by_got s"
      "by_sender s1 = by_sender s" "by_sent s1 = by_sent s" "by_trailers s1 = by_trailers s"
    using assms(1,2) by (simp_all add: s1_def fifo_def remaining_def)
  let ?m = "bc_data (by_chan s1)"
  show ?thesis
  proof (cases "mp_is_terminated C ?m")
    case True
    then have t: "h1_poll_trailers C (by_len s1) (by_chan s1) = (r, len, ch)"
      using assms(3) by (simp add: h1_poll_frame_def s1_def)
    have "by_sender s1 = None" "queue ?m = []" using mp_terminated [OF True] 1(1) by (auto simp: fifo_def)
    from h1_poll_trailers_ok [OF 1(1,2) this t] \<open>by_sender s1 = None\<close> show ?thesis by (auto simp: s1_def)
  next
    case False
    obtain q m where q: "mp_poll_next C ?m = (q, m)" by fastforce
    note p = mp_next [OF q]
    define s2 where "s2 = s1\<lparr>by_chan := (by_chan s1)\<lparr>bc_data := m\<rparr>\<rparr>"
    note e = assms(3) [unfolded h1_poll_frame_def Let_def]
    have sys: "by_sent s2 = by_sent s" "by_sender s2 = by_sender s" "by_trailers s2 = by_trailers s"
        "by_got s2 = by_got s" "by_len s2 = by_len s" by (simp_all add: s2_def 1)
    have ch2: "by_chan s2 = (by_chan s)\<lparr>bc_want := fst (watch_ready A (bc_want (by_chan s))), bc_data := m\<rparr>"
      by (simp add: s2_def s1_def)
    consider x where "q = Ready (Some x)" | "q = Ready None" | "q = Pending" | e where "q = Panicked e"
      by (metis option.exhaust poll.exhaust)
    then show ?thesis
    proof cases
      case 1
      then have "r = Ready (Some (frame_of x))" "ch = by_chan s2"
        "len = (case x of Inl e \<Rightarrow> by_len s1 | Inr chunk \<Rightarrow> sub_if (by_len s1) (of_nat (length chunk)))"
        using e False q by (auto simp: s1_def ch2 frame_of_def split: sum.splits)
      with take_item_ok [OF \<open>fifo_inv gone s1\<close> \<open>remaining len0 gone s1\<close> q [unfolded 1]] show ?thesis
        by (intro exI [of _ "gone @ [x]"]) (simp add: received_def s2_def s1_def)
    next
      case 2
      then have t: "h1_poll_trailers C (by_len s2) (by_chan s2) = (r, len, ch)"
        using e False q by (simp add: s1_def ch2 sys)
      have "fifo_inv gone s2" "remaining len0 gone s2" "by_sender s2 = None" "queue (bc_data (by_chan s2)) = []"
        using p 2 1(1,2) by (auto simp: fifo_def remaining_def s2_def)
      from h1_poll_trailers_ok [OF this t] \<open>by_sender s2 = None\<close> show ?thesis by (auto simp: s2_def s1_def)
    next
      case 3
      then have "r = Pending" "len = by_len s" "ch = by_chan s2"
        using e False q by (auto simp: s1_def ch2)
      moreover have "fifo_inv gone s2" using p 3 1(1) by (auto simp: fifo_def s2_def)
      moreover have "remaining len0 gone s2" using 1(2) by (simp add: remaining_def s2_def)
      ultimately show ?thesis
        by (intro exI [of _ gone]) (simp add: received_def s2_def s1_def)
    next
      case 4
      with p show ?thesis by simp
    qed
  qed
qed

lemma body_start_ok:
  "fifo_inv [] (body_start A C len wanter) \<and> remaining len [] (body_start A C len wanter)"
  by (simp add: body_start_def incoming_h1_def fifo_def remaining_def mp_new os_new)

lemma remaining_mono:
  assumes "remaining len0 gone s" "by_len s' = by_len s" "chunk_bytes (by_sent s) \<le> chunk_bytes (by_sent s')"
  shows "remaining len0 gone s'"
  using assms by (auto simp: remaining_def)

lemma body_step_ok:
  assumes "body_step A C s s'" "fifo_inv gone s" "remaining len0 gone s"
  shows "\<exists>gone'. fifo_inv gone' s' \<and> remaining len0 gone' s'"
  using assms(1)
proof (cases rule: body_step.cases)
  case (PollFrame r len ch)
  from h1_poll_frame_ok [OF assms(2,3) PollFrame(2)] show ?thesis unfolding PollFrame(1) by blast
next
  case (PollReady t ch u)
  have "bc_trailers ch = bc_trailers (by_chan s)" "queue (bc_data ch) = queue (bc_data (by_chan s))"
    "tx_open (bc_data ch) = tx_open (bc_data (by_chan s))"
    using PollReady(3) by (auto simp: sender_poll_ready_def Let_def split: prod.splits poll.splits sum.splits
        dest!: mp_ready)
  with assms(2) have "fifo_inv gone s'" by (simp add: fifo_def PollReady(1))
  with remaining_mono [OF assms(3), of s'] show ?thesis by (auto simp: PollReady(1))
next
  case (SendData t chunk d ch)
  have "fifo_inv gone s'"
    using SendData assms(2) by (auto simp: sender_send_data_def accepted_def fifo_def split: prod.splits dest!: mp_send)
  with remaining_mono [OF assms(3), of s'] show ?thesis by (auto simp: SendData(1))
next
  case (SendTrailers t h v t' ch)
  have "fifo_inv gone s'"
  proof (cases "trailers_tx t")
    case True
    then have "t = Sender True" by (cases t) simp
    with True SendTrailers assms(2) show ?thesis
      by (auto simp: sender_send_trailers_def fifo_def split: prod.splits dest!: os_send)
  next
    case False
    with SendTrailers assms(2) show ?thesis by (auto simp: sender_send_trailers_def fifo_def)
  qed
  with remaining_mono [OF assms(3), of s'] show ?thesis by (auto simp: SendTrailers(1))
next
  case (SendError t e ch ok m)
  have "fifo_inv gone s'"
    using SendError assms(2) by (auto simp: sender_send_error_def fifo_def dest!: mp_clone_send)
  with remaining_mono [OF assms(3), of s'] show ?thesis by (auto simp: SendError(1))
next
  case (DropSender t)
  have "fifo_inv gone s'"
    using DropSender assms(2) by (cases t) (auto simp: sender_drop_def fifo_def mp_drop os_drop)
  with remaining_mono [OF assms(3), of s'] show ?thesis by (auto simp: DropSender(1))
qed

lemma body_reachable_ok:
  "body_reachable A C len wanter s \<Longrightarrow> \<exists>gone. fifo_inv gone s \<and> remaining len gone s"
proof (induction rule: body_reachable.induct)
  case start
  show ?case using body_start_ok by blast
next
  case (step s s')
  then obtain gone where "fifo_inv gone s" "remaining len gone s" by blast
  from body_step_ok [OF step.hyps(2) this] show ?case .
qed

end

section \<open>Simulated channels\<close>

text \<open>
  A queue with a flag for the living sender (and the reader's flag for having seen its end), and a
  slot with a flag.
\<close>

definition sim_chan :: "((error + bytes) list \<times> bool \<times> bool, 'h option \<times> bool, 'h) channel_api" where
  "sim_chan = \<lparr>
     mp_new = ([], True, False),
     mp_is_terminated = (\<lambda>(q, tx, ended). q = [] \<and> \<not> tx \<and> ended),
     mp_poll_next = (\<lambda>(q, tx, ended). case q of
        x # xs \<Rightarrow> (Ready (Some x), xs, tx, ended)
      | [] \<Rightarrow> if tx then (Pending, [], tx, ended) else (Ready None, [], tx, True)),
     mp_poll_ready = (\<lambda>m. (if fst m = [] then Ready True else Pending, m)),
     mp_try_send = (\<lambda>(q, tx, ended) x. if q = [] then (True, [x], tx, ended) else (False, q, tx, ended)),
     mp_clone_try_send = (\<lambda>(q, tx, ended) x. (True, q @ [x], tx, ended)),
     mp_drop_tx = (\<lambda>(q, tx, ended). (q, False, ended)),
     os_new = (None, True),
     os_send = (\<lambda>(v, tx) h. (True, Some h, False)),
     os_poll = (\<lambda>(v, tx). (case v of Some h \<Rightarrow> Ready (Some h) | None \<Rightarrow> if tx then Pending else Ready None, None, tx)),
     os_drop_tx = (\<lambda>(v, tx). (v, False))\<rparr>"

interpretation sim_bc: body_channel sim_chan fst "\<lambda>m. fst (snd m)" fst snd
  by unfold_locales
    (auto simp: sim_chan_def split: list.splits if_splits option.splits prod.splits)

section \<open>Properties\<close>

text \<open>
  C22. Whatever the two ends of an HTTP/1 body do in whatever order, the reader receives exactly the
  chunks and errors that the channel accepted, in that order, and trailers only after all of them.
  It sees the end of the body only when the producer is gone and everything the producer handed over,
  trailers included, has been received.
\<close>

theorem incoming_delivers_in_order:
  assumes "body_channel C queue tx_open slot os_open" and "body_reachable A C len wanter s"
  shows "(\<exists>gone rest. by_sent s = gone @ rest \<and>
      (by_got s = map frame_of gone \<or>
       rest = [] \<and> (\<exists>h. by_trailers s = Some h \<and> by_got s = map frame_of gone @ [Inr (FrameTrailers h)]))) \<and>
    (\<forall>len' ch. h1_poll_frame A C (by_len s) (by_chan s) = (Ready None, len', ch) \<longrightarrow>
       by_sender s = None \<and>
       by_got s = map frame_of (by_sent s) @
         (case by_trailers s of None \<Rightarrow> [] | Some h \<Rightarrow> [Inr (FrameTrailers h)]))"
proof -
  obtain gone where inv: "fifo queue tx_open slot os_open gone s" "remaining len gone s"
    using body_channel.body_reachable_ok [OF assms] by blast
  have "by_sender s = None \<and> by_got s = map frame_of (by_sent s) @
      (case by_trailers s of None \<Rightarrow> [] | Some h \<Rightarrow> [Inr (FrameTrailers h)])"
    if "h1_poll_frame A C (by_len s) (by_chan s) = (Ready None, len', ch)" for len' ch
    using body_channel.h1_poll_frame_ok [OF assms(1) inv that] inv(1)
    by (auto simp: fifo_def split: option.splits)
  with inv(1) show ?thesis by (auto simp: fifo_def)
qed

definition sim_body :: "(bool, (error + bytes) list \<times> bool \<times> bool, unit option \<times> bool, unit) body_sys" where
  "sim_body = (body_start flag_waker sim_chan (DecodedLength 2) False)
     \<lparr>by_chan := \<lparr>bc_want = \<lparr>wt_value = READY, wt_waker = False\<rparr>,
        bc_data = ([], False, False), bc_trailers = (None, False)\<rparr>,
      by_sender := None, by_len := DecodedLength 0, by_sent := [Inr ''ab''], by_got := [Inr (FrameData ''ab'')]\<rparr>"

lemmas body_eval = body_start_def incoming_h1_def sim_chan_def watch_channel_def flag_waker_def
  h1_poll_frame_def h1_poll_trailers_def watch_ready_def watch_send_def sender_send_data_def sender_drop_def
  received_def accepted_def

lemma sim_body_reachable: "body_reachable flag_waker sim_chan (DecodedLength 2) False sim_body"
proof -
  let ?s0 = "body_start flag_waker sim_chan (DecodedLength 2) False
    :: (bool, (error + bytes) list \<times> bool \<times> bool, unit option \<times> bool, unit) body_sys"
  let ?s1 = "?s0\<lparr>by_chan := (by_chan ?s0)\<lparr>bc_data := ([Inr ''ab''], True, False)\<rparr>,
    by_sent := by_sent ?s0 @ accepted (Inr () :: bytes + unit) [Inr ''ab'']\<rparr>"
  let ?s2 = "?s1\<lparr>by_chan := (by_chan ?s0), by_len := DecodedLength 0,
    by_got := by_got ?s1 @ received (Ready (Some (Inr (FrameData ''ab''))))\<rparr>"
  let ?s3 = "?s2\<lparr>by_chan := sender_drop sim_chan (Sender True) (by_chan ?s2), by_sender := None\<rparr>"
  have 1: "body_step flag_waker sim_chan ?s0 ?s1"
    by (rule body_step.SendData) (simp_all add: body_eval)
  have 2: "body_step flag_waker sim_chan ?s1 ?s2"
    by (rule body_step.PollFrame)
      (simp add: body_eval sub_if_def CHUNKED_def CLOSE_DELIMITED_def)
  have 3: "body_step flag_waker sim_chan ?s2 ?s3"
    by (rule body_step.DropSender) (simp add: body_eval)
  have "sim_body = ?s3" by (simp add: sim_body_def body_eval)
  then show ?thesis
    using body_reachable.step [OF body_reachable.step [OF body_reachable.step [OF body_reachable.start 1] 2] 3]
    by (simp only:)
qed

theorem incoming_delivers_in_order_witness:
  "(\<exists>len' ch. h1_poll_frame flag_waker sim_chan (by_len sim_body) (by_chan sim_body) = (Ready None, len', ch)) \<and>
   by_got sim_body = map frame_of (by_sent sim_body)"
proof -
  have "\<exists>len' ch. h1_poll_frame flag_waker sim_chan (by_len sim_body) (by_chan sim_body) = (Ready None, len', ch)"
    by (simp add: sim_body_def body_eval)
  moreover have "by_trailers sim_body = None" by (simp add: sim_body_def body_eval)
  ultimately show ?thesis
    using incoming_delivers_in_order [OF sim_bc.body_channel_axioms sim_body_reachable] by auto
qed

text \<open>
  For a body with a declared length that the producer does not exceed, the size hint is at every
  moment exactly the number of bytes still to be received, and the body reports its end of stream
  exactly when all declared bytes have been received.
\<close>

theorem incoming_size_hint_exact:
  assumes "body_channel C queue tx_open slot os_open" and "body_reachable A C len wanter s"
    and "is_exact len" and "chunk_bytes (by_sent s) \<le> unat (dl_val len)"
  shows "\<exists>gone rest n. by_sent s = gone @ rest \<and>
    hint_exact (incoming_size_hint (KindH1 (by_len s))) = Some n \<and>
    unat n + chunk_bytes gone = unat (dl_val len) \<and>
    (incoming_is_end_stream R (KindH1 (by_len s)) \<longleftrightarrow> chunk_bytes gone = unat (dl_val len)) \<and>
    (by_got s = map frame_of gone \<or> (\<exists>h. by_got s = map frame_of gone @ [Inr (FrameTrailers h)]))"
proof -
  obtain gone where inv: "fifo queue tx_open slot os_open gone s" "remaining len gone s"
    using body_channel.body_reachable_ok [OF assms(1,2)] by blast
  then have e: "is_exact (by_len s)" and n: "unat (dl_val (by_len s)) + chunk_bytes gone = unat (dl_val len)"
    using assms(3,4) by (auto simp: remaining_def)
  from e have "by_len s \<noteq> CHUNKED" "by_len s \<noteq> CLOSE_DELIMITED"
    by (auto simp: is_exact_def CHUNKED_def CLOSE_DELIMITED_def max_len_iff)
  then have "hint_exact (incoming_size_hint (KindH1 (by_len s))) = Some (dl_val (by_len s))"
    by (simp add: hint_exact_def hint_of_length_def with_exact_def into_opt_def)
  moreover have "by_len s = ZERO \<longleftrightarrow> unat (dl_val (by_len s)) = 0"
    by (cases "by_len s") (simp add: ZERO_def unat_eq_0)
  ultimately show ?thesis using inv(1) n by (auto simp: fifo_def)
qed

theorem incoming_size_hint_exact_witness:
  "\<exists>gone rest n. by_sent sim_body = gone @ rest \<and>
     hint_exact (incoming_size_hint (KindH1 (by_len sim_body))) = Some n \<and> unat n + chunk_bytes gone = 2"
proof -
  have "is_exact (DecodedLength 2)" "chunk_bytes (by_sent sim_body) \<le> unat (dl_val (DecodedLength 2))"
    by (simp_all add: is_exact_def max_len_iff sim_body_def)
  from incoming_size_hint_exact [OF sim_bc.body_channel_axioms sim_body_reachable this]
  show ?thesis by auto
qed

end
