(* ===== verification/Request_Channel_Props.thy ===== *)
theory Request_Channel_Props
  imports Request_Channel
begin

text \<open>
  The promise of every request that was ever sent is resolved exactly once: it is unresolved as long
  as its callback is in the queue or in the hands of the connection, and no operation loses or
  duplicates a callback. What is still queued when the connection goes away comes back to its caller.
\<close>

text \<open>
  The contract of the channels: \<open>contents\<close> is the queue, \<open>issued\<close> the promises made and \<open>outcome\<close>
  what each was resolved with.
\<close>

locale request_channel =
  fixes D :: "('t, 'u, 'tx, 'q, 'g, 'p) dispatch_api"
    and contents :: "'q \<Rightarrow> ('t, 'tx) envelope list"
    and issued :: "'p \<Rightarrow> 'tx set"
    and outcome :: "'p \<Rightarrow> 'tx \<Rightarrow> ('t, 'u) reply option"
  assumes q_new: "contents (q_new D) = []"
    and q_send: "q_send D q e = (ok, q') \<Longrightarrow> contents q' = contents q @ (if ok then [e] else [])"
    and q_poll_recv: "q_poll_recv D q = (x, q') \<Longrightarrow>
      (case x of Ready (Some e) \<Rightarrow> contents q = e # contents q' | Panicked m \<Rightarrow> False
       | _ \<Rightarrow> contents q' = contents q)"
    and q_recv_now: "q_recv_now D q = (v, q') \<Longrightarrow>
      (case v of Some (Some e) \<Rightarrow> contents q = e # contents q' | _ \<Rightarrow> contents q' = contents q)"
    and q_close: "contents (q_close D q) = contents q"
    and q_drop_rx: "q_drop_rx D q = (es, q') \<Longrightarrow> es = contents q \<and> contents q' = []"
    and p_new: "p_new D p = (tx, p') \<Longrightarrow>
      tx \<notin> issued p \<and> issued p' = insert tx (issued p) \<and> outcome p' = (outcome p)(tx := None)"
    and p_send: "tx \<in> issued p \<Longrightarrow> outcome p tx = None \<Longrightarrow> p_send D p tx r = (ok, p') \<Longrightarrow>
      issued p' = issued p \<and> outcome p' = (outcome p)(tx := Some r)"
    and p_poll_closed: "p_poll_closed D p tx = (b, p') \<Longrightarrow>
      issued p' = issued p \<and> outcome p' = outcome p \<and> \<not> is_panicked b"

text \<open>
  An execution: the exclusive sender, the shared state, the callbacks the connection holds, and
  whether the receiver is alive.
\<close>

record ('tx, 'q, 'g, 'p) dispatch_sys =
  ds_sender :: request_sender
  ds_chan :: "('q, 'g, 'p) chan"
  ds_held :: "'tx callback list"
  ds_alive :: bool

definition held_of :: "('t \<times> 'tx callback) option \<Rightarrow> 'tx callback list" where
  "held_of m = (case m of None \<Rightarrow> [] | Some (val, cb) \<Rightarrow> [cb])"

inductive dispatch_step ::
  "('t, 'u, 'tx, 'q, 'g, 'p) dispatch_api \<Rightarrow> ('tx, 'q, 'g, 'p) dispatch_sys \<Rightarrow>
   ('tx, 'q, 'g, 'p) dispatch_sys \<Rightarrow> bool" for D where
  TrySend: "dispatch_try_send D (ds_sender s) val (ds_chan s) = (r, snd', c) \<Longrightarrow>
     dispatch_step D s (s\<lparr>ds_sender := snd', ds_chan := c\<rparr>)"
| PollReady: "dispatch_poll_ready D (ds_chan s) = (u, c) \<Longrightarrow> dispatch_step D s (s\<lparr>ds_chan := c\<rparr>)"
| PollRecv: "ds_alive s \<Longrightarrow> dispatch_poll_recv D (ds_chan s) = (v, c) \<Longrightarrow>
     dispatch_step D s (s\<lparr>ds_chan := c,
       ds_held := (case v of Ready m \<Rightarrow> held_of m | _ \<Rightarrow> []) @ ds_held s\<rparr>)"
| TryRecv: "ds_alive s \<Longrightarrow> dispatch_try_recv D (ds_chan s) = (m, c) \<Longrightarrow>
     dispatch_step D s (s\<lparr>ds_chan := c, ds_held := held_of m @ ds_held s\<rparr>)"
| Close: "ds_alive s \<Longrightarrow> dispatch_step D s (s\<lparr>ds_chan := dispatch_close D (ds_chan s)\<rparr>)"
| DropReceiver: "ds_alive s \<Longrightarrow> dispatch_drop_receiver D (ds_chan s) = Return c \<Longrightarrow>
     dispatch_step D s (s\<lparr>ds_chan := c, ds_alive := False\<rparr>)"
| Reply: "ds_held s = xs @ cb # ys \<Longrightarrow> callback_send D cb a (ch_promises (ds_chan s)) = Return p \<Longrightarrow>
     dispatch_step D s (s\<lparr>ds_chan := (ds_chan s)\<lparr>ch_promises := p\<rparr>, ds_held := xs @ ys\<rparr>)"
| DropCallback: "ds_held s = xs @ cb # ys \<Longrightarrow>
     dispatch_step D s (s\<lparr>ds_chan := (ds_chan s)\<lparr>ch_promises := callback_drop D b cb (ch_promises (ds_chan s))\<rparr>,
       ds_held := xs @ ys\<rparr>)"

definition dispatch_start :: "('t, 'u, 'tx, 'q, 'g, 'p) dispatch_api \<Rightarrow> 'p \<Rightarrow> ('tx, 'q, 'g, 'p) dispatch_sys" where
  "dispatch_start D p = (case dispatch_channel D p of (s, c) \<Rightarrow>
     \<lparr>ds_sender = s, ds_chan = c, ds_held = [], ds_alive = True\<rparr>)"

inductive dispatch_reachable ::
  "('t, 'u, 'tx, 'q, 'g, 'p) dispatch_api \<Rightarrow> 'p \<Rightarrow> ('tx, 'q, 'g, 'p) dispatch_sys \<Rightarrow> bool" for D p where
  start: "dispatch_reachable D p (dispatch_start D p)"
| step: "dispatch_reachable D p s \<Longrightarrow> dispatch_step D s s' \<Longrightarrow> dispatch_reachable D p s'"

section \<open>Callbacks are neither lost nor duplicated\<close>

text \<open>Every envelope in the queue is full and every callback has its sender.\<close>

definition full :: "('t, 'tx) envelope \<Rightarrow> bool" where
  "full e = (case env_content e of Some (val, Callback (Some tx)) \<Rightarrow> True | _ \<Rightarrow> False)"

definition env_tx :: "('t, 'tx) envelope \<Rightarrow> 'tx" where
  "env_tx e = (case env_content e of Some (val, Callback (Some tx)) \<Rightarrow> tx)"

text \<open>The unresolved promises are the listed ones, each listed once.\<close>

definition pending :: "'tx set \<Rightarrow> ('tx \<Rightarrow> 'r option) \<Rightarrow> 'tx list \<Rightarrow> bool" where
  "pending I oc txs \<longleftrightarrow> distinct txs \<and> set txs \<subseteq> I \<and> (\<forall>tx \<in> I. oc tx = None \<longleftrightarrow> tx \<in> set txs)"

definition held_txs :: "'tx callback list \<Rightarrow> 'tx list" where
  "held_txs held = map (\<lambda>cb. the (cb_sender cb)) held"

definition ownership ::
  "('q \<Rightarrow> ('t, 'tx) envelope list) \<Rightarrow> ('p \<Rightarrow> 'tx set) \<Rightarrow> ('p \<Rightarrow> 'tx \<Rightarrow> ('t, 'u) reply option) \<Rightarrow>
   ('q, 'g, 'p) chan \<Rightarrow> 'tx callback list \<Rightarrow> bool" where
  "ownership contents issued outcome c held \<longleftrightarrow>
     (\<forall>e \<in> set (contents (ch_queue c)). full e) \<and>
     (\<forall>cb \<in> set held. cb_sender cb \<noteq> None) \<and>
     pending (issued (ch_promises c)) (outcome (ch_promises c))
       (map env_tx (contents (ch_queue c)) @ held_txs held)"

lemma fullE:
  assumes "full e"
  obtains val tx where "e = Envelope (Some (val, Callback (Some tx)))" "env_tx e = tx"
proof -
  obtain m where m: "e = Envelope m" by (cases e)
  obtain val cb where "m = Some (val, cb)" using assms by (cases m) (auto simp: m full_def)
  moreover obtain o_tx where "cb = Callback o_tx" by (cases cb)
  moreover obtain tx where "o_tx = Some tx"
    using assms calculation by (cases o_tx) (auto simp: m full_def)
  ultimately show thesis using that [of val tx] by (simp add: m env_tx_def)
qed

lemma full_new [simp]: "full (Envelope (Some (val, Callback (Some tx))))"
  "env_tx (Envelope (Some (val, Callback (Some tx)))) = tx"
  by (simp_all add: full_def env_tx_def)

lemma held_txs_simps [simp]:
  "held_txs [] = []" "held_txs (cb # xs) = the (cb_sender cb) # held_txs xs"
  "held_txs (xs @ ys) = held_txs xs @ held_txs ys"
  by (simp_all add: held_txs_def)

lemma pending_new:
  "pending I oc (xs @ ys) \<Longrightarrow> tx \<notin> I \<Longrightarrow> pending (insert tx I) (oc(tx := None)) (xs @ tx # ys)"
  by (auto simp: pending_def)

lemma pending_new_resolved:
  "pending I oc txs \<Longrightarrow> tx \<notin> I \<Longrightarrow> pending (insert tx I) (oc(tx := Some r)) txs"
  by (auto simp: pending_def)

lemma pending_resolve: "pending I oc (xs @ tx # ys) \<Longrightarrow> pending I (oc(tx := Some r)) (xs @ ys)"
  by (auto simp: pending_def)

lemma pending_in: "pending I oc (xs @ tx # ys) \<Longrightarrow> tx \<in> I \<and> oc tx = None"
  by (auto simp: pending_def)

lemma pending_move: "pending I oc (tx # xs @ ys) \<Longrightarrow> pending I oc (xs @ tx # ys)"
  by (auto simp: pending_def)

text \<open>A promise that is resolved keeps its outcome.\<close>

definition keeps_outcomes ::
  "('p \<Rightarrow> 'tx set) \<Rightarrow> ('p \<Rightarrow> 'tx \<Rightarrow> ('t, 'u) reply option) \<Rightarrow> 'p \<Rightarrow> 'p \<Rightarrow> bool" where
  "keeps_outcomes issued outcome p p' \<longleftrightarrow> issued p \<subseteq> issued p' \<and>
     (\<forall>tx \<in> issued p. outcome p tx \<noteq> None \<longrightarrow> outcome p' tx = outcome p tx)"

lemma keeps_outcomes_refl [simp]: "keeps_outcomes issued outcome p p"
  by (simp add: keeps_outcomes_def)

lemma keeps_outcomes_trans:
  "keeps_outcomes issued outcome p q \<Longrightarrow> keeps_outcomes issued outcome q r \<Longrightarrow> keeps_outcomes issued outcome p r"
  unfolding keeps_outcomes_def by (metis subset_iff)

context request_channel
begin

abbreviation keeps where "keeps \<equiv> keeps_outcomes issued outcome"
abbreviation owns where "owns \<equiv> ownership contents issued outcome"

lemma enqueue_ok:
  assumes "owns c held" "enqueue D val c = (r, c')"
  shows "owns c' held" "keeps (ch_promises c) (ch_promises c')"
proof -
  let ?xs = "map env_tx (contents (ch_queue c))" and ?ys = "held_txs held"
  obtain tx p where n: "p_new D (ch_promises c) = (tx, p)" by fastforce
  note n_ok = p_new [OF n]
  let ?e = "Envelope (Some (val, Callback (Some tx)))"
  obtain ok q where s: "q_send D (ch_queue c) ?e = (ok, q)" by fastforce
  note s_ok = q_send [OF s]
  have pend: "pending (issued (ch_promises c)) (outcome (ch_promises c)) (?xs @ ?ys)"
    using assms(1) by (simp add: ownership_def)
  have "owns c' held \<and> keeps (ch_promises c) (ch_promises c')"
  proof (cases ok)
    case True
    then have "c' = c\<lparr>ch_queue := q, ch_promises := p\<rparr>"
      using assms(2) n s by (simp add: enqueue_def)
    with pending_new [OF pend, of tx] True assms(1) n_ok s_ok show ?thesis
      by (auto simp: ownership_def keeps_outcomes_def)
  next
    case False
    let ?r = "Inl \<lparr>tse_error = dispatch_gone False, tse_message = None\<rparr>"
    obtain ok2 p2 where d: "p_send D p tx ?r = (ok2, p2)" by fastforce
    have "issued p2 = issued p" "outcome p2 = (outcome p)(tx := Some ?r)"
      using p_send [OF _ _ d] n_ok by auto
    moreover have "c' = c\<lparr>ch_queue := q, ch_promises := p2\<rparr>"
      using assms(2) n s False d by (simp add: enqueue_def callback_drop_def)
    ultimately show ?thesis
      using pending_new_resolved [OF pend, of tx ?r] False assms(1) n_ok s_ok
      by (auto simp: ownership_def keeps_outcomes_def)
  qed
  then show "owns c' held" "keeps (ch_promises c) (ch_promises c')" by auto
qed

text \<open>Resolving one of the unresolved promises.\<close>

lemma resolve_ok:
  assumes "pending (issued p) (outcome p) (xs @ tx # ys)" "snd (p_send D p tx r) = p'"
  shows "issued p' = issued p" "outcome p' = (outcome p)(tx := Some r)"
    "pending (issued p') (outcome p') (xs @ ys)"
proof -
  obtain ok where s: "p_send D p tx r = (ok, p')" using assms(2) by (cases "p_send D p tx r") auto
  have "tx \<in> issued p" "outcome p tx = None" using pending_in [OF assms(1)] by auto
  from p_send [OF this s] show 1: "issued p' = issued p" "outcome p' = (outcome p)(tx := Some r)" by auto
  show "pending (issued p') (outcome p') (xs @ ys)" using pending_resolve [OF assms(1)] by (simp add: 1)
qed

lemma held_resolved_ok:
  assumes "owns c (xs @ cb # ys)" "snd (p_send D (ch_promises c) (the (cb_sender cb)) r) = p"
  shows "owns (c\<lparr>ch_promises := p\<rparr>) (xs @ ys)" "keeps (ch_promises c) p"
    "outcome p (the (cb_sender cb)) = Some r"
proof -
  have "pending (issued (ch_promises c)) (outcome (ch_promises c))
      ((map env_tx (contents (ch_queue c)) @ held_txs xs) @ the (cb_sender cb) # held_txs ys)"
    using assms(1) by (simp add: ownership_def)
  note res = resolve_ok [OF this assms(2)]
  show "outcome p (the (cb_sender cb)) = Some r" by (simp add: res)
  have "outcome (ch_promises c) (the (cb_sender cb)) = None"
    using assms(1) by (auto simp: ownership_def pending_def)
  then show "keeps (ch_promises c) p" by (auto simp: keeps_outcomes_def res)
  show "owns (c\<lparr>ch_promises := p\<rparr>) (xs @ ys)"
    using res(3) assms(1) by (simp add: ownership_def)
qed

lemma received_ok:
  assumes "owns c held" "contents (ch_queue c) = e # contents q" "env_content e = Some (val, cb)"
  shows "owns (c\<lparr>ch_queue := q\<rparr>) (cb # held)"
proof -
  have "full e" using assms(1,2) by (simp add: ownership_def)
  then obtain tx where "e = Envelope (Some (val, Callback (Some tx)))" "env_tx e = tx" "cb = Callback (Some tx)"
    using assms(3) by (metis envelope.sel fullE option.inject prod.inject)
  with assms(1,2) show ?thesis
    by (auto simp: ownership_def intro: pending_move)
qed

lemma drop_all_ok:
  assumes "\<forall>e \<in> set es. full e" "pending (issued p) (outcome p) (map env_tx es @ ys)"
  shows "\<exists>p'. drop_all D es p = Return p' \<and> issued p' = issued p \<and> pending (issued p') (outcome p') ys \<and>
    (\<forall>val tx. Envelope (Some (val, Callback (Some tx))) \<in> set es \<longrightarrow> outcome p' tx =
       Some (Inl \<lparr>tse_error = error_with new_canceled (CauseMessage ''connection closed''), tse_message = Some val\<rparr>)) \<and>
    (\<forall>tx. outcome p tx \<noteq> None \<longrightarrow> outcome p' tx = outcome p tx)"
  using assms
proof (induction es arbitrary: p)
  case Nil
  then show ?case by simp
next
  case (Cons e es)
  from Cons.prems(1) obtain val tx where e: "e = Envelope (Some (val, Callback (Some tx)))" "env_tx e = tx"
    using fullE [of e] by auto
  let ?r = "Inl \<lparr>tse_error = error_with new_canceled (CauseMessage ''connection closed''), tse_message = Some val\<rparr>"
  obtain p1 where p1: "snd (p_send D p tx ?r) = p1" by blast
  have d: "envelope_drop D e p = Return p1"
    using p1 by (simp add: e envelope_drop_def callback_send_def callback_drop_def)
  have pend: "pending (issued p) (outcome p) ([] @ tx # (map env_tx es @ ys))"
    using Cons.prems(2) e by simp
  note res = resolve_ok [OF pend p1]
  have "\<forall>e \<in> set es. full e" "pending (issued p1) (outcome p1) (map env_tx es @ ys)"
    using Cons.prems(1) res(3) by auto
  from Cons.IH [OF this] obtain p' where p': "drop_all D es p1 = Return p'" "issued p' = issued p1"
    "pending (issued p') (outcome p') ys"
    "\<forall>val tx. Envelope (Some (val, Callback (Some tx))) \<in> set es \<longrightarrow> outcome p' tx =
       Some (Inl \<lparr>tse_error = error_with new_canceled (CauseMessage ''connection closed''), tse_message = Some val\<rparr>)"
    "\<forall>tx. outcome p1 tx \<noteq> None \<longrightarrow> outcome p' tx = outcome p1 tx" by blast
  have "outcome p' tx = Some ?r" using p'(5) res(2) by simp
  moreover have "outcome p' t = outcome p t" if "outcome p t \<noteq> None" for t
    using that p'(5) res(2) pending_in [OF pend] by auto
  ultimately show ?case using d p' res(1) by (auto simp: e(1))
qed

lemma try_send_ok:
  assumes "owns c held" "dispatch_try_send D snd0 val c = (r, snd', c')"
  shows "owns c' held" "keeps (ch_promises c) (ch_promises c')"
proof -
  obtain given g where g: "g_give D (ch_want c) = (given, g)" by fastforce
  have o: "owns (c\<lparr>ch_want := g\<rparr>) held" using assms(1) by (simp add: ownership_def)
  show "owns c' held" "keeps (ch_promises c) (ch_promises c')"
    using assms(2) g o enqueue_ok [OF o]
    by (auto simp: dispatch_try_send_def Let_def split: if_splits prod.splits)
qed

lemma poll_recv_ok:
  assumes "owns c held" "dispatch_poll_recv D c = (v, c')"
  shows "owns c' ((case v of Ready m \<Rightarrow> held_of m | _ \<Rightarrow> []) @ held)" "ch_promises c' = ch_promises c"
    "\<not> is_panicked v"
proof -
  obtain x q where x: "q_poll_recv D (ch_queue c) = (x, q)" by fastforce
  note r = q_poll_recv [OF x]
  consider "x = Pending" | "x = Ready None" | e where "x = Ready (Some e)" | m where "x = Panicked m"
    by (metis option.exhaust poll.exhaust)
  then have "owns c' ((case v of Ready m \<Rightarrow> held_of m | _ \<Rightarrow> []) @ held) \<and> ch_promises c' = ch_promises c \<and> \<not> is_panicked v"
  proof cases
    case 1
    with assms x r show ?thesis by (auto simp: dispatch_poll_recv_def ownership_def)
  next
    case 2
    with assms x r show ?thesis by (auto simp: dispatch_poll_recv_def ownership_def held_of_def)
  next
    case 3
    then have "full e" using assms(1) r by (simp add: ownership_def)
    then obtain val tx where e: "env_content e = Some (val, Callback (Some tx))" by (elim fullE) simp
    with 3 assms(2) x have "v = Ready (Some (val, Callback (Some tx)))" "c' = c\<lparr>ch_queue := q\<rparr>"
      by (auto simp: dispatch_poll_recv_def)
    with received_ok [OF assms(1) _ e, of q] 3 r show ?thesis by (simp add: held_of_def)
  next
    case 4
    with r show ?thesis by simp
  qed
  then show "owns c' ((case v of Ready m \<Rightarrow> held_of m | _ \<Rightarrow> []) @ held)" "ch_promises c' = ch_promises c"
    "\<not> is_panicked v" by auto
qed

lemma try_recv_ok:
  assumes "owns c held" "dispatch_try_recv D c = (m, c')"
  shows "owns c' (held_of m @ held)" "ch_promises c' = ch_promises c"
proof -
  obtain v q where x: "q_recv_now D (ch_queue c) = (v, q)" by fastforce
  note r = q_recv_now [OF x]
  have "owns c' (held_of m @ held) \<and> ch_promises c' = ch_promises c"
  proof (cases "\<exists>e. v = Some (Some e)")
    case True
    then obtain e where v: "v = Some (Some e)" by blast
    then have "full e" using assms(1) r by (simp add: ownership_def)
    then obtain val tx where e: "env_content e = Some (val, Callback (Some tx))" by (elim fullE) simp
    with v assms(2) x have "m = Some (val, Callback (Some tx))" "c' = c\<lparr>ch_queue := q\<rparr>"
      by (auto simp: dispatch_try_recv_def)
    with received_ok [OF assms(1) _ e, of q] v r show ?thesis by (simp add: held_of_def)
  next
    case False
    with assms x r show ?thesis
      by (auto simp: dispatch_try_recv_def ownership_def held_of_def split: option.splits)
  qed
  then show "owns c' (held_of m @ held)" "ch_promises c' = ch_promises c" by auto
qed

lemma drop_receiver_ok:
  assumes "owns c held"
  shows "\<exists>c'. dispatch_drop_receiver D c = Return c' \<and> owns c' held \<and> contents (ch_queue c') = [] \<and>
    keeps (ch_promises c) (ch_promises c') \<and>
    (\<forall>val tx. Envelope (Some (val, Callback (Some tx))) \<in> set (contents (ch_queue c)) \<longrightarrow>
       outcome (ch_promises c') tx = Some (Inl
         \<lparr>tse_error = error_with new_canceled (CauseMessage ''connection closed''), tse_message = Some val\<rparr>))"
proof -
  obtain es q where d: "q_drop_rx D (ch_queue c) = (es, q)" by fastforce
  then have es: "es = contents (ch_queue c)" "contents q = []" using q_drop_rx by auto
  have "\<forall>e \<in> set es. full e" "pending (issued (ch_promises c)) (outcome (ch_promises c)) (map env_tx es @ held_txs held)"
    using assms by (simp_all add: ownership_def es(1))
  from drop_all_ok [OF this] obtain p' where p': "drop_all D es (ch_promises c) = Return p'"
    "issued p' = issued (ch_promises c)" "pending (issued p') (outcome p') (held_txs held)"
    "\<forall>val tx. Envelope (Some (val, Callback (Some tx))) \<in> set es \<longrightarrow> outcome p' tx =
       Some (Inl \<lparr>tse_error = error_with new_canceled (CauseMessage ''connection closed''), tse_message = Some val\<rparr>)"
    "\<forall>tx. outcome (ch_promises c) tx \<noteq> None \<longrightarrow> outcome p' tx = outcome (ch_promises c) tx" by blast
  have "dispatch_drop_receiver D c = Return (c\<lparr>ch_want := g_cancel D (ch_want c), ch_queue := q, ch_promises := p'\<rparr>)"
    using d p'(1) by (simp add: dispatch_drop_receiver_def)
  with p' es assms show ?thesis by (auto simp: ownership_def keeps_outcomes_def)
qed

lemma dispatch_step_ok:
  assumes "dispatch_step D s s'" "owns (ds_chan s) (ds_held s)"
  shows "owns (ds_chan s') (ds_held s') \<and> keeps (ch_promises (ds_chan s)) (ch_promises (ds_chan s'))"
  using assms(1)
proof (cases rule: dispatch_step.cases)
  case (TrySend val r snd' c)
  with try_send_ok [OF assms(2) TrySend(2)] show ?thesis by simp
next
  case (PollReady u c)
  with assms(2) show ?thesis by (auto simp: dispatch_poll_ready_def ownership_def split: prod.splits)
next
  case (PollRecv v c)
  with poll_recv_ok [OF assms(2) PollRecv(3)] show ?thesis by simp
next
  case (TryRecv m c)
  with try_recv_ok [OF assms(2) TryRecv(3)] show ?thesis by simp
next
  case Close
  with assms(2) show ?thesis by (simp add: dispatch_close_def ownership_def q_close)
next
  case (DropReceiver c)
  with drop_receiver_ok [OF assms(2)] show ?thesis by auto
next
  case (Reply xs cb ys a p)
  have o: "owns (ds_chan s) (xs @ cb # ys)" using assms(2) Reply(2) by simp
  have "snd (p_send D (ch_promises (ds_chan s)) (the (cb_sender cb)) a) = p"
    using Reply(3) by (auto simp: callback_send_def callback_drop_def split: option.splits)
  from held_resolved_ok [OF o this] show ?thesis by (simp add: Reply(1))
next
  case (DropCallback xs cb ys b)
  have o: "owns (ds_chan s) (xs @ cb # ys)" using assms(2) DropCallback(2) by simp
  then obtain tx where tx: "cb_sender cb = Some tx" by (auto simp: ownership_def)
  have "snd (p_send D (ch_promises (ds_chan s)) (the (cb_sender cb)) (Inl \<lparr>tse_error = dispatch_gone b, tse_message = None\<rparr>)) =
      callback_drop D b cb (ch_promises (ds_chan s))"
    by (simp add: tx callback_drop_def)
  from held_resolved_ok [OF o this] show ?thesis by (simp add: DropCallback(1))
qed

lemma dispatch_start_ok:
  "pending (issued p) (outcome p) [] \<Longrightarrow> owns (ds_chan (dispatch_start D p)) (ds_held (dispatch_start D p))"
  by (simp add: dispatch_start_def dispatch_channel_def ownership_def q_new)

lemma dispatch_reachable_ok:
  assumes "dispatch_reachable D p s" "pending (issued p) (outcome p) []"
  shows "owns (ds_chan s) (ds_held s)"
  using assms by (induction rule: dispatch_reachable.induct) (auto intro: dispatch_start_ok dest: dispatch_step_ok)

lemma dispatch_steps_keep:
  assumes "(dispatch_step D)\<^sup>*\<^sup>* s s'" "owns (ds_chan s) (ds_held s)"
  shows "owns (ds_chan s') (ds_held s') \<and> keeps (ch_promises (ds_chan s)) (ch_promises (ds_chan s'))"
  using assms
  by (induction rule: rtranclp_induct) (auto dest: dispatch_step_ok intro: keeps_outcomes_trans)

end

section \<open>At most one request waits\<close>

text \<open>
  The exclusive sender relies on more: the receiver's queue reports that it is empty only when it
  is, and a demand is used up by the request it lets through.
\<close>

locale exclusive_channel = request_channel +
  fixes wanting :: "'g \<Rightarrow> bool"
  assumes pending_empty: "q_poll_recv D q = (Pending, q') \<Longrightarrow> contents q = []"
    and g_new: "\<not> wanting (g_new D)"
    and g_give: "g_give D g = (given, g') \<Longrightarrow> (given \<longrightarrow> wanting g) \<and> \<not> wanting g'"
    and g_poll_want: "g_poll_want D g = (y, g') \<Longrightarrow> wanting g' \<longrightarrow> wanting g"
    and g_cancel: "\<not> wanting (g_cancel D g)"

definition bounded ::
  "('q \<Rightarrow> ('t, 'tx) envelope list) \<Rightarrow> ('g \<Rightarrow> bool) \<Rightarrow> ('tx, 'q, 'g, 'p) dispatch_sys \<Rightarrow> bool" where
  "bounded contents wanting s \<longleftrightarrow>
     length (contents (ch_queue (ds_chan s))) \<le> 1 \<and>
     (wanting (ch_want (ds_chan s)) \<longrightarrow> contents (ch_queue (ds_chan s)) = []) \<and>
     (\<not> buffered_once (ds_sender s) \<longrightarrow> contents (ch_queue (ds_chan s)) = [])"

context exclusive_channel
begin

lemma enqueue_contents:
  assumes "enqueue D val c = (r, c')"
  shows "length (contents (ch_queue c')) \<le> Suc (length (contents (ch_queue c)))" "ch_want c' = ch_want c"
  using assms q_send by (auto simp: enqueue_def split: prod.splits if_splits)

lemma dispatch_step_bounded:
  assumes "dispatch_step D s s'" "bounded contents wanting s"
  shows "bounded contents wanting s'"
  using assms(1)
proof (cases rule: dispatch_step.cases)
  case (TrySend val r snd' c)
  obtain given g where g: "g_give D (ch_want (ds_chan s)) = (given, g)" by fastforce
  note g_ok = g_give [OF g]
  show ?thesis
  proof (cases "given \<or> \<not> buffered_once (ds_sender s)")
    case True
    with assms(2) g_ok have "contents (ch_queue (ds_chan s)) = []" by (auto simp: bounded_def)
    moreover obtain r' c1 where "enqueue D val ((ds_chan s)\<lparr>ch_want := g\<rparr>) = (r', c1)" by fastforce
    ultimately show ?thesis
      using enqueue_contents [of val "(ds_chan s)\<lparr>ch_want := g\<rparr>"] True g g_ok TrySend
      by (auto simp: dispatch_try_send_def bounded_def Let_def)
  next
    case False
    with TrySend g g_ok assms(2) show ?thesis
      by (auto simp: dispatch_try_send_def bounded_def Let_def)
  qed
next
  case (PollReady u c)
  with assms(2) show ?thesis
    by (auto simp: dispatch_poll_ready_def bounded_def split: prod.splits dest!: g_poll_want)
next
  case (PollRecv v c)
  obtain x q where x: "q_poll_recv D (ch_queue (ds_chan s)) = (x, q)" by fastforce
  note r = q_poll_recv [OF x]
  show ?thesis
  proof (cases x)
    case (Ready y)
    then have c: "ch_queue c = q" "ch_want c = ch_want (ds_chan s)"
      using PollRecv(3) x by (auto simp: dispatch_poll_recv_def Let_def split: option.splits)
    have "length (contents q) \<le> length (contents (ch_queue (ds_chan s))) \<and>
        (contents (ch_queue (ds_chan s)) = [] \<longrightarrow> contents q = [])"
      using r Ready by (auto split: option.splits)
    with c assms(2) show ?thesis by (auto simp: PollRecv(1) bounded_def)
  next
    case Pending
    with pending_empty x have "contents (ch_queue (ds_chan s)) = []" by blast
    with PollRecv x r assms(2) Pending show ?thesis by (auto simp: dispatch_poll_recv_def bounded_def)
  next
    case (Panicked m)
    with r show ?thesis by simp
  qed
next
  case (TryRecv m c)
  obtain v q where x: "q_recv_now D (ch_queue (ds_chan s)) = (v, q)" by fastforce
  have "length (contents q) \<le> length (contents (ch_queue (ds_chan s))) \<and>
      (contents (ch_queue (ds_chan s)) = [] \<longrightarrow> contents q = [])"
    using q_recv_now [OF x] by (auto split: option.splits)
  with TryRecv x assms(2) show ?thesis by (auto simp: dispatch_try_recv_def bounded_def)
next
  case Close
  with assms(2) show ?thesis by (simp add: dispatch_close_def bounded_def q_close g_cancel)
next
  case (DropReceiver c)
  obtain es q where d: "q_drop_rx D (ch_queue (ds_chan s)) = (es, q)" by fastforce
  with DropReceiver q_drop_rx [OF d] show ?thesis
    by (auto simp: dispatch_drop_receiver_def bounded_def Let_def)
qed (use assms(2) in \<open>simp_all add: bounded_def\<close>)

lemma dispatch_reachable_bounded: "dispatch_reachable D p s \<Longrightarrow> bounded contents wanting s"
proof (induction rule: dispatch_reachable.induct)
  case start
  show ?case by (simp add: dispatch_start_def dispatch_channel_def bounded_def q_new)
qed (rule dispatch_step_bounded)

end

section \<open>Simulated channels\<close>

text \<open>A list, a demand flag with a cancellation flag, and a table of promises with the next free name.\<close>

definition sim_dispatch ::
  "('t, 'u, nat, ('t, nat) envelope list, bool \<times> bool, nat \<times> (nat \<Rightarrow> ('t, 'u) reply option)) dispatch_api" where
  "sim_dispatch = \<lparr>
     q_new = [], q_send = (\<lambda>q e. (True, q @ [e])),
     q_poll_recv = (\<lambda>q. case q of [] \<Rightarrow> (Pending, []) | e # es \<Rightarrow> (Ready (Some e), es)),
     q_recv_now = (\<lambda>q. case q of [] \<Rightarrow> (None, []) | e # es \<Rightarrow> (Some (Some e), es)),
     q_close = (\<lambda>q. q), q_drop_rx = (\<lambda>q. (q, [])),
     g_new = (False, False), g_give = (\<lambda>(want, canceled). (want, False, canceled)),
     g_poll_want = (\<lambda>(want, canceled).
        (if canceled then Ready False else if want then Ready True else Pending, want, canceled)),
     g_is_wanting = fst, g_is_canceled = snd,
     g_want = (\<lambda>(want, canceled). (\<not> canceled, canceled)), g_cancel = (\<lambda>(want, canceled). (False, True)),
     p_new = (\<lambda>(n, f). (n, Suc n, f(n := None))),
     p_send = (\<lambda>(n, f) tx r. (True, n, f(tx := Some r))),
     p_is_closed = (\<lambda>p tx. False), p_poll_closed = (\<lambda>p tx. (Pending, p))\<rparr>"

interpretation sim_rc: exclusive_channel sim_dispatch "\<lambda>q. q" "\<lambda>(n, f). {..<n}" snd fst
  by unfold_locales
    (auto simp: sim_dispatch_def split: list.splits if_splits prod.splits)

section \<open>Properties\<close>

text \<open>
  C21. In every reachable state of a request channel the promise of a request is unresolved exactly
  when its callback is in the queue or held by the connection, where it occurs exactly once; a
  resolved promise keeps its outcome for ever. So each promise is resolved at most once, and, once the
  connection has given up its queue and its callbacks, at least once. No operation panics: receiving,
  answering a held callback and dropping the receiver return.
\<close>

theorem promises_resolved_exactly_once:
  assumes "request_channel D contents issued outcome" and "issued p = {}"
    and "dispatch_reachable D p s"
  shows "distinct (map env_tx (contents (ch_queue (ds_chan s))) @ held_txs (ds_held s)) \<and>
    (\<forall>tx \<in> issued (ch_promises (ds_chan s)). outcome (ch_promises (ds_chan s)) tx = None \<longleftrightarrow>
       tx \<in> set (map env_tx (contents (ch_queue (ds_chan s))) @ held_txs (ds_held s))) \<and>
    (\<forall>s' tx. (dispatch_step D)\<^sup>*\<^sup>* s s' \<and> tx \<in> issued (ch_promises (ds_chan s)) \<and>
       outcome (ch_promises (ds_chan s)) tx \<noteq> None \<longrightarrow>
       outcome (ch_promises (ds_chan s')) tx = outcome (ch_promises (ds_chan s)) tx) \<and>
    \<not> is_panicked (fst (dispatch_poll_recv D (ds_chan s))) \<and>
    (\<forall>cb \<in> set (ds_held s). \<exists>p'. callback_send D cb r (ch_promises (ds_chan s)) = Return p') \<and>
    (\<exists>c. dispatch_drop_receiver D (ds_chan s) = Return c)"
proof -
  have "pending (issued p) (outcome p) []" using assms(2) by (simp add: pending_def)
  then have o: "ownership contents issued outcome (ds_chan s) (ds_held s)"
    by (rule request_channel.dispatch_reachable_ok [OF assms(1,3)])
  have "\<not> is_panicked (fst (dispatch_poll_recv D (ds_chan s)))"
    by (rule request_channel.poll_recv_ok(3) [OF assms(1) o prod.collapse [symmetric]])
  moreover have "\<exists>p'. callback_send D cb r (ch_promises (ds_chan s)) = Return p'" if "cb \<in> set (ds_held s)" for cb
    using o that by (auto simp: ownership_def callback_send_def split: option.splits)
  moreover have "\<exists>c. dispatch_drop_receiver D (ds_chan s) = Return c"
    using request_channel.drop_receiver_ok [OF assms(1) o] by blast
  moreover have "outcome (ch_promises (ds_chan s')) tx = outcome (ch_promises (ds_chan s)) tx"
    if "(dispatch_step D)\<^sup>*\<^sup>* s s'" "tx \<in> issued (ch_promises (ds_chan s))" "outcome (ch_promises (ds_chan s)) tx \<noteq> None"
    for s' tx
    using request_channel.dispatch_steps_keep [OF assms(1) that(1) o] that(2,3)
    by (auto simp: keeps_outcomes_def)
  moreover have "distinct (map env_tx (contents (ch_queue (ds_chan s))) @ held_txs (ds_held s)) \<and>
    (\<forall>tx \<in> issued (ch_promises (ds_chan s)). outcome (ch_promises (ds_chan s)) tx = None \<longleftrightarrow>
       tx \<in> set (map env_tx (contents (ch_queue (ds_chan s))) @ held_txs (ds_held s)))"
    using o by (simp only: ownership_def pending_def) blast
  ultimately show ?thesis by blast
qed

text \<open>
  A request that is still queued when the connection drops its receiver comes back: its promise is
  resolved with a cancellation error that carries the request itself, so it can be retried.
\<close>

theorem queued_request_returned:
  assumes "request_channel D contents issued outcome" and "issued p = {}"
    and "dispatch_reachable D p s"
    and "Envelope (Some (val, Callback (Some tx))) \<in> set (contents (ch_queue (ds_chan s)))"
  shows "\<exists>c e. dispatch_drop_receiver D (ds_chan s) = Return c \<and> contents (ch_queue c) = [] \<and>
    outcome (ch_promises c) tx = Some (Inl \<lparr>tse_error = e, tse_message = Some val\<rparr>) \<and> is_canceled e"
proof -
  have "pending (issued p) (outcome p) []" using assms(2) by (simp add: pending_def)
  then have "ownership contents issued outcome (ds_chan s) (ds_held s)"
    by (rule request_channel.dispatch_reachable_ok [OF assms(1,3)])
  from request_channel.drop_receiver_ok [OF assms(1) this] assms(4)
  show ?thesis by (fastforce simp: is_canceled_def error_with_def new_canceled_def error_new_def)
qed

text \<open>
  The exclusive sender of an HTTP/1 connection queues at most one request, and none beside a
  pending demand: a further request is accepted only after the connection has asked for it.
\<close>

theorem at_most_one_request_queued:
  assumes "exclusive_channel D contents issued outcome wanting" and "dispatch_reachable D p s"
  shows "length (contents (ch_queue (ds_chan s))) \<le> 1 \<and>
    (contents (ch_queue (ds_chan s)) \<noteq> [] \<longrightarrow>
       (\<exists>c. dispatch_try_send D (ds_sender s) val (ds_chan s) = (Inl val, ds_sender s, c)))"
proof -
  have b: "bounded contents wanting s" by (rule exclusive_channel.dispatch_reachable_bounded [OF assms])
  obtain given g where g: "g_give D (ch_want (ds_chan s)) = (given, g)" by fastforce
  from exclusive_channel.g_give [OF assms(1) g] b show ?thesis
    by (auto simp: bounded_def dispatch_try_send_def g Let_def)
qed

section \<open>Witnesses\<close>

definition sim_queued where
  "sim_queued = (dispatch_start sim_dispatch (0, \<lambda>_. None))
     \<lparr>ds_sender := RequestSender True,
      ds_chan := \<lparr>ch_queue = [Envelope (Some (''GET'', Callback (Some 0)))], ch_want = (False, False),
        ch_promises = (1, (\<lambda>_. None) :: nat \<Rightarrow> (string, unit) reply option)\<rparr>\<rparr>"

lemma sim_queued_reachable: "dispatch_reachable sim_dispatch (0, \<lambda>_. None) sim_queued"
proof -
  let ?s = "dispatch_start sim_dispatch (0, (\<lambda>_. None) :: nat \<Rightarrow> (string, unit) reply option)"
  have "dispatch_try_send sim_dispatch (ds_sender ?s) ''GET'' (ds_chan ?s) =
      (Inr 0, ds_sender sim_queued, ds_chan sim_queued)"
    by (simp add: sim_queued_def dispatch_start_def dispatch_channel_def dispatch_try_send_def
        enqueue_def sim_dispatch_def)
  from dispatch_reachable.step [OF dispatch_reachable.start dispatch_step.TrySend [OF this]]
  show ?thesis by (simp add: sim_queued_def)
qed

lemma sim_queued_sel:
  "ch_queue (ds_chan sim_queued) = [Envelope (Some (''GET'', Callback (Some 0)))]"
  "ch_promises (ds_chan sim_queued) = (1, \<lambda>_. None)" "ds_held sim_queued = []"
  by (simp_all add: sim_queued_def dispatch_start_def dispatch_channel_def)

theorem promises_resolved_exactly_once_witness:
  "snd (ch_promises (ds_chan sim_queued)) 0 = None \<and>
   (\<exists>c. dispatch_drop_receiver sim_dispatch (ds_chan sim_queued) = Return c)"
proof -
  have "(case (0, \<lambda>_. None) :: nat \<times> (nat \<Rightarrow> (string, unit) reply option) of (n, f) \<Rightarrow> {..<n}) = {}" by simp
  from promises_resolved_exactly_once [OF sim_rc.request_channel_axioms this sim_queued_reachable]
  show ?thesis by (simp add: sim_queued_sel)
qed

theorem queued_request_returned_witness:
  "\<exists>c e. dispatch_drop_receiver sim_dispatch (ds_chan sim_queued) = Return c \<and>
     snd (ch_promises c) 0 = Some (Inl \<lparr>tse_error = e, tse_message = Some ''GET''\<rparr>)"
proof -
  have "(case (0, \<lambda>_. None) :: nat \<times> (nat \<Rightarrow> (string, unit) reply option) of (n, f) \<Rightarrow> {..<n}) = {}" by simp
  from queued_request_returned [OF sim_rc.request_channel_axioms this sim_queued_reachable, of "''GET''" 0]
  show ?thesis by (auto simp: sim_queued_sel)
qed

theorem at_most_one_request_queued_witness:
  "\<exists>c. dispatch_try_send sim_dispatch (ds_sender sim_queued) ''PUT'' (ds_chan sim_queued) =
     (Inl ''PUT'', ds_sender sim_queued, c)"
  using at_most_one_request_queued [OF sim_rc.exclusive_channel_axioms sim_queued_reachable]
  by (simp add: sim_queued_sel)

end
