(* ===== verification/Dispatcher_Inv.thy ===== *)
theory Dispatcher_Inv
  imports Dispatcher Conn_Progress Incoming_Props Request_Channel_Props
begin

text \<open>
  The invariant of the HTTP/1 dispatcher and its reading side: what the client does with requests,
  responses and errors, and that every turn of the reading loop calls the connection only as the
  connection permits, does not panic, keeps the invariant and gets closer to the end of the loop.
\<close>

section \<open>The environment\<close>

text \<open>
  The contracts of what the dispatcher calls: the connection's environment, the request channel, the
  body channel, and the user's body, which does not panic and hands over chunks the connection can
  take. Shutting the transport down does not panic, and a vectored write only consumes the buffer.
\<close>

locale dispatching =
  fixes E :: "('io, 'b, 'h, 'tx, 'q, 'g, 'p, 'k, 'm, 'o, 'bd, 'r) disp_env"
    and incoming :: "'io \<Rightarrow> bytes" and sent :: "'io \<Rightarrow> bytes"
    and ok :: "'b \<Rightarrow> bool" and view :: "'b \<Rightarrow> bytes"
    and contents :: "'q \<Rightarrow> (('h, 'bd) request, 'tx) envelope list"
    and issued :: "'p \<Rightarrow> 'tx set"
    and outcome :: "'p \<Rightarrow> 'tx \<Rightarrow> (('h, 'bd) request, ('h, 'r) response) reply option"
    and queue :: "'m \<Rightarrow> (error + bytes) list" and tx_open :: "'m \<Rightarrow> bool"
    and slot :: "'o \<Rightarrow> 'h option" and os_open :: "'o \<Rightarrow> bool"
  assumes a_connection: "connection (de_conn E) incoming sent ok view"
    and a_requests: "request_channel (de_chan E) contents issued outcome"
    and a_bodies: "body_channel (de_body E) queue tx_open slot os_open"
    and user_no_panic: "\<not> is_panicked (fst (ub_poll_frame (de_user E) ub))"
    and user_chunks: "fst (ub_poll_frame (de_user E) ub) = Ready (Some (Inr (UserData chunk))) \<Longrightarrow>
      ok chunk \<and> length (view chunk) < 2 ^ 64"
    and shutdown_no_panic: "\<not> is_panicked (snd (tr_poll_shutdown (env_transport (de_conn E)) io))"
    and limit_kept: "limit_kept (env_transport (de_conn E))"

sublocale dispatching \<subseteq> cn: connection "de_conn E" incoming sent ok view
  by (rule a_connection)

sublocale dispatching \<subseteq> rc: request_channel "de_chan E" contents issued outcome
  by (rule a_requests)

sublocale dispatching \<subseteq> bc: body_channel "de_body E" queue tx_open slot os_open
  by (rule a_bodies)

section \<open>The invariant\<close>

text \<open>
  A request this protocol can write: the versions \<open>Client::encode\<close> knows. Nothing in the code keeps a
  caller from sending another one, and \<open>Client::encode\<close> then panics: it is an assumption on the caller.
\<close>

definition sendable :: "('h, 'bd) request \<Rightarrow> bool" where
  "sendable req \<longleftrightarrow> h_version (rq_head req) \<in> {HTTP_10, HTTP_11, HTTP_2}"

definition sendable_env :: "(('h, 'bd) request, 'tx) envelope \<Rightarrow> bool" where
  "sendable_env e = (case env_content e of None \<Rightarrow> True | Some (req, cb) \<Rightarrow> sendable req)"

definition held :: "('io, 'b, 'h, 'tx, 'q, 'g, 'p, 'k, 'm, 'o, 'bd) dispatcher \<Rightarrow> 'tx callback list" where
  "held d = (case d_callback d of None \<Rightarrow> [] | Some cb \<Rightarrow> [cb])"

definition chan_ok ::
  "('q \<Rightarrow> (('h, 'bd) request, 'tx) envelope list) \<Rightarrow> ('p \<Rightarrow> 'tx set) \<Rightarrow>
   ('p \<Rightarrow> 'tx \<Rightarrow> (('h, 'bd) request, ('h, 'r) response) reply option) \<Rightarrow>
   ('io, 'b, 'h, 'tx, 'q, 'g, 'p, 'k, 'm, 'o, 'bd) dispatcher \<Rightarrow> bool" where
  "chan_ok contents issued outcome d \<longleftrightarrow>
     ownership contents issued outcome (d_chan d) (held d) \<and>
     (\<forall>e \<in> set (contents (ch_queue (d_chan d))). sendable_env e)"

definition want_ok :: "('k, 'm, 'o) body_chan \<Rightarrow> bool" where
  "want_ok ch \<longleftrightarrow> wt_value (bc_want ch) \<in> {READY, PENDING, CLOSED}"

definition disp_ok ::
  "('b \<Rightarrow> bool) \<Rightarrow> ('b \<Rightarrow> bytes) \<Rightarrow> ('q \<Rightarrow> (('h, 'bd) request, 'tx) envelope list) \<Rightarrow> ('p \<Rightarrow> 'tx set) \<Rightarrow>
   ('p \<Rightarrow> 'tx \<Rightarrow> (('h, 'bd) request, ('h, 'r) response) reply option) \<Rightarrow>
   ('io, 'b, 'h, 'tx, 'q, 'g, 'p, 'k, 'm, 'o, 'bd) dispatcher \<Rightarrow> bool" where
  "disp_ok ok view contents issued outcome d \<longleftrightarrow>
     conn_ok ok view (d_conn d) \<and> 0 < limit (d_conn d) \<and> chan_ok contents issued outcome d \<and>
     want_ok (d_body_chan d)"

text \<open>Between the turns of its loops the dispatcher has a sender for the body that is being read.\<close>

definition fed :: "('io, 'b, 'h, 'tx, 'q, 'g, 'p, 'k, 'm, 'o, 'bd) dispatcher \<Rightarrow> bool" where
  "fed d \<longleftrightarrow> (can_read_body (d_conn d) \<longrightarrow> d_body_tx d \<noteq> None)"

text \<open>What a piece of the dispatcher may do to the connection and to the promises.\<close>

definition permitted ::
  "('io, 'b, 'h, 'tx, 'q, 'g, 'p, 'k, 'm, 'o, 'bd, 'r) disp_env \<Rightarrow> ('b \<Rightarrow> bool) \<Rightarrow> ('p \<Rightarrow> 'tx set) \<Rightarrow>
   ('p \<Rightarrow> 'tx \<Rightarrow> (('h, 'bd) request, ('h, 'r) response) reply option) \<Rightarrow>
   ('io, 'b, 'h, 'tx, 'q, 'g, 'p, 'k, 'm, 'o, 'bd) dispatcher \<Rightarrow>
   ('io, 'b, 'h, 'tx, 'q, 'g, 'p, 'k, 'm, 'o, 'bd) dispatcher \<Rightarrow> bool" where
  "permitted E valid issued outcome d d' \<longleftrightarrow>
     conn_reachable (de_conn E) valid (d_conn d) (d_conn d') \<and>
     keeps_outcomes issued outcome (ch_promises (d_chan d)) (ch_promises (d_chan d'))"

lemma conn_reachable_trans:
  "conn_reachable E valid c2 c3 \<Longrightarrow> conn_reachable E valid c1 c2 \<Longrightarrow> conn_reachable E valid c1 c3"
  by (induction rule: conn_reachable.induct) (auto intro: conn_reachable.step)

lemma conn_reachable_one: "conn_step E valid c c' \<Longrightarrow> conn_reachable E valid c c'"
  by (rule conn_reachable.step [OF conn_reachable.start])

lemma permitted_refl [simp]: "permitted E valid issued outcome d d"
  by (simp add: permitted_def conn_reachable.start)

lemma permitted_trans:
  "permitted E valid issued outcome d1 d2 \<Longrightarrow> permitted E valid issued outcome d2 d3 \<Longrightarrow>
   permitted E valid issued outcome d1 d3"
  unfolding permitted_def by (blast intro: conn_reachable_trans keeps_outcomes_trans)

lemma drop_body_simps [simp]:
  "d_conn (drop_body E s d) = d_conn d" "d_chan (drop_body E s d) = d_chan d"
  "d_callback (drop_body E s d) = d_callback d" "d_is_closing (drop_body E s d) = d_is_closing d"
  "d_body_rx (drop_body E s d) = d_body_rx d" "d_body_tx (drop_body E s d) = d_body_tx d"
  "bc_want (d_body_chan (drop_body E s d)) = bc_want (d_body_chan d)"
  by (auto simp: drop_body_def sender_drop_def split: option.splits)

lemma held_simps [simp]: "d_callback d = None \<Longrightarrow> held d = []" "d_callback d = Some cb \<Longrightarrow> held d = [cb]"
  by (simp_all add: held_def)

lemma held_cong: "d_callback d' = d_callback d \<Longrightarrow> held d' = held d"
  by (simp add: held_def)

lemma want_ok_cong: "bc_want ch' = bc_want ch \<Longrightarrow> want_ok ch' = want_ok ch"
  by (simp add: want_ok_def)

context dispatching
begin

abbreviation c_ok where "c_ok \<equiv> chan_ok contents issued outcome"
abbreviation d_ok where "d_ok \<equiv> disp_ok ok view contents issued outcome"
abbreviation may where "may \<equiv> permitted E (valid_chunk ok view) issued outcome"

lemma c_ok_cong:
  "c_ok d \<Longrightarrow> d_chan d' = d_chan d \<Longrightarrow> d_callback d' = d_callback d \<Longrightarrow> c_ok d'"
  by (simp add: chan_ok_def held_cong [of d' d])

lemma d_ok_may:
  assumes "d_ok d" "may d d'" "c_ok d'" "want_ok (d_body_chan d')"
  shows "d_ok d'"
proof -
  have r: "conn_reachable (de_conn E) (valid_chunk ok view) (d_conn d) (d_conn d')"
    using assms(2) by (simp add: permitted_def)
  have "conn_ok ok view (d_conn d')" using cn.conn_reachable_ok [OF r] assms(1) by (simp add: disp_ok_def)
  moreover have "limit (d_conn d') = limit (d_conn d)" by (rule conn_reachable_limit [OF r limit_kept])
  ultimately show ?thesis using assms by (simp add: disp_ok_def)
qed

text \<open>A change of the connection alone, or of nothing the invariant speaks about.\<close>

lemma conn_moved:
  assumes "d_ok d" "conn_step (de_conn E) (valid_chunk ok view) (d_conn d) (d_conn d')"
    and "d_chan d' = d_chan d" "d_callback d' = d_callback d" "want_ok (d_body_chan d')"
  shows "d_ok d' \<and> may d d'"
proof -
  have "may d d'" using assms(2,3) by (simp add: permitted_def conn_reachable_one)
  moreover have "c_ok d'" using assms(1,3,4) by (auto simp: disp_ok_def intro: c_ok_cong)
  ultimately show ?thesis using d_ok_may assms(1,5) by blast
qed

lemma body_moved:
  assumes "d_ok d" "d_conn d' = d_conn d" "d_chan d' = d_chan d" "d_callback d' = d_callback d"
    and "want_ok (d_body_chan d')"
  shows "d_ok d' \<and> may d d'"
  using assms c_ok_cong [of d d'] by (auto simp: disp_ok_def permitted_def conn_reachable.start)

end

section \<open>The client\<close>

context dispatching
begin

lemma poll_recv_contents:
  assumes "dispatch_poll_recv (de_chan E) c = (v, c')"
  shows "set (contents (ch_queue c')) \<subseteq> set (contents (ch_queue c))"
    "v = Ready (Some (req, cb)) \<Longrightarrow> \<exists>e \<in> set (contents (ch_queue c)). env_content e = Some (req, cb)"
proof -
  obtain x q where x: "q_poll_recv (de_chan E) (ch_queue c) = (x, q)" by fastforce
  note r = rc.q_poll_recv [OF x]
  have "set (contents (ch_queue c')) \<subseteq> set (contents (ch_queue c)) \<and>
    (v = Ready (Some (req, cb)) \<longrightarrow> (\<exists>e \<in> set (contents (ch_queue c)). env_content e = Some (req, cb)))"
    using assms x r by (auto simp: dispatch_poll_recv_def Let_def split: poll.splits option.splits)
  then show "set (contents (ch_queue c')) \<subseteq> set (contents (ch_queue c))"
    "v = Ready (Some (req, cb)) \<Longrightarrow> \<exists>e \<in> set (contents (ch_queue c)). env_content e = Some (req, cb)" by auto
qed

lemma try_recv_contents:
  assumes "dispatch_try_recv (de_chan E) c = (v, c')"
  shows "set (contents (ch_queue c')) \<subseteq> set (contents (ch_queue c))"
proof -
  obtain x q where x: "q_recv_now (de_chan E) (ch_queue c) = (x, q)" by fastforce
  with rc.q_recv_now [OF x] assms show ?thesis
    by (auto simp: dispatch_try_recv_def split: option.splits)
qed

lemma poll_canceled_ok:
  assumes "c_ok d" "d_callback d = Some cb" "callback_poll_canceled (de_chan E) cb (ch_promises (d_chan d)) = (r, p)"
  shows "\<not> is_panicked r" "c_ok (d\<lparr>d_chan := (d_chan d)\<lparr>ch_promises := p\<rparr>\<rparr>)"
    "rc.keeps (ch_promises (d_chan d)) p"
proof -
  from assms(1,2) obtain tx where "cb_sender cb = Some tx" by (auto simp: chan_ok_def ownership_def)
  with assms(3) have "p_poll_closed (de_chan E) (ch_promises (d_chan d)) tx = (r, p)"
    by (simp add: callback_poll_canceled_def)
  note pc = rc.p_poll_closed [OF this]
  show "\<not> is_panicked r" using pc by simp
  show "rc.keeps (ch_promises (d_chan d)) p" using pc by (simp add: keeps_outcomes_def)
  have "held (d\<lparr>d_chan := (d_chan d)\<lparr>ch_promises := p\<rparr>\<rparr>) = held d" by (simp add: held_def)
  with pc assms(1) show "c_ok (d\<lparr>d_chan := (d_chan d)\<lparr>ch_promises := p\<rparr>\<rparr>)"
    by (simp add: chan_ok_def ownership_def)
qed

text \<open>A callback that is not kept is resolved.\<close>

lemma callback_resolved_ok:
  assumes "c_ok d" "d_callback d = Some cb"
    and "snd (p_send (de_chan E) (ch_promises (d_chan d)) (the (cb_sender cb)) r) = p"
  shows "c_ok (d\<lparr>d_callback := None, d_chan := (d_chan d)\<lparr>ch_promises := p\<rparr>\<rparr>)"
    "rc.keeps (ch_promises (d_chan d)) p" "outcome p (the (cb_sender cb)) = Some r"
proof -
  have "rc.owns (d_chan d) ([] @ cb # [])" using assms(1,2) by (simp add: chan_ok_def)
  note h = rc.held_resolved_ok [OF this assms(3)]
  show "rc.keeps (ch_promises (d_chan d)) p" "outcome p (the (cb_sender cb)) = Some r" using h by auto
  show "c_ok (d\<lparr>d_callback := None, d_chan := (d_chan d)\<lparr>ch_promises := p\<rparr>\<rparr>)"
    using h(1) assms(1) by (simp add: chan_ok_def)
qed

lemma answer_ok:
  assumes "c_ok d" "d_callback d = Some cb"
  shows "\<exists>p. answer E cb val (d\<lparr>d_callback := None\<rparr>) =
      Return (d\<lparr>d_callback := None, d_chan := (d_chan d)\<lparr>ch_promises := p\<rparr>\<rparr>, Inr ()) \<and>
    c_ok (d\<lparr>d_callback := None, d_chan := (d_chan d)\<lparr>ch_promises := p\<rparr>\<rparr>) \<and>
    rc.keeps (ch_promises (d_chan d)) p \<and> outcome p (the (cb_sender cb)) = Some val"
proof -
  from assms obtain tx where tx: "cb_sender cb = Some tx" by (auto simp: chan_ok_def ownership_def)
  obtain p where p: "snd (p_send (de_chan E) (ch_promises (d_chan d)) (the (cb_sender cb)) val) = p" by blast
  with tx have "answer E cb val (d\<lparr>d_callback := None\<rparr>) =
      Return (d\<lparr>d_callback := None, d_chan := (d_chan d)\<lparr>ch_promises := p\<rparr>\<rparr>, Inr ())"
    by (simp add: answer_def callback_send_def callback_drop_def)
  with callback_resolved_ok [OF assms p] show ?thesis by blast
qed

lemma client_poll_ready_ok:
  assumes "c_ok d"
  shows "\<exists>p b. client_poll_ready E d = (d\<lparr>d_chan := (d_chan d)\<lparr>ch_promises := p\<rparr>\<rparr>, Ready b) \<and>
    c_ok (d\<lparr>d_chan := (d_chan d)\<lparr>ch_promises := p\<rparr>\<rparr>) \<and> rc.keeps (ch_promises (d_chan d)) p \<and>
    (b \<longrightarrow> d_callback d \<noteq> None)"
proof (cases "d_callback d")
  case None
  with assms show ?thesis by (intro exI [of _ "ch_promises (d_chan d)"] exI [of _ False]) (simp add: client_poll_ready_def)
next
  case (Some cb)
  obtain r p where pc: "callback_poll_canceled (de_chan E) cb (ch_promises (d_chan d)) = (r, p)" by fastforce
  note c = poll_canceled_ok [OF assms Some pc]
  show ?thesis
    by (intro exI [of _ p] exI [of _ "r = Pending"]) (use c pc Some in \<open>cases r; simp add: client_poll_ready_def\<close>)
qed

end

context dispatching
begin

lemma client_poll_msg_ok:
  assumes "c_ok d" "d_callback d = None"
  shows "\<exists>chan cb closed r. client_poll_msg E d = (d\<lparr>d_chan := chan, d_callback := cb, d_rx_closed := closed\<rparr>, r) \<and>
    c_ok (d\<lparr>d_chan := chan, d_callback := cb, d_rx_closed := closed\<rparr>) \<and>
    rc.keeps (ch_promises (d_chan d)) (ch_promises chan) \<and> \<not> is_panicked r \<and>
    (\<forall>head body. r = Ready (Some (head, body)) \<longrightarrow> cb \<noteq> None \<and> sendable \<lparr>rq_head = head, rq_body = body\<rparr>)"
proof -
  obtain v chan where pr: "dispatch_poll_recv (de_chan E) (d_chan d) = (v, chan)" by fastforce
  have o: "rc.owns (d_chan d) []" using assms by (simp add: chan_ok_def)
  note got = rc.poll_recv_ok [OF o pr]
  have snd: "\<forall>e \<in> set (contents (ch_queue chan)). sendable_env e"
    using assms(1) poll_recv_contents(1) [OF pr] by (auto simp: chan_ok_def)
  show ?thesis
  proof (cases "\<exists>req cb. v = Ready (Some (req, cb))")
    case False
    then have v: "v = Pending \<or> v = Ready None" using got(3) by (cases v) (auto, metis option.exhaust prod.exhaust)
    have "c_ok (d\<lparr>d_chan := chan, d_callback := None, d_rx_closed := b\<rparr>)" for b
      using got(1) snd v by (auto simp: chan_ok_def held_of_def)
    with v pr got(2) assms(2) show ?thesis
      by (intro exI [of _ chan] exI [of _ None] exI [of _ "if v = Pending then d_rx_closed d else True"]
          exI [of _ "if v = Pending then Pending else Ready None"])
        (auto simp: client_poll_msg_def)
  next
    case True
    then obtain req cb where v: "v = Ready (Some (req, cb))" by blast
    from poll_recv_contents(2) [OF pr v] assms(1) have s: "sendable req"
      by (auto simp: chan_ok_def sendable_env_def)
    let ?d = "d\<lparr>d_chan := chan, d_callback := Some cb\<rparr>"
    have d: "c_ok ?d" using got(1) snd v by (simp add: chan_ok_def held_of_def)
    obtain r p where pc: "callback_poll_canceled (de_chan E) cb (ch_promises chan) = (r, p)" by fastforce
    have pc': "callback_poll_canceled (de_chan E) cb (ch_promises (d_chan ?d)) = (r, p)" using pc by simp
    note c = poll_canceled_ok [OF d _ pc', simplified]
    show ?thesis
    proof (cases r)
      case (Ready u)
      let ?e = "?d\<lparr>d_chan := chan\<lparr>ch_promises := p\<rparr>\<rparr>"
      let ?r = "Inl \<lparr>tse_error = dispatch_gone False, tse_message = None\<rparr>"
      obtain tx where tx: "cb_sender cb = Some tx" using d by (auto simp: chan_ok_def ownership_def)
      have "snd (p_send (de_chan E) (ch_promises (d_chan ?e)) (the (cb_sender cb)) ?r) =
          callback_drop (de_chan E) False cb p" by (simp add: callback_drop_def tx)
      note res = callback_resolved_ok [of ?e cb, OF _ _ this, simplified]
      have "rc.keeps (ch_promises (d_chan d)) (callback_drop (de_chan E) False cb p)"
        using res(2) c(2,3) got(2) keeps_outcomes_trans by metis
      with res(1) c(2) Ready v pr pc assms(2) show ?thesis
        by (intro exI [of _ "chan\<lparr>ch_promises := callback_drop (de_chan E) False cb p\<rparr>"] exI [of _ None]
            exI [of _ "d_rx_closed d"] exI)
          (auto simp: client_poll_msg_def chan_ok_def)
    next
      case Pending
      with c v pr pc got(2) s show ?thesis
        by (intro exI [of _ "chan\<lparr>ch_promises := p\<rparr>"] exI [of _ "Some cb"] exI [of _ "d_rx_closed d"] exI)
          (auto simp: client_poll_msg_def sendable_def chan_ok_def)
    next
      case (Panicked m)
      with c(1) show ?thesis by simp
    qed
  qed
qed

end

text \<open>What the error or the response that the dispatcher hands to the client becomes.\<close>

definition msg_outcome ::
  "('q \<Rightarrow> (('h, 'bd) request, 'tx) envelope list) \<Rightarrow>
   ('p \<Rightarrow> 'tx \<Rightarrow> (('h, 'bd) request, ('h, 'r) response) reply option) \<Rightarrow>
   ('io, 'b, 'h, 'tx, 'q, 'g, 'p, 'k, 'm, 'o, 'bd) dispatcher \<Rightarrow> error + ('h, 'r) response \<Rightarrow>
   ('io, 'b, 'h, 'tx, 'q, 'g, 'p, 'k, 'm, 'o, 'bd) dispatcher \<Rightarrow> error + unit \<Rightarrow> bool" where
  "msg_outcome contents outcome d msg d' res \<longleftrightarrow>
     (case d_callback d of
        Some cb \<Rightarrow> res = Inr () \<and> outcome (ch_promises (d_chan d')) (the (cb_sender cb)) =
          Some (case msg of Inl err \<Rightarrow> Inl \<lparr>tse_error = err, tse_message = None\<rparr> | Inr rs \<Rightarrow> Inr rs)
      | None \<Rightarrow>
          (case msg of
             Inr rs \<Rightarrow> res = Inl new_unexpected_message \<and> d' = d
           | Inl err \<Rightarrow>
               res = Inl err \<and> ch_promises (d_chan d') = ch_promises (d_chan d) \<or>
               res = Inr () \<and> (\<exists>e req tx. e \<in> set (contents (ch_queue (d_chan d))) \<and>
                  env_content e = Some (req, Callback (Some tx)) \<and> outcome (ch_promises (d_chan d')) tx =
                  Some (Inl \<lparr>tse_error = error_with new_canceled (CauseError err), tse_message = Some req\<rparr>))))"

context dispatching
begin

lemma canceled_queue_ok:
  assumes "c_ok d" "d_callback d = None"
    and "dispatch_try_recv (de_chan E) (dispatch_close (de_chan E) (d_chan d)) = (m, chan)"
  shows "c_ok (d\<lparr>d_chan := chan, d_callback := map_option snd m\<rparr>)" "ch_promises chan = ch_promises (d_chan d)"
    "m = Some (req, cb) \<Longrightarrow> \<exists>e tx. e \<in> set (contents (ch_queue (d_chan d))) \<and>
       env_content e = Some (req, Callback (Some tx)) \<and> cb = Callback (Some tx)"
proof -
  let ?c = "dispatch_close (de_chan E) (d_chan d)"
  have cl: "contents (ch_queue ?c) = contents (ch_queue (d_chan d))" "ch_promises ?c = ch_promises (d_chan d)"
    by (simp_all add: dispatch_close_def rc.q_close)
  then have o: "rc.owns ?c []" using assms(1,2) by (simp add: chan_ok_def ownership_def)
  note got = rc.try_recv_ok [OF o assms(3)]
  have "\<forall>e \<in> set (contents (ch_queue chan)). sendable_env e"
    using assms(1) try_recv_contents [OF assms(3)] cl(1) by (auto simp: chan_ok_def)
  then show "c_ok (d\<lparr>d_chan := chan, d_callback := map_option snd m\<rparr>)"
    using got(1) by (cases m) (auto simp: chan_ok_def held_of_def)
  show "ch_promises chan = ch_promises (d_chan d)" using got(2) cl(2) by simp
  show "\<exists>e tx. e \<in> set (contents (ch_queue (d_chan d))) \<and>
       env_content e = Some (req, Callback (Some tx)) \<and> cb = Callback (Some tx)" if m: "m = Some (req, cb)"
  proof -
    obtain v q where x: "q_recv_now (de_chan E) (ch_queue ?c) = (v, q)" by fastforce
    with m assms(3) obtain e where e: "v = Some (Some e)" "env_content e = Some (req, cb)"
      by (auto simp: dispatch_try_recv_def split: option.splits)
    with rc.q_recv_now [OF x] cl(1) have mem: "e \<in> set (contents (ch_queue (d_chan d)))" by simp
    then have "full e" using assms(1) by (simp add: chan_ok_def ownership_def)
    then show ?thesis using mem e(2) by (elim fullE) auto
  qed
qed

lemma client_recv_msg_ok:
  assumes "c_ok d"
  shows "\<exists>chan res. client_recv_msg E msg d = Return (d\<lparr>d_callback := None, d_chan := chan\<rparr>, res) \<and>
    c_ok (d\<lparr>d_callback := None, d_chan := chan\<rparr>) \<and> rc.keeps (ch_promises (d_chan d)) (ch_promises chan) \<and>
    msg_outcome contents outcome d msg (d\<lparr>d_callback := None, d_chan := chan\<rparr>) res"
proof (cases "d_callback d")
  case (Some cb)
  let ?val = "case msg of Inl err \<Rightarrow> Inl \<lparr>tse_error = err, tse_message = None\<rparr> | Inr rs \<Rightarrow> Inr rs"
  from answer_ok [OF assms Some, of ?val] obtain p where
    p: "answer E cb ?val (d\<lparr>d_callback := None\<rparr>) =
      Return (d\<lparr>d_callback := None, d_chan := (d_chan d)\<lparr>ch_promises := p\<rparr>\<rparr>, Inr ())"
    "c_ok (d\<lparr>d_callback := None, d_chan := (d_chan d)\<lparr>ch_promises := p\<rparr>\<rparr>)"
    "rc.keeps (ch_promises (d_chan d)) p" "outcome p (the (cb_sender cb)) = Some ?val" by blast
  moreover have "client_recv_msg E msg d = answer E cb ?val (d\<lparr>d_callback := None\<rparr>)"
    by (simp add: client_recv_msg_def Some split: sum.splits)
  ultimately show ?thesis
    by (intro exI [of _ "(d_chan d)\<lparr>ch_promises := p\<rparr>"] exI [of _ "Inr ()"]) (simp add: msg_outcome_def Some)
next
  case None
  have same: "d\<lparr>d_callback := None\<rparr> = d" using None by simp
  show ?thesis
  proof (cases msg)
    case (Inr rs)
    with None assms same show ?thesis
      by (intro exI [of _ "d_chan d"] exI [of _ "Inl new_unexpected_message"])
        (simp add: client_recv_msg_def msg_outcome_def chan_ok_def)
  next
    case (Inl err)
    show ?thesis
    proof (cases "d_rx_closed d")
      case True
      with None assms same Inl show ?thesis
        by (intro exI [of _ "d_chan d"] exI [of _ "Inl err"]) (simp add: client_recv_msg_def msg_outcome_def chan_ok_def)
    next
      case False
      obtain m chan where tr: "dispatch_try_recv (de_chan E) (dispatch_close (de_chan E) (d_chan d)) = (m, chan)"
        by fastforce
      note q = canceled_queue_ok [OF assms None tr]
      show ?thesis
      proof (cases m)
        case None: None
        with tr q Inl False \<open>d_callback d = None\<close> show ?thesis
          by (intro exI [of _ chan] exI [of _ "Inl err"]) (simp add: client_recv_msg_def msg_outcome_def chan_ok_def)
      next
        case (Some rcb)
        obtain req cb where m: "m = Some (req, cb)" using Some by (cases rcb) auto
        from q(3) [OF m] obtain e tx where e: "e \<in> set (contents (ch_queue (d_chan d)))"
          "env_content e = Some (req, Callback (Some tx))" "cb = Callback (Some tx)" by blast
        let ?d = "d\<lparr>d_chan := chan, d_callback := Some cb\<rparr>"
        let ?val = "Inl \<lparr>tse_error = error_with new_canceled (CauseError err), tse_message = Some req\<rparr>"
        have "c_ok ?d" using q(1) m by simp
        from answer_ok [OF this, of cb ?val] obtain p where
          p: "answer E cb ?val (?d\<lparr>d_callback := None\<rparr>) =
            Return (?d\<lparr>d_callback := None, d_chan := (d_chan ?d)\<lparr>ch_promises := p\<rparr>\<rparr>, Inr ())"
          "c_ok (?d\<lparr>d_callback := None, d_chan := (d_chan ?d)\<lparr>ch_promises := p\<rparr>\<rparr>)"
          "rc.keeps (ch_promises (d_chan ?d)) p" "outcome p (the (cb_sender cb)) = Some ?val" by auto
        have rw: "?d\<lparr>d_callback := None\<rparr> = d\<lparr>d_chan := chan\<rparr>" using \<open>d_callback d = None\<close> by simp
        have "client_recv_msg E msg d = answer E cb ?val (?d\<lparr>d_callback := None\<rparr>)"
          unfolding rw using \<open>d_callback d = None\<close> False tr m by (simp add: client_recv_msg_def Inl)
        with p q(2) e \<open>d_callback d = None\<close> Inl show ?thesis
          by (intro exI [of _ "chan\<lparr>ch_promises := p\<rparr>"] exI [of _ "Inr ()"]) (auto simp: msg_outcome_def)
      qed
    qed
  qed
qed

end

section \<open>Reading\<close>

text \<open>What every turn of the reading loop that goes on makes smaller.\<close>

definition read_order ::
  "('io \<Rightarrow> bytes) \<Rightarrow> (('io, 'b, 'h, 'tx, 'q, 'g, 'p, 'k, 'm, 'o, 'bd) dispatcher \<times>
    ('io, 'b, 'h, 'tx, 'q, 'g, 'p, 'k, 'm, 'o, 'bd) dispatcher) set" where
  "read_order incoming = measures
     [\<lambda>d. if d_is_closing d then 0 else 1, \<lambda>d. length (held d), \<lambda>d. unread incoming (d_conn d),
      \<lambda>d. reading_rank (s_reading (cn_state (d_conn d))), \<lambda>d. if d_body_tx d = None then 0 else 1]"

lemma fed_close [simp]: "fed (disp_close d)"
  by (simp add: fed_def disp_close_def can_read_body_def conn_close_read_def conn_close_write_def state_defs)

lemma disp_close_simps [simp]:
  "d_is_closing (disp_close d)" "d_chan (disp_close d) = d_chan d" "d_callback (disp_close d) = d_callback d"
  "d_body_chan (disp_close d) = d_body_chan d" "d_body_rx (disp_close d) = d_body_rx d"
  "d_conn (disp_close d) = conn_close_write (conn_close_read (d_conn d))"
  by (simp_all add: disp_close_def)

context dispatching
begin

lemma chan_moved:
  assumes "d_ok d" "d_conn d' = d_conn d" "rc.keeps (ch_promises (d_chan d)) (ch_promises (d_chan d'))"
    and "c_ok d'" "want_ok (d_body_chan d')"
  shows "d_ok d' \<and> may d d'"
  using assms by (simp add: disp_ok_def permitted_def conn_reachable.start)

lemma disp_close_ok:
  assumes "d_ok d"
  shows "d_ok (disp_close d) \<and> may d (disp_close d)"
proof -
  have "conn_reachable (de_conn E) (valid_chunk ok view) (d_conn d) (d_conn (disp_close d))"
    by (simp add: conn_reachable.step [OF conn_reachable_one [OF conn_step.CloseRead] conn_step.CloseWrite])
  then have "may d (disp_close d)" by (simp add: permitted_def)
  moreover have "c_ok (disp_close d)" "want_ok (d_body_chan (disp_close d))"
    using assms c_ok_cong [of d "disp_close d"] by (auto simp: disp_ok_def)
  ultimately show ?thesis using d_ok_may assms by blast
qed

lemma recv_then_ok:
  assumes "d_ok d" and k: "\<And>d. d_ok d \<Longrightarrow> d_ok (k d) \<and> may d (k d)"
  shows "\<exists>d1 r. recv_then E msg d k = (if r = Inr () then k d1 else d1, Ready r) \<and> d_ok d1 \<and> may d d1 \<and>
    d_callback d1 = None \<and> d_conn d1 = d_conn d \<and> d_is_closing d1 = d_is_closing d \<and> d_body_tx d1 = d_body_tx d \<and>
    msg_outcome contents outcome d msg d1 r"
proof -
  have c: "c_ok d" "want_ok (d_body_chan d)" using assms(1) by (simp_all add: disp_ok_def)
  from client_recv_msg_ok [OF c(1), of msg] obtain chan res where
    m: "client_recv_msg E msg d = Return (d\<lparr>d_callback := None, d_chan := chan\<rparr>, res)"
    "c_ok (d\<lparr>d_callback := None, d_chan := chan\<rparr>)" "rc.keeps (ch_promises (d_chan d)) (ch_promises chan)"
    "msg_outcome contents outcome d msg (d\<lparr>d_callback := None, d_chan := chan\<rparr>) res" by blast
  have "d_ok (d\<lparr>d_callback := None, d_chan := chan\<rparr>) \<and> may d (d\<lparr>d_callback := None, d_chan := chan\<rparr>)"
    by (rule chan_moved [OF assms(1)]) (use m c in simp_all)
  with m show ?thesis
    by (intro exI [of _ "d\<lparr>d_callback := None, d_chan := chan\<rparr>"] exI [of _ res])
      (auto simp: recv_then_def split: sum.splits)
qed

lemma deliver_head_ok:
  assumes "d_ok d" "d_callback d = Some cb" "deliver_head E msg d = (d', r)"
  shows "r = Ready (Inr ())" "d_ok d'" "may d d'" "d_callback d' = None" "d_is_closing d' = d_is_closing d"
    "\<exists>rs. outcome (ch_promises (d_chan d')) (the (cb_sender cb)) = Some (Inr rs) \<and> rp_head rs = fst msg \<and>
       (rp_body rs = KindEmpty \<longleftrightarrow> fst (snd msg) = ZERO) \<and>
       rp_upgrade rs = (if wants_contains (snd (snd msg)) WANTS_UPGRADE then Some (de_upgrade E) else None)"
    "fst (snd msg) = ZERO \<Longrightarrow> \<not> can_read_body (d_conn d) \<Longrightarrow> fed d'" "fst (snd msg) \<noteq> ZERO \<Longrightarrow> fed d'"
proof -
  obtain head len wants where msg: "msg = (head, len, wants)" by (rule prod_cases3)
  obtain d1 and body :: "'r incoming" where b: "(if len = ZERO then (d, incoming_empty)
       else case incoming_h1 (de_waker E) (de_body E) len (wants_contains wants WANTS_EXPECT) of
         (tx, rx, ch) \<Rightarrow> ((set_body_tx E tx d)\<lparr>d_body_chan := ch\<rparr>, rx)) = (d1, body)" by fastforce
  have d1: "d_conn d1 = d_conn d" "d_chan d1 = d_chan d" "d_callback d1 = Some cb" "d_is_closing d1 = d_is_closing d"
    "want_ok (d_body_chan d1)" "body = KindEmpty \<longleftrightarrow> len = ZERO" "len \<noteq> ZERO \<Longrightarrow> d_body_tx d1 \<noteq> None"
    using b assms(1,2)
    by (auto simp: incoming_empty_def incoming_h1_def set_body_tx_def want_ok_def watch_channel_def disp_ok_def
        split: if_splits)
  then have ok1: "d_ok d1 \<and> may d d1" using body_moved [of d d1] assms(1,2) by simp
  let ?up = "wants_contains wants WANTS_UPGRADE"
  let ?d2 = "if ?up then d1\<lparr>d_conn := on_upgrade (d_conn d1) (de_upgrade E)\<rparr> else d1"
  have "d_ok ?d2 \<and> may d1 ?d2"
    using conn_moved [of d1 "d1\<lparr>d_conn := on_upgrade (d_conn d1) (de_upgrade E)\<rparr>"] conn_step.OnUpgrade ok1 d1(5) by auto
  then have ok2: "d_ok ?d2" "may d ?d2" using ok1 permitted_trans by blast+
  have cb2: "d_callback ?d2 = Some cb" "d_is_closing ?d2 = d_is_closing d" using d1 by auto
  let ?rs = "\<lparr>rp_head = head, rp_upgrade = (if ?up then Some (de_upgrade E) else None), rp_body = body\<rparr>"
  from recv_then_ok [OF ok2(1), of "\<lambda>d. d" "Inr ?rs"] obtain d3 r3 where
    r3: "recv_then E (Inr ?rs) ?d2 (\<lambda>d. d) = (d3, Ready r3)" "d_ok d3" "may ?d2 d3" "d_callback d3 = None"
      "d_is_closing d3 = d_is_closing ?d2" "msg_outcome contents outcome ?d2 (Inr ?rs) d3 r3"
      "d_conn d3 = d_conn ?d2" "d_body_tx d3 = d_body_tx ?d2" by auto
  have "deliver_head E msg d = recv_then E (Inr ?rs) ?d2 (\<lambda>d. d)"
    unfolding deliver_head_def msg prod.case b Let_def ..
  with assms(3) r3(1) have eq: "d' = d3" "r = Ready r3" by simp_all
  have o: "r3 = Inr ()" "outcome (ch_promises (d_chan d3)) (the (cb_sender cb)) = Some (Inr ?rs)"
    using r3(6) cb2(1) by (auto simp: msg_outcome_def)
  show "r = Ready (Inr ())" "d_ok d'" "may d d'" "d_callback d' = None" "d_is_closing d' = d_is_closing d"
    using eq o r3 ok2 cb2 permitted_trans by auto
  show "\<exists>rs. outcome (ch_promises (d_chan d')) (the (cb_sender cb)) = Some (Inr rs) \<and> rp_head rs = fst msg \<and>
       (rp_body rs = KindEmpty \<longleftrightarrow> fst (snd msg) = ZERO) \<and>
       rp_upgrade rs = (if wants_contains (snd (snd msg)) WANTS_UPGRADE then Some (de_upgrade E) else None)"
    using o(2) eq(1) d1(6) by (auto simp: msg)
  have "can_read_body (d_conn d') = can_read_body (d_conn d)" "d_body_tx d' = d_body_tx d1"
    using eq(1) r3(7,8) d1(1) by (auto simp: on_upgrade_def prepare_upgrade_def can_read_body_def)
  then show "fst (snd msg) = ZERO \<Longrightarrow> \<not> can_read_body (d_conn d) \<Longrightarrow> fed d'" "fst (snd msg) \<noteq> ZERO \<Longrightarrow> fed d'"
    using d1(7) by (auto simp: fed_def msg)
qed

end

text \<open>How a turn of the reading loop ends: it did what it may, and if the loop goes on it got closer to the end.\<close>

definition turn_ok ::
  "('s \<Rightarrow> bool) \<Rightarrow> ('s \<Rightarrow> 's \<Rightarrow> bool) \<Rightarrow> ('s \<times> 's) set \<Rightarrow> 's \<Rightarrow> ('s \<times> 'a poll turn) option \<Rightarrow> bool" where
  "turn_ok good may R d out =
     (case out of None \<Rightarrow> False
      | Some (d', t) \<Rightarrow> good d' \<and> may d d' \<and>
          (case t of Again \<Rightarrow> (d', d) \<in> R | Done r \<Rightarrow> \<not> is_panicked r))"

lemma read_order_closing: "\<not> d_is_closing d \<Longrightarrow> d_is_closing d' \<Longrightarrow> (d', d) \<in> read_order incoming"
  by (simp add: read_order_def)

lemma read_order_callback:
  "d_is_closing d' = d_is_closing d \<Longrightarrow> d_callback d' = None \<Longrightarrow> d_callback d \<noteq> None \<Longrightarrow>
   (d', d) \<in> read_order incoming"
  by (auto simp: read_order_def)

lemma read_order_rank:
  assumes "d_is_closing d' = d_is_closing d" "d_callback d' = d_callback d"
    "unread incoming (d_conn d') \<le> unread incoming (d_conn d)"
    "reading_rank (s_reading (cn_state (d_conn d'))) < reading_rank (s_reading (cn_state (d_conn d)))"
  shows "(d', d) \<in> read_order incoming"
  using assms held_cong [OF assms(2)] by (auto simp: read_order_def)

lemma read_order_unread:
  assumes "d_is_closing d' = d_is_closing d" "d_callback d' = d_callback d"
    "unread incoming (d_conn d') < unread incoming (d_conn d)"
  shows "(d', d) \<in> read_order incoming"
  using assms held_cong [OF assms(2)] by (auto simp: read_order_def)

lemma read_order_sender:
  assumes "d_is_closing d' = d_is_closing d" "d_callback d' = d_callback d" "d_conn d' = d_conn d"
    "d_body_tx d' = None" "d_body_tx d \<noteq> None"
  shows "(d', d) \<in> read_order incoming"
  using assms held_cong [OF assms(2)] by (auto simp: read_order_def)

lemma wf_read_order: "wf (read_order incoming)"
  by (simp add: read_order_def)

context dispatching
begin

abbreviation runs where "runs d \<equiv> d_ok d \<and> fed d"
abbreviation read_turn where "read_turn \<equiv> turn_ok runs may (read_order incoming)"

text \<open>The end of \<open>poll_read_head\<close> as the loop sees it.\<close>

lemma poll_read_head_turn:
  assumes d: "d_ok d" "\<not> d_is_closing d" and can: "can_read_head (d_conn d)"
  shows "\<exists>d' r. disp_poll_read_head E d = Some (d', r) \<and> runs d' \<and> may d d' \<and> \<not> is_panicked r \<and>
    (r = Ready (Inr ()) \<longrightarrow> (d', d) \<in> read_order incoming)"
proof -
  have c: "c_ok d" "want_ok (d_body_chan d)" using d(1) by (simp_all add: disp_ok_def)
  from client_poll_ready_ok [OF c(1)] obtain p b where pr:
    "client_poll_ready E d = (d\<lparr>d_chan := (d_chan d)\<lparr>ch_promises := p\<rparr>\<rparr>, Ready b)"
    "c_ok (d\<lparr>d_chan := (d_chan d)\<lparr>ch_promises := p\<rparr>\<rparr>)" "rc.keeps (ch_promises (d_chan d)) p"
    "b \<longrightarrow> d_callback d \<noteq> None" by blast
  define d1 where "d1 = d\<lparr>d_chan := (d_chan d)\<lparr>ch_promises := p\<rparr>\<rparr>"
  have same: "d_conn d1 = d_conn d" "d_callback d1 = d_callback d" "d_is_closing d1 = d_is_closing d"
    "d_body_chan d1 = d_body_chan d" by (simp_all add: d1_def)
  have ok1: "d_ok d1" "may d d1" using chan_moved [OF d(1), of d1] pr(2,3) c(2) by (simp_all add: d1_def)
  show ?thesis
  proof (cases b)
    case False
    with pr(1) have "disp_poll_read_head E d = Some (disp_close d1, Ready (Inr ()))"
      by (simp add: disp_poll_read_head_def d1_def)
    with disp_close_ok [OF ok1(1)] ok1(2) d(2) permitted_trans read_order_closing show ?thesis by fastforce
  next
    case True
    have conn1: "conn_ok ok view (d_conn d1)" "can_read_head (d_conn d1)" using ok1(1) can same by (simp_all add: disp_ok_def)
    from cn.poll_read_head_ok [OF this] obtain c' res where
      rh: "poll_read_head (de_conn E) (d_conn d1) = Some (c', res)" "\<not> is_panicked res" by blast
    note left = cn.poll_read_head_left [OF conn1 rh]
    define d2 where "d2 = d1\<lparr>d_conn := c'\<rparr>"
    have ok2: "d_ok d2" "may d d2"
      using conn_moved [OF ok1(1), of d2] conn_step.ReadHead [OF conn1(2) rh] ok1 permitted_trans
      by (auto simp: d2_def disp_ok_def)
    have same2: "d_callback d2 = d_callback d" "d_is_closing d2 = d_is_closing d" "d_conn d2 = c'"
      using same by (simp_all add: d2_def)
    from True pr(4) obtain cb where cb: "d_callback d = Some cb" by blast
    have out: "disp_poll_read_head E d = Some (case res of
        Pending \<Rightarrow> (d2, Pending) | Panicked m \<Rightarrow> (d2, Panicked m)
      | Ready (Some (Inr msg)) \<Rightarrow> deliver_head E msg d2
      | Ready (Some (Inl err)) \<Rightarrow> recv_then E (Inl err) d2 disp_close
      | Ready None \<Rightarrow> (if is_write_closed (cn_state c') then disp_close d2 else d2, Ready (Inr ())))"
      unfolding d2_def using pr(1) True rh(1) by (simp add: disp_poll_read_head_def d1_def [symmetric] Let_def)
    consider "res = Pending" | msg where "res = Ready (Some (Inr msg))" | e where "res = Ready (Some (Inl e))"
      | "res = Ready None" using rh(2) by (metis is_panicked.elims(3) option.exhaust sum.exhaust)
    then show ?thesis
    proof cases
      case 1
      with out ok2 left(3) same2 show ?thesis by (auto simp: fed_def)
    next
      case (2 msg)
      obtain d3 r3 where dh: "deliver_head E msg d2 = (d3, r3)" by fastforce
      note dl = deliver_head_ok [OF ok2(1) _ dh, of cb]
      have "(d3, d) \<in> read_order incoming" by (rule read_order_callback) (use dl same2 cb in auto)
      moreover have "fst (snd msg) = ZERO \<Longrightarrow> \<not> can_read_body (d_conn d2)" using left(3) 2 same2 by auto
      then have "fed d3" using dl(7,8) same2 cb by auto
      ultimately show ?thesis using 2 out dh dl ok2 same2 cb permitted_trans [of E _ _ _ d d2 d3] by simp
    next
      case (3 e)
      from recv_then_ok [OF ok2(1) disp_close_ok, of "Inl e"] obtain d3 r3 where
        r3: "recv_then E (Inl e) d2 disp_close = (if r3 = Inr () then disp_close d3 else d3, Ready r3)"
          "d_ok d3" "may d2 d3" "d_conn d3 = d_conn d2" by blast
      have "fed d3" using left(3) 3 same2 r3(4) by (auto simp: fed_def)
      moreover have "d_ok (if r3 = Inr () then disp_close d3 else d3)" "may d (if r3 = Inr () then disp_close d3 else d3)"
        using r3(2) disp_close_ok [OF r3(2)] permitted_trans [OF permitted_trans [OF ok2(2) r3(3)]]
          permitted_trans [OF ok2(2) r3(3)] by simp_all
      ultimately show ?thesis using 3 out r3(1) d(2) read_order_closing [of d "disp_close d3"] by simp
    next
      case 4
      have "reading_rank (s_reading (cn_state (d_conn d2))) < reading_rank (s_reading (cn_state (d_conn d)))"
        using left(2) 4 can same2 by (simp add: can_read_head_def)
      with left(1) same same2 have "(d2, d) \<in> read_order incoming" by (intro read_order_rank) auto
      moreover have "fed d2" using left(3) 4 same2 by (auto simp: fed_def)
      moreover have "d_ok (disp_close d2)" "may d (disp_close d2)"
        using disp_close_ok [OF ok2(1)] permitted_trans [OF ok2(2)] by auto
      ultimately show ?thesis using 4 out ok2 read_order_closing [OF d(2), of "disp_close d2"] by simp
    qed
  qed
qed

end

context dispatching
begin

text \<open>Reading the body: \<open>d\<close> is the state before the sender was taken out.\<close>

lemma sender_poll_ready_ok:
  assumes "want_ok ch" "sender_poll_ready (de_waker E) (de_body E) ch = (ch', r)"
  shows "want_ok ch'" "\<not> is_panicked r"
proof -
  obtain r' m' where m: "mp_poll_ready (de_body E) (bc_data ch) = (r', m')" by fastforce
  with bc.mp_ready [OF m] assms have "want_ok ch' \<and> \<not> is_panicked r"
    by (auto simp: sender_poll_ready_def watch_poll_ready_def watch_outcome_def want_ok_def Let_def
        split: if_splits poll.splits)
  then show "want_ok ch'" "\<not> is_panicked r" by auto
qed

lemma sender_send_want:
  "want_ok (snd (sender_send_data (de_body E) chunk ch)) = want_ok ch"
  "want_ok (snd (snd (sender_send_trailers (de_body E) s t ch))) = want_ok ch"
  "want_ok (sender_send_error (de_body E) e ch) = want_ok ch"
  by (auto simp: sender_send_data_def sender_send_trailers_def sender_send_error_def want_ok_def split: prod.splits)

lemma keep_or_close_ok:
  assumes "d_ok d" "d_is_closing d = d_is_closing d0" "d_callback d = d_callback d0" "may d0 d"
    and less: "unread incoming (d_conn d) \<le> unread incoming (d_conn d0)"
      "can_read_body (d_conn d) \<longrightarrow> unread incoming (d_conn d) < unread incoming (d_conn d0)"
      "can_read_body (d_conn d0)"
  shows "d_ok (keep_or_close E body taken d)" "may d0 (keep_or_close E body taken d)"
    "(keep_or_close E body taken d, d0) \<in> read_order incoming" "fed (keep_or_close E body taken d)"
proof -
  let ?d = "keep_or_close E body taken d"
  show "fed ?d"
    by (auto simp: fed_def keep_or_close_def can_read_body_rank conn_close_read_def state_defs split: if_splits)
  have w: "want_ok (d_body_chan d)" using assms(1) by (simp add: disp_ok_def)
  have conn: "d_conn ?d = d_conn d \<or> d_conn ?d = conn_close_read (d_conn d)"
    "d_chan ?d = d_chan d" "d_callback ?d = d_callback d" "d_is_closing ?d = d_is_closing d"
    "bc_want (d_body_chan ?d) = bc_want (d_body_chan d)"
    by (auto simp: keep_or_close_def)
  have w': "want_ok (d_body_chan ?d)" using w want_ok_cong [OF conn(5)] by simp
  have "d_ok ?d \<and> may d ?d"
    using conn(1)
  proof
    assume "d_conn ?d = d_conn d"
    from body_moved [OF assms(1) this conn(2,3) w'] show ?thesis .
  next
    assume "d_conn ?d = conn_close_read (d_conn d)"
    then have "conn_step (de_conn E) (valid_chunk ok view) (d_conn d) (d_conn ?d)"
      using conn_step.CloseRead by simp
    from conn_moved [OF assms(1) this conn(2,3) w'] show ?thesis .
  qed
  then show "d_ok ?d" "may d0 ?d" using assms(4) permitted_trans by blast+
  have left: "unread incoming (d_conn ?d) = unread incoming (d_conn d)"
    using conn(1) by (auto simp: unread_def conn_close_read_def)
  have "can_read_body (d_conn ?d) \<longrightarrow> can_read_body (d_conn d)"
    using conn(1) by (auto simp: can_read_body_def conn_close_read_def state_defs)
  then have rank: "reading_rank (s_reading (cn_state (d_conn ?d))) < reading_rank (s_reading (cn_state (d_conn d0)))"
    if "\<not> can_read_body (d_conn d)"
    using that less(3) reading_rank_le [of "s_reading (cn_state (d_conn ?d))"] by (auto simp: can_read_body_rank)
  show "(?d, d0) \<in> read_order incoming"
  proof (cases "can_read_body (d_conn d)")
    case True
    with less(2) left conn assms(2,3) show ?thesis by (intro read_order_unread) auto
  next
    case False
    with rank less(1) left conn assms(2,3) show ?thesis by (intro read_order_rank) auto
  qed
qed

end

lemma keep_alive_reading: "poll_read_keep_alive E c = (c', r) \<Longrightarrow> can_read_body c' \<Longrightarrow> can_read_body c"
  by (auto simp: poll_read_keep_alive_def mid_message_detect_eof_def require_empty_read_def can_read_body_rank state_defs
      dest!: force_io_read_state split: if_splits prod.splits poll.splits sum.splits)

context dispatching
begin

lemma forward_frame_turn:
  assumes d: "d_ok d" "may d0 d" "d_is_closing d = d_is_closing d0" "d_callback d = d_callback d0"
    and r: "\<not> is_panicked r" and can: "can_read_body (d_conn d0)"
    and left: "unread incoming (d_conn d) \<le> unread incoming (d_conn d0)"
      "can_read_body (d_conn d) \<longrightarrow> r = Pending \<or>
         (\<exists>bs. r = Ready (Some (Inr (FrameData bs))) \<and> unread incoming (d_conn d) < unread incoming (d_conn d0))"
  shows "read_turn d0 (Some (forward_frame E body r d))"
proof -
  have w: "want_ok (d_body_chan d)" using d(1) by (simp add: disp_ok_def)
  have frame: "d_ok d1" "may d0 d1"
    if "d_conn d1 = d_conn d" "d_chan d1 = d_chan d" "d_callback d1 = d_callback d" "want_ok (d_body_chan d1)" for d1
    using body_moved [OF d(1) that] d(2) permitted_trans by blast+
  have rank: "(d1, d0) \<in> read_order incoming"
    if "d_conn d1 = d_conn d" "d_callback d1 = d_callback d" "d_is_closing d1 = d_is_closing d" "\<not> can_read_body (d_conn d)" for d1
    using that d(3,4) left(1) can reading_rank_le [of "s_reading (cn_state (d_conn d))"]
    by (intro read_order_rank) (auto simp: can_read_body_rank)
  consider "r = Pending" | "r = Ready None" | e where "r = Ready (Some (Inl e))"
    | chunk where "r = Ready (Some (Inr (FrameData chunk)))" | t where "r = Ready (Some (Inr (FrameTrailers t)))"
    using r by (metis frame.exhaust is_panicked.elims(3) option.exhaust sum.exhaust)
  then show ?thesis
  proof cases
    case 1
    then show ?thesis using frame [of "d\<lparr>d_body_tx := Some body\<rparr>"] w by (simp add: forward_frame_def turn_ok_def fed_def)
  next
    case 2
    let ?d = "drop_body E (Some body) d"
    have "want_ok (d_body_chan ?d)" using w want_ok_cong [of "d_body_chan ?d" "d_body_chan d"] by simp
    with 2 frame [of ?d] rank [of ?d] left(2) show ?thesis by (simp add: forward_frame_def turn_ok_def fed_def)
  next
    case (3 e)
    let ?d1 = "d\<lparr>d_body_chan := sender_send_error (de_body E) (new_body (CauseIo e)) (d_body_chan d)\<rparr>"
    let ?d = "drop_body E (Some body) ?d1"
    have "want_ok (d_body_chan ?d)"
      using w want_ok_cong [of "d_body_chan ?d" "d_body_chan ?d1"] by (simp add: sender_send_want(3))
    with 3 frame [of ?d] rank [of ?d] left(2) show ?thesis by (simp add: forward_frame_def turn_ok_def fed_def)
  next
    case (4 chunk)
    obtain res ch where s: "sender_send_data (de_body E) chunk (d_body_chan d) = (res, ch)" by fastforce
    have "want_ok ch" using sender_send_want(1) [of chunk "d_body_chan d"] s w by simp
    with frame [of "d\<lparr>d_body_chan := ch\<rparr>"] have "d_ok (d\<lparr>d_body_chan := ch\<rparr>)" "may d0 (d\<lparr>d_body_chan := ch\<rparr>)" by simp_all
    with keep_or_close_ok [of "d\<lparr>d_body_chan := ch\<rparr>" d0 body "res = Inr ()"] 4 s d left can
    show ?thesis by (simp add: forward_frame_def turn_ok_def)
  next
    case (5 t)
    obtain res b ch where s: "sender_send_trailers (de_body E) body t (d_body_chan d) = (res, b, ch)" by (rule prod_cases3)
    have "want_ok ch" using sender_send_want(2) [of body t "d_body_chan d"] s w by simp
    with frame [of "d\<lparr>d_body_chan := ch\<rparr>"] have "d_ok (d\<lparr>d_body_chan := ch\<rparr>)" "may d0 (d\<lparr>d_body_chan := ch\<rparr>)" by simp_all
    with keep_or_close_ok [of "d\<lparr>d_body_chan := ch\<rparr>" d0 b "case res of Inr u \<Rightarrow> True | Inl u \<Rightarrow> False"] 5 s d left can
    show ?thesis by (simp add: forward_frame_def turn_ok_def)
  qed
qed

lemma disp_read_body_turn:
  assumes d: "d_ok d" and can: "can_read_body (d_conn d)"
  shows "read_turn d (disp_read_body E body (d\<lparr>d_body_tx := None\<rparr>))"
proof -
  obtain ch r where sp: "sender_poll_ready (de_waker E) (de_body E) (d_body_chan d) = (ch, r)" by fastforce
  have w: "want_ok ch" "\<not> is_panicked r" using sender_poll_ready_ok [OF _ sp] d by (simp_all add: disp_ok_def)
  let ?d = "d\<lparr>d_body_tx := None, d_body_chan := ch\<rparr>"
  have conn: "conn_ok ok view (d_conn d)" using d by (simp add: disp_ok_def)
  have moved: "d_ok (?d\<lparr>d_conn := c\<rparr>) \<and> may d (?d\<lparr>d_conn := c\<rparr>)"
    if "conn_step (de_conn E) (valid_chunk ok view) (d_conn d) c" for c
    by (rule conn_moved [OF d]) (use that w in simp_all)
  consider "r = Pending" | e where "r = Ready (Inl e)" | "r = Ready (Inr ())"
    using w(2) by (metis is_panicked.elims(3) sum.exhaust unit.exhaust)
  then show ?thesis
  proof cases
    case 1
    with sp body_moved [OF d, of "?d\<lparr>d_body_tx := Some body\<rparr>"] w show ?thesis
      by (simp add: disp_read_body_def turn_ok_def fed_def)
  next
    case (2 e)
    from cn.poll_drain_ok [OF conn can] obtain c where dr: "poll_drain_or_close_read (de_conn E) (d_conn d) = Some (Return c)"
      by blast
    note left = cn.poll_drain_left [OF conn can dr]
    note m = moved [OF conn_step.DrainBody [OF can dr]]
    let ?e = "drop_body E (Some body) (?d\<lparr>d_conn := c\<rparr>)"
    have "want_ok (d_body_chan ?e)" using w want_ok_cong [of "d_body_chan ?e" ch] by simp
    with m body_moved [of "?d\<lparr>d_conn := c\<rparr>" ?e] have "d_ok ?e" "may d ?e"
      using permitted_trans [of E _ _ _ d "?d\<lparr>d_conn := c\<rparr>" ?e] by simp_all
    moreover have "(?e, d) \<in> read_order incoming"
      using left can reading_rank_le [of "s_reading (cn_state c)"]
      by (intro read_order_rank) (auto simp: can_read_body_rank)
    ultimately show ?thesis using 2 sp dr left by (simp add: disp_read_body_def turn_ok_def fed_def)
  next
    case 3
    from cn.poll_read_body_ok [OF conn can] obtain c res where
      rb: "poll_read_body (de_conn E) (d_conn d) = Some (c, res)" "\<not> is_panicked res" by blast
    note left = cn.poll_read_body_left [OF conn can rb]
    note m = moved [OF conn_step.ReadBody [OF can rb]]
    have "read_turn d (Some (forward_frame E body res (?d\<lparr>d_conn := c\<rparr>)))"
      by (rule forward_frame_turn) (use m left can rb in auto)
    with 3 sp rb(1) show ?thesis by (simp add: disp_read_body_def)
  qed
qed

lemma poll_read_turn_ok:
  assumes d: "d_ok d" and fed: "fed d"
  shows "read_turn d (poll_read_turn E d)"
proof -
  consider "d_is_closing d" | "\<not> d_is_closing d" "can_read_head (d_conn d)"
    | body where "\<not> d_is_closing d" "\<not> can_read_head (d_conn d)" "d_body_tx d = Some body" "can_read_body (d_conn d)"
    | body where "\<not> d_is_closing d" "\<not> can_read_head (d_conn d)" "d_body_tx d = Some body" "\<not> can_read_body (d_conn d)"
    | "\<not> d_is_closing d" "\<not> can_read_head (d_conn d)" "d_body_tx d = None" by fastforce
  then show ?thesis
  proof cases
    case 1
    with d fed show ?thesis by (simp add: poll_read_turn_def turn_ok_def)
  next
    case 2
    with poll_read_head_turn [OF d] show ?thesis
      by (auto simp: poll_read_turn_def turn_ok_def split: poll.splits sum.splits)
  next
    case (3 body)
    with disp_read_body_turn [OF d] show ?thesis by (simp add: poll_read_turn_def)
  next
    case (4 body)
    let ?d = "drop_body E (Some body) (d\<lparr>d_body_tx := None\<rparr>)"
    have "want_ok (d_body_chan ?d)"
      using d want_ok_cong [of "d_body_chan ?d" "d_body_chan d"] by (simp add: disp_ok_def)
    with 4 body_moved [OF d, of ?d] read_order_sender [of ?d d] show ?thesis
      by (simp add: poll_read_turn_def turn_ok_def fed_def)
  next
    case 5
    with fed have nb: "\<not> can_read_body (d_conn d)" by (simp add: fed_def)
    from cn.poll_read_keep_alive_ok [of "d_conn d"] d obtain c r where
      ka: "poll_read_keep_alive (de_conn E) (d_conn d) = (c, r)" "\<not> is_panicked r" by (auto simp: disp_ok_def)
    have "d_ok (d\<lparr>d_conn := c\<rparr>) \<and> may d (d\<lparr>d_conn := c\<rparr>)"
      by (rule conn_moved [OF d]) (use conn_step.ReadKeepAlive [OF 5(2) nb ka] d in \<open>simp_all add: disp_ok_def\<close>)
    moreover have "\<not> can_read_body c" using keep_alive_reading [OF ka(1)] nb by blast
    ultimately show ?thesis using 5 ka by (simp add: poll_read_turn_def turn_ok_def fed_def)
  qed
qed

end

end
