(* ===== verification/Dispatcher_Write.thy ===== *)
theory Dispatcher_Write
  imports Dispatcher_Inv
begin

text \<open>
  The writing side of the HTTP/1 dispatcher: a turn of the writing loop calls the connection only as
  it permits, does not panic and keeps the invariant; with user bodies that yield finitely many
  frames the loop ends. Then the whole poll: it returns.
\<close>

section \<open>The connection\<close>

text \<open>Writing does not change whether a body is being read.\<close>

lemma only_writing_reading: "only_writing (cn_state c) (cn_state c') \<Longrightarrow> can_read_body c' = can_read_body c"
  unfolding only_writing_def can_read_body_def by (drule arg_cong [where f = s_reading]) simp

lemma write_head_reading:
  assumes "write_head E c head body = Return c'"
  shows "can_read_body c' = can_read_body c"
proof -
  from assms obtain s head1 where "enforce_version (env_http E) (state_busy (cn_state c)) head = (s, head1)"
    "s_reading (cn_state c') = s_reading s" by (elim write_head_state) auto
  moreover have "s_reading s = s_reading (cn_state c)"
    using enforce_version_state [OF calculation(1)] by (auto simp: disable_keep_alive_def state_busy_def)
  ultimately show ?thesis by (simp add: can_read_body_def)
qed

lemma try_keep_alive_sides:
  assumes "conn_try_keep_alive E c = Return c'"
  shows "can_read_body c' \<Longrightarrow> can_read_body c" "can_write_body c' \<Longrightarrow> can_write_body c"
proof -
  have s: "reading_rank (s_reading (state_try_keep_alive (cn_state c))) = 3 \<longrightarrow> can_read_body c"
    "can_write_body (map_state state_try_keep_alive c) \<longrightarrow> can_write_body c"
    by (cases rule: state_try_keep_alive_cases [of "cn_state c"];
        auto simp: can_read_body_rank can_write_body_def state_idle_eq state_defs)+
  from assms [unfolded conn_try_keep_alive_def]
  have "(can_read_body c' \<longrightarrow> can_read_body c) \<and> (can_write_body c' \<longrightarrow> can_write_body c)"
    by (cases rule: maybe_notify_cases)
      (use s in \<open>auto simp: can_read_body_rank can_write_body_def state_defs\<close>)
  then show "can_read_body c' \<Longrightarrow> can_read_body c" "can_write_body c' \<Longrightarrow> can_write_body c" by auto
qed

lemma flush_sides:
  assumes "conn_poll_flush E c = Some (c', r)" "\<not> is_panicked r"
  shows "can_read_body c' \<Longrightarrow> can_read_body c" "can_write_body c' \<Longrightarrow> can_write_body c"
proof -
  have upd: "can_read_body (c\<lparr>cn_io := io\<rparr>) = can_read_body c" "can_write_body (c\<lparr>cn_io := io\<rparr>) = can_write_body c" for io
    by (simp_all add: can_read_body_def can_write_body_def)
  have "(can_read_body c' \<longrightarrow> can_read_body c) \<and> (can_write_body c' \<longrightarrow> can_write_body c)"
    using assms try_keep_alive_sides [of E "c\<lparr>cn_io := io\<rparr>" c' for io]
    by (auto simp: conn_poll_flush_def then_keep_alive_def upd split: option.splits poll.splits sum.splits rust.splits)
  then show "can_read_body c' \<Longrightarrow> can_read_body c" "can_write_body c' \<Longrightarrow> can_write_body c" by auto
qed

text \<open>Ending a body ends it.\<close>

lemma end_body_ends: "end_body E c = Some (Return (c', res)) \<Longrightarrow> \<not> can_write_body c'"
  by (auto simp: end_body_def can_write_body_def ended_writing_def
      split: writing.splits sum.splits option.splits not_eof.splits if_splits)

section \<open>A turn of the writing loop\<close>

text \<open>
  User bodies that yield finitely many frames: \<open>frames\<close> bounds how many are still ready to come. A
  body that always has another frame would keep the loop of \<open>poll_write\<close> going as long as the
  transport takes the bytes.
\<close>

locale finite_bodies = dispatching E incoming sent ok view contents issued outcome queue tx_open slot os_open
  for E :: "('io, 'b, 'h, 'tx, 'q, 'g, 'p, 'k, 'm, 'o, 'bd, 'r) disp_env"
    and incoming sent ok view contents issued outcome queue tx_open slot os_open +
  fixes frames :: "'bd \<Rightarrow> nat"
  assumes frames: "ub_poll_frame (de_user E) ub = (Ready (Some (Inr f)), ub') \<Longrightarrow> frames ub' < frames ub"

definition write_order ::
  "('bd \<Rightarrow> nat) \<Rightarrow> (('io, 'b, 'h, 'tx, 'q, 'g, 'p, 'k, 'm, 'o, 'bd) dispatcher \<times>
    ('io, 'b, 'h, 'tx, 'q, 'g, 'p, 'k, 'm, 'o, 'bd) dispatcher) set" where
  "write_order frames = measures
     [\<lambda>d. if d_is_closing d then 0 else 1, \<lambda>d. if d_callback d = None then 1 else 0,
      \<lambda>d. case d_body_rx d of None \<Rightarrow> 0 | Some body \<Rightarrow> Suc (frames body),
      \<lambda>d. if can_write_body (d_conn d) then 1 else 0, \<lambda>d. if can_buffer_body (d_conn d) then 0 else 1]"

lemma wf_write_order: "wf (write_order frames)"
  by (simp add: write_order_def)

lemma write_order_request:
  "d_is_closing d' = d_is_closing d \<Longrightarrow> d_callback d = None \<Longrightarrow> d_callback d' \<noteq> None \<Longrightarrow> (d', d) \<in> write_order frames"
  by (auto simp: write_order_def)

lemma write_order_cleared:
  "d_is_closing d' = d_is_closing d \<Longrightarrow> d_callback d' = d_callback d \<Longrightarrow> d_body_rx d = Some body \<Longrightarrow>
   d_body_rx d' = None \<Longrightarrow> (d', d) \<in> write_order frames"
  by (simp add: write_order_def)

lemma write_order_frame:
  "d_is_closing d' = d_is_closing d \<Longrightarrow> d_callback d' = d_callback d \<Longrightarrow> d_body_rx d = Some body \<Longrightarrow>
   d_body_rx d' = Some body' \<Longrightarrow> frames body' < frames body \<Longrightarrow> (d', d) \<in> write_order frames"
  by (simp add: write_order_def)

lemma write_order_conn:
  "d_is_closing d' = d_is_closing d \<Longrightarrow> d_callback d' = d_callback d \<Longrightarrow> d_body_rx d' = d_body_rx d \<Longrightarrow>
   (can_write_body (d_conn d') \<Longrightarrow> can_write_body (d_conn d)) \<Longrightarrow>
   \<not> can_write_body (d_conn d') \<and> can_write_body (d_conn d) \<or> can_buffer_body (d_conn d') \<and> \<not> can_buffer_body (d_conn d) \<Longrightarrow>
   (d', d) \<in> write_order frames"
  by (auto simp: write_order_def)

context finite_bodies
begin

abbreviation write_turn where "write_turn \<equiv> turn_ok runs may (write_order frames)"

lemma wrote:
  assumes "d_ok d" "fed d" "conn_step (de_conn E) (valid_chunk ok view) (d_conn d) c"
    and "can_read_body c \<Longrightarrow> can_read_body (d_conn d)"
  shows "runs (d\<lparr>d_body_rx := rx, d_conn := c\<rparr>)" "may d (d\<lparr>d_body_rx := rx, d_conn := c\<rparr>)"
proof -
  have "d_ok (d\<lparr>d_body_rx := rx, d_conn := c\<rparr>) \<and> may d (d\<lparr>d_body_rx := rx, d_conn := c\<rparr>)"
    by (rule conn_moved [OF assms(1)]) (use assms in \<open>simp_all add: disp_ok_def\<close>)
  then show "runs (d\<lparr>d_body_rx := rx, d_conn := c\<rparr>)" "may d (d\<lparr>d_body_rx := rx, d_conn := c\<rparr>)"
    using assms(2,4) by (auto simp: fed_def)
qed

lemma set_body_rx:
  assumes "d_ok d" "fed d"
  shows "runs (d\<lparr>d_body_rx := rx\<rparr>)" "may d (d\<lparr>d_body_rx := rx\<rparr>)"
  using body_moved [OF assms(1), of "d\<lparr>d_body_rx := rx\<rparr>"] assms by (simp_all add: fed_def disp_ok_def)

lemma end_turn:
  assumes d: "d_ok d" "fed d" and can: "can_write_body (d_conn d)" and rx: "d_body_rx d = None \<or> rx = None"
    and keep: "d_body_rx d = None \<Longrightarrow> rx = None"
  shows "write_turn d (end_then_again E (d\<lparr>d_body_rx := rx\<rparr>))"
proof -
  from can obtain enc where "s_writing (cn_state (d_conn d)) = WritingBody enc"
    by (auto simp: can_write_body_def split: writing.splits)
  with cn.end_body_ok [of "d_conn d"] d(1) obtain c res where
    e: "end_body (de_conn E) (d_conn d) = Some (Return (c, res))" by (auto simp: disp_ok_def)
  note w = wrote [OF d conn_step.EndBody [OF can e], of rx]
  have r: "can_read_body c = can_read_body (d_conn d)" using only_writing_reading [OF end_body_state [OF e]] .
  have "(d\<lparr>d_body_rx := rx, d_conn := c\<rparr>, d) \<in> write_order frames"
  proof (cases "d_body_rx d")
    case None
    with keep end_body_ends [OF e] can show ?thesis by (intro write_order_conn) auto
  next
    case (Some body)
    with rx show ?thesis by (intro write_order_cleared) auto
  qed
  with w r e show ?thesis by (auto simp: end_then_again_def turn_ok_def split: sum.splits)
qed

lemma then_again_turn:
  assumes d: "d_ok d" "fed d" and m: "m = Some (Return c)"
    and step: "conn_step (de_conn E) (valid_chunk ok view) (d_conn d) c" and reading: "can_read_body c = can_read_body (d_conn d)"
    and rx: "d_body_rx d = Some body" "rx = None \<or> (\<exists>body'. rx = Some body' \<and> frames body' < frames body)"
  shows "write_turn d (then_again (d\<lparr>d_body_rx := rx\<rparr>) m)"
proof -
  note w = wrote [OF d step, of rx]
  have "(d\<lparr>d_body_rx := rx, d_conn := c\<rparr>, d) \<in> write_order frames"
    using rx write_order_cleared [of "d\<lparr>d_body_rx := rx, d_conn := c\<rparr>" d body]
      write_order_frame [of "d\<lparr>d_body_rx := rx, d_conn := c\<rparr>" d body] by auto
  with w reading m show ?thesis by (simp add: then_again_def turn_ok_def)
qed

lemma write_frame_turn:
  assumes d: "d_ok d" "fed d" and can: "can_write_body (d_conn d)" "can_buffer_body (d_conn d)"
    and rx: "d_body_rx d = Some body"
  shows "write_turn d (write_frame E body d)"
proof -
  obtain r b where uf: "ub_poll_frame (de_user E) body = (r, b)" by fastforce
  have np: "\<not> is_panicked r" using user_no_panic [of body] uf by simp
  have less: "frames b < frames body" if "r = Ready (Some (Inr f))" for f using frames uf that by blast
  have conn: "conn_ok ok view (d_conn d)" using d(1) by (simp add: disp_ok_def)
  from can(1) obtain enc where enc: "s_writing (cn_state (d_conn d)) = WritingBody enc"
    by (auto simp: can_write_body_def split: writing.splits)
  have keep: "write_turn d (Some (d\<lparr>d_body_rx := Some b\<rparr>, Again :: (error + unit) poll turn))" if "r = Ready (Some (Inr f))" for f
    using set_body_rx [OF d, of "Some b"] write_order_frame [of "d\<lparr>d_body_rx := Some b\<rparr>" d body b] less [OF that] rx
    by (simp add: turn_ok_def)
  note eq = write_frame_def uf prod.case Let_def
  consider "r = Pending" | "r = Ready None" | e where "r = Ready (Some (Inl e))"
    | chunk where "r = Ready (Some (Inr (UserData chunk)))" | t where "r = Ready (Some (Inr (UserTrailers t)))"
    | "r = Ready (Some (Inr UserOther))"
    using np by (metis user_frame.exhaust is_panicked.elims(3) option.exhaust sum.exhaust)
  then show ?thesis
  proof cases
    case 1
    with set_body_rx [OF d, of "Some b"] show ?thesis by (simp add: eq turn_ok_def)
  next
    case 2
    with end_turn [OF d can(1), of None] show ?thesis by (simp add: eq)
  next
    case (3 e)
    with set_body_rx [OF d, of None] show ?thesis by (simp add: eq turn_ok_def)
  next
    case (4 chunk)
    have ck: "ok chunk" "length (view chunk) < 2 ^ 64" using user_chunks [of body chunk] uf 4 by simp_all
    have rem: "chunk_remaining E chunk = length (view chunk)"
      unfolding chunk_remaining_def by (rule buf.remaining [OF cn.data.user_buf ck(1)])
    show ?thesis
    proof (cases "view chunk = []")
      case True
      with 4 keep end_turn [OF d can(1), of None] rem show ?thesis by (simp add: eq)
    next
      case False
      then have v: "valid_chunk ok view chunk" using ck by (simp add: valid_chunk_def)
      from cn.write_body_ok [OF conn enc v] obtain c where
        wb: "write_body (de_conn E) (d_conn d) chunk = Some (Return c)" by blast
      from cn.write_body_and_end_ok [OF conn enc v] obtain c2 where
        we: "write_body_and_end (de_conn E) (d_conn d) chunk = Some (Return c2)" by blast
      have steps: "conn_step (de_conn E) (valid_chunk ok view) (d_conn d) c"
        "conn_step (de_conn E) (valid_chunk ok view) (d_conn d) c2"
        using conn_step.WriteBody [where valid = "valid_chunk ok view", OF can v wb]
          conn_step.WriteBodyAndEnd [where valid = "valid_chunk ok view", OF can v we] by auto
      have "write_turn d (then_again (d\<lparr>d_body_rx := Some b\<rparr>) (write_body (de_conn E) (d_conn d) chunk))"
        by (rule then_again_turn [OF d wb steps(1) only_writing_reading [OF write_body_state [OF wb]] rx])
          (use less 4 in blast)
      moreover have "write_turn d (then_again (d\<lparr>d_body_rx := None\<rparr>) (write_body_and_end (de_conn E) (d_conn d) chunk))"
        by (rule then_again_turn [OF d we steps(2)
              only_writing_reading [OF write_body_and_end_state [OF we]] rx]) simp
      ultimately show ?thesis using 4 False rem by (simp add: eq)
    qed
  next
    case (5 t)
    from cn.write_trailers_ok [OF conn can(1), of t] obtain c where
      wt: "write_trailers (de_conn E) (d_conn d) t = Some (Return c)" by blast
    have "write_turn d (then_again (d\<lparr>d_body_rx := None\<rparr>) (write_trailers (de_conn E) (d_conn d) t))"
      by (rule then_again_turn [OF d wt conn_step.WriteTrailers [OF can wt] only_writing_reading [OF write_trailers_state [OF wt]] rx]) simp
    with 5 show ?thesis by (simp add: eq)
  next
    case 6
    with keep show ?thesis by (simp add: eq)
  qed
qed

end

context finite_bodies
begin

lemma write_request_turn:
  assumes d: "d_ok d" "fed d" and can: "can_write_head (d_conn d)" and cb: "d_callback d = None"
  shows "write_turn d (Some (write_request E d))"
proof -
  have c: "c_ok d" "want_ok (d_body_chan d)" using d(1) by (simp_all add: disp_ok_def)
  from client_poll_msg_ok [OF c(1) cb] obtain chan cb1 closed r where
    pm: "client_poll_msg E d = (d\<lparr>d_chan := chan, d_callback := cb1, d_rx_closed := closed\<rparr>, r)"
    "c_ok (d\<lparr>d_chan := chan, d_callback := cb1, d_rx_closed := closed\<rparr>)"
    "rc.keeps (ch_promises (d_chan d)) (ch_promises chan)" "\<not> is_panicked r"
    "\<forall>head body. r = Ready (Some (head, body)) \<longrightarrow> cb1 \<noteq> None \<and> sendable \<lparr>rq_head = head, rq_body = body\<rparr>"
    by (elim exE conjE) (rule that; assumption)
  define d1 where "d1 = d\<lparr>d_chan := chan, d_callback := cb1, d_rx_closed := closed\<rparr>"
  have same: "d_conn d1 = d_conn d" "d_is_closing d1 = d_is_closing d" "d_callback d1 = cb1" "d_body_tx d1 = d_body_tx d"
    "d_body_chan d1 = d_body_chan d" by (simp_all add: d1_def)
  have ok1: "d_ok d1" "may d d1" using chan_moved [OF d(1), of d1] pm(2,3) c(2) by (simp_all add: d1_def)
  have fed1: "fed d1" using d(2) same by (simp add: fed_def)
  note pm1 = pm(1) [folded d1_def]
  consider "r = Pending" | "r = Ready None" | head body where "r = Ready (Some (head, body))"
    using pm(4) by (metis is_panicked.elims(3) option.exhaust prod.exhaust)
  then show ?thesis
  proof cases
    case 1
    with pm1 ok1 fed1 show ?thesis by (simp add: write_request_def turn_ok_def)
  next
    case 2
    have "d_ok (disp_close d1)" "may d (disp_close d1)"
      using disp_close_ok [OF ok1(1)] permitted_trans [OF ok1(2)] by auto
    with 2 pm1 show ?thesis by (simp add: write_request_def turn_ok_def)
  next
    case (3 head body)
    let ?rx = "if ub_is_end_stream (de_user E) body then None else Some body"
    obtain d2 body_type where bt: "(if ub_is_end_stream (de_user E) body then (d1\<lparr>d_body_rx := None\<rparr>, None)
        else (d1\<lparr>d_body_rx := Some body\<rparr>, case ub_size_exact (de_user E) body of
          Some n \<Rightarrow> Some (Known n) | None \<Rightarrow> Some Unknown)) = (d2, body_type)" by fastforce
    then have d2: "d2 = d1\<lparr>d_body_rx := ?rx\<rparr>" by (auto split: if_splits)
    have ok2: "d_ok d2" "fed d2" "may d1 d2" using set_body_rx [OF ok1(1) fed1] by (simp_all add: d2)
    have "h_version head \<in> {HTTP_10, HTTP_11, HTTP_2}" using pm(5) 3 by (auto simp: sendable_def)
    from write_head_returns [OF this] obtain c2 where
      wh: "write_head (de_conn E) (d_conn d2) head body_type = Return c2" by blast
    have "can_write_head (d_conn d2)" using can same by (simp add: d2)
    note step = conn_step.WriteHead [OF this wh, of "valid_chunk ok view"]
    note w = wrote [OF ok2(1,2) step, of ?rx]
    have upd: "d2\<lparr>d_body_rx := ?rx, d_conn := c2\<rparr> = d2\<lparr>d_conn := c2\<rparr>" by (simp add: d2)
    have d3: "runs (d2\<lparr>d_conn := c2\<rparr>)" "may d (d2\<lparr>d_conn := c2\<rparr>)"
      using w write_head_reading [OF wh] permitted_trans [OF permitted_trans [OF ok1(2) ok2(3)]] unfolding upd by auto
    have "(d2\<lparr>d_conn := c2\<rparr>, d) \<in> write_order frames"
      by (rule write_order_request) (use 3 pm(5) same cb in \<open>auto simp: d2\<close>)
    with 3 d3 pm1 bt wh show ?thesis by (simp add: write_request_def turn_ok_def)
  qed
qed

lemma flush_turn:
  assumes d: "d_ok d" "fed d"
  shows "\<exists>d' r. disp_poll_flush E d = Some (d', r) \<and> runs d' \<and> may d d' \<and> \<not> is_panicked r \<and>
    d_is_closing d' = d_is_closing d \<and> d_callback d' = d_callback d \<and> d_body_rx d' = d_body_rx d \<and>
    (can_write_body (d_conn d') \<longrightarrow> can_write_body (d_conn d)) \<and> (r = Ready (Inr ()) \<longrightarrow> can_buffer_body (d_conn d'))"
proof -
  have conn: "conn_ok ok view (d_conn d)" "0 < limit (d_conn d)" using d(1) by (simp_all add: disp_ok_def)
  from cn.conn_poll_flush_ok [OF conn(1)] obtain c r where
    f: "conn_poll_flush (de_conn E) (d_conn d) = Some (c, r)" "\<not> is_panicked r" by blast
  note w = wrote [OF d conn_step.Flush [OF f] flush_sides(1) [OF f], of "d_body_rx d"]
  have "r = Ready (Inr ()) \<longrightarrow> can_buffer_body c"
    using cn.flushed_can_buffer [OF conn(1) _ limit_kept conn(2)] f(1) by auto
  moreover obtain r' where "disp_poll_flush E d = Some (d\<lparr>d_conn := c\<rparr>, r')" "\<not> is_panicked r'"
    "r' = Ready (Inr ()) \<longrightarrow> r = Ready (Inr ())"
    using f by (cases r) (auto simp: disp_poll_flush_def split: sum.splits)
  ultimately show ?thesis using w flush_sides(2) [OF f] by simp
qed

lemma poll_write_turn_ok:
  assumes d: "d_ok d" "fed d"
  shows "write_turn d (poll_write_turn E d)"
proof -
  let ?req = "d_body_rx d = None \<and> can_write_head (d_conn d) \<and> client_should_poll d"
  consider "d_is_closing d" | "\<not> d_is_closing d" ?req
    | "\<not> d_is_closing d" "\<not> ?req" "\<not> can_buffer_body (d_conn d)"
    | body where "\<not> d_is_closing d" "\<not> ?req" "can_buffer_body (d_conn d)" "d_body_rx d = Some body" "can_write_body (d_conn d)"
    | body where "\<not> d_is_closing d" "\<not> ?req" "can_buffer_body (d_conn d)" "d_body_rx d = Some body" "\<not> can_write_body (d_conn d)"
    | "\<not> d_is_closing d" "\<not> ?req" "can_buffer_body (d_conn d)" "d_body_rx d = None" "can_write_body (d_conn d)"
    | "\<not> d_is_closing d" "\<not> ?req" "can_buffer_body (d_conn d)" "d_body_rx d = None" "\<not> can_write_body (d_conn d)"
    by fastforce
  then show ?thesis
  proof cases
    case 1
    with d show ?thesis by (simp add: poll_write_turn_def turn_ok_def)
  next
    case 2
    with write_request_turn [OF d] show ?thesis by (simp add: poll_write_turn_def client_should_poll_def)
  next
    case 3
    from flush_turn [OF d] obtain d' r where f: "disp_poll_flush E d = Some (d', r)" "runs d'" "may d d'" "\<not> is_panicked r"
      "d_is_closing d' = d_is_closing d" "d_callback d' = d_callback d" "d_body_rx d' = d_body_rx d"
      "can_write_body (d_conn d') \<longrightarrow> can_write_body (d_conn d)" "r = Ready (Inr ()) \<longrightarrow> can_buffer_body (d_conn d')" by blast
    have "r = Ready (Inr ()) \<Longrightarrow> (d', d) \<in> write_order frames" by (rule write_order_conn) (use f 3 in auto)
    with 3 f show ?thesis by (auto simp: poll_write_turn_def turn_ok_def split: poll.splits sum.splits)
  next
    case (4 body)
    with write_frame_turn [OF d] show ?thesis by (auto simp: poll_write_turn_def)
  next
    case (5 body)
    with set_body_rx [OF d, of None] write_order_cleared [of "d\<lparr>d_body_rx := None\<rparr>" d body] show ?thesis
      by (auto simp: poll_write_turn_def turn_ok_def)
  next
    case 6
    then have "d\<lparr>d_body_rx := None\<rparr> = d" by simp
    with 6 end_turn [OF d 6(5), of None] show ?thesis by (auto simp: poll_write_turn_def)
  next
    case 7
    with d show ?thesis by (auto simp: poll_write_turn_def turn_ok_def)
  qed
qed

end

end
