(* ===== verification/Dispatcher_Props.thy ===== *)
theory Dispatcher_Props
  imports Dispatcher_Write
begin

text \<open>
  What the HTTP/1 dispatcher promises: from the handshake on, whatever the peer, the transport, the
  caller and the reader of the body do, each of its polls returns without a panic and calls the
  connection only as the connection permits; a response goes to the request it answers, an error is
  reported to exactly one party, and no request is left without an answer.
\<close>

section \<open>The loops\<close>

lemma turn_loop:
  assumes wf: "wf R"
    and loop: "\<And>d. loop d = (case turn d of None \<Rightarrow> None | Some (d, Done r) \<Rightarrow> Some (d, r) | Some (d, Again) \<Rightarrow> loop d)"
    and turn: "\<And>d. good d \<Longrightarrow> turn_ok good may R d (turn d)"
    and trans: "\<And>d1 d2 d3. may d1 d2 \<Longrightarrow> may d2 d3 \<Longrightarrow> may d1 d3" and "good d"
  shows "\<exists>d' r. loop d = Some (d', r) \<and> good d' \<and> may d d' \<and> \<not> is_panicked r"
  using wf \<open>good d\<close>
proof (induction d rule: wf_induct_rule)
  case (less d)
  from turn [OF less.prems] obtain d1 t where t: "turn d = Some (d1, t)" "good d1" "may d d1"
    "case t of Again \<Rightarrow> (d1, d) \<in> R | Done r \<Rightarrow> \<not> is_panicked r" by (auto simp: turn_ok_def split: option.splits)
  show ?case
  proof (cases t)
    case Again
    with t less.IH [of d1] obtain d' r where "loop d1 = Some (d', r)" "good d'" "may d1 d'" "\<not> is_panicked r" by auto
    with Again t trans loop [of d] show ?thesis by auto
  next
    case (Done r)
    with t loop [of d] show ?thesis by simp
  qed
qed

text \<open>What a stretch of the dispatcher that returns does.\<close>

definition ran :: "('s \<Rightarrow> bool) \<Rightarrow> ('s \<Rightarrow> 's \<Rightarrow> bool) \<Rightarrow> 's \<Rightarrow> ('s \<times> 'a poll) option \<Rightarrow> bool" where
  "ran good may d out \<longleftrightarrow> (\<exists>d' r. out = Some (d', r) \<and> good d' \<and> may d d' \<and> \<not> is_panicked r)"

lemma ranI: "out = Some (d', r) \<Longrightarrow> good d' \<Longrightarrow> may d d' \<Longrightarrow> \<not> is_panicked r \<Longrightarrow> ran good may d out"
  by (auto simp: ran_def)

context finite_bodies
begin

abbreviation rans where "rans \<equiv> ran runs may"

lemma disp_poll_read_ok: "runs d \<Longrightarrow> rans d (disp_poll_read E d)"
  unfolding ran_def
  by (rule turn_loop [OF wf_read_order disp_poll_read.simps _ permitted_trans, of runs]) (auto intro: poll_read_turn_ok)

lemma disp_poll_write_ok: "runs d \<Longrightarrow> rans d (disp_poll_write E d)"
  unfolding ran_def
  by (rule turn_loop [OF wf_write_order disp_poll_write.simps _ permitted_trans, of runs]) (auto intro: poll_write_turn_ok)

lemma disp_poll_flush_ok: "runs d \<Longrightarrow> rans d (disp_poll_flush E d)"
  using flush_turn [of d] by (auto simp: ran_def)

lemma poll_try_ok:
  assumes "rans d m" "\<And>d' b. runs d' \<Longrightarrow> may d d' \<Longrightarrow> rans d (k d' b)"
  shows "rans d (poll_try m k)"
proof -
  from assms(1) obtain d' r where m: "m = Some (d', r)" "runs d'" "may d d'" "\<not> is_panicked r" by (auto simp: ran_def)
  consider e where "r = Ready (Inl e)" | "r = Ready (Inr ())" | "r = Pending"
    using m(4) by (metis is_panicked.elims(3) sum.exhaust unit.exhaust)
  then show ?thesis
  proof cases
    case (1 e)
    with m show ?thesis by (simp add: poll_try_def ran_def)
  next
    case 2
    with m assms(2) show ?thesis by (simp add: poll_try_def)
  next
    case 3
    with m assms(2) show ?thesis by (simp add: poll_try_def)
  qed
qed

lemma poll_then_ok:
  assumes "runs d'" "may d d'" "\<And>d. runs d \<Longrightarrow> rans d (f d)" "\<And>d' b. runs d' \<Longrightarrow> may d d' \<Longrightarrow> rans d (k d' b)"
  shows "rans d (poll_try (f d') k)"
proof (rule poll_try_ok)
  show "rans d (f d')" using assms(3) [OF assms(1)] permitted_trans [OF assms(2)] by (auto simp: ran_def)
qed (rule assms(4))

text \<open>The steps of the connection that leave the reading side alone.\<close>

lemma conn_runs:
  assumes "runs d" "conn_step (de_conn E) (valid_chunk ok view) (d_conn d) c" "s_reading (cn_state c) = s_reading (cn_state (d_conn d))"
  shows "runs (d\<lparr>d_conn := c\<rparr>)" "may d (d\<lparr>d_conn := c\<rparr>)"
  using wrote [of d c "d_body_rx d"] assms by (auto simp: can_read_body_def)

lemma wants_read_again_ok:
  assumes "runs d" "wants_read_again (d_conn d) = (c, b)"
  shows "runs (d\<lparr>d_conn := c\<rparr>)" "may d (d\<lparr>d_conn := c\<rparr>)"
proof -
  have c: "c = fst (wants_read_again (d_conn d))" using assms(2) by simp
  have "conn_step (de_conn E) (valid_chunk ok view) (d_conn d) c" unfolding c by (rule conn_step.WantsReadAgain)
  moreover have "s_reading (cn_state c) = s_reading (cn_state (d_conn d))" by (simp add: c wants_read_again_def)
  ultimately show "runs (d\<lparr>d_conn := c\<rparr>)" "may d (d\<lparr>d_conn := c\<rparr>)" using conn_runs assms(1) by blast+
qed

lemma rans_weaken: "rans d' out \<Longrightarrow> may d d' \<Longrightarrow> rans d out"
  unfolding ran_def by (blast intro: permitted_trans)

lemma poll_loop_ok: "runs d \<Longrightarrow> rans d (poll_loop n E d)"
proof (induction n arbitrary: d)
  case 0
  have "d_ok (d\<lparr>d_woken := True\<rparr>) \<and> may d (d\<lparr>d_woken := True\<rparr>)"
    by (rule body_moved) (use 0 in \<open>auto simp: disp_ok_def\<close>)
  with 0 show ?case by (simp add: ran_def fed_def)
next
  case (Suc n)
  have fin: "rans d (let wants_write_again = (can_write_again d3 \<and> (w \<or> fl));
           (c, wants_read_again) = wants_read_again (d_conn d3); d = d3\<lparr>d_conn := c\<rparr> in
       if \<not> (wants_write_again \<or> wants_read_again) then Some (d, Ready (Inr ()))
       else if \<not> wants_read_again \<and> wants_write_again
       then poll_try (disp_poll_write E d) (\<lambda>d write_ready.
              if \<not> write_ready then Some (d, Ready (Inr ())) else poll_loop n E d)
       else poll_loop n E d)" if d3: "runs d3" "may d d3" for d3 w fl
  proof -
    obtain c b where wr: "wants_read_again (d_conn d3) = (c, b)" by fastforce
    note ok = wants_read_again_ok [OF d3(1) wr]
    have m: "may d (d3\<lparr>d_conn := c\<rparr>)" using d3(2) ok(2) permitted_trans by blast
    have again: "rans d (poll_loop n E d')" if "runs d'" "may d d'" for d'
      using Suc.IH [OF that(1)] that(2) by (rule rans_weaken)
    have stop: "rans d (Some (d', Ready (Inr ()) :: (error + unit) poll))" if "runs d'" "may d d'" for d'
      using that by (simp add: ran_def)
    have "rans d (poll_try (disp_poll_write E (d3\<lparr>d_conn := c\<rparr>)) (\<lambda>d write_ready.
              if \<not> write_ready then Some (d, Ready (Inr ())) else poll_loop n E d))"
      by (rule poll_then_ok [OF ok(1) m disp_poll_write_ok]) (simp_all add: again stop)
    with wr again [OF ok(1) m] stop [OF ok(1) m] show ?thesis by (simp add: Let_def)
  qed
  show ?case
    unfolding poll_loop.simps
    by (intro poll_try_ok [OF disp_poll_read_ok [OF Suc.prems]] poll_then_ok [OF _ _ disp_poll_write_ok]
        poll_then_ok [OF _ _ disp_poll_flush_ok] fin)
qed

end

section \<open>The poll\<close>

context finite_bodies
begin

lemma finish_poll_ok:
  assumes "runs d"
  shows "rans d (Some (finish_poll d out))"
proof -
  obtain c r where t: "take_error (d_conn d) = (c, r)" by fastforce
  then have c: "c = fst (take_error (d_conn d))" by simp
  have "conn_step (de_conn E) (valid_chunk ok view) (d_conn d) c" unfolding c by (rule conn_step.TakeError)
  moreover have "s_reading (cn_state c) = s_reading (cn_state (d_conn d))" by (simp add: c take_error_def)
  ultimately have "runs (d\<lparr>d_conn := c\<rparr>)" "may d (d\<lparr>d_conn := c\<rparr>)" using conn_runs assms by blast+
  with t show ?thesis by (auto simp: finish_poll_def ran_def split: sum.splits)
qed

lemma shutdown_ok:
  assumes "runs d" "conn_poll_shutdown (de_conn E) (d_conn d) = (c, r)"
  shows "runs (d\<lparr>d_conn := c\<rparr>)" "may d (d\<lparr>d_conn := c\<rparr>)" "\<not> is_panicked r"
proof -
  have "s_reading (cn_state c) = s_reading (cn_state (d_conn d))"
    using assms(2) by (auto simp: conn_poll_shutdown_def split: prod.splits)
  then show "runs (d\<lparr>d_conn := c\<rparr>)" "may d (d\<lparr>d_conn := c\<rparr>)"
    using conn_runs [OF assms(1) conn_step.Shutdown [OF assms(2)]] by blast+
  show "\<not> is_panicked r"
    using assms(2) shutdown_no_panic [of "b_io (cn_io (d_conn d))"]
    by (auto simp: conn_poll_shutdown_def split: prod.splits)
qed

lemma poll_inner_ok:
  assumes "runs d"
  shows "rans d (poll_inner E should_shutdown d)"
proof -
  from poll_loop_ok [OF assms, of 16] obtain d1 r where
    l: "poll_loop 16 E d = Some (d1, r)" "runs d1" "may d d1" "\<not> is_panicked r" by (auto simp: ran_def)
  show ?thesis
  proof (cases "r = Ready (Inr ()) \<and> is_done d1")
    case False
    with l show ?thesis by (auto simp: poll_inner_def ran_def split: poll.splits sum.splits)
  next
    case True
    obtain c up where p: "pending_upgrade (d_conn d1) = (c, up)" by fastforce
    then have c: "c = fst (pending_upgrade (d_conn d1))" by simp
    have "conn_step (de_conn E) (valid_chunk ok view) (d_conn d1) c" unfolding c by (rule conn_step.PendingUpgrade)
    moreover have "s_reading (cn_state c) = s_reading (cn_state (d_conn d1))" by (simp add: c pending_upgrade_def)
    ultimately have d2: "runs (d1\<lparr>d_conn := c\<rparr>)" "may d1 (d1\<lparr>d_conn := c\<rparr>)" using conn_runs l(2) by blast+
    then have m2: "may d (d1\<lparr>d_conn := c\<rparr>)" using l(3) permitted_trans by blast
    obtain c3 r3 where s: "conn_poll_shutdown (de_conn E) c = (c3, r3)" by fastforce
    note sd = shutdown_ok [OF d2(1), simplified, OF s]
    have m3: "may d (d1\<lparr>d_conn := c3\<rparr>)" using sd(2) m2 permitted_trans by blast
    have fin: "rans d (Some (finish_poll (d1\<lparr>d_conn := c\<rparr>) out))" "rans d (Some (finish_poll (d1\<lparr>d_conn := c3\<rparr>) out))" for out
      using finish_poll_ok [OF d2(1), of out] finish_poll_ok [OF sd(1), of out] m2 m3 rans_weaken by blast+
    have stop: "rans d (Some (d1\<lparr>d_conn := c3\<rparr>, q))" if "\<not> is_panicked q" for q :: "(error + dispatched) poll"
      using sd(1) m3 that by (simp add: ran_def)
    show ?thesis
      using True l(1) p s fin stop sd(3)
      by (cases r3) (auto simp: poll_inner_def Let_def split: option.splits sum.splits)
  qed
qed

lemma guard_drop_ok:
  assumes "d_ok d"
  shows "d_ok (guard_drop E e d)" "may d (guard_drop E e d)" "d_callback (guard_drop E e d) = d_callback d"
    "d_chan (guard_drop E e d) = d_chan d"
proof -
  let ?d = "guard_drop E e d"
  have g: "d_conn ?d = d_conn d" "d_chan ?d = d_chan d" "d_callback ?d = d_callback d"
    "bc_want (d_body_chan ?d) = bc_want (d_body_chan d)"
    by (auto simp: guard_drop_def sender_send_error_def split: option.splits)
  have "want_ok (d_body_chan ?d)" using want_ok_cong [OF g(4)] assms by (simp add: disp_ok_def)
  from body_moved [OF assms g(1-3) this] show "d_ok ?d" "may d ?d" by auto
  show "d_callback ?d = d_callback d" "d_chan ?d = d_chan d" using g by auto
qed

text \<open>A poll that fails tells the client about it.\<close>

lemma on_connection_error_ok:
  assumes "d_ok d" "on_connection_error E e d = (d', r)"
  shows "d_ok d'" "may d d'" "d_callback d' = None"
    "\<exists>res. msg_outcome contents outcome d (Inl e) d' res \<and>
       r = Ready (case res of Inl e \<Rightarrow> Inl e | Inr u \<Rightarrow> Inr DispatchedShutdown)"
proof -
  let ?g = "guard_drop E (new_body (CauseMessage ''connection error'')) d"
  note g = guard_drop_ok [OF assms(1), of "new_body (CauseMessage ''connection error'')"]
  have c: "c_ok ?g" "want_ok (d_body_chan ?g)" using g(1) by (simp_all add: disp_ok_def)
  from client_recv_msg_ok [OF c(1), of "Inl e"] obtain chan res where
    m: "client_recv_msg E (Inl e) ?g = Return (?g\<lparr>d_callback := None, d_chan := chan\<rparr>, res)"
    "c_ok (?g\<lparr>d_callback := None, d_chan := chan\<rparr>)" "rc.keeps (ch_promises (d_chan ?g)) (ch_promises chan)"
    "msg_outcome contents outcome ?g (Inl e) (?g\<lparr>d_callback := None, d_chan := chan\<rparr>) res" by blast
  have d': "d' = ?g\<lparr>d_callback := None, d_chan := chan\<rparr>"
    "r = Ready (case res of Inl e \<Rightarrow> Inl e | Inr u \<Rightarrow> Inr DispatchedShutdown)"
    using assms(2) m(1) by (auto simp: on_connection_error_def Let_def split: sum.splits)
  have "d_ok d' \<and> may ?g d'" unfolding d'(1) by (rule chan_moved [OF g(1)]) (use m c in simp_all)
  then show "d_ok d'" "may d d'" using g(2) permitted_trans by blast+
  show "d_callback d' = None" by (simp add: d'(1))
  have "msg_outcome contents outcome d (Inl e) d' res"
    using m(4) unfolding d'(1) [symmetric] by (cases "d_callback d") (simp_all add: msg_outcome_def g(3,4))
  with d'(2) show "\<exists>res. msg_outcome contents outcome d (Inl e) d' res \<and>
       r = Ready (case res of Inl e \<Rightarrow> Inl e | Inr u \<Rightarrow> Inr DispatchedShutdown)" by blast
qed

lemma poll_catch_ok:
  assumes "runs d"
  shows "\<exists>d' r. poll_catch E should_shutdown d = Some (d', r) \<and> d_ok d' \<and> may d d' \<and> \<not> is_panicked r \<and>
    (r = Pending \<longrightarrow> fed d')"
proof -
  from poll_inner_ok [OF assms, of should_shutdown] obtain d1 r where
    i: "poll_inner E should_shutdown d = Some (d1, r)" "runs d1" "may d d1" "\<not> is_panicked r" by (auto simp: ran_def)
  show ?thesis
  proof (cases "\<exists>e. r = Ready (Inl e)")
    case True
    then obtain e where e: "r = Ready (Inl e)" by blast
    obtain d2 r2 where ce: "on_connection_error E e d1 = (d2, r2)" by fastforce
    have "d_ok d1" using i(2) by simp
    note oc = on_connection_error_ok [OF this ce]
    have "\<not> is_panicked r2" "r2 \<noteq> Pending" using oc(4) by auto
    moreover have "may d d2" using oc(2) i(3) permitted_trans by blast
    ultimately show ?thesis using i(1) e ce oc(1) by (simp add: poll_catch_def)
  next
    case False
    with i show ?thesis by (auto simp: poll_catch_def split: poll.splits sum.splits)
  qed
qed

end

section \<open>Executions\<close>

text \<open>
  A dispatcher with the callers' end of its request channel. It is polled until a poll is ready; the
  caller sends requests the protocol can write; the reader of the current body may do anything to the
  body channel, but of the three values of the demand it sets only two.
\<close>

record ('io, 'b, 'h, 'tx, 'q, 'g, 'p, 'k, 'm, 'o, 'bd) disp_sys =
  dy_disp :: "('io, 'b, 'h, 'tx, 'q, 'g, 'p, 'k, 'm, 'o, 'bd) dispatcher"
  dy_sender :: request_sender
  dy_over :: bool

inductive disp_step ::
  "('io, 'b, 'h, 'tx, 'q, 'g, 'p, 'k, 'm, 'o, 'bd, 'r) disp_env \<Rightarrow>
   ('io, 'b, 'h, 'tx, 'q, 'g, 'p, 'k, 'm, 'o, 'bd) disp_sys \<Rightarrow>
   ('io, 'b, 'h, 'tx, 'q, 'g, 'p, 'k, 'm, 'o, 'bd) disp_sys \<Rightarrow> bool" for E where
  Poll: "\<not> dy_over s \<Longrightarrow> dispatcher_poll E (dy_disp s) = Some (d, r) \<Longrightarrow>
     disp_step E s (s\<lparr>dy_disp := d, dy_over := (r \<noteq> Pending)\<rparr>)"
| PollOpen: "\<not> dy_over s \<Longrightarrow> poll_without_shutdown E (dy_disp s) = Some (d, n) \<Longrightarrow>
     disp_step E s (s\<lparr>dy_disp := d, dy_over := (n \<noteq> Pending)\<rparr>)"
| Send: "sendable req \<Longrightarrow> dispatch_try_send (de_chan E) (dy_sender s) req (d_chan (dy_disp s)) = (x, snd', c) \<Longrightarrow>
     disp_step E s (s\<lparr>dy_disp := (dy_disp s)\<lparr>d_chan := c\<rparr>, dy_sender := snd'\<rparr>)"
| SenderReady: "dispatch_poll_ready (de_chan E) (d_chan (dy_disp s)) = (y, c) \<Longrightarrow>
     disp_step E s (s\<lparr>dy_disp := (dy_disp s)\<lparr>d_chan := c\<rparr>\<rparr>)"
| Reader: "wt_value (bc_want ch) \<in> {READY, CLOSED, wt_value (bc_want (d_body_chan (dy_disp s)))} \<Longrightarrow>
     disp_step E s (s\<lparr>dy_disp := (dy_disp s)\<lparr>d_body_chan := ch\<rparr>\<rparr>)"

text \<open>It starts with a connection that the handshake set up and an empty request channel.\<close>

inductive disp_start ::
  "('io, 'b, 'h, 'tx, 'q, 'g, 'p, 'k, 'm, 'o, 'bd, 'r) disp_env \<Rightarrow> 'p \<Rightarrow> ('io, 'b, 'h) conn \<Rightarrow>
   ('io, 'b, 'h, 'tx, 'q, 'g, 'p, 'k, 'm, 'o, 'bd) disp_sys \<Rightarrow> bool" for E p where
  start: "built opts \<Longrightarrow> handshake_conn (de_conn E) opts io = Return c \<Longrightarrow>
     dispatch_channel (de_chan E) p = (snd0, chan) \<Longrightarrow> want_ok ch \<Longrightarrow>
     disp_start E p c \<lparr>dy_disp = dispatcher_new c chan ch, dy_sender = snd0, dy_over = False\<rparr>"

inductive disp_reachable ::
  "('io, 'b, 'h, 'tx, 'q, 'g, 'p, 'k, 'm, 'o, 'bd, 'r) disp_env \<Rightarrow> 'p \<Rightarrow> ('io, 'b, 'h) conn \<Rightarrow>
   ('io, 'b, 'h, 'tx, 'q, 'g, 'p, 'k, 'm, 'o, 'bd) disp_sys \<Rightarrow> bool" for E p c0 where
  start: "disp_start E p c0 s \<Longrightarrow> disp_reachable E p c0 s"
| step: "disp_reachable E p c0 s \<Longrightarrow> disp_step E s s' \<Longrightarrow> disp_reachable E p c0 s'"

lemma handshake_conn_shape:
  assumes "handshake_conn E opts io = Return c" "options_ok opts"
  shows "s_reading (cn_state c) = ReadingInit \<and> s_writing (cn_state c) = WritingInit \<and> s_keep_alive (cn_state c) = Busy \<and>
    s_method (cn_state c) = None \<and> \<not> flush_pipeline (cn_io c) \<and> partial_len (cn_io c) = None \<and> 0 < limit c \<and>
    wb_headers (write_buf (cn_io c)) = cursor_new [] INIT_BUFFER_SIZE \<and> wb_queue (write_buf (cn_io c)) = buf_list_new"
  using assms
  by (auto simp: handshake_conn_def Let_def options_ok_def conn_new_def set_h1_parser_config_def set_h09_responses_def
      set_http1_max_headers_def conn_set_write_strategy_queue_def conn_set_write_strategy_flatten_def
      conn_set_read_buf_exact_size_def conn_set_max_buf_size_def set_max_buf_size_def set_read_buf_exact_size_def
      set_write_strategy_queue_def set_write_strategy_flatten_def set_strategy_def buffered_new_def write_buf_new_def
      DEFAULT_MAX_BUFFER_SIZE_def MINIMUM_MAX_BUFFER_SIZE_def INIT_BUFFER_SIZE_def split: option.splits if_splits)

lemma handshake_conn_ok:
  assumes "handshake_conn E opts io = Return c" "options_ok opts"
  shows "conn_ok ok view c"
proof -
  note h = handshake_conn_shape [OF assms]
  have "wb_ok (encoded_ok ok) (encoded_view view) (write_buf (cn_io c))"
    using h by (simp add: wb_ok_def cursor_simps buf_list_new_def buf_list_ok_def)
  with h show ?thesis by (simp add: conn_ok_def state_ok_def io_ok_def partial_ok_def)
qed

lemma try_send_contents:
  assumes "request_channel D contents issued outcome" "dispatch_try_send D snd0 req c = (r, snd', c')"
  shows "\<forall>e \<in> set (contents (ch_queue c')). e \<in> set (contents (ch_queue c)) \<or> (\<exists>cb. env_content e = Some (req, cb))"
  using assms(2) request_channel.q_send [OF assms(1)]
  by (auto simp: dispatch_try_send_def enqueue_def Let_def split: if_splits prod.splits)

context finite_bodies
begin

lemma poll_without_shutdown_ok:
  assumes "runs d"
  shows "\<exists>d' r. poll_without_shutdown E d = Some (d', r) \<and> d_ok d' \<and> may d d' \<and> \<not> is_panicked r \<and>
    (r = Pending \<longrightarrow> fed d')"
proof -
  from poll_catch_ok [OF assms, of False] obtain d' r where
    p: "poll_catch E False d = Some (d', r)" "d_ok d'" "may d d'" "\<not> is_panicked r" "r = Pending \<longrightarrow> fed d'" by blast
  then show ?thesis
    by (cases r) (auto simp: poll_without_shutdown_def split: sum.splits dispatched.splits)
qed

lemma disp_start_ok:
  assumes "disp_start E p c0 s" "pending (issued p) (outcome p) []"
  shows "runs (dy_disp s) \<and> d_conn (dy_disp s) = c0 \<and> ch_promises (d_chan (dy_disp s)) = p"
  using assms(1)
proof (cases rule: disp_start.cases)
  case (start opts io snd0 chan ch)
  note h = handshake_conn_shape [OF start(3) built_ok [OF start(2)]]
    and c = handshake_conn_ok [OF start(3) built_ok [OF start(2)], of ok view]
  have chan: "contents (ch_queue chan) = []" "ch_promises chan = p"
    using start(4) rc.q_new by (auto simp: dispatch_channel_def)
  have "c_ok (dy_disp s)"
    using assms(2) chan by (simp add: start dispatcher_new_def chan_ok_def ownership_def)
  with c h start(5) chan show ?thesis
    by (simp add: start(1) disp_ok_def dispatcher_new_def fed_def can_read_body_def)
qed

text \<open>The caller and the reader keep the invariant.\<close>

lemma caller_ok:
  assumes "d_ok d" "rc.owns c (held d)" "\<forall>e \<in> set (contents (ch_queue c)). sendable_env e"
    and "rc.keeps (ch_promises (d_chan d)) (ch_promises c)"
  shows "d_ok (d\<lparr>d_chan := c\<rparr>)" "may d (d\<lparr>d_chan := c\<rparr>)" "fed d \<Longrightarrow> fed (d\<lparr>d_chan := c\<rparr>)"
proof -
  have "held (d\<lparr>d_chan := c\<rparr>) = held d" by (rule held_cong) simp
  then have "c_ok (d\<lparr>d_chan := c\<rparr>)" using assms by (simp add: chan_ok_def)
  with chan_moved [OF assms(1), of "d\<lparr>d_chan := c\<rparr>"] assms show "d_ok (d\<lparr>d_chan := c\<rparr>)" "may d (d\<lparr>d_chan := c\<rparr>)"
    by (simp_all add: disp_ok_def)
  show "fed d \<Longrightarrow> fed (d\<lparr>d_chan := c\<rparr>)" by (simp add: fed_def)
qed

lemma disp_step_ok:
  assumes "disp_step E s s'" "d_ok (dy_disp s)" "\<not> dy_over s \<longrightarrow> fed (dy_disp s)"
  shows "d_ok (dy_disp s') \<and> (\<not> dy_over s' \<longrightarrow> fed (dy_disp s')) \<and> may (dy_disp s) (dy_disp s')"
  using assms(1)
proof (cases rule: disp_step.cases)
  case (Poll d r)
  with poll_catch_ok [of "dy_disp s" True] assms(2,3) show ?thesis by (auto simp: dispatcher_poll_def)
next
  case (PollOpen d n)
  with poll_without_shutdown_ok [of "dy_disp s"] assms(2,3) show ?thesis by auto
next
  case (Send req x snd' c)
  have o: "rc.owns (d_chan (dy_disp s)) (held (dy_disp s))" "\<forall>e \<in> set (contents (ch_queue (d_chan (dy_disp s)))). sendable_env e"
    using assms(2) by (simp_all add: disp_ok_def chan_ok_def)
  have "\<forall>e \<in> set (contents (ch_queue c)). sendable_env e"
    using try_send_contents [OF a_requests Send(3)] o(2) Send(2) by (auto simp: sendable_env_def)
  with caller_ok [OF assms(2), of c] rc.try_send_ok [OF o(1) Send(3)] assms(3) show ?thesis by (simp add: Send(1))
next
  case (SenderReady y c)
  then have "ch_queue c = ch_queue (d_chan (dy_disp s))" "ch_promises c = ch_promises (d_chan (dy_disp s))"
    by (auto simp: dispatch_poll_ready_def split: prod.splits)
  with caller_ok [OF assms(2), of c] assms(2,3) SenderReady(1) show ?thesis
    by (simp add: disp_ok_def chan_ok_def ownership_def)
next
  case (Reader ch)
  then have "want_ok ch" using assms(2) by (auto simp: want_ok_def disp_ok_def)
  with body_moved [OF assms(2), of "(dy_disp s)\<lparr>d_body_chan := ch\<rparr>"] assms(3) show ?thesis
    by (simp add: Reader(1) fed_def)
qed

lemma disp_reachable_ok:
  assumes "disp_reachable E p c0 s" "pending (issued p) (outcome p) []"
  shows "d_ok (dy_disp s) \<and> (\<not> dy_over s \<longrightarrow> fed (dy_disp s)) \<and>
    conn_reachable (de_conn E) (valid_chunk ok view) c0 (d_conn (dy_disp s)) \<and>
    rc.keeps p (ch_promises (d_chan (dy_disp s)))"
  using assms(1)
proof (induction rule: disp_reachable.induct)
  case (start s)
  from disp_start_ok [OF start assms(2)] show ?case by (simp add: conn_reachable.start)
next
  case (step s s')
  from step.IH have ok: "d_ok (dy_disp s)" "\<not> dy_over s \<longrightarrow> fed (dy_disp s)"
    and r: "conn_reachable (de_conn E) (valid_chunk ok view) c0 (d_conn (dy_disp s))"
    and k: "rc.keeps p (ch_promises (d_chan (dy_disp s)))" by auto
  note st = disp_step_ok [OF step.hyps(2) ok]
  then have m: "conn_reachable (de_conn E) (valid_chunk ok view) (d_conn (dy_disp s)) (d_conn (dy_disp s'))"
    "rc.keeps (ch_promises (d_chan (dy_disp s))) (ch_promises (d_chan (dy_disp s')))" by (simp_all add: permitted_def)
  from st conn_reachable_trans [OF m(1) r] keeps_outcomes_trans [OF k m(2)] show ?case by simp
qed

text \<open>Dropping the dispatcher answers everyone.\<close>

lemma dispatcher_drop_ok:
  assumes "d_ok d"
  shows "\<exists>d'. dispatcher_drop E panicking d = Return d' \<and> rc.keeps (ch_promises (d_chan d)) (ch_promises (d_chan d')) \<and>
    (\<forall>tx \<in> issued (ch_promises (d_chan d')). outcome (ch_promises (d_chan d')) tx \<noteq> None) \<and>
    (\<forall>cb. d_callback d = Some cb \<longrightarrow> outcome (ch_promises (d_chan d')) (the (cb_sender cb)) =
       Some (Inl \<lparr>tse_error = dispatch_gone panicking, tse_message = None\<rparr>)) \<and>
    (\<forall>req tx. Envelope (Some (req, Callback (Some tx))) \<in> set (contents (ch_queue (d_chan d))) \<longrightarrow>
       outcome (ch_promises (d_chan d')) tx = Some (Inl
         \<lparr>tse_error = error_with new_canceled (CauseMessage ''connection closed''), tse_message = Some req\<rparr>))"
proof -
  have c: "c_ok d" using assms by (simp add: disp_ok_def)
  define p where "p = (case d_callback d of None \<Rightarrow> ch_promises (d_chan d)
    | Some cb \<Rightarrow> callback_drop (de_chan E) panicking cb (ch_promises (d_chan d)))"
  let ?gone = "Inl \<lparr>tse_error = dispatch_gone panicking, tse_message = None\<rparr>"
  have p: "rc.owns ((d_chan d)\<lparr>ch_promises := p\<rparr>) [] \<and> rc.keeps (ch_promises (d_chan d)) p \<and>
    (\<forall>cb. d_callback d = Some cb \<longrightarrow> the (cb_sender cb) \<in> issued p \<and> outcome p (the (cb_sender cb)) = Some ?gone)"
  proof (cases "d_callback d")
    case None
    with c show ?thesis by (simp add: p_def chan_ok_def)
  next
    case (Some cb)
    obtain tx where tx: "cb_sender cb = Some tx" using c Some by (auto simp: chan_ok_def ownership_def)
    have s: "snd (p_send (de_chan E) (ch_promises (d_chan d)) (the (cb_sender cb)) ?gone) = p"
      by (simp add: p_def Some callback_drop_def tx)
    have "the (cb_sender cb) \<in> issued (ch_promises (d_chan d))"
      using c Some by (auto simp: chan_ok_def ownership_def pending_def)
    with callback_resolved_ok [OF c Some s] Some show ?thesis by (auto simp: chan_ok_def keeps_outcomes_def)
  qed
  then have o: "rc.owns ((d_chan d)\<lparr>ch_promises := p\<rparr>) []" by simp
  from rc.drop_receiver_ok [OF o] obtain c' where
    c': "dispatch_drop_receiver (de_chan E) ((d_chan d)\<lparr>ch_promises := p\<rparr>) = Return c'" "rc.owns c' []"
      "contents (ch_queue c') = []" "rc.keeps p (ch_promises c')"
      "\<forall>val tx. Envelope (Some (val, Callback (Some tx))) \<in> set (contents (ch_queue (d_chan d))) \<longrightarrow>
         outcome (ch_promises c') tx = Some (Inl
           \<lparr>tse_error = error_with new_canceled (CauseMessage ''connection closed''), tse_message = Some val\<rparr>)" by auto
  let ?d = "guard_drop E new_incomplete (d\<lparr>d_callback := None, d_chan := c'\<rparr>)"
  have d: "dispatcher_drop E panicking d = Return ?d"
    using c'(1) by (simp add: dispatcher_drop_def p_def [symmetric])
  have ch: "d_chan ?d = c'" by (auto simp: guard_drop_def split: option.splits)
  have "\<forall>tx \<in> issued (ch_promises c'). outcome (ch_promises c') tx \<noteq> None"
    using c'(2,3) by (auto simp: ownership_def pending_def)
  moreover have "rc.keeps (ch_promises (d_chan d)) (ch_promises c')"
    using p keeps_outcomes_trans [OF _ c'(4)] by simp
  moreover have "outcome (ch_promises c') (the (cb_sender cb)) = Some ?gone" if "d_callback d = Some cb" for cb
    using p that c'(4) by (simp add: keeps_outcomes_def)
  ultimately show ?thesis using d ch c'(5) by (intro exI [of _ ?d]) simp
qed

end

section \<open>A simulated environment\<close>

text \<open>The user's body is a list of chunks; one that is too long for a 64-bit length is skipped.\<close>

definition sim_user :: "(bytes list, bytes, entries) user_body" where
  "sim_user = \<lparr>
     ub_is_end_stream = (\<lambda>b. b = []), ub_size_exact = (\<lambda>_. None),
     ub_poll_frame = (\<lambda>b. case b of [] \<Rightarrow> (Ready None, [])
        | x # xs \<Rightarrow> (Ready (Some (Inr (if length x < 2 ^ 64 then UserData x else UserOther))), xs))\<rparr>"

type_synonym sim_request = "(entries, bytes list) request"
type_synonym sim_response = "(entries, unit) response"
type_synonym sim_promises = "nat \<times> (nat \<Rightarrow> (sim_request, sim_response) reply option)"
type_synonym sim_chunks = "(error + bytes) list \<times> bool \<times> bool"
type_synonym sim_slot = "entries option \<times> bool"

definition sim_disp_env ::
  "(sim_io, bytes, entries, nat, (sim_request, nat) envelope list, bool \<times> bool, sim_promises, bool, sim_chunks,
    sim_slot, bytes list, unit) disp_env" where
  "sim_disp_env = \<lparr>de_conn = sim_env, de_chan = sim_dispatch, de_waker = flag_waker, de_body = sim_chan,
     de_user = sim_user, de_upgrade = 0\<rparr>"

lemma sim_limit_kept: "limit_kept (sim_transport ops)"
proof -
  have "wb_max_buf_size wb' = wb_max_buf_size wb" if "wb_advance ops wb n = Return wb'" for wb wb' n
    using that by (auto simp: wb_advance_def Let_def split: if_splits)
  then show ?thesis by (auto simp: limit_kept_def sim_transport_def Let_def split: rust.splits)
qed

interpretation sim_disp: finite_bodies sim_disp_env sim_incoming sim_sent "\<lambda>_. True" "\<lambda>b. b" "\<lambda>q. q" "\<lambda>(n, f). {..<n}" snd
  fst "\<lambda>m. fst (snd m)" fst snd length
proof (intro finite_bodies.intro dispatching.intro finite_bodies_axioms.intro)
  show "connection (de_conn sim_disp_env) sim_incoming sim_sent (\<lambda>_. True) (\<lambda>b. b)"
    by (simp add: sim_disp_env_def sim_conn.connection_axioms)
  show "request_channel (de_chan sim_disp_env) (\<lambda>q. q) (\<lambda>(n, f). {..<n}) snd"
    by (simp add: sim_disp_env_def sim_rc.request_channel_axioms)
  show "body_channel (de_body sim_disp_env) fst (\<lambda>m. fst (snd m)) fst snd"
    by (simp add: sim_disp_env_def sim_bc.body_channel_axioms)
  show "limit_kept (env_transport (de_conn sim_disp_env))"
    by (simp add: sim_disp_env_def sim_env_def sim_limit_kept)
qed (auto simp: sim_disp_env_def sim_user_def sim_env_def sim_transport_def split: list.splits if_splits)

section \<open>Properties\<close>

text \<open>
  C4. Every poll of the dispatcher returns without a panic: from the handshake on, after any sequence of
  polls, requests of the caller and moves of the reader of the body, and whatever the peer and the
  transport do, under two conditions on the caller: every request it sends has version HTTP/1.0, 1.1
  or 2 (for another one the connection panics while it writes the head), and the bodies of the requests
  yield finitely many frames. The reading and the writing loop end because each turn brings the
  connection closer to waiting, and the rounds are at most sixteen.
\<close>

theorem dispatcher_poll_returns:
  assumes "finite_bodies E incoming sent ok view contents issued outcome queue tx_open slot os_open frames"
    and "disp_reachable E p c0 s" "pending (issued p) (outcome p) []" "\<not> dy_over s"
  shows "(\<exists>d r. dispatcher_poll E (dy_disp s) = Some (d, r) \<and> \<not> is_panicked r) \<and>
    (\<exists>d r. poll_without_shutdown E (dy_disp s) = Some (d, r) \<and> \<not> is_panicked r)"
proof -
  note F = assms(1)
  have runs: "disp_ok ok view contents issued outcome (dy_disp s) \<and> fed (dy_disp s)"
    using finite_bodies.disp_reachable_ok [OF F assms(2,3)] assms(4) by blast
  from finite_bodies.poll_catch_ok [OF F runs, of True] finite_bodies.poll_without_shutdown_ok [OF F runs]
  show ?thesis unfolding dispatcher_poll_def by blast
qed

definition sim_new :: "(sim_io, bytes, entries) conn" where
  "sim_new = set_h1_parser_config (conn_new sim_env sim_start) (parser_config_of options_builder)"

definition sim_sys ::
  "(sim_io, bytes, entries, nat, (sim_request, nat) envelope list, bool \<times> bool, sim_promises, bool, sim_chunks,
    sim_slot, bytes list) disp_sys" where
  "sim_sys = \<lparr>dy_disp = dispatcher_new sim_new (snd (dispatch_channel (de_chan sim_disp_env) (0, \<lambda>_. None)))
     \<lparr>bc_want = watch_channel flag_waker False, bc_data = mp_new (de_body sim_disp_env), bc_trailers = os_new (de_body sim_disp_env)\<rparr>,
     dy_sender = fst (dispatch_channel (de_chan sim_disp_env) (0, \<lambda>_. None)), dy_over = False\<rparr>"

lemma sim_sys_reachable: "disp_reachable sim_disp_env (0, \<lambda>_. None) sim_new sim_sys"
  unfolding sim_sys_def
proof (rule disp_reachable.start, rule disp_start.start)
  show "handshake_conn (de_conn sim_disp_env) options_builder sim_start = Return sim_new"
    by (simp add: handshake_conn_def sim_disp_env_def sim_new_def options_builder_def Let_def)
  show "built options_builder" by (rule built.start)
  show "dispatch_channel (de_chan sim_disp_env) (0, \<lambda>_. None) =
      (fst (dispatch_channel (de_chan sim_disp_env) (0, \<lambda>_. None)), snd (dispatch_channel (de_chan sim_disp_env) (0, \<lambda>_. None)))"
    by simp
qed (simp add: want_ok_def watch_channel_def)

lemma sim_sys_fresh: "pending ((\<lambda>(n, f). {..<n}) (0 :: nat, \<lambda>_. None :: (sim_request, sim_response) reply option)) (\<lambda>_. None :: (sim_request, sim_response) reply option) []"
  by (simp add: pending_def)

theorem dispatcher_poll_returns_witness:
  "\<exists>d r. dispatcher_poll sim_disp_env (dy_disp sim_sys) = Some (d, r) \<and> \<not> is_panicked r"
proof -
  have "\<not> dy_over sim_sys" by (simp add: sim_sys_def)
  with dispatcher_poll_returns [OF sim_disp.finite_bodies_axioms sim_sys_reachable] sim_sys_fresh show ?thesis by simp
qed

text \<open>
  C7. The dispatcher calls the connection only as the connection permits: the state of the connection in
  every reachable state of the dispatcher is one that permitted calls reach from the handshake, so that
  everything proved of the connection holds there. While it runs, the dispatcher holds the sender of
  every body that is being read, which is what \<open>poll_read_keep_alive\<close> asserts. The caller sends requests
  of version HTTP/1.0, 1.1 or 2.
\<close>

theorem dispatcher_calls_permitted:
  assumes "finite_bodies E incoming sent ok view contents issued outcome queue tx_open slot os_open frames"
    and "disp_reachable E p c0 s" "pending (issued p) (outcome p) []"
  shows "conn_reachable (de_conn E) (valid_chunk ok view) c0 (d_conn (dy_disp s)) \<and>
    (\<not> dy_over s \<and> can_read_body (d_conn (dy_disp s)) \<longrightarrow> d_body_tx (dy_disp s) \<noteq> None)"
  using finite_bodies.disp_reachable_ok [OF assms] by (auto simp: fed_def)

theorem dispatcher_calls_permitted_witness:
  "conn_reachable (de_conn sim_disp_env) (valid_chunk (\<lambda>_. True) (\<lambda>b. b)) sim_new (d_conn (dy_disp sim_sys))"
  using dispatcher_calls_permitted [OF sim_disp.finite_bodies_axioms sim_sys_reachable] sim_sys_fresh by simp

text \<open>
  C6. No request is left without an answer. In every reachable state the promise of a request is
  unresolved exactly while the request is queued or its callback is held, and when the dispatcher is
  dropped, however that happens, every promise ever made is resolved: a held request learns that the
  dispatcher is gone, and a queued request comes back to its caller with the request itself. The caller
  sends requests of version HTTP/1.0, 1.1 or 2.
\<close>

theorem dispatcher_drop_answers_all:
  assumes "finite_bodies E incoming sent ok view contents issued outcome queue tx_open slot os_open frames"
    and "disp_reachable E p c0 s" "pending (issued p) (outcome p) []"
  shows "(\<forall>tx \<in> issued (ch_promises (d_chan (dy_disp s))). outcome (ch_promises (d_chan (dy_disp s))) tx = None \<longleftrightarrow>
       tx \<in> env_tx ` set (contents (ch_queue (d_chan (dy_disp s)))) \<or> (\<exists>cb. d_callback (dy_disp s) = Some cb \<and> cb_sender cb = Some tx)) \<and>
    (\<exists>d'. dispatcher_drop E panicking (dy_disp s) = Return d' \<and>
       (\<forall>tx \<in> issued (ch_promises (d_chan d')). outcome (ch_promises (d_chan d')) tx \<noteq> None) \<and>
       (\<forall>tx \<in> issued (ch_promises (d_chan (dy_disp s))). outcome (ch_promises (d_chan (dy_disp s))) tx \<noteq> None \<longrightarrow>
          outcome (ch_promises (d_chan d')) tx = outcome (ch_promises (d_chan (dy_disp s))) tx) \<and>
       (\<forall>req tx. Envelope (Some (req, Callback (Some tx))) \<in> set (contents (ch_queue (d_chan (dy_disp s)))) \<longrightarrow>
          outcome (ch_promises (d_chan d')) tx = Some (Inl
            \<lparr>tse_error = error_with new_canceled (CauseMessage ''connection closed''), tse_message = Some req\<rparr>)))"
proof -
  let ?d = "dy_disp s"
  note F = assms(1)
  have ok: "disp_ok ok view contents issued outcome ?d" using finite_bodies.disp_reachable_ok [OF F assms(2,3)] by blast
  have o: "ownership contents issued outcome (d_chan ?d) (held ?d)" using ok by (simp add: disp_ok_def chan_ok_def)
  have "(\<exists>cb. d_callback ?d = Some cb \<and> cb_sender cb = Some tx) \<longleftrightarrow> tx \<in> set (held_txs (held ?d))" for tx
    using o by (cases "d_callback ?d") (auto simp: ownership_def)
  with o have "\<forall>tx \<in> issued (ch_promises (d_chan ?d)). outcome (ch_promises (d_chan ?d)) tx = None \<longleftrightarrow>
       tx \<in> env_tx ` set (contents (ch_queue (d_chan ?d))) \<or> (\<exists>cb. d_callback ?d = Some cb \<and> cb_sender cb = Some tx)"
    by (simp add: ownership_def pending_def)
  moreover from finite_bodies.dispatcher_drop_ok [OF F ok, of panicking] obtain d' where
    "dispatcher_drop E panicking ?d = Return d'" "keeps_outcomes issued outcome (ch_promises (d_chan ?d)) (ch_promises (d_chan d'))"
    "\<forall>tx \<in> issued (ch_promises (d_chan d')). outcome (ch_promises (d_chan d')) tx \<noteq> None"
    "\<forall>req tx. Envelope (Some (req, Callback (Some tx))) \<in> set (contents (ch_queue (d_chan ?d))) \<longrightarrow>
       outcome (ch_promises (d_chan d')) tx = Some (Inl
         \<lparr>tse_error = error_with new_canceled (CauseMessage ''connection closed''), tse_message = Some req\<rparr>)" by blast
  ultimately show ?thesis unfolding keeps_outcomes_def by blast
qed

theorem dispatcher_drop_answers_all_witness:
  "\<exists>d'. dispatcher_drop sim_disp_env False (dy_disp sim_sys) = Return d'"
  using dispatcher_drop_answers_all [OF sim_disp.finite_bodies_axioms sim_sys_reachable, of False] sim_sys_fresh by auto

text \<open>
  C9. A response goes to the request it answers: its head, with the pending upgrade if the response
  asks for one and with an empty body exactly when it has none, resolves the promise of the callback
  the dispatcher holds; the callback is used up, and nothing that was resolved before changes.
\<close>

theorem dispatcher_delivers_response:
  assumes "finite_bodies E incoming sent ok view contents issued outcome queue tx_open slot os_open frames"
    and "disp_ok ok view contents issued outcome d" "d_callback d = Some cb"
  shows "\<exists>d' rs. deliver_head E (head, len, wants) d = (d', Ready (Inr ())) \<and> d_callback d' = None \<and>
    outcome (ch_promises (d_chan d')) (the (cb_sender cb)) = Some (Inr rs) \<and> rp_head rs = head \<and>
    (rp_body rs = KindEmpty \<longleftrightarrow> len = ZERO) \<and>
    rp_upgrade rs = (if wants_contains wants WANTS_UPGRADE then Some (de_upgrade E) else None) \<and>
    keeps_outcomes issued outcome (ch_promises (d_chan d)) (ch_promises (d_chan d')) \<and>
    disp_ok ok view contents issued outcome d'"
proof -
  obtain d' r where dh: "deliver_head E (head, len, wants) d = (d', r)" by fastforce
  have D: "dispatching E incoming sent ok view contents issued outcome queue tx_open slot os_open"
    using assms(1) by (rule finite_bodies.axioms)
  note dl = dispatching.deliver_head_ok [OF D assms(2,3) dh]
  from dl(3) have k: "keeps_outcomes issued outcome (ch_promises (d_chan d)) (ch_promises (d_chan d'))"
    by (simp add: permitted_def)
  from dl(6) obtain rs where rs: "outcome (ch_promises (d_chan d')) (the (cb_sender cb)) = Some (Inr rs)" "rp_head rs = head"
    "rp_body rs = KindEmpty \<longleftrightarrow> len = ZERO"
    "rp_upgrade rs = (if wants_contains wants WANTS_UPGRADE then Some (de_upgrade E) else None)" by auto
  from dh dl(1,2,4) rs k show ?thesis by blast
qed

definition sim_busy ::
  "(sim_io, bytes, entries, nat, (sim_request, nat) envelope list, bool \<times> bool, sim_promises, bool, sim_chunks,
    sim_slot, bytes list) dispatcher" where
  "sim_busy = (dy_disp sim_sys)\<lparr>d_callback := Some (Callback (Some 0)),
     d_chan := \<lparr>ch_queue = [], ch_want = (False, False), ch_promises = (1, \<lambda>_. None)\<rparr>\<rparr>"

lemma sim_busy_ok: "disp_ok (\<lambda>_. True) (\<lambda>b. b) (\<lambda>q. q) (\<lambda>(n, f). {..<n}) snd sim_busy"
proof -
  have h: "handshake_conn sim_env options_builder sim_start = Return sim_new"
    by (simp add: handshake_conn_def sim_new_def options_builder_def Let_def)
  from handshake_conn_ok [OF h options_ok_builder] handshake_conn_shape [OF h options_ok_builder] show ?thesis
    by (auto simp: disp_ok_def chan_ok_def ownership_def pending_def want_ok_def sim_busy_def sim_sys_def dispatcher_new_def
        watch_channel_def)
qed

theorem dispatcher_delivers_response_witness:
  "\<exists>d' rs. deliver_head sim_disp_env
       (\<lparr>h_version = HTTP_11, h_subject = 200, h_headers = [], h_extensions = extensions_default\<rparr>, ZERO, (Wants 0)) sim_busy =
       (d', Ready (Inr ())) \<and>
     snd (ch_promises (d_chan d')) 0 = Some (Inr rs) \<and> h_subject (rp_head rs) = 200"
proof -
  have cb: "d_callback sim_busy = Some (Callback (Some 0))" by (simp add: sim_busy_def)
  from dispatcher_delivers_response [OF sim_disp.finite_bodies_axioms sim_busy_ok cb,
      of "\<lparr>h_version = HTTP_11, h_subject = 200, h_headers = [], h_extensions = extensions_default\<rparr>" ZERO "Wants 0"]
  show ?thesis by auto
qed

text \<open>A queue whose \<open>recv\<close> is ready at once while it has a request.\<close>

definition prompt_queue ::
  "('t, 'u, 'tx, 'q, 'g, 'p) dispatch_api \<Rightarrow> ('q \<Rightarrow> ('t, 'tx) envelope list) \<Rightarrow> bool" where
  "prompt_queue D contents \<longleftrightarrow> (\<forall>q. contents q \<noteq> [] \<longrightarrow> (\<exists>ev. fst (q_recv_now D q) = Some (Some ev)))"

text \<open>
  What the report of an error does in each case, when the queue hands out its first request whenever
  it has one.
\<close>

context finite_bodies
begin

lemma answer_exact:
  assumes "c_ok d" "d_callback d = Some cb"
  shows "\<exists>p. answer E cb val (d\<lparr>d_callback := None\<rparr>) =
      Return (d\<lparr>d_callback := None, d_chan := (d_chan d)\<lparr>ch_promises := p\<rparr>\<rparr>, Inr ()) \<and>
    outcome p = (outcome (ch_promises (d_chan d)))(the (cb_sender cb) := Some val)"
proof -
  from assms obtain tx where tx: "cb_sender cb = Some tx" "tx \<in> issued (ch_promises (d_chan d))"
    "outcome (ch_promises (d_chan d)) tx = None"
    by (auto simp: chan_ok_def ownership_def pending_def held_def)
  obtain b p where p: "p_send (de_chan E) (ch_promises (d_chan d)) tx val = (b, p)" by fastforce
  from rc.p_send [OF tx(2,3) p] tx(1) p show ?thesis
    by (intro exI [of _ p]) (simp add: answer_def callback_send_def callback_drop_def)
qed

lemma queued_error_exact:
  assumes "c_ok d" "d_callback d = None" "\<not> d_rx_closed d"
    and prompt: "prompt_queue (de_chan E) contents"
  shows "\<exists>chan res. client_recv_msg E (Inl e) d = Return (d\<lparr>d_chan := chan\<rparr>, res) \<and>
    (case contents (ch_queue (d_chan d)) of
       [] \<Rightarrow> res = Inl e \<and> ch_promises chan = ch_promises (d_chan d)
     | ev # evs \<Rightarrow> res = Inr () \<and> contents (ch_queue chan) = evs \<and>
         (\<exists>req tx. ev = Envelope (Some (req, Callback (Some tx))) \<and>
            outcome (ch_promises chan) = (outcome (ch_promises (d_chan d)))
              (tx := Some (Inl \<lparr>tse_error = error_with new_canceled (CauseError e), tse_message = Some req\<rparr>))))"
proof -
  let ?c = "dispatch_close (de_chan E) (d_chan d)"
  have cl: "contents (ch_queue ?c) = contents (ch_queue (d_chan d))" "ch_promises ?c = ch_promises (d_chan d)"
    by (simp_all add: dispatch_close_def rc.q_close)
  obtain v q where x: "q_recv_now (de_chan E) (ch_queue ?c) = (v, q)" by fastforce
  note got = rc.q_recv_now [OF x]
  obtain m chan where tr: "dispatch_try_recv (de_chan E) ?c = (m, chan)" by fastforce
  note queue = canceled_queue_ok(1) [OF assms(1,2) tr]
  show ?thesis
  proof (cases "contents (ch_queue (d_chan d))")
    case Nil
    with got cl have "\<nexists>ev. v = Some (Some ev)" by auto
    with tr x have "m = None" "chan = ?c\<lparr>ch_queue := q\<rparr>"
      by (auto simp: dispatch_try_recv_def split: option.splits)
    with tr assms(2,3) Nil cl show ?thesis
      by (intro exI [of _ "?c\<lparr>ch_queue := q\<rparr>"] exI [of _ "Inl e"]) (simp add: client_recv_msg_def)
  next
    case (Cons ev evs)
    with prompt cl x got have v: "v = Some (Some ev)" "contents q = evs" by (auto simp: prompt_queue_def dest!: spec [of _ "ch_queue ?c"])
    have "full ev" using assms(1) Cons by (simp add: chan_ok_def ownership_def)
    then obtain req tx where ev: "ev = Envelope (Some (req, Callback (Some tx)))" by (elim fullE)
    with tr x v have m: "m = Some (req, Callback (Some tx))" "chan = ?c\<lparr>ch_queue := q\<rparr>"
      by (auto simp: dispatch_try_recv_def)
    let ?d = "d\<lparr>d_chan := chan, d_callback := Some (Callback (Some tx))\<rparr>"
    have "c_ok ?d" using queue m by simp
    from answer_exact [OF this, of "Callback (Some tx)"
        "Inl \<lparr>tse_error = error_with new_canceled (CauseError e), tse_message = Some req\<rparr>"]
    obtain p where p: "answer E (Callback (Some tx))
        (Inl \<lparr>tse_error = error_with new_canceled (CauseError e), tse_message = Some req\<rparr>) (?d\<lparr>d_callback := None\<rparr>) =
          Return (?d\<lparr>d_callback := None, d_chan := chan\<lparr>ch_promises := p\<rparr>\<rparr>, Inr ())"
      "outcome p = (outcome (ch_promises chan))
         (tx := Some (Inl \<lparr>tse_error = error_with new_canceled (CauseError e), tse_message = Some req\<rparr>))" by auto
    have rw: "?d\<lparr>d_callback := None\<rparr> = d\<lparr>d_chan := chan\<rparr>"
      "?d\<lparr>d_callback := None, d_chan := chan\<lparr>ch_promises := p\<rparr>\<rparr> = d\<lparr>d_chan := chan\<lparr>ch_promises := p\<rparr>\<rparr>"
      using assms(2) by simp_all
    from p(1) have "client_recv_msg E (Inl e) d = Return (d\<lparr>d_chan := chan\<lparr>ch_promises := p\<rparr>\<rparr>, Inr ())"
      unfolding rw using assms(2,3) tr m(1) by (simp add: client_recv_msg_def)
    then show ?thesis using p(2) Cons ev m(2) v(2) cl(2)
      by (intro exI [of _ "chan\<lparr>ch_promises := p\<rparr>"] exI [of _ "Inr ()"]) simp
  qed
qed

lemma on_connection_error_exact:
  assumes "d_ok d" and "prompt_queue (de_chan E) contents"
    and "on_connection_error E e d = (d', r)"
  shows "case d_callback d of
       Some cb \<Rightarrow> r = Ready (Inr DispatchedShutdown) \<and> outcome (ch_promises (d_chan d')) =
         (outcome (ch_promises (d_chan d)))(the (cb_sender cb) := Some (Inl \<lparr>tse_error = e, tse_message = None\<rparr>))
     | None \<Rightarrow>
         (case if d_rx_closed d then [] else contents (ch_queue (d_chan d)) of
            [] \<Rightarrow> r = Ready (Inl e) \<and> ch_promises (d_chan d') = ch_promises (d_chan d)
          | ev # evs \<Rightarrow> r = Ready (Inr DispatchedShutdown) \<and> contents (ch_queue (d_chan d')) = evs \<and>
              (\<exists>req tx. ev = Envelope (Some (req, Callback (Some tx))) \<and>
                 outcome (ch_promises (d_chan d')) = (outcome (ch_promises (d_chan d)))
                   (tx := Some (Inl \<lparr>tse_error = error_with new_canceled (CauseError e), tse_message = Some req\<rparr>))))"
proof -
  let ?g = "guard_drop E (new_body (CauseMessage ''connection error'')) d"
  note g = guard_drop_ok [OF assms(1), of "new_body (CauseMessage ''connection error'')"]
  have rx: "d_rx_closed ?g = d_rx_closed d" by (auto simp: guard_drop_def drop_body_def split: option.splits)
  have c: "c_ok ?g" using g(1) by (simp add: disp_ok_def)
  show ?thesis
  proof (cases "d_callback d")
    case (Some cb)
    with g(3) answer_exact [OF c, of cb "Inl \<lparr>tse_error = e, tse_message = None\<rparr>"] assms(3) g(4) show ?thesis
      by (auto simp: on_connection_error_def Let_def client_recv_msg_def)
  next
    case None
    show ?thesis
    proof (cases "d_rx_closed d")
      case True
      with None assms(3) g(3,4) rx show ?thesis by (auto simp: on_connection_error_def Let_def client_recv_msg_def)
    next
      case False
      have "d_callback ?g = None" "\<not> d_rx_closed ?g" using None False g(3) rx by simp_all
      from queued_error_exact [OF c this assms(2), of e, unfolded g(4)]
      obtain chan res where "client_recv_msg E (Inl e) ?g = Return (?g\<lparr>d_chan := chan\<rparr>, res)"
        "case contents (ch_queue (d_chan d)) of
           [] \<Rightarrow> res = Inl e \<and> ch_promises chan = ch_promises (d_chan d)
         | ev # evs \<Rightarrow> res = Inr () \<and> contents (ch_queue chan) = evs \<and>
             (\<exists>req tx. ev = Envelope (Some (req, Callback (Some tx))) \<and>
                outcome (ch_promises chan) = (outcome (ch_promises (d_chan d)))
                  (tx := Some (Inl \<lparr>tse_error = error_with new_canceled (CauseError e), tse_message = Some req\<rparr>)))"
        by (elim exE conjE)
      with None False assms(3) show ?thesis
        by (cases "contents (ch_queue (d_chan d))") (auto simp: on_connection_error_def Let_def)
    qed
  qed
qed

end

text \<open>
  C8. An error that ends the connection is reported to exactly one party. With a request in flight, its
  promise gets the error. With none in flight, the first request of the queue gets it, leaves the queue
  and comes back to its caller inside the answer. In both cases the poll itself succeeds and no other
  promise changes. Only with no request in flight and an empty queue, or a queue that was already seen
  closed, the error goes to whoever polls the connection, and no promise changes. This is for a queue
  whose \<open>recv\<close> is ready at once when it has a request, as that of tokio is within its cooperative
  budget.
\<close>

theorem connection_error_reported_once:
  assumes "finite_bodies E incoming sent ok view contents issued outcome queue tx_open slot os_open frames"
    and "disp_ok ok view contents issued outcome d"
    and "prompt_queue (de_chan E) contents"
  shows "\<exists>d' r. on_connection_error E e d = (d', r) \<and> d_callback d' = None \<and>
    disp_ok ok view contents issued outcome d' \<and>
    (case d_callback d of
       Some cb \<Rightarrow> r = Ready (Inr DispatchedShutdown) \<and> outcome (ch_promises (d_chan d')) =
         (outcome (ch_promises (d_chan d)))(the (cb_sender cb) := Some (Inl \<lparr>tse_error = e, tse_message = None\<rparr>))
     | None \<Rightarrow>
         (case if d_rx_closed d then [] else contents (ch_queue (d_chan d)) of
            [] \<Rightarrow> r = Ready (Inl e) \<and> ch_promises (d_chan d') = ch_promises (d_chan d)
          | ev # evs \<Rightarrow> r = Ready (Inr DispatchedShutdown) \<and> contents (ch_queue (d_chan d')) = evs \<and>
              (\<exists>req tx. ev = Envelope (Some (req, Callback (Some tx))) \<and>
                 outcome (ch_promises (d_chan d')) = (outcome (ch_promises (d_chan d)))
                   (tx := Some (Inl \<lparr>tse_error = error_with new_canceled (CauseError e), tse_message = Some req\<rparr>)))))"
proof -
  obtain d' r where oc: "on_connection_error E e d = (d', r)" by fastforce
  from finite_bodies.on_connection_error_ok(1,3) [OF assms(1,2) oc] finite_bodies.on_connection_error_exact [OF assms oc] oc
  show ?thesis by (intro exI conjI)
qed

text \<open>A dispatcher with no request in flight and one in the queue.\<close>

definition sim_queued_request :: sim_request where
  "sim_queued_request =
     \<lparr>rq_head = \<lparr>h_version = HTTP_11, h_subject = (GET, ''/''), h_headers = [], h_extensions = extensions_default\<rparr>,
      rq_body = []\<rparr>"

definition sim_queued ::
  "(sim_io, bytes, entries, nat, (sim_request, nat) envelope list, bool \<times> bool, sim_promises, bool, sim_chunks,
    sim_slot, bytes list) dispatcher" where
  "sim_queued = (dy_disp sim_sys)\<lparr>d_chan := \<lparr>ch_queue = [Envelope (Some (sim_queued_request, Callback (Some 0)))],
     ch_want = (False, False), ch_promises = (1, \<lambda>_. None)\<rparr>\<rparr>"

lemma sim_queued_ok: "disp_ok (\<lambda>_. True) (\<lambda>b. b) (\<lambda>q. q) (\<lambda>(n, f). {..<n}) snd sim_queued"
proof -
  have h: "handshake_conn sim_env options_builder sim_start = Return sim_new"
    by (simp add: handshake_conn_def sim_new_def options_builder_def Let_def)
  from handshake_conn_ok [OF h options_ok_builder] handshake_conn_shape [OF h options_ok_builder] show ?thesis
    by (auto simp: disp_ok_def chan_ok_def ownership_def pending_def want_ok_def sim_queued_def sim_sys_def dispatcher_new_def
        watch_channel_def full_def env_tx_def held_def sendable_env_def sendable_def sim_queued_request_def)
qed

theorem connection_error_reported_once_witness:
  "(\<exists>d' r. on_connection_error sim_disp_env new_incomplete sim_queued = (d', r) \<and> r = Ready (Inr DispatchedShutdown) \<and>
     ch_queue (d_chan d') = [] \<and> snd (ch_promises (d_chan d')) 0 =
       Some (Inl \<lparr>tse_error = error_with new_canceled (CauseError new_incomplete), tse_message = Some sim_queued_request\<rparr>)) \<and>
   (\<exists>d' r. on_connection_error sim_disp_env new_incomplete sim_busy = (d', r) \<and> r = Ready (Inr DispatchedShutdown) \<and>
     snd (ch_promises (d_chan d')) 0 = Some (Inl \<lparr>tse_error = new_incomplete, tse_message = None\<rparr>)) \<and>
   (\<exists>d' r. on_connection_error sim_disp_env new_incomplete (sim_queued\<lparr>d_rx_closed := True\<rparr>) = (d', r) \<and>
     r = Ready (Inl new_incomplete))"
proof -
  have prompt: "prompt_queue (de_chan sim_disp_env) (\<lambda>q. q)"
    by (auto simp: prompt_queue_def sim_disp_env_def sim_dispatch_def neq_Nil_conv)
  note once = connection_error_reported_once [OF sim_disp.finite_bodies_axioms _ prompt, of _ new_incomplete]
  have rx: "d_callback sim_queued = None" "\<not> d_rx_closed sim_queued"
    by (simp_all add: sim_queued_def sim_sys_def dispatcher_new_def)
  have closed_ok: "disp_ok (\<lambda>_. True) (\<lambda>b. b) (\<lambda>q. q) (\<lambda>(n, f). {..<n}) snd (sim_queued\<lparr>d_rx_closed := True\<rparr>)"
    using sim_queued_ok by (simp add: disp_ok_def chan_ok_def held_def)
  from once [OF sim_queued_ok] rx have "\<exists>d' r. on_connection_error sim_disp_env new_incomplete sim_queued = (d', r) \<and>
     r = Ready (Inr DispatchedShutdown) \<and> ch_queue (d_chan d') = [] \<and> snd (ch_promises (d_chan d')) 0 =
       Some (Inl \<lparr>tse_error = error_with new_canceled (CauseError new_incomplete), tse_message = Some sim_queued_request\<rparr>)"
    by (auto simp: sim_queued_def)
  moreover from once [OF sim_busy_ok] have
    "\<exists>d' r. on_connection_error sim_disp_env new_incomplete sim_busy = (d', r) \<and> r = Ready (Inr DispatchedShutdown) \<and>
     snd (ch_promises (d_chan d')) 0 = Some (Inl \<lparr>tse_error = new_incomplete, tse_message = None\<rparr>)"
    by (auto simp: sim_busy_def)
  moreover from once [OF closed_ok] rx have
    "\<exists>d' r. on_connection_error sim_disp_env new_incomplete (sim_queued\<lparr>d_rx_closed := True\<rparr>) = (d', r) \<and>
     r = Ready (Inl new_incomplete)" by auto
  ultimately show ?thesis by blast
qed

end
