(* ===== verification/Upgrade.thy ===== *)
theory Upgrade
  imports Http1_Types Errors
begin

text \<open>
  \<open>upgrade.rs\<close>: the connection after an HTTP upgrade. An \<open>Upgraded\<close> is the transport with the bytes
  that were read but not used in front of it (\<open>Rewind\<close>); an \<open>OnUpgrade\<close> is the future that yields
  it and a \<open>Pending\<close> the other end, which the connection fulfils.

  The transport (\<open>AsyncRead\<close>, \<open>AsyncWrite\<close>) and the one-shot channel of \<open>tokio\<close> are parameters. A
  one-shot channel is known by its number. The mutex around a receiver is poisoned when a poll
  panics while it is locked; \<open>up_poisoned\<close> records that.
\<close>

section \<open>Transports\<close>

text \<open>\<open>tokio::io::ReadBuf\<close>: what is filled in and how much room is left.\<close>

record io_read_buf =
  rb_filled :: bytes
  rb_remaining :: nat

definition put_slice :: "io_read_buf \<Rightarrow> bytes \<Rightarrow> io_read_buf rust" where
  "put_slice rb bs =
     (if length bs \<le> rb_remaining rb
      then Return (rb\<lparr>rb_filled := rb_filled rb @ bs, rb_remaining := rb_remaining rb - length bs\<rparr>)
      else Panic ''buf.len() must fit in remaining()'')"

record 'io async_io =
  io_poll_read :: "'io \<Rightarrow> io_read_buf \<Rightarrow> 'io \<times> io_read_buf \<times> (io_error + unit) poll"
  io_poll_write :: "'io \<Rightarrow> bytes \<Rightarrow> 'io \<times> (io_error + nat) poll"
  io_poll_write_vectored :: "'io \<Rightarrow> bytes list \<Rightarrow> 'io \<times> (io_error + nat) poll"
  io_poll_flush :: "'io \<Rightarrow> 'io \<times> (io_error + unit) poll"
  io_poll_shutdown :: "'io \<Rightarrow> 'io \<times> (io_error + unit) poll"
  io_is_write_vectored :: "'io \<Rightarrow> bool"

text \<open>
  The contract of a byte stream: \<open>incoming\<close> is what it will still deliver and \<open>sent\<close> what it has
  accepted. A read that succeeds without a byte although there is room marks the end.
\<close>

locale async_stream =
  fixes S :: "'io async_io" and incoming :: "'io \<Rightarrow> bytes" and sent :: "'io \<Rightarrow> bytes"
  assumes read_ok: "io_poll_read S io rb = (io', rb', Ready (Inr u)) \<Longrightarrow>
      \<exists>bs. rb_filled rb' = rb_filled rb @ bs \<and> rb_remaining rb = length bs + rb_remaining rb' \<and>
        incoming io = bs @ incoming io' \<and> (bs = [] \<and> 0 < rb_remaining rb \<longrightarrow> incoming io = []) \<and>
        sent io' = sent io"
    and read_not: "io_poll_read S io rb = (io', rb', r) \<Longrightarrow> (\<And>u. r \<noteq> Ready (Inr u)) \<Longrightarrow>
      rb' = rb \<and> incoming io' = incoming io \<and> sent io' = sent io \<and> \<not> is_panicked r"
    and write_ok: "io_poll_write S io bs = (io', w) \<Longrightarrow> incoming io' = incoming io \<and> \<not> is_panicked w \<and>
      (case w of Ready (Inr n) \<Rightarrow> n \<le> length bs \<and> sent io' = sent io @ take n bs | _ \<Rightarrow> sent io' = sent io)"
    and write_vectored_ok: "io_poll_write_vectored S io bss = (io', w) \<Longrightarrow>
      incoming io' = incoming io \<and> \<not> is_panicked w \<and>
      (case w of Ready (Inr n) \<Rightarrow> n \<le> length (concat bss) \<and> sent io' = sent io @ take n (concat bss)
       | _ \<Rightarrow> sent io' = sent io)"
    and flush_ok: "io_poll_flush S io = (io', f) \<Longrightarrow>
      incoming io' = incoming io \<and> sent io' = sent io \<and> \<not> is_panicked f"
    and shutdown_ok: "io_poll_shutdown S io = (io', f) \<Longrightarrow>
      incoming io' = incoming io \<and> sent io' = sent io \<and> \<not> is_panicked f"

section \<open>Rewind\<close>

record 'io rewind =
  pre :: "bytes option"
  rw_inner :: 'io

definition new_buffered :: "'io \<Rightarrow> bytes \<Rightarrow> 'io rewind" where
  "new_buffered io b = \<lparr>pre = Some b, rw_inner = io\<rparr>"

definition inner_read ::
  "'io async_io \<Rightarrow> 'io rewind \<Rightarrow> io_read_buf \<Rightarrow> 'io rewind \<times> io_read_buf \<times> (io_error + unit) poll" where
  "inner_read S w rb = (case io_poll_read S (rw_inner w) rb of (io, rb, r) \<Rightarrow> (w\<lparr>rw_inner := io\<rparr>, rb, r))"

definition rewind_poll_read ::
  "'io async_io \<Rightarrow> 'io rewind \<Rightarrow> io_read_buf \<Rightarrow> 'io rewind \<times> io_read_buf \<times> (io_error + unit) poll" where
  "rewind_poll_read S w rb =
     (let taken = w\<lparr>pre := None\<rparr> in
      case pre w of
        None \<Rightarrow> inner_read S taken rb
      | Some prefix \<Rightarrow>
          if prefix = [] then inner_read S taken rb
          else
            let copy_len = min (length prefix) (rb_remaining rb) in
            case put_slice rb (take copy_len prefix) of
              Panic m \<Rightarrow> (taken, rb, Panicked m)
            | Return rb \<Rightarrow>
                let prefix = drop copy_len prefix in
                (if prefix = [] then taken else taken\<lparr>pre := Some prefix\<rparr>, rb, Ready (Inr ())))"

definition rewind_poll_write :: "'io async_io \<Rightarrow> 'io rewind \<Rightarrow> bytes \<Rightarrow> 'io rewind \<times> (io_error + nat) poll" where
  "rewind_poll_write S w bs = (case io_poll_write S (rw_inner w) bs of (io, r) \<Rightarrow> (w\<lparr>rw_inner := io\<rparr>, r))"

definition rewind_poll_write_vectored ::
  "'io async_io \<Rightarrow> 'io rewind \<Rightarrow> bytes list \<Rightarrow> 'io rewind \<times> (io_error + nat) poll" where
  "rewind_poll_write_vectored S w bss =
     (case io_poll_write_vectored S (rw_inner w) bss of (io, r) \<Rightarrow> (w\<lparr>rw_inner := io\<rparr>, r))"

definition rewind_poll_flush :: "'io async_io \<Rightarrow> 'io rewind \<Rightarrow> 'io rewind \<times> (io_error + unit) poll" where
  "rewind_poll_flush S w = (case io_poll_flush S (rw_inner w) of (io, r) \<Rightarrow> (w\<lparr>rw_inner := io\<rparr>, r))"

definition rewind_poll_shutdown :: "'io async_io \<Rightarrow> 'io rewind \<Rightarrow> 'io rewind \<times> (io_error + unit) poll" where
  "rewind_poll_shutdown S w = (case io_poll_shutdown S (rw_inner w) of (io, r) \<Rightarrow> (w\<lparr>rw_inner := io\<rparr>, r))"

definition rewind_is_write_vectored :: "'io async_io \<Rightarrow> 'io rewind \<Rightarrow> bool" where
  "rewind_is_write_vectored S w = io_is_write_vectored S (rw_inner w)"

text \<open>A \<open>Rewind\<close> is a transport again.\<close>

definition rewind_io :: "'io async_io \<Rightarrow> 'io rewind async_io" where
  "rewind_io S =
     \<lparr>io_poll_read = rewind_poll_read S, io_poll_write = rewind_poll_write S,
      io_poll_write_vectored = rewind_poll_write_vectored S, io_poll_flush = rewind_poll_flush S,
      io_poll_shutdown = rewind_poll_shutdown S, io_is_write_vectored = rewind_is_write_vectored S\<rparr>"

section \<open>Upgraded\<close>

datatype 'io upgraded = Upgraded (up_io: "'io rewind")

definition upgraded_new :: "'io \<Rightarrow> bytes \<Rightarrow> 'io upgraded" where
  "upgraded_new io read_buf = Upgraded (new_buffered io read_buf)"

definition on_io :: "('io rewind \<Rightarrow> 'io rewind \<times> 'x) \<Rightarrow> 'io upgraded \<Rightarrow> 'io upgraded \<times> 'x" where
  "on_io f u = (case f (up_io u) of (w, x) \<Rightarrow> (Upgraded w, x))"

text \<open>Every method of \<open>Upgraded\<close> is the one of its \<open>Rewind\<close>.\<close>

definition upgraded_io :: "'io async_io \<Rightarrow> 'io upgraded async_io" where
  "upgraded_io S =
     \<lparr>io_poll_read = (\<lambda>u rb. on_io (\<lambda>w. io_poll_read (rewind_io S) w rb) u),
      io_poll_write = (\<lambda>u bs. on_io (\<lambda>w. io_poll_write (rewind_io S) w bs) u),
      io_poll_write_vectored = (\<lambda>u bss. on_io (\<lambda>w. io_poll_write_vectored (rewind_io S) w bss) u),
      io_poll_flush = on_io (io_poll_flush (rewind_io S)),
      io_poll_shutdown = on_io (io_poll_shutdown (rewind_io S)),
      io_is_write_vectored = (\<lambda>u. io_is_write_vectored (rewind_io S) (up_io u))\<rparr>"

section \<open>OnUpgrade and Pending\<close>

record ('up, 'c) upgrade_api =
  uc_new :: "'c \<Rightarrow> nat \<times> 'c"
  uc_send :: "'c \<Rightarrow> nat \<Rightarrow> error + 'up \<Rightarrow> bool \<times> 'c"
  uc_drop_tx :: "'c \<Rightarrow> nat \<Rightarrow> 'c"
  uc_poll :: "'c \<Rightarrow> nat \<Rightarrow> (error + 'up) option poll \<times> 'c"

record 'c upgrades =
  up_chans :: 'c
  up_poisoned :: "nat set"

datatype upgrade_pending = Pending_tx (pending_tx: nat)
datatype on_upgrade_fut = OnUpgradeFut (ou_rx: "nat option")

definition upgrade_pending ::
  "('up, 'c) upgrade_api \<Rightarrow> 'c upgrades \<Rightarrow> upgrade_pending \<times> on_upgrade_fut \<times> 'c upgrades" where
  "upgrade_pending A s = (case uc_new A (up_chans s) of (n, c) \<Rightarrow>
     (Pending_tx n, OnUpgradeFut (Some n), s\<lparr>up_chans := c\<rparr>))"

definition on_upgrade_none :: on_upgrade_fut where
  "on_upgrade_none = OnUpgradeFut None"

definition on_upgrade_is_none :: "on_upgrade_fut \<Rightarrow> bool" where
  "on_upgrade_is_none f = Option.is_none (ou_rx f)"

definition UPGRADE_EXPECTED :: error where
  "UPGRADE_EXPECTED = error_with new_canceled CauseUpgradeExpected"

definition on_upgrade_poll ::
  "('up, 'c) upgrade_api \<Rightarrow> on_upgrade_fut \<Rightarrow> 'c upgrades \<Rightarrow> (error + 'up) poll \<times> 'c upgrades" where
  "on_upgrade_poll A f s =
     (case ou_rx f of
        None \<Rightarrow> (Ready (Inl new_user_no_upgrade), s)
      | Some n \<Rightarrow>
          if n \<in> up_poisoned s then (Panicked ''lock poisoned by panic'', s)
          else case uc_poll A (up_chans s) n of (r, c) \<Rightarrow>
            let s = s\<lparr>up_chans := c\<rparr> in
            (case r of
               Ready (Some (Inr up)) \<Rightarrow> (Ready (Inr up), s)
             | Ready (Some (Inl e)) \<Rightarrow> (Ready (Inl e), s)
             | Ready None \<Rightarrow> (Ready (Inl UPGRADE_EXPECTED), s)
             | Pending \<Rightarrow> (Pending, s)
             | Panicked m \<Rightarrow> (Panicked m, s\<lparr>up_poisoned := insert n (up_poisoned s)\<rparr>)))"

definition fulfill :: "('up, 'c) upgrade_api \<Rightarrow> upgrade_pending \<Rightarrow> 'up \<Rightarrow> 'c upgrades \<Rightarrow> 'c upgrades" where
  "fulfill A p up s = s\<lparr>up_chans := snd (uc_send A (up_chans s) (pending_tx p) (Inr up))\<rparr>"

definition manual :: "('up, 'c) upgrade_api \<Rightarrow> upgrade_pending \<Rightarrow> 'c upgrades \<Rightarrow> 'c upgrades" where
  "manual A p s = s\<lparr>up_chans := snd (uc_send A (up_chans s) (pending_tx p) (Inl new_user_manual_upgrade))\<rparr>"

text \<open>Dropping a \<open>Pending\<close> drops its sender.\<close>

definition pending_drop :: "('up, 'c) upgrade_api \<Rightarrow> upgrade_pending \<Rightarrow> 'c upgrades \<Rightarrow> 'c upgrades" where
  "pending_drop A p s = s\<lparr>up_chans := uc_drop_tx A (up_chans s) (pending_tx p)\<rparr>"

text \<open>
  \<open>CanUpgrade::on_upgrade\<close>: take the future out of the extensions of a message, of which only this
  entry is a parameter here; a second call finds none.
\<close>

definition upgrade_on :: "on_upgrade_fut option \<Rightarrow> on_upgrade_fut \<times> on_upgrade_fut option" where
  "upgrade_on ext = (case ext of None \<Rightarrow> on_upgrade_none | Some f \<Rightarrow> f, None)"

section \<open>Rewinding keeps the contract of the transport\<close>

definition rewind_incoming :: "('io \<Rightarrow> bytes) \<Rightarrow> 'io rewind \<Rightarrow> bytes" where
  "rewind_incoming incoming w = (case pre w of None \<Rightarrow> [] | Some p \<Rightarrow> p) @ incoming (rw_inner w)"

context async_stream
begin

lemma inner_read_ok:
  assumes "inner_read S w rb = (w', rb', r)"
  shows "pre w' = pre w" "r = Ready (Inr u) \<Longrightarrow>
      \<exists>bs. rb_filled rb' = rb_filled rb @ bs \<and> rb_remaining rb = length bs + rb_remaining rb' \<and>
        incoming (rw_inner w) = bs @ incoming (rw_inner w') \<and>
        (bs = [] \<and> 0 < rb_remaining rb \<longrightarrow> incoming (rw_inner w) = []) \<and> sent (rw_inner w') = sent (rw_inner w)"
    "(\<And>u. r \<noteq> Ready (Inr u)) \<Longrightarrow> rb' = rb \<and> incoming (rw_inner w') = incoming (rw_inner w) \<and>
       sent (rw_inner w') = sent (rw_inner w) \<and> \<not> is_panicked r"
proof -
  obtain io rb1 r1 where p: "io_poll_read S (rw_inner w) rb = (io, rb1, r1)" by (rule prod_cases3)
  with assms have eq: "w' = w\<lparr>rw_inner := io\<rparr>" "rb' = rb1" "r = r1" by (auto simp: inner_read_def)
  show "pre w' = pre w" by (simp add: eq)
  show "r = Ready (Inr u) \<Longrightarrow>
      \<exists>bs. rb_filled rb' = rb_filled rb @ bs \<and> rb_remaining rb = length bs + rb_remaining rb' \<and>
        incoming (rw_inner w) = bs @ incoming (rw_inner w') \<and>
        (bs = [] \<and> 0 < rb_remaining rb \<longrightarrow> incoming (rw_inner w) = []) \<and> sent (rw_inner w') = sent (rw_inner w)"
    using read_ok p eq by simp
  show "(\<And>u. r \<noteq> Ready (Inr u)) \<Longrightarrow> rb' = rb \<and> incoming (rw_inner w') = incoming (rw_inner w) \<and>
       sent (rw_inner w') = sent (rw_inner w) \<and> \<not> is_panicked r"
    using read_not [OF p] eq by simp
qed

text \<open>A read either serves the prefix or, when there is none, goes to the transport.\<close>

lemma rewind_poll_read_cases:
  obtains (prefix) p n where "pre w = Some p" "p \<noteq> []" "n = min (length p) (rb_remaining rb)"
      "rewind_poll_read S w rb = (w\<lparr>pre := if drop n p = [] then None else Some (drop n p)\<rparr>,
         rb\<lparr>rb_filled := rb_filled rb @ take n p, rb_remaining := rb_remaining rb - n\<rparr>, Ready (Inr ()))"
  | (direct) "pre w \<in> {None, Some []}" "rewind_poll_read S w rb = inner_read S (w\<lparr>pre := None\<rparr>) rb"
  by (cases "pre w") (auto simp: rewind_poll_read_def Let_def put_slice_def)

lemma rewind_stream: "async_stream (rewind_io S) (rewind_incoming incoming) (\<lambda>w. sent (rw_inner w))"
proof
  fix w w' :: "'io rewind" and rb rb' and r :: "(io_error + unit) poll" and u
  show "\<exists>bs. rb_filled rb' = rb_filled rb @ bs \<and> rb_remaining rb = length bs + rb_remaining rb' \<and>
        rewind_incoming incoming w = bs @ rewind_incoming incoming w' \<and>
        (bs = [] \<and> 0 < rb_remaining rb \<longrightarrow> rewind_incoming incoming w = []) \<and> sent (rw_inner w') = sent (rw_inner w)"
    if a: "io_poll_read (rewind_io S) w rb = (w', rb', Ready (Inr u))"
  proof (cases rule: rewind_poll_read_cases [of w rb])
    case (prefix p n)
    with a show ?thesis
      by (intro exI [of _ "take n p"]) (auto simp: rewind_io_def rewind_incoming_def min_def)
  next
    case direct
    with a have i: "inner_read S (w\<lparr>pre := None\<rparr>) rb = (w', rb', Ready (Inr u))" by (simp add: rewind_io_def)
    note i1 = inner_read_ok(1) [OF i] inner_read_ok(2) [OF i, of u]
    from direct(1) have "rewind_incoming incoming w = incoming (rw_inner w)" by (auto simp: rewind_incoming_def)
    with i1 show ?thesis by (simp add: rewind_incoming_def)
  qed
  show "rb' = rb \<and> rewind_incoming incoming w' = rewind_incoming incoming w \<and>
      sent (rw_inner w') = sent (rw_inner w) \<and> \<not> is_panicked r"
    if a: "io_poll_read (rewind_io S) w rb = (w', rb', r)" and n: "\<And>u. r \<noteq> Ready (Inr u)"
  proof (cases rule: rewind_poll_read_cases [of w rb])
    case prefix
    with a n show ?thesis by (simp add: rewind_io_def)
  next
    case direct
    with a have i: "inner_read S (w\<lparr>pre := None\<rparr>) rb = (w', rb', r)" by (simp add: rewind_io_def)
    from direct(1) have "rewind_incoming incoming w = incoming (rw_inner w)" by (auto simp: rewind_incoming_def)
    with inner_read_ok(1,3) [OF i] n show ?thesis by (simp add: rewind_incoming_def)
  qed
qed (auto simp: rewind_io_def rewind_poll_write_def rewind_poll_write_vectored_def rewind_poll_flush_def
    rewind_poll_shutdown_def rewind_incoming_def dest!: write_ok write_vectored_ok flush_ok shutdown_ok
    split: prod.splits poll.splits sum.splits)

end

lemma on_io_eq: "on_io f u = (u', x) \<longleftrightarrow> f (up_io u) = (up_io u', x)"
  by (cases u') (auto simp: on_io_def split: prod.splits)

lemma upgraded_stream:
  assumes "async_stream (rewind_io S) inc snt"
  shows "async_stream (upgraded_io S) (\<lambda>u. inc (up_io u)) (\<lambda>u. snt (up_io u))"
  by unfold_locales
    (simp_all add: upgraded_io_def on_io_eq async_stream.read_ok [OF assms] async_stream.read_not [OF assms]
      async_stream.write_ok [OF assms] async_stream.write_vectored_ok [OF assms]
      async_stream.flush_ok [OF assms] async_stream.shutdown_ok [OF assms])

section \<open>The one-shot channel\<close>

datatype 'v slot_state = Unused | Waiting | Filled 'v | Abandoned | Taken

text \<open>The contract: a channel carries one value, and polling it again after it was received panics.\<close>

locale upgrade_channel =
  fixes A :: "('up, 'c) upgrade_api" and slots :: "'c \<Rightarrow> nat \<Rightarrow> (error + 'up) slot_state"
  assumes uc_new: "uc_new A c = (n, c') \<Longrightarrow> slots c n = Unused \<and> slots c' = (slots c)(n := Waiting)"
    and uc_send: "slots c n = Waiting \<Longrightarrow> slots (snd (uc_send A c n v)) = (slots c)(n := Filled v)"
    and uc_drop_tx: "slots c n = Waiting \<Longrightarrow> slots (uc_drop_tx A c n) = (slots c)(n := Abandoned)"
    and uc_poll: "uc_poll A c n = (r, c') \<Longrightarrow>
      (case slots c n of
         Waiting \<Rightarrow> r = Pending \<and> slots c' = slots c
       | Filled v \<Rightarrow> r = Ready (Some v) \<and> slots c' = (slots c)(n := Taken)
       | Abandoned \<Rightarrow> r = Ready None \<and> slots c' = (slots c)(n := Taken)
       | _ \<Rightarrow> is_panicked r \<and> slots c' = slots c)"

text \<open>What the connection does with a pending upgrade, and what the future yields then.\<close>

datatype 'up upgrade_event = Fulfilled 'up | HandledManually | ConnectionGone

fun settle :: "('up, 'c) upgrade_api \<Rightarrow> upgrade_pending \<Rightarrow> 'up upgrade_event \<Rightarrow> 'c upgrades \<Rightarrow> 'c upgrades" where
  "settle A p (Fulfilled up) s = fulfill A p up s"
| "settle A p HandledManually s = manual A p s"
| "settle A p ConnectionGone s = pending_drop A p s"

fun upgrade_result :: "'up upgrade_event \<Rightarrow> error + 'up" where
  "upgrade_result (Fulfilled up) = Inr up"
| "upgrade_result HandledManually = Inl new_user_manual_upgrade"
| "upgrade_result ConnectionGone = Inl UPGRADE_EXPECTED"

context upgrade_channel
begin

lemma on_upgrade_poll_slot:
  assumes "n \<notin> up_poisoned s" "on_upgrade_poll A (OnUpgradeFut (Some n)) s = (r, s')"
  shows "slots (up_chans s) n = Waiting \<Longrightarrow> r = Pending \<and> slots (up_chans s') = slots (up_chans s)"
    "slots (up_chans s) n = Filled v \<Longrightarrow> r = Ready v"
    "slots (up_chans s) n = Abandoned \<Longrightarrow> r = Ready (Inl UPGRADE_EXPECTED)"
    "\<not> is_panicked r \<Longrightarrow> up_poisoned s' = up_poisoned s"
proof -
  obtain x c where x: "uc_poll A (up_chans s) n = (x, c)" by fastforce
  note p = uc_poll [OF x]
  show "slots (up_chans s) n = Waiting \<Longrightarrow> r = Pending \<and> slots (up_chans s') = slots (up_chans s)"
    "slots (up_chans s) n = Abandoned \<Longrightarrow> r = Ready (Inl UPGRADE_EXPECTED)"
    "slots (up_chans s) n = Filled v \<Longrightarrow> r = Ready v"
    using assms p x by (auto simp: on_upgrade_poll_def Let_def split: sum.splits)
  show "\<not> is_panicked r \<Longrightarrow> up_poisoned s' = up_poisoned s"
    using assms x by (auto simp: on_upgrade_poll_def Let_def split: sum.splits poll.splits option.splits)
qed

lemma settle_slot:
  assumes "slots (up_chans s) (pending_tx p) = Waiting"
  shows "slots (up_chans (settle A p ev s)) = (slots (up_chans s))(pending_tx p :=
      (case ev of ConnectionGone \<Rightarrow> Abandoned | _ \<Rightarrow> Filled (upgrade_result ev)))"
    and "up_poisoned (settle A p ev s) = up_poisoned s"
  using assms uc_send uc_drop_tx
  by (cases ev; simp add: fulfill_def manual_def pending_drop_def)+

end

section \<open>Simulations\<close>

text \<open>
  A transport that serves a list of reads (\<open>None\<close> is one that is not ready), each as far as there
  is room, and takes at most \<open>wire_limit\<close> bytes per write.
\<close>

record wire =
  wire_reads :: "bytes option list"
  wire_sent :: bytes
  wire_limit :: nat

fun wire_incoming :: "bytes option list \<Rightarrow> bytes" where
  "wire_incoming [] = []"
| "wire_incoming (None # rs) = wire_incoming rs"
| "wire_incoming (Some bs # rs) = bs @ wire_incoming rs"

fun wire_serve :: "bytes option list \<Rightarrow> nat \<Rightarrow> bytes option list \<times> bytes poll" where
  "wire_serve [] k = ([], Ready [])"
| "wire_serve (None # rs) k = (rs, Pending)"
| "wire_serve (Some [] # rs) k = wire_serve rs k"
| "wire_serve (Some bs # rs) k = (Some (drop k bs) # rs, Ready (take k bs))"

definition wire_write :: "wire \<Rightarrow> bytes \<Rightarrow> wire \<times> (io_error + nat) poll" where
  "wire_write io bs =
     (let n = min (wire_limit io) (length bs) in
      (io\<lparr>wire_sent := wire_sent io @ take n bs\<rparr>, Ready (Inr n)))"

definition sim_wire :: "wire async_io" where
  "sim_wire =
     \<lparr>io_poll_read = (\<lambda>io rb.
        case wire_serve (wire_reads io) (rb_remaining rb) of
          (rs, Ready bs) \<Rightarrow> (io\<lparr>wire_reads := rs\<rparr>,
            rb\<lparr>rb_filled := rb_filled rb @ bs, rb_remaining := rb_remaining rb - length bs\<rparr>, Ready (Inr ()))
        | (rs, _) \<Rightarrow> (io\<lparr>wire_reads := rs\<rparr>, rb, Pending)),
      io_poll_write = wire_write, io_poll_write_vectored = (\<lambda>io bss. wire_write io (concat bss)),
      io_poll_flush = (\<lambda>io. (io, Ready (Inr ()))), io_poll_shutdown = (\<lambda>io. (io, Ready (Inr ()))),
      io_is_write_vectored = (\<lambda>_. True)\<rparr>"

lemma wire_serve_ok:
  assumes "wire_serve rs k = (rs', r)"
  shows "r = Ready bs \<Longrightarrow> wire_incoming rs = bs @ wire_incoming rs' \<and> length bs \<le> k \<and>
      (bs = [] \<and> 0 < k \<longrightarrow> wire_incoming rs = [])"
    and "(\<And>bs. r \<noteq> Ready bs) \<Longrightarrow> wire_incoming rs' = wire_incoming rs"
proof -
  have "case r of Ready bs \<Rightarrow> wire_incoming rs = bs @ wire_incoming rs' \<and> length bs \<le> k \<and>
      (bs = [] \<and> 0 < k \<longrightarrow> wire_incoming rs = []) | _ \<Rightarrow> wire_incoming rs' = wire_incoming rs"
    using assms by (induction rs k rule: wire_serve.induct) (auto split: poll.splits)
  then show "r = Ready bs \<Longrightarrow> wire_incoming rs = bs @ wire_incoming rs' \<and> length bs \<le> k \<and>
      (bs = [] \<and> 0 < k \<longrightarrow> wire_incoming rs = [])"
    "(\<And>bs. r \<noteq> Ready bs) \<Longrightarrow> wire_incoming rs' = wire_incoming rs"
    by (auto split: poll.splits)
qed

interpretation sim_wire: async_stream sim_wire "\<lambda>io. wire_incoming (wire_reads io)" wire_sent
proof
  fix io io' :: wire and rb rb' :: io_read_buf and r :: "(io_error + unit) poll" and u
  obtain rs x where s: "wire_serve (wire_reads io) (rb_remaining rb) = (rs, x)" by fastforce
  show "\<exists>bs. rb_filled rb' = rb_filled rb @ bs \<and> rb_remaining rb = length bs + rb_remaining rb' \<and>
      wire_incoming (wire_reads io) = bs @ wire_incoming (wire_reads io') \<and>
      (bs = [] \<and> 0 < rb_remaining rb \<longrightarrow> wire_incoming (wire_reads io) = []) \<and> wire_sent io' = wire_sent io"
    if "io_poll_read sim_wire io rb = (io', rb', Ready (Inr u))"
    using that wire_serve_ok(1) [OF s] s by (cases x) (auto simp: sim_wire_def)
  show "rb' = rb \<and> wire_incoming (wire_reads io') = wire_incoming (wire_reads io) \<and>
      wire_sent io' = wire_sent io \<and> \<not> is_panicked r"
    if "io_poll_read sim_wire io rb = (io', rb', r)" "\<And>u. r \<noteq> Ready (Inr u)"
    using that wire_serve_ok(2) [OF s] s by (cases x) (auto simp: sim_wire_def)
qed (auto simp: sim_wire_def wire_write_def Let_def)

text \<open>An \<open>Upgraded\<close> over it keeps the contract: the interpretation on the model's own methods.\<close>

interpretation sim_upgraded: async_stream "upgraded_io sim_wire"
  "\<lambda>u. rewind_incoming (\<lambda>io. wire_incoming (wire_reads io)) (up_io u)" "\<lambda>u. wire_sent (rw_inner (up_io u))"
  by (rule upgraded_stream [OF sim_wire.rewind_stream])

text \<open>Channels: the next free number and a table.\<close>

definition sim_upgrades :: "('up, nat \<times> (nat \<Rightarrow> (error + 'up) slot_state)) upgrade_api" where
  "sim_upgrades =
     \<lparr>uc_new = (\<lambda>(n, f). (n, Suc n, f(n := Waiting))),
      uc_send = (\<lambda>(n, f) i v. (True, n, f(i := Filled v))),
      uc_drop_tx = (\<lambda>(n, f) i. (n, f(i := Abandoned))),
      uc_poll = (\<lambda>(n, f) i. if n \<le> i then (Panicked ''called after complete'', n, f) else
        (case f i of Waiting \<Rightarrow> (Pending, n, f)
         | Filled v \<Rightarrow> (Ready (Some v), n, f(i := Taken))
         | Abandoned \<Rightarrow> (Ready None, n, f(i := Taken))
         | _ \<Rightarrow> (Panicked ''called after complete'', n, f)))\<rparr>"

definition sim_slots :: "nat \<times> (nat \<Rightarrow> (error + 'up) slot_state) \<Rightarrow> nat \<Rightarrow> (error + 'up) slot_state" where
  "sim_slots c i = (if fst c \<le> i then Unused else snd c i)"

interpretation sim_uc: upgrade_channel sim_upgrades sim_slots
  by unfold_locales
    (auto simp: sim_upgrades_def sim_slots_def fun_eq_iff split: if_splits slot_state.splits prod.splits)

section \<open>Properties\<close>

text \<open>
  C24. An upgraded connection is a byte stream that starts where HTTP stopped: what it delivers is the
  bytes that were already read, followed by everything the transport delivers, in order, each once,
  never more than there is room for, and the end of the stream is not announced before all of it was
  delivered; what is written goes to the transport unchanged, and no operation panics.
\<close>

theorem upgraded_is_stream:
  assumes "async_stream S incoming sent"
  shows "async_stream (upgraded_io S) (\<lambda>u. rewind_incoming incoming (up_io u)) (\<lambda>u. sent (rw_inner (up_io u))) \<and>
    rewind_incoming incoming (up_io (upgraded_new io read_buf)) = read_buf @ incoming io"
  using upgraded_stream [OF async_stream.rewind_stream [OF assms]]
  by (simp add: upgraded_new_def new_buffered_def rewind_incoming_def)

theorem upgraded_is_stream_witness:
  "rewind_incoming (\<lambda>io. wire_incoming (wire_reads io)) (up_io (upgraded_new
     \<lparr>wire_reads = [None, Some ''lo''], wire_sent = [], wire_limit = 4\<rparr> ''hel'')) = ''hello''"
  using upgraded_is_stream [OF sim_wire.async_stream_axioms,
      of "\<lparr>wire_reads = [None, Some ''lo''], wire_sent = [], wire_limit = 4\<rparr>" "''hel''"]
  by simp

text \<open>
  The future of a pending upgrade waits until the connection settles the upgrade and then yields
  what it decided: the upgraded connection, the error that upgrades are handled manually, or, if the
  connection went away, a cancellation that says so. Without an upgrade it fails at once.
\<close>

theorem upgrade_future_resolves:
  assumes "upgrade_channel A slots" and "upgrade_pending A s = (p, f, s1)" and "pending_tx p \<notin> up_poisoned s"
  shows "fst (on_upgrade_poll A f s1) = Pending \<and>
    fst (on_upgrade_poll A f (settle A p ev (snd (on_upgrade_poll A f s1)))) = Ready (upgrade_result ev) \<and>
    fst (on_upgrade_poll A on_upgrade_none s) = Ready (Inl new_user_no_upgrade)"
proof -
  obtain n c where n: "uc_new A (up_chans s) = (n, c)" by fastforce
  with assms(2) have p: "p = Pending_tx n" "f = OnUpgradeFut (Some n)" "s1 = s\<lparr>up_chans := c\<rparr>"
    by (auto simp: upgrade_pending_def)
  obtain r2 s2 where s2: "on_upgrade_poll A f s1 = (r2, s2)" by fastforce
  have w1: "slots (up_chans s1) n = Waiting" "n \<notin> up_poisoned s1"
    using upgrade_channel.uc_new [OF assms(1) n] assms(3) p by simp_all
  note poll1 = upgrade_channel.on_upgrade_poll_slot [OF assms(1) w1(2) s2 [unfolded p(2)]]
  from poll1(1) [OF w1(1)] have r2: "r2 = Pending" "slots (up_chans s2) n = Waiting" by (simp_all add: w1)
  have "up_poisoned s2 = up_poisoned s1" using poll1(4) r2(1) by simp
  with w1(2) have n2: "n \<notin> up_poisoned s2" by simp
  let ?s3 = "settle A p ev s2"
  have st: "slots (up_chans ?s3) n = (case ev of ConnectionGone \<Rightarrow> Abandoned | _ \<Rightarrow> Filled (upgrade_result ev))"
    "n \<notin> up_poisoned ?s3"
    using upgrade_channel.settle_slot [OF assms(1), of s2 p] r2 n2 p by simp_all
  obtain r4 s4 where s4: "on_upgrade_poll A f ?s3 = (r4, s4)" by fastforce
  note poll2 = upgrade_channel.on_upgrade_poll_slot [OF assms(1) st(2) s4 [unfolded p(2)]]
  have "r4 = Ready (upgrade_result ev)"
    using poll2(2,3) st(1) by (cases ev) simp_all
  with s2 s4 r2 show ?thesis by (simp add: on_upgrade_poll_def on_upgrade_none_def)
qed

definition sim_chans :: "(nat \<times> (nat \<Rightarrow> (error + nat) slot_state)) upgrades" where
  "sim_chans = \<lparr>up_chans = (0, \<lambda>_. Unused), up_poisoned = {}\<rparr>"

theorem upgrade_future_resolves_witness:
  "\<exists>p f s1. upgrade_pending sim_upgrades sim_chans = (p, f, s1) \<and>
     fst (on_upgrade_poll sim_upgrades f (settle sim_upgrades p (Fulfilled 7) (snd (on_upgrade_poll sim_upgrades f s1)))) =
       Ready (Inr 7)"
proof -
  obtain p f s1 where p: "upgrade_pending sim_upgrades sim_chans = (p, f, s1)" by (rule prod_cases3)
  have "pending_tx p \<notin> up_poisoned sim_chans" by (simp add: sim_chans_def)
  from upgrade_future_resolves [OF sim_uc.upgrade_channel_axioms p this, of "Fulfilled 7"] p show ?thesis by auto
qed

end
