(* ===== verification/Http1_Client.thy ===== *)
theory Http1_Client
  imports Dispatcher_Props Upgrade
begin

text \<open>
  \<open>conn/http1.rs\<close>: the handles a user of an HTTP/1 connection holds, the \<open>SendRequest\<close> and the
  \<open>Connection\<close>, and the connection that hands its transport over after an upgrade
  (\<open>UpgradeableConnection\<close>).

  The state that the two handles share is the request channel of the dispatcher, so the operations
  of a \<open>SendRequest\<close> act on that. The receiving end of a promise is the parameter \<open>recv\<close>: \<open>None\<close>
  is the error that its sender is gone. A handle that is an \<open>Option\<close> in the source, because its
  content is taken out when it is done, is a flag beside the dispatcher, whose channels live on.
\<close>

section \<open>SendRequest\<close>

definition send_request_poll_ready ::
  "('t, 'u, 'tx, 'q, 'g, 'p) dispatch_api \<Rightarrow> ('q, 'g, 'p) chan \<Rightarrow> (error + unit) poll \<times> ('q, 'g, 'p) chan" where
  "send_request_poll_ready D c = dispatch_poll_ready D c"

definition send_request_is_ready :: "('t, 'u, 'tx, 'q, 'g, 'p) dispatch_api \<Rightarrow> ('q, 'g, 'p) chan \<Rightarrow> bool" where
  "send_request_is_ready D c = dispatch_is_ready D c"

text \<open>The future of \<open>try_send_request\<close>: the request was sent, or it comes back.\<close>

datatype ('t, 'tx) response_future = Awaiting 'tx | NotReady 't

definition response_future_of :: "'t + 'tx \<Rightarrow> ('t, 'tx) response_future" where
  "response_future_of sent = (case sent of Inr rx \<Rightarrow> Awaiting rx | Inl req \<Rightarrow> NotReady req)"

definition try_send_request ::
  "('t, 'u, 'tx, 'q, 'g, 'p) dispatch_api \<Rightarrow> request_sender \<Rightarrow> 't \<Rightarrow> ('q, 'g, 'p) chan \<Rightarrow>
   ('t, 'tx) response_future \<times> request_sender \<times> ('q, 'g, 'p) chan" where
  "try_send_request D s req c =
     (case dispatch_try_send D s req c of (sent, s, c) \<Rightarrow> (response_future_of sent, s, c))"

definition NOT_READY :: error where
  "NOT_READY = error_with new_canceled (CauseMessage ''connection was not ready'')"

fun response_future_poll ::
  "('p \<Rightarrow> 'tx \<Rightarrow> ('t, 'u) reply option poll) \<Rightarrow> ('t, 'tx) response_future \<Rightarrow> 'p \<Rightarrow> ('t, 'u) reply poll" where
  "response_future_poll recv (Awaiting rx) p =
     (case recv p rx of
        Ready (Some res) \<Rightarrow> Ready res
      | Ready None \<Rightarrow> Panicked ''dispatch dropped without returning error''
      | Pending \<Rightarrow> Pending
      | Panicked m \<Rightarrow> Panicked m)"
| "response_future_poll recv (NotReady req) p =
     Ready (Inl \<lparr>tse_error = NOT_READY, tse_message = Some req\<rparr>)"

section \<open>Connection\<close>

record 'io parts =
  parts_io :: 'io
  parts_read_buf :: bytes

text \<open>
  \<open>into_inner\<close> drops the guard of the response body; \<open>into_parts\<close> then drops the client with its
  callback and its receiver, so that everybody who still waits is answered.
\<close>

definition into_parts ::
  "('io, 'b, 'h, 'tx, 'q, 'g, 'p, 'k, 'm, 'o, 'bd, 'r) disp_env \<Rightarrow>
   ('io, 'b, 'h, 'tx, 'q, 'g, 'p, 'k, 'm, 'o, 'bd) dispatcher \<Rightarrow>
   ('io parts \<times> ('io, 'b, 'h, 'tx, 'q, 'g, 'p, 'k, 'm, 'o, 'bd) dispatcher) rust" where
  "into_parts E d =
     (case dispatcher_into_inner d of (io, rest) \<Rightarrow>
        rust_bind (dispatcher_drop E False (guard_drop E new_incomplete d)) (\<lambda>d.
          Return (\<lparr>parts_io = io, parts_read_buf = rest\<rparr>, d)))"

definition connection_poll ::
  "('io, 'b, 'h, 'tx, 'q, 'g, 'p, 'k, 'm, 'o, 'bd, 'r) disp_env \<Rightarrow> ('io upgraded, 'c) upgrade_api \<Rightarrow>
   ('io, 'b, 'h, 'tx, 'q, 'g, 'p, 'k, 'm, 'o, 'bd) dispatcher \<Rightarrow> 'c upgrades \<Rightarrow>
   (('io, 'b, 'h, 'tx, 'q, 'g, 'p, 'k, 'm, 'o, 'bd) dispatcher \<times> 'c upgrades \<times> (error + unit) poll) option" where
  "connection_poll E A d ups =
     (case dispatcher_poll E d of
        None \<Rightarrow> None
      | Some (d, r) \<Rightarrow> Some
          (case r of
             Pending \<Rightarrow> (d, ups, Pending)
           | Panicked m \<Rightarrow> (d, ups, Panicked m)
           | Ready (Inl e) \<Rightarrow> (d, ups, Ready (Inl e))
           | Ready (Inr DispatchedShutdown) \<Rightarrow> (d, ups, Ready (Inr ()))
           | Ready (Inr (DispatchedUpgrade n)) \<Rightarrow> (d, manual A (Pending_tx n) ups, Ready (Inr ()))))"

definition connection_poll_without_shutdown ::
  "('io, 'b, 'h, 'tx, 'q, 'g, 'p, 'k, 'm, 'o, 'bd, 'r) disp_env \<Rightarrow> ('io upgraded, 'c) upgrade_api \<Rightarrow>
   ('io, 'b, 'h, 'tx, 'q, 'g, 'p, 'k, 'm, 'o, 'bd) dispatcher \<Rightarrow> 'c upgrades \<Rightarrow>
   (('io, 'b, 'h, 'tx, 'q, 'g, 'p, 'k, 'm, 'o, 'bd) dispatcher \<times> 'c upgrades \<times> (error + unit) poll) option" where
  "connection_poll_without_shutdown E A d ups =
     (case Dispatcher.poll_without_shutdown E d of
        None \<Rightarrow> None
      | Some (d, r) \<Rightarrow> Some
          (case r of
             Pending \<Rightarrow> (d, ups, Pending)
           | Panicked m \<Rightarrow> (d, ups, Panicked m)
           | Ready (Inl e) \<Rightarrow> (d, ups, Ready (Inl e))
           | Ready (Inr None) \<Rightarrow> (d, ups, Ready (Inr ()))
           | Ready (Inr (Some n)) \<Rightarrow> (d, manual A (Pending_tx n) ups, Ready (Inr ()))))"

text \<open>A connection that may have been taken out.\<close>

record ('io, 'b, 'h, 'tx, 'q, 'g, 'p, 'k, 'm, 'o, 'bd) held_connection =
  hc_present :: bool
  hc_disp :: "('io, 'b, 'h, 'tx, 'q, 'g, 'p, 'k, 'm, 'o, 'bd) dispatcher"

text \<open>A poll of the future of \<open>without_shutdown\<close>.\<close>

definition without_shutdown_poll ::
  "('io, 'b, 'h, 'tx, 'q, 'g, 'p, 'k, 'm, 'o, 'bd, 'r) disp_env \<Rightarrow> ('io upgraded, 'c) upgrade_api \<Rightarrow>
   ('io, 'b, 'h, 'tx, 'q, 'g, 'p, 'k, 'm, 'o, 'bd) held_connection \<Rightarrow> 'c upgrades \<Rightarrow>
   (('io, 'b, 'h, 'tx, 'q, 'g, 'p, 'k, 'm, 'o, 'bd) held_connection \<times> 'c upgrades \<times> (error + 'io parts) poll) option" where
  "without_shutdown_poll E A hc ups =
     (if \<not> hc_present hc then Some (hc, ups, Panicked ''client connection polled after completion'')
      else case connection_poll_without_shutdown E A (hc_disp hc) ups of
        None \<Rightarrow> None
      | Some (d, ups, r) \<Rightarrow> Some
          (let hc = hc\<lparr>hc_disp := d\<rparr> in
           case r of
             Pending \<Rightarrow> (hc, ups, Pending)
           | Panicked m \<Rightarrow> (hc, ups, Panicked m)
           | Ready (Inl e) \<Rightarrow> (hc, ups, Ready (Inl e))
           | Ready (Inr u) \<Rightarrow>
               (let hc = hc\<lparr>hc_present := False\<rparr> in
                case into_parts E d of
                  Panic m \<Rightarrow> (hc, ups, Panicked m)
                | Return (p, d) \<Rightarrow> (hc\<lparr>hc_disp := d\<rparr>, ups, Ready (Inr p)))))"

definition with_upgrades ::
  "('io, 'b, 'h, 'tx, 'q, 'g, 'p, 'k, 'm, 'o, 'bd) dispatcher \<Rightarrow>
   ('io, 'b, 'h, 'tx, 'q, 'g, 'p, 'k, 'm, 'o, 'bd) held_connection" where
  "with_upgrades d = \<lparr>hc_present = True, hc_disp = d\<rparr>"

definition upgradeable_poll ::
  "('io, 'b, 'h, 'tx, 'q, 'g, 'p, 'k, 'm, 'o, 'bd, 'r) disp_env \<Rightarrow> ('io upgraded, 'c) upgrade_api \<Rightarrow>
   ('io, 'b, 'h, 'tx, 'q, 'g, 'p, 'k, 'm, 'o, 'bd) held_connection \<Rightarrow> 'c upgrades \<Rightarrow>
   (('io, 'b, 'h, 'tx, 'q, 'g, 'p, 'k, 'm, 'o, 'bd) held_connection \<times> 'c upgrades \<times> (error + unit) poll) option" where
  "upgradeable_poll E A hc ups =
     (if \<not> hc_present hc then Some (hc, ups, Panicked ''called `Option::unwrap()` on a `None` value'')
      else case dispatcher_poll E (hc_disp hc) of
        None \<Rightarrow> None
      | Some (d, r) \<Rightarrow> Some
          (let hc = hc\<lparr>hc_disp := d\<rparr> in
           case r of
             Pending \<Rightarrow> (hc, ups, Pending)
           | Panicked m \<Rightarrow> (hc, ups, Panicked m)
           | Ready (Inl e) \<Rightarrow> (hc, ups, Ready (Inl e))
           | Ready (Inr DispatchedShutdown) \<Rightarrow> (hc, ups, Ready (Inr ()))
           | Ready (Inr (DispatchedUpgrade n)) \<Rightarrow>
               (let hc = hc\<lparr>hc_present := False\<rparr> in
                case into_parts E d of
                  Panic m \<Rightarrow> (hc, ups, Panicked m)
                | Return (p, d) \<Rightarrow>
                    (hc\<lparr>hc_disp := d\<rparr>, fulfill A (Pending_tx n) (upgraded_new (parts_io p) (parts_read_buf p)) ups,
                     Ready (Inr ())))))"

section \<open>Builder\<close>

datatype http1_builder = Http1Builder (builder_opts: http1_options)

definition builder_options :: "http1_builder \<Rightarrow> http1_options \<Rightarrow> http1_builder" where
  "builder_options b opts = Http1Builder opts"

text \<open>
  \<open>handshake\<close>: the request channel, the connection that the options configure, and the dispatcher
  over both. \<open>ch\<close> is the body channel before there is a body.
\<close>

definition handshake ::
  "('io, 'b, 'h, 'tx, 'q, 'g, 'p, 'k, 'm, 'o, 'bd, 'r) disp_env \<Rightarrow> http1_builder \<Rightarrow> 'io \<Rightarrow> 'p \<Rightarrow> ('k, 'm, 'o) body_chan \<Rightarrow>
   (request_sender \<times> ('io, 'b, 'h, 'tx, 'q, 'g, 'p, 'k, 'm, 'o, 'bd) dispatcher) rust" where
  "handshake E b io p ch =
     (case dispatch_channel (de_chan E) p of (tx, chan) \<Rightarrow>
        rust_bind (handshake_conn (de_conn E) (builder_opts b) io) (\<lambda>c.
          Return (tx, dispatcher_new c chan ch)))"

section \<open>Lemmas\<close>

context finite_bodies
begin

lemma into_parts_ok:
  assumes "d_ok d"
  shows "\<exists>d'. into_parts E d = Return (\<lparr>parts_io = b_io (cn_io (d_conn d)), parts_read_buf = bm_bytes (read_buf (cn_io (d_conn d)))\<rparr>, d') \<and>
    rc.keeps (ch_promises (d_chan d)) (ch_promises (d_chan d')) \<and>
    (\<forall>tx \<in> issued (ch_promises (d_chan d')). outcome (ch_promises (d_chan d')) tx \<noteq> None)"
proof -
  note g = guard_drop_ok [OF assms, of new_incomplete]
  from dispatcher_drop_ok [OF g(1), of False] obtain d' where
    "dispatcher_drop E False (guard_drop E new_incomplete d) = Return d'"
    "rc.keeps (ch_promises (d_chan d)) (ch_promises (d_chan d'))"
    "\<forall>tx \<in> issued (ch_promises (d_chan d')). outcome (ch_promises (d_chan d')) tx \<noteq> None"
    using g(4) by auto
  then show ?thesis
    by (intro exI [of _ d']) (simp add: into_parts_def dispatcher_into_inner_def conn_into_inner_def into_inner_def)
qed

lemma disp_steps_ok:
  assumes "(disp_step E)\<^sup>*\<^sup>* s s'" "disp_reachable E p c0 s" "pending (issued p) (outcome p) []"
  shows "disp_reachable E p c0 s' \<and> rc.keeps (ch_promises (d_chan (dy_disp s))) (ch_promises (d_chan (dy_disp s')))"
  using assms(1)
proof (induction rule: rtranclp_induct)
  case base
  show ?case using assms(2) by simp
next
  case (step s1 s2)
  then have r: "disp_reachable E p c0 s1" and k: "rc.keeps (ch_promises (d_chan (dy_disp s))) (ch_promises (d_chan (dy_disp s1)))"
    by simp_all
  from disp_reachable_ok [OF r assms(3)] have "d_ok (dy_disp s1)" "\<not> dy_over s1 \<longrightarrow> fed (dy_disp s1)" by simp_all
  with disp_step_ok [OF step(2)] have "rc.keeps (ch_promises (d_chan (dy_disp s1))) (ch_promises (d_chan (dy_disp s2)))"
    by (simp add: permitted_def)
  with r step(2) keeps_outcomes_trans [OF k] show ?case by (simp add: disp_reachable.step)
qed

end

text \<open>A request that was taken is in the queue with a promise that is not resolved yet; one that was not comes back.\<close>

lemma try_send_cases:
  assumes "request_channel D contents issued outcome" "dispatch_try_send D s val c = (r, s', c')"
  shows "case r of
      Inl v \<Rightarrow> v = val \<and> contents (ch_queue c') = contents (ch_queue c)
    | Inr tx \<Rightarrow> tx \<in> issued (ch_promises c') \<and> outcome (ch_promises c') tx = None \<and>
        contents (ch_queue c') = contents (ch_queue c) @ [Envelope (Some (val, Callback (Some tx)))]"
proof -
  obtain given g where g: "g_give D (ch_want c) = (given, g)" by fastforce
  obtain tx p where n: "p_new D (ch_promises c) = (tx, p)" by fastforce
  obtain ok q where q: "q_send D (ch_queue c) (Envelope (Some (val, Callback (Some tx)))) = (ok, q)" by fastforce
  show ?thesis
    using assms(2) g n q request_channel.p_new [OF assms(1) n] request_channel.q_send [OF assms(1) q]
    by (auto simp: dispatch_try_send_def enqueue_def Let_def split: if_splits)
qed

text \<open>The receiving end of a promise: the outcome, once there is one.\<close>

locale promise_receiver =
  fixes issued :: "'p \<Rightarrow> 'tx set" and outcome :: "'p \<Rightarrow> 'tx \<Rightarrow> ('t, 'u) reply option"
    and recv :: "'p \<Rightarrow> 'tx \<Rightarrow> ('t, 'u) reply option poll"
  assumes recv: "tx \<in> issued p \<Longrightarrow>
      recv p tx = (case outcome p tx of Some r \<Rightarrow> Ready (Some r) | None \<Rightarrow> Pending)"
begin

lemma awaiting_poll:
  "tx \<in> issued p \<Longrightarrow> response_future_poll recv (Awaiting tx) p =
     (case outcome p tx of Some r \<Rightarrow> Ready r | None \<Rightarrow> Pending)"
  using recv [of tx p] by (simp split: option.splits)

end

section \<open>Simulation\<close>

definition sim_recv :: "nat \<times> (nat \<Rightarrow> ('t, 'u) reply option) \<Rightarrow> nat \<Rightarrow> ('t, 'u) reply option poll" where
  "sim_recv p tx = (case snd p tx of Some r \<Rightarrow> Ready (Some r) | None \<Rightarrow> Pending)"

interpretation sim_pr: promise_receiver "\<lambda>(n, f). {..<n}" snd sim_recv
  by unfold_locales (simp add: sim_recv_def)

section \<open>Properties\<close>

text \<open>
  C10. The future of a request resolves. A request that the connection does not take comes back at once
  with the error that says so, and nothing is queued. For one that it takes, the future is pending
  at first; in no later state of the connection does polling it panic (the source expects that the
  promise is never dropped unresolved), and once the dispatcher is dropped it is ready. The caller sends
  requests of version HTTP/1.0, 1.1 or 2.
\<close>

theorem request_future_resolves:
  assumes "finite_bodies E incoming sent ok view contents issued outcome queue tx_open slot os_open frames"
    and "promise_receiver issued outcome recv"
    and "disp_reachable E p c0 s" "pending (issued p) (outcome p) []" "sendable req"
    and "try_send_request (de_chan E) (dy_sender s) req (d_chan (dy_disp s)) = (fut, snd', c)"
  shows "case fut of
      NotReady req' \<Rightarrow> req' = req \<and> contents (ch_queue c) = contents (ch_queue (d_chan (dy_disp s))) \<and>
        (\<forall>q. response_future_poll recv fut q = Ready (Inl \<lparr>tse_error = NOT_READY, tse_message = Some req\<rparr>))
    | Awaiting tx \<Rightarrow> response_future_poll recv fut (ch_promises c) = Pending \<and>
        (\<forall>s'. (disp_step E)\<^sup>*\<^sup>* (s\<lparr>dy_disp := (dy_disp s)\<lparr>d_chan := c\<rparr>, dy_sender := snd'\<rparr>) s' \<longrightarrow>
           \<not> is_panicked (response_future_poll recv fut (ch_promises (d_chan (dy_disp s')))) \<and>
           (\<exists>d'. dispatcher_drop E panicking (dy_disp s') = Return d' \<and>
              is_ready (response_future_poll recv fut (ch_promises (d_chan d')))))"
proof -
  note F = assms(1)
  obtain r where ts: "dispatch_try_send (de_chan E) (dy_sender s) req (d_chan (dy_disp s)) = (r, snd', c)"
    and fut: "fut = response_future_of r" using assms(6) by (auto simp: try_send_request_def split: prod.splits)
  have D: "request_channel (de_chan E) contents issued outcome"
    using F by (simp add: finite_bodies_def dispatching_def)
  note r = try_send_cases [OF D ts]
  show ?thesis
  proof (cases r)
    case (Inl v)
    with r show ?thesis by (simp add: fut response_future_of_def)
  next
    case (Inr tx)
    let ?s = "s\<lparr>dy_disp := (dy_disp s)\<lparr>d_chan := c\<rparr>, dy_sender := snd'\<rparr>"
    have reach: "disp_reachable E p c0 ?s"
      using assms(3) disp_step.Send [OF assms(5) ts] by (rule disp_reachable.step)
    have tx: "tx \<in> issued (ch_promises c)" "outcome (ch_promises c) tx = None" using r Inr by simp_all
    note poll = promise_receiver.awaiting_poll [OF assms(2)]
    have "\<not> is_panicked (response_future_poll recv (Awaiting tx) (ch_promises (d_chan (dy_disp s')))) \<and>
        (\<exists>d'. dispatcher_drop E panicking (dy_disp s') = Return d' \<and>
           is_ready (response_future_poll recv (Awaiting tx) (ch_promises (d_chan d'))))"
      if steps: "(disp_step E)\<^sup>*\<^sup>* ?s s'" for s'
    proof -
      from finite_bodies.disp_steps_ok [OF F steps reach assms(4)] have
        r': "disp_reachable E p c0 s'" and k: "tx \<in> issued (ch_promises (d_chan (dy_disp s')))"
        using tx by (auto simp: keeps_outcomes_def)
      from finite_bodies.disp_reachable_ok [OF F r' assms(4)] have
        "disp_ok ok view contents issued outcome (dy_disp s')" by blast
      from finite_bodies.dispatcher_drop_ok [OF F this, of panicking] obtain d' where
        d': "dispatcher_drop E panicking (dy_disp s') = Return d'"
          "keeps_outcomes issued outcome (ch_promises (d_chan (dy_disp s'))) (ch_promises (d_chan d'))"
          "\<forall>tx \<in> issued (ch_promises (d_chan d')). outcome (ch_promises (d_chan d')) tx \<noteq> None" by blast
      then have "tx \<in> issued (ch_promises (d_chan d'))" using k by (auto simp: keeps_outcomes_def)
      with d' k show ?thesis by (auto simp: poll simp del: response_future_poll.simps split: option.splits)
    qed
    with tx show ?thesis by (simp add: fut Inr response_future_of_def poll del: response_future_poll.simps)
  qed
qed

definition sim_request :: sim_request where
  "sim_request = \<lparr>rq_head = \<lparr>h_version = HTTP_11, h_subject = (GET, ''/''), h_headers = [], h_extensions = extensions_default\<rparr>,
     rq_body = []\<rparr>"

theorem request_future_resolves_witness:
  "\<exists>snd' c. try_send_request sim_dispatch (RequestSender False) sim_request
       (d_chan (dy_disp sim_sys)) = (Awaiting 0, snd', c) \<and>
     response_future_poll sim_recv (Awaiting 0 :: (sim_request, nat) response_future) (ch_promises c) = Pending"
proof -
  have "dispatch_channel (de_chan sim_disp_env) (0, \<lambda>_. None) = (RequestSender False,
      \<lparr>ch_queue = [], ch_want = (False, False), ch_promises = (0, \<lambda>_. None)\<rparr>)"
    by (simp add: sim_disp_env_def dispatch_channel_def sim_dispatch_def)
  then have s: "dy_sender sim_sys = RequestSender False"
      "d_chan (dy_disp sim_sys) = \<lparr>ch_queue = [], ch_want = (False, False), ch_promises = (0, \<lambda>_. None)\<rparr>"
    by (simp_all add: sim_sys_def dispatcher_new_def)
  obtain fut snd' c where t: "try_send_request (de_chan sim_disp_env) (dy_sender sim_sys) sim_request
      (d_chan (dy_disp sim_sys)) = (fut, snd', c)" by (rule prod_cases3)
  then have fut: "fut = Awaiting 0"
    by (auto simp: s try_send_request_def dispatch_try_send_def enqueue_def sim_disp_env_def sim_dispatch_def
        response_future_of_def)
  have "sendable sim_request" by (simp add: sendable_def sim_request_def)
  from request_future_resolves [OF sim_disp.finite_bodies_axioms sim_pr.promise_receiver_axioms sim_sys_reachable _ this t]
    sim_sys_fresh fut t show ?thesis by (simp add: s sim_disp_env_def)
qed

text \<open>
  C11. An upgrade hands the connection over whole. When the dispatcher ends with an upgrade, the
  upgradeable connection resolves the upgrade future with a stream that delivers exactly what was
  left of the connection's input, the bytes in its read buffer followed by those still to come from
  the transport, on the same transport; nobody is left waiting for a response, and the poll
  succeeds. A plain connection reports that upgrades are handled manually instead.
\<close>

theorem upgrade_hands_connection_over:
  assumes "finite_bodies E incoming sent ok view contents issued outcome queue tx_open slot os_open frames"
    and "upgrade_channel A slots"
    and "disp_ok ok view contents issued outcome d" "fed d"
    and "dispatcher_poll E d = Some (d1, Ready (Inr (DispatchedUpgrade n)))"
    and "slots (up_chans ups) n = Waiting" "n \<notin> up_poisoned ups"
  shows "(\<exists>hc ups' u. upgradeable_poll E A (with_upgrades d) ups = Some (hc, ups', Ready (Inr ())) \<and> \<not> hc_present hc \<and>
      fst (on_upgrade_poll A (OnUpgradeFut (Some n)) ups') = Ready (Inr u) \<and>
      rewind_incoming incoming (up_io u) = stream incoming (cn_io (d_conn d1)) \<and>
      rw_inner (up_io u) = b_io (cn_io (d_conn d1)) \<and>
      (\<forall>tx \<in> issued (ch_promises (d_chan (hc_disp hc))). outcome (ch_promises (d_chan (hc_disp hc))) tx \<noteq> None)) \<and>
    (\<exists>ups'. connection_poll E A d ups = Some (d1, ups', Ready (Inr ())) \<and>
      fst (on_upgrade_poll A (OnUpgradeFut (Some n)) ups') = Ready (Inl new_user_manual_upgrade))"
proof -
  note F = assms(1)
  from finite_bodies.poll_catch_ok [OF F, of d True] assms(3-5)
  have "disp_ok ok view contents issued outcome d1" by (auto simp: dispatcher_poll_def)
  from finite_bodies.into_parts_ok [OF F this] obtain d' where
    d': "into_parts E d1 = Return (\<lparr>parts_io = b_io (cn_io (d_conn d1)), parts_read_buf = bm_bytes (read_buf (cn_io (d_conn d1)))\<rparr>, d')"
      "\<forall>tx \<in> issued (ch_promises (d_chan d')). outcome (ch_promises (d_chan d')) tx \<noteq> None" by blast
  let ?u = "upgraded_new (b_io (cn_io (d_conn d1))) (bm_bytes (read_buf (cn_io (d_conn d1))))"
  have yields: "fst (on_upgrade_poll A (OnUpgradeFut (Some n)) (settle A (Pending_tx n) ev ups)) = Ready (upgrade_result ev)"
    if "ev \<noteq> ConnectionGone" for ev
  proof -
    obtain r s where p: "on_upgrade_poll A (OnUpgradeFut (Some n)) (settle A (Pending_tx n) ev ups) = (r, s)" by fastforce
    have st: "slots (up_chans (settle A (Pending_tx n) ev ups)) n = Filled (upgrade_result ev)"
      "n \<notin> up_poisoned (settle A (Pending_tx n) ev ups)"
      using upgrade_channel.settle_slot [OF assms(2), of ups "Pending_tx n" ev] assms(6,7) that
      by (auto split: upgrade_event.splits)
    from upgrade_channel.on_upgrade_poll_slot(2) [OF assms(2) st(2) p st(1)] p show ?thesis by simp
  qed
  have "upgradeable_poll E A (with_upgrades d) ups =
      Some (\<lparr>hc_present = False, hc_disp = d'\<rparr>, settle A (Pending_tx n) (Fulfilled ?u) ups, Ready (Inr ()))"
    by (simp add: upgradeable_poll_def with_upgrades_def assms(5) d'(1))
  moreover have "connection_poll E A d ups = Some (d1, settle A (Pending_tx n) HandledManually ups, Ready (Inr ()))"
    by (simp add: connection_poll_def assms(5))
  moreover have "rewind_incoming incoming (up_io ?u) = stream incoming (cn_io (d_conn d1))"
    "rw_inner (up_io ?u) = b_io (cn_io (d_conn d1))"
    by (simp_all add: upgraded_new_def new_buffered_def rewind_incoming_def stream_def)
  ultimately show ?thesis
    using yields [of "Fulfilled ?u"] yields [of HandledManually] d'(2)
    by (intro conjI exI [of _ "\<lparr>hc_present = False, hc_disp = d'\<rparr>"] exI [of _ "settle A (Pending_tx n) (Fulfilled ?u) ups"]
        exI [of _ ?u] exI [of _ "settle A (Pending_tx n) HandledManually ups"]) simp_all
qed

text \<open>A closed connection with an upgrade pending and unread input.\<close>

definition sim_closed_conn :: "(sim_io, bytes, entries) conn" where
  "sim_closed_conn = on_upgrade (map_state state_close
     (sim_new\<lparr>cn_io := (cn_io sim_new)\<lparr>read_buf := \<lparr>bm_bytes = ''hel'', bm_cap = 8\<rparr>\<rparr>\<rparr>)) 0"

definition sim_upgrading ::
  "(sim_io, bytes, entries, nat, (sim_request, nat) envelope list, bool \<times> bool, sim_promises, bool, sim_chunks,
    sim_slot, bytes list) dispatcher" where
  "sim_upgrading = sim_busy\<lparr>d_conn := sim_closed_conn, d_is_closing := True\<rparr>"

definition sim_waiting :: "(nat \<times> (nat \<Rightarrow> (error + sim_io upgraded) slot_state)) upgrades" where
  "sim_waiting = \<lparr>up_chans = (1, \<lambda>_. Waiting), up_poisoned = {}\<rparr>"

lemma closing_polls:
  "d_is_closing d \<Longrightarrow> disp_poll_read E d = Some (d, Ready (Inr ()))"
  "d_is_closing d \<Longrightarrow> disp_poll_write E d = Some (d, Ready (Inr ()))"
  by (subst disp_poll_read.simps, simp add: poll_read_turn_def)
    (subst disp_poll_write.simps, simp add: poll_write_turn_def)

lemma sim_closed_flush: "conn_poll_flush sim_env sim_closed_conn = Some (sim_closed_conn, Ready (Inr ()))"
  by (simp add: conn_poll_flush_def buffered_poll_flush_def sim_closed_conn_def sim_new_def conn_new_def
      buffered_new_def write_buf_new_def wb_remaining_def cursor_simps buf_list_new_def flush_io_def cursor_remaining_def cursor_new_def
      sim_env_def sim_transport_def set_h1_parser_config_def on_upgrade_def prepare_upgrade_def then_keep_alive_def
      conn_try_keep_alive_def state_try_keep_alive_def state_close_def maybe_notify_def)

lemma sim_upgrading_polls:
  "\<exists>d1. dispatcher_poll sim_disp_env sim_upgrading = Some (d1, Ready (Inr (DispatchedUpgrade 0))) \<and>
     cn_io (d_conn d1) = cn_io sim_closed_conn"
proof -
  have "disp_poll_flush sim_disp_env sim_upgrading = Some (sim_upgrading, Ready (Inr ()))"
    by (simp add: disp_poll_flush_def sim_closed_flush sim_disp_env_def sim_upgrading_def)
  moreover have "wants_read_again (d_conn sim_upgrading) = (d_conn sim_upgrading, False)" "d_is_closing sim_upgrading"
    by (simp_all add: sim_upgrading_def wants_read_again_def sim_closed_conn_def sim_new_def conn_new_def
        set_h1_parser_config_def on_upgrade_def prepare_upgrade_def state_close_def)
  ultimately have "poll_loop 16 sim_disp_env sim_upgrading = Some (sim_upgrading, Ready (Inr ()))"
    by (simp add: eval_nat_numeral poll_try_def closing_polls can_write_again_def)
  then show ?thesis
    by (simp add: dispatcher_poll_def poll_catch_def poll_inner_def is_done_def pending_upgrade_def finish_poll_def
        take_error_def sim_upgrading_def sim_closed_conn_def sim_new_def conn_new_def set_h1_parser_config_def
        on_upgrade_def prepare_upgrade_def state_close_def)
qed

lemma sim_upgrading_ok:
  "disp_ok (\<lambda>_. True) (\<lambda>b. b) (\<lambda>q. q) (\<lambda>(n, f). {..<n}) snd sim_upgrading" "fed sim_upgrading"
  using sim_busy_ok
  by (auto simp: sim_upgrading_def disp_ok_def chan_ok_def held_def sim_closed_conn_def on_upgrade_def prepare_upgrade_def
      conn_ok_def state_ok_def io_ok_def state_close_def sim_busy_def sim_sys_def dispatcher_new_def fed_def can_read_body_def)

theorem upgrade_hands_connection_over_witness:
  "\<exists>hc ups' u. upgradeable_poll sim_disp_env sim_upgrades (with_upgrades sim_upgrading) sim_waiting = Some (hc, ups', Ready (Inr ())) \<and>
     fst (on_upgrade_poll sim_upgrades (OnUpgradeFut (Some 0)) ups') = Ready (Inr u) \<and>
     rewind_incoming sim_incoming (up_io u) = ''hel''"
proof -
  from sim_upgrading_polls obtain d1 where
    d1: "dispatcher_poll sim_disp_env sim_upgrading = Some (d1, Ready (Inr (DispatchedUpgrade 0)))"
      "cn_io (d_conn d1) = cn_io sim_closed_conn" by blast
  have w: "sim_slots (up_chans sim_waiting) 0 = Waiting" "0 \<notin> up_poisoned sim_waiting"
    by (simp_all add: sim_slots_def sim_waiting_def)
  have "stream sim_incoming (cn_io (d_conn d1)) = ''hel''"
    by (simp add: d1(2) stream_def sim_closed_conn_def sim_new_def conn_new_def set_h1_parser_config_def on_upgrade_def
        buffered_new_def sim_start_def sim_incoming_def)
  with upgrade_hands_connection_over [OF sim_disp.finite_bodies_axioms sim_uc.upgrade_channel_axioms sim_upgrading_ok d1(1) w]
  show ?thesis by auto
qed

end
