(* ===== verification/Http2_Headers.thy ===== *)
theory Http2_Headers
  imports Headers
begin

text \<open>
  \<open>strip_connection_headers\<close> of \<open>proto/http2.rs\<close>: the header fields that belong to one HTTP/1
  connection and are forbidden in HTTP/2 are taken out of a message.
\<close>

definition CONNECTION_HEADERS :: "header_name list" where
  "CONNECTION_HEADERS = [''keep-alive'', ''proxy-connection'', TRANSFER_ENCODING, ''upgrade'']"

text \<open>\<open>HeaderMap::remove\<close> with a string: text that is no header name removes nothing.\<close>

definition hm_remove_str :: "'h http_api \<Rightarrow> 'h \<Rightarrow> bytes \<Rightarrow> 'h" where
  "hm_remove_str api h name = (case hn_from_bytes api name of Some n \<Rightarrow> hm_remove api h n | None \<Rightarrow> h)"

definition strip_nominated :: "'h http_api \<Rightarrow> 'h \<Rightarrow> string \<Rightarrow> 'h" where
  "strip_nominated api h contents = foldl (\<lambda>h name. hm_remove_str api h (str_trim name)) h (split_on COMMA contents)"

definition strip_connection_headers :: "'h http_api \<Rightarrow> 'h \<Rightarrow> bool \<Rightarrow> 'h" where
  "strip_connection_headers api headers is_request =
     (let h1 = foldl (hm_remove api) headers CONNECTION_HEADERS;
          h2 = (if is_request
                then (case hm_get api h1 TE of
                        Some te_header \<Rightarrow> if te_header \<noteq> ''trailers'' then hm_remove api h1 TE else h1
                      | None \<Rightarrow> h1)
                else hm_remove api h1 TE) in
      case hm_get api h2 CONNECTION of
        None \<Rightarrow> h2
      | Some header \<Rightarrow>
          (let h3 = hm_remove api h2 CONNECTION in
           case hv_to_str api header of
             Some contents \<Rightarrow> strip_nominated api h3 contents
           | None \<Rightarrow> h3))"

text \<open>The names that a value of \<open>Connection\<close> nominates.\<close>

definition nominates :: "'h http_api \<Rightarrow> header_value \<Rightarrow> header_name \<Rightarrow> bool" where
  "nominates api v n =
     (case hv_to_str api v of
        None \<Rightarrow> False
      | Some s \<Rightarrow> list_ex (\<lambda>item. hn_from_bytes api (str_trim item) = Some n) (split_on COMMA s))"

text \<open>
  A field that HTTP/2 forbids in a request or a response, from all values of the fields that decide it:
  it is on the fixed list, it is \<open>Connection\<close>, some value of \<open>Connection\<close> nominates it, or it is \<open>TE\<close>
  and the message is a response or some value of \<open>TE\<close> is not \<open>trailers\<close>.
\<close>

definition forbidden :: "'h http_api \<Rightarrow> 'h \<Rightarrow> bool \<Rightarrow> header_name \<Rightarrow> bool" where
  "forbidden api h is_request n \<longleftrightarrow>
     n \<in> set CONNECTION_HEADERS \<or> n = CONNECTION \<or>
     list_ex (\<lambda>v. nominates api v n) (hm_get_all api h CONNECTION) \<or>
     n = TE \<and> (is_request \<longrightarrow> list_ex (\<lambda>v. v \<noteq> ''trailers'') (hm_get_all api h TE))"

text \<open>What \<open>strip_connection_headers\<close> takes out: it looks at the first value of each field only.\<close>

definition stripped :: "'h http_api \<Rightarrow> 'h \<Rightarrow> bool \<Rightarrow> header_name \<Rightarrow> bool" where
  "stripped api h is_request n \<longleftrightarrow>
     n \<in> set CONNECTION_HEADERS \<or> n = CONNECTION \<or>
     (case hm_get api h CONNECTION of None \<Rightarrow> False | Some v \<Rightarrow> nominates api v n) \<or>
     n = TE \<and> (is_request \<longrightarrow> hm_get api h TE \<noteq> Some ''trailers'')"

context http_crate
begin

lemma get_all_foldl_remove:
  "hm_get_all api (foldl (hm_remove api) h ns) m = (if m \<in> set ns then [] else hm_get_all api h m)"
  by (induction ns arbitrary: h) auto

lemma get_all_remove_str:
  "hm_get_all api (hm_remove_str api h name) m = (if hn_from_bytes api name = Some m then [] else hm_get_all api h m)"
  by (auto simp: hm_remove_str_def split: option.splits)

lemma get_all_strip_nominated:
  "hm_get_all api (strip_nominated api h s) m =
     (if list_ex (\<lambda>item. hn_from_bytes api (str_trim item) = Some m) (split_on COMMA s) then [] else hm_get_all api h m)"
proof -
  have "hm_get_all api (foldl (\<lambda>h name. hm_remove_str api h (str_trim name)) h items) m =
      (if list_ex (\<lambda>item. hn_from_bytes api (str_trim item) = Some m) items then [] else hm_get_all api h m)" for items
    by (induction items arbitrary: h) (auto simp: get_all_remove_str)
  then show ?thesis by (simp add: strip_nominated_def)
qed

lemma get_cong: "hm_get_all api h n = hm_get_all api h' n \<Longrightarrow> hm_get api h n = hm_get api h' n"
  by (simp add: hm_get_def)

end

section \<open>Properties\<close>

text \<open>
  Stripping a message for HTTP/2 removes the fixed list, \<open>Connection\<close>, the fields that the first value
  of \<open>Connection\<close> nominates, and \<open>TE\<close> unless it is a request whose first \<open>TE\<close> is \<open>trailers\<close>. Every
  other field keeps all its values.
\<close>

lemma strip_connection_headers_values:
  assumes "http_crate api"
  shows "hm_get_all api (strip_connection_headers api h is_request) n =
    (if stripped api h is_request n then [] else hm_get_all api h n)"
proof -
  note crate = assms
  note rem = http_crate.get_all_foldl_remove [OF crate] http_crate.get_all_remove [OF crate]
  define h1 where "h1 = foldl (hm_remove api) h CONNECTION_HEADERS"
  define h2 where "h2 = (if is_request
      then (case hm_get api h1 TE of Some te \<Rightarrow> if te \<noteq> ''trailers'' then hm_remove api h1 TE else h1 | None \<Rightarrow> h1)
      else hm_remove api h1 TE)"
  have h1: "hm_get_all api h1 m = (if m \<in> set CONNECTION_HEADERS then [] else hm_get_all api h m)" for m
    by (simp add: h1_def rem)
  have te: "hm_get api h1 TE = hm_get api h TE"
    by (rule http_crate.get_cong [OF crate]) (simp add: h1 CONNECTION_HEADERS_def)
  have h2: "hm_get_all api h2 m = (if m \<in> set CONNECTION_HEADERS \<or>
      m = TE \<and> (is_request \<longrightarrow> hm_get api h TE \<noteq> Some ''trailers'') then [] else hm_get_all api h m)" for m
    using te h1 by (auto simp: h2_def rem hm_get_def CONNECTION_HEADERS_def split: option.splits list.splits)
  have c: "hm_get api h2 CONNECTION = hm_get api h CONNECTION"
    by (rule http_crate.get_cong [OF crate]) (simp add: h2 CONNECTION_HEADERS_def)
  have s: "strip_connection_headers api h is_request =
      (case hm_get api h CONNECTION of None \<Rightarrow> h2
       | Some header \<Rightarrow> (case hv_to_str api header of
           Some contents \<Rightarrow> strip_nominated api (hm_remove api h2 CONNECTION) contents
         | None \<Rightarrow> hm_remove api h2 CONNECTION))"
    by (simp only: strip_connection_headers_def Let_def h1_def [symmetric] h2_def [symmetric] c)
  show ?thesis
  proof (cases "hm_get api h CONNECTION")
    case None
    then have "hm_get_all api h CONNECTION = []" by (simp add: hm_get_def split: list.splits)
    with None show ?thesis by (auto simp: s h2 stripped_def nominates_def)
  next
    case (Some v)
    then show ?thesis
      by (cases "hv_to_str api v")
        (auto simp: s stripped_def nominates_def rem h2 http_crate.get_all_strip_nominated [OF crate])
  qed
qed

lemma strip_connection_headers_values_witness:
  "ent_get (strip_connection_headers list_api [(''connection'', [''x-a, close'']), (''x-a'', [''1'']), (''x-b'', [''2''])] True) ''x-a'' = [] \<and>
   ent_get (strip_connection_headers list_api [(''connection'', [''x-a, close'']), (''x-a'', [''1'']), (''x-b'', [''2''])] True) ''x-b'' = [''2'']"
proof -
  let ?h = "[(''connection'', [''x-a, close'']), (''x-a'', [''1'']), (''x-b'', [''2''])] :: entries"
  have a: "stripped list_api ?h True ''x-a''" by code_simp
  have b: "\<not> stripped list_api ?h True ''x-b''" by code_simp
  have "hm_get_all list_api = ent_get" by simp
  with strip_connection_headers_values [OF list_http.http_crate_axioms, of ?h True "''x-a''"]
    strip_connection_headers_values [OF list_http.http_crate_axioms, of ?h True "''x-b''"] a b
  show ?thesis by simp
qed

text \<open>
  Never more than what HTTP/2 forbids is taken out, and exactly that from a message with at most one
  value of \<open>Connection\<close> and of \<open>TE\<close>.
\<close>

lemma stripped_forbidden:
  "hm_get_all api h n \<noteq> [] \<Longrightarrow> stripped api h is_request n \<Longrightarrow> forbidden api h is_request n"
  by (auto simp: stripped_def forbidden_def hm_get_def split: list.splits)

lemma forbidden_stripped:
  "length (hm_get_all api h CONNECTION) \<le> 1 \<Longrightarrow> length (hm_get_all api h TE) \<le> 1 \<Longrightarrow>
   forbidden api h is_request n \<Longrightarrow> stripped api h is_request n"
  by (cases "hm_get_all api h CONNECTION"; cases "hm_get_all api h TE")
    (auto simp: stripped_def forbidden_def hm_get_def)

lemma strip_connection_headers_keeps:
  assumes "http_crate api" "\<not> forbidden api h is_request n"
  shows "hm_get_all api (strip_connection_headers api h is_request) n = hm_get_all api h n"
  using strip_connection_headers_values [OF assms(1), of h is_request n] stripped_forbidden assms(2) by metis

lemma strip_connection_headers_removes:
  assumes "http_crate api" "length (hm_get_all api h CONNECTION) \<le> 1" "length (hm_get_all api h TE) \<le> 1"
    "forbidden api h is_request n"
  shows "hm_get_all api (strip_connection_headers api h is_request) n = []"
  using strip_connection_headers_values [OF assms(1), of h is_request n] forbidden_stripped [OF assms(2-4)] by simp

text \<open>
  With two values of \<open>Connection\<close>, what only the second nominates stays in the message, although it
  is forbidden.
\<close>

lemma second_connection_field_ignored:
  "forbidden list_api [(''connection'', [''close'', ''x-a'']), (''x-a'', [''1''])] True ''x-a'' \<and>
   ent_get (strip_connection_headers list_api
     [(''connection'', [''close'', ''x-a'']), (''x-a'', [''1''])] True) ''x-a'' = [''1'']"
  by (rule conjI; code_simp)

end
