(* ===== verification/Http2_Options.thy ===== *)
theory Http2_Options
  imports Ping
begin

text \<open>
  \<open>Http2Options\<close> and its builder (\<open>proto/http2.rs\<close>) and what \<open>Builder::handshake\<close> of \<open>conn/http2.rs\<close>
  makes of them: the configuration of the crate \<open>http2\<close> and of the pings.

  The types of the frame-level options (\<open>PseudoOrder\<close>, \<open>StreamDependency\<close>, \<open>SettingsOrder\<close>,
  \<open>Priorities\<close>) belong to the crate \<open>http2\<close> and are type parameters; its \<open>client::Builder\<close> is a
  parameter too. An argument of type \<open>impl Into<Option<T>>\<close> is an option.
\<close>

section \<open>Constants\<close>

definition SPEC_WINDOW_SIZE :: u32 where "SPEC_WINDOW_SIZE = 65535"
definition DEFAULT_CONN_WINDOW :: u32 where "DEFAULT_CONN_WINDOW = 1024 * 1024 * 5"
definition DEFAULT_STREAM_WINDOW :: u32 where "DEFAULT_STREAM_WINDOW = 1024 * 1024 * 2"
definition DEFAULT_MAX_FRAME_SIZE :: u32 where "DEFAULT_MAX_FRAME_SIZE = 1024 * 16"
definition DEFAULT_MAX_SEND_BUF_SIZE :: usize where "DEFAULT_MAX_SEND_BUF_SIZE = 1024 * 1024"
definition DEFAULT_MAX_HEADER_LIST_SIZE :: u32 where "DEFAULT_MAX_HEADER_LIST_SIZE = 1024 * 16"
definition DEFAULT_INITIAL_MAX_SEND_STREAMS :: usize where "DEFAULT_INITIAL_MAX_SEND_STREAMS = 100"

section \<open>Options\<close>

record ('po, 'sd, 'so, 'pr) http2_options =
  h2o_adaptive_window :: "bool"
  h2o_initial_stream_id :: "u32 option"
  h2o_initial_conn_window_size :: "u32"
  h2o_initial_window_size :: "u32"
  h2o_initial_max_send_streams :: "usize"
  h2o_max_frame_size :: "u32 option"
  h2o_keep_alive_interval :: "duration option"
  h2o_keep_alive_timeout :: "duration"
  h2o_keep_alive_while_idle :: "bool"
  h2o_max_concurrent_reset_streams :: "usize option"
  h2o_max_send_buffer_size :: "usize"
  h2o_max_concurrent_streams :: "u32 option"
  h2o_max_header_list_size :: "u32 option"
  h2o_max_pending_accept_reset_streams :: "usize option"
  h2o_enable_push :: "bool option"
  h2o_header_table_size :: "u32 option"
  h2o_enable_connect_protocol :: "bool option"
  h2o_no_rfc7540_priorities :: "bool option"
  h2o_headers_pseudo_order :: "'po option"
  h2o_headers_stream_dependency :: "'sd option"
  h2o_settings_order :: "'so option"
  h2o_priorities :: "'pr option"

definition http2_options_default :: "('po, 'sd, 'so, 'pr) http2_options" where
  "http2_options_default =
     \<lparr>h2o_adaptive_window = False, h2o_initial_stream_id = None, h2o_initial_conn_window_size = DEFAULT_CONN_WINDOW,
      h2o_initial_window_size = DEFAULT_STREAM_WINDOW, h2o_initial_max_send_streams = DEFAULT_INITIAL_MAX_SEND_STREAMS, h2o_max_frame_size = Some DEFAULT_MAX_FRAME_SIZE,
      h2o_keep_alive_interval = None, h2o_keep_alive_timeout = from_secs 20, h2o_keep_alive_while_idle = False,
      h2o_max_concurrent_reset_streams = None, h2o_max_send_buffer_size = DEFAULT_MAX_SEND_BUF_SIZE, h2o_max_concurrent_streams = None,
      h2o_max_header_list_size = Some DEFAULT_MAX_HEADER_LIST_SIZE, h2o_max_pending_accept_reset_streams = None, h2o_enable_push = None,
      h2o_header_table_size = None, h2o_enable_connect_protocol = None, h2o_no_rfc7540_priorities = None,
      h2o_headers_pseudo_order = None, h2o_headers_stream_dependency = None, h2o_settings_order = None,
      h2o_priorities = None\<rparr>"

definition http2_options_builder :: "('po, 'sd, 'so, 'pr) http2_options" where
  "http2_options_builder = http2_options_default\<lparr>h2o_max_frame_size := None, h2o_max_header_list_size := None\<rparr>"

section \<open>Setters\<close>

definition h2_initial_window_size :: "('po, 'sd, 'so, 'pr) http2_options \<Rightarrow> u32 option \<Rightarrow> ('po, 'sd, 'so, 'pr) http2_options" where
  "h2_initial_window_size o' x = (case x of Some v \<Rightarrow> o'\<lparr>h2o_adaptive_window := False, h2o_initial_window_size := v\<rparr> | None \<Rightarrow> o')"

definition h2_initial_connection_window_size :: "('po, 'sd, 'so, 'pr) http2_options \<Rightarrow> u32 option \<Rightarrow> ('po, 'sd, 'so, 'pr) http2_options" where
  "h2_initial_connection_window_size o' x = (case x of Some v \<Rightarrow> o'\<lparr>h2o_adaptive_window := False, h2o_initial_conn_window_size := v\<rparr> | None \<Rightarrow> o')"

definition h2_initial_max_send_streams :: "('po, 'sd, 'so, 'pr) http2_options \<Rightarrow> usize option \<Rightarrow> ('po, 'sd, 'so, 'pr) http2_options" where
  "h2_initial_max_send_streams o' x = (case x of Some v \<Rightarrow> o'\<lparr>h2o_initial_max_send_streams := v\<rparr> | None \<Rightarrow> o')"

definition h2_initial_stream_id :: "('po, 'sd, 'so, 'pr) http2_options \<Rightarrow> u32 option \<Rightarrow> ('po, 'sd, 'so, 'pr) http2_options" where
  "h2_initial_stream_id o' x = (case x of Some v \<Rightarrow> o'\<lparr>h2o_initial_stream_id := Some v\<rparr> | None \<Rightarrow> o')"

definition h2_adaptive_window :: "('po, 'sd, 'so, 'pr) http2_options \<Rightarrow> bool \<Rightarrow> ('po, 'sd, 'so, 'pr) http2_options" where
  "h2_adaptive_window o' x = (let o'' = o'\<lparr>h2o_adaptive_window := x\<rparr> in
     if x then o''\<lparr>h2o_initial_window_size := SPEC_WINDOW_SIZE, h2o_initial_conn_window_size := SPEC_WINDOW_SIZE\<rparr> else o'')"

definition h2_max_frame_size :: "('po, 'sd, 'so, 'pr) http2_options \<Rightarrow> u32 option \<Rightarrow> ('po, 'sd, 'so, 'pr) http2_options" where
  "h2_max_frame_size o' x = (case x of Some v \<Rightarrow> o'\<lparr>h2o_max_frame_size := Some v\<rparr> | None \<Rightarrow> o')"

definition h2_max_header_list_size :: "('po, 'sd, 'so, 'pr) http2_options \<Rightarrow> u32 \<Rightarrow> ('po, 'sd, 'so, 'pr) http2_options" where
  "h2_max_header_list_size o' x = o'\<lparr>h2o_max_header_list_size := Some x\<rparr>"

definition h2_header_table_size :: "('po, 'sd, 'so, 'pr) http2_options \<Rightarrow> u32 option \<Rightarrow> ('po, 'sd, 'so, 'pr) http2_options" where
  "h2_header_table_size o' x = (case x of Some v \<Rightarrow> o'\<lparr>h2o_header_table_size := Some v\<rparr> | None \<Rightarrow> o')"

definition h2_max_concurrent_streams :: "('po, 'sd, 'so, 'pr) http2_options \<Rightarrow> u32 option \<Rightarrow> ('po, 'sd, 'so, 'pr) http2_options" where
  "h2_max_concurrent_streams o' x = (case x of Some v \<Rightarrow> o'\<lparr>h2o_max_concurrent_streams := Some v\<rparr> | None \<Rightarrow> o')"

definition h2_keep_alive_interval :: "('po, 'sd, 'so, 'pr) http2_options \<Rightarrow> duration option \<Rightarrow> ('po, 'sd, 'so, 'pr) http2_options" where
  "h2_keep_alive_interval o' x = o'\<lparr>h2o_keep_alive_interval := x\<rparr>"

definition h2_keep_alive_timeout :: "('po, 'sd, 'so, 'pr) http2_options \<Rightarrow> duration \<Rightarrow> ('po, 'sd, 'so, 'pr) http2_options" where
  "h2_keep_alive_timeout o' x = o'\<lparr>h2o_keep_alive_timeout := x\<rparr>"

definition h2_keep_alive_while_idle :: "('po, 'sd, 'so, 'pr) http2_options \<Rightarrow> bool \<Rightarrow> ('po, 'sd, 'so, 'pr) http2_options" where
  "h2_keep_alive_while_idle o' x = o'\<lparr>h2o_keep_alive_while_idle := x\<rparr>"

definition h2_enable_push :: "('po, 'sd, 'so, 'pr) http2_options \<Rightarrow> bool \<Rightarrow> ('po, 'sd, 'so, 'pr) http2_options" where
  "h2_enable_push o' x = o'\<lparr>h2o_enable_push := Some x\<rparr>"

definition h2_enable_connect_protocol :: "('po, 'sd, 'so, 'pr) http2_options \<Rightarrow> bool \<Rightarrow> ('po, 'sd, 'so, 'pr) http2_options" where
  "h2_enable_connect_protocol o' x = o'\<lparr>h2o_enable_connect_protocol := Some x\<rparr>"

definition h2_no_rfc7540_priorities :: "('po, 'sd, 'so, 'pr) http2_options \<Rightarrow> bool \<Rightarrow> ('po, 'sd, 'so, 'pr) http2_options" where
  "h2_no_rfc7540_priorities o' x = o'\<lparr>h2o_no_rfc7540_priorities := Some x\<rparr>"

definition h2_max_concurrent_reset_streams :: "('po, 'sd, 'so, 'pr) http2_options \<Rightarrow> usize \<Rightarrow> ('po, 'sd, 'so, 'pr) http2_options" where
  "h2_max_concurrent_reset_streams o' x = o'\<lparr>h2o_max_concurrent_reset_streams := Some x\<rparr>"

definition h2_max_send_buf_size :: "('po, 'sd, 'so, 'pr) http2_options \<Rightarrow> usize \<Rightarrow> ('po, 'sd, 'so, 'pr) http2_options rust" where
  "h2_max_send_buf_size o' x =
     (if unat x \<le> 2 ^ 32 - 1 then Return (o'\<lparr>h2o_max_send_buffer_size := x\<rparr>)
      else Panic ''assertion failed: max <= u32::MAX as usize'')"

definition h2_max_pending_accept_reset_streams :: "('po, 'sd, 'so, 'pr) http2_options \<Rightarrow> usize option \<Rightarrow> ('po, 'sd, 'so, 'pr) http2_options" where
  "h2_max_pending_accept_reset_streams o' x = (case x of Some v \<Rightarrow> o'\<lparr>h2o_max_pending_accept_reset_streams := Some v\<rparr> | None \<Rightarrow> o')"

definition h2_headers_stream_dependency :: "('po, 'sd, 'so, 'pr) http2_options \<Rightarrow> 'sd option \<Rightarrow> ('po, 'sd, 'so, 'pr) http2_options" where
  "h2_headers_stream_dependency o' x = (case x of Some v \<Rightarrow> o'\<lparr>h2o_headers_stream_dependency := Some v\<rparr> | None \<Rightarrow> o')"

definition h2_headers_pseudo_order :: "('po, 'sd, 'so, 'pr) http2_options \<Rightarrow> 'po option \<Rightarrow> ('po, 'sd, 'so, 'pr) http2_options" where
  "h2_headers_pseudo_order o' x = (case x of Some v \<Rightarrow> o'\<lparr>h2o_headers_pseudo_order := Some v\<rparr> | None \<Rightarrow> o')"

definition h2_settings_order :: "('po, 'sd, 'so, 'pr) http2_options \<Rightarrow> 'so option \<Rightarrow> ('po, 'sd, 'so, 'pr) http2_options" where
  "h2_settings_order o' x = (case x of Some v \<Rightarrow> o'\<lparr>h2o_settings_order := Some v\<rparr> | None \<Rightarrow> o')"

definition h2_priorities :: "('po, 'sd, 'so, 'pr) http2_options \<Rightarrow> 'pr option \<Rightarrow> ('po, 'sd, 'so, 'pr) http2_options" where
  "h2_priorities o' x = (case x of Some v \<Rightarrow> o'\<lparr>h2o_priorities := Some v\<rparr> | None \<Rightarrow> o')"

text \<open>What the builder can build.\<close>

inductive h2_built :: "('po, 'sd, 'so, 'pr) http2_options \<Rightarrow> bool" where
  builder: "h2_built http2_options_builder"
| default: "h2_built http2_options_default"
| initial_window_size: "h2_built o' \<Longrightarrow> h2_built (h2_initial_window_size o' a)"
| initial_connection_window_size: "h2_built o' \<Longrightarrow> h2_built (h2_initial_connection_window_size o' b)"
| initial_max_send_streams: "h2_built o' \<Longrightarrow> h2_built (h2_initial_max_send_streams o' c)"
| initial_stream_id: "h2_built o' \<Longrightarrow> h2_built (h2_initial_stream_id o' d)"
| adaptive_window: "h2_built o' \<Longrightarrow> h2_built (h2_adaptive_window o' e)"
| max_frame_size: "h2_built o' \<Longrightarrow> h2_built (h2_max_frame_size o' f)"
| max_header_list_size: "h2_built o' \<Longrightarrow> h2_built (h2_max_header_list_size o' g)"
| header_table_size: "h2_built o' \<Longrightarrow> h2_built (h2_header_table_size o' h)"
| max_concurrent_streams: "h2_built o' \<Longrightarrow> h2_built (h2_max_concurrent_streams o' i)"
| keep_alive_interval: "h2_built o' \<Longrightarrow> h2_built (h2_keep_alive_interval o' j)"
| keep_alive_timeout: "h2_built o' \<Longrightarrow> h2_built (h2_keep_alive_timeout o' k)"
| keep_alive_while_idle: "h2_built o' \<Longrightarrow> h2_built (h2_keep_alive_while_idle o' l)"
| enable_push: "h2_built o' \<Longrightarrow> h2_built (h2_enable_push o' m)"
| enable_connect_protocol: "h2_built o' \<Longrightarrow> h2_built (h2_enable_connect_protocol o' n)"
| no_rfc7540_priorities: "h2_built o' \<Longrightarrow> h2_built (h2_no_rfc7540_priorities o' p)"
| max_concurrent_reset_streams: "h2_built o' \<Longrightarrow> h2_built (h2_max_concurrent_reset_streams o' q)"
| max_pending_accept_reset_streams: "h2_built o' \<Longrightarrow> h2_built (h2_max_pending_accept_reset_streams o' r)"
| headers_stream_dependency: "h2_built o' \<Longrightarrow> h2_built (h2_headers_stream_dependency o' s)"
| headers_pseudo_order: "h2_built o' \<Longrightarrow> h2_built (h2_headers_pseudo_order o' t)"
| settings_order: "h2_built o' \<Longrightarrow> h2_built (h2_settings_order o' u)"
| priorities: "h2_built o' \<Longrightarrow> h2_built (h2_priorities o' v)"
| max_send_buf_size: "h2_built o' \<Longrightarrow> h2_max_send_buf_size o' x = Return o'' \<Longrightarrow> h2_built o''"

section \<open>From the options to the connection\<close>

text \<open>The setters of \<open>http2::client::Builder\<close>.\<close>

record ('bl, 'po, 'sd, 'so, 'pr) h2_builder_api =
  hb_default :: 'bl
  hb_initial_max_send_streams :: "'bl \<Rightarrow> usize \<Rightarrow> 'bl"
  hb_initial_window_size :: "'bl \<Rightarrow> u32 \<Rightarrow> 'bl"
  hb_initial_connection_window_size :: "'bl \<Rightarrow> u32 \<Rightarrow> 'bl"
  hb_max_send_buffer_size :: "'bl \<Rightarrow> usize \<Rightarrow> 'bl"
  hb_initial_stream_id :: "'bl \<Rightarrow> u32 \<Rightarrow> 'bl"
  hb_max_pending_accept_reset_streams :: "'bl \<Rightarrow> usize \<Rightarrow> 'bl"
  hb_max_concurrent_reset_streams :: "'bl \<Rightarrow> usize \<Rightarrow> 'bl"
  hb_max_concurrent_streams :: "'bl \<Rightarrow> u32 \<Rightarrow> 'bl"
  hb_max_header_list_size :: "'bl \<Rightarrow> u32 \<Rightarrow> 'bl"
  hb_enable_push :: "'bl \<Rightarrow> bool \<Rightarrow> 'bl"
  hb_max_frame_size :: "'bl \<Rightarrow> u32 \<Rightarrow> 'bl"
  hb_header_table_size :: "'bl \<Rightarrow> u32 \<Rightarrow> 'bl"
  hb_enable_connect_protocol :: "'bl \<Rightarrow> bool \<Rightarrow> 'bl"
  hb_no_rfc7540_priorities :: "'bl \<Rightarrow> bool \<Rightarrow> 'bl"
  hb_settings_order :: "'bl \<Rightarrow> 'so \<Rightarrow> 'bl"
  hb_headers_stream_dependency :: "'bl \<Rightarrow> 'sd \<Rightarrow> 'bl"
  hb_headers_pseudo_order :: "'bl \<Rightarrow> 'po \<Rightarrow> 'bl"
  hb_priorities :: "'bl \<Rightarrow> 'pr \<Rightarrow> 'bl"

definition if_some :: "'x option \<Rightarrow> ('bl \<Rightarrow> 'x \<Rightarrow> 'bl) \<Rightarrow> 'bl \<Rightarrow> 'bl" where
  "if_some x f b = (case x of Some v \<Rightarrow> f b v | None \<Rightarrow> b)"

definition configure_builder ::
  "('bl, 'po, 'sd, 'so, 'pr) h2_builder_api \<Rightarrow> ('po, 'sd, 'so, 'pr) http2_options \<Rightarrow> 'bl" where
  "configure_builder H o' =
     (let b = hb_default H;
          b = hb_initial_max_send_streams H b (h2o_initial_max_send_streams o');
          b = hb_initial_window_size H b (h2o_initial_window_size o');
          b = hb_initial_connection_window_size H b (h2o_initial_conn_window_size o');
          b = hb_max_send_buffer_size H b (h2o_max_send_buffer_size o');
          b = if_some (h2o_initial_stream_id o') (hb_initial_stream_id H) b;
          b = if_some (h2o_max_pending_accept_reset_streams o') (hb_max_pending_accept_reset_streams H) b;
          b = if_some (h2o_max_concurrent_reset_streams o') (hb_max_concurrent_reset_streams H) b;
          b = if_some (h2o_max_concurrent_streams o') (hb_max_concurrent_streams H) b;
          b = if_some (h2o_max_header_list_size o') (hb_max_header_list_size H) b;
          b = if_some (h2o_enable_push o') (hb_enable_push H) b;
          b = if_some (h2o_max_frame_size o') (hb_max_frame_size H) b;
          b = if_some (h2o_header_table_size o') (hb_header_table_size H) b;
          b = if_some (h2o_enable_connect_protocol o') (hb_enable_connect_protocol H) b;
          b = if_some (h2o_no_rfc7540_priorities o') (hb_no_rfc7540_priorities H) b;
          b = if_some (h2o_settings_order o') (hb_settings_order H) b;
          b = if_some (h2o_headers_stream_dependency o') (hb_headers_stream_dependency H) b;
          b = if_some (h2o_headers_pseudo_order o') (hb_headers_pseudo_order H) b;
          b = if_some (h2o_priorities o') (hb_priorities H) b in
      b)"

definition ping_config_of :: "('po, 'sd, 'so, 'pr) http2_options \<Rightarrow> config" where
  "ping_config_of o' = config_new (h2o_adaptive_window o') (h2o_initial_window_size o') (h2o_keep_alive_interval o')
     (h2o_keep_alive_timeout o') (h2o_keep_alive_while_idle o')"

section \<open>Properties\<close>

definition http2_options_ok :: "('po, 'sd, 'so, 'pr) http2_options \<Rightarrow> bool" where
  "http2_options_ok o' \<longleftrightarrow> unat (h2o_max_send_buffer_size o') < 2 ^ 32 \<and>
     (h2o_adaptive_window o' \<longrightarrow> h2o_initial_window_size o' = SPEC_WINDOW_SIZE \<and> h2o_initial_conn_window_size o' = SPEC_WINDOW_SIZE)"

lemmas h2_setter_defs = h2_initial_window_size_def h2_initial_connection_window_size_def
  h2_initial_max_send_streams_def h2_initial_stream_id_def h2_adaptive_window_def
  h2_max_frame_size_def h2_max_header_list_size_def h2_header_table_size_def
  h2_max_concurrent_streams_def h2_keep_alive_interval_def h2_keep_alive_timeout_def
  h2_keep_alive_while_idle_def h2_enable_push_def h2_enable_connect_protocol_def
  h2_no_rfc7540_priorities_def h2_max_concurrent_reset_streams_def
  h2_max_pending_accept_reset_streams_def h2_headers_stream_dependency_def
  h2_headers_pseudo_order_def h2_settings_order_def h2_priorities_def h2_max_send_buf_size_def

lemma h2_built_ok: "h2_built o' \<Longrightarrow> http2_options_ok o'"
  by (induction rule: h2_built.induct)
    (auto simp: http2_options_ok_def h2_setter_defs http2_options_builder_def http2_options_default_def
      DEFAULT_MAX_SEND_BUF_SIZE_def Let_def split: option.splits if_splits)

text \<open>
  C40. Options that the builder can build are consistent, whatever the order of the setters: a per-stream send
  buffer fits into 32 bits (a larger one panics in the setter), and with an adaptive window the
  bandwidth estimate starts from the very window that the connection and its streams announce, the
  one of the specification. Pings are enabled exactly when one of their two uses is.
\<close>

theorem http2_options_consistent:
  assumes "h2_built o'"
  shows "unat (h2o_max_send_buffer_size o') < 2 ^ 32 \<and>
    bdp_initial_window (ping_config_of o') = (if h2o_adaptive_window o' then Some SPEC_WINDOW_SIZE else None) \<and>
    (h2o_adaptive_window o' \<longrightarrow> h2o_initial_window_size o' = SPEC_WINDOW_SIZE \<and>
       h2o_initial_conn_window_size o' = SPEC_WINDOW_SIZE) \<and>
    is_enabled (ping_config_of o') = (h2o_adaptive_window o' \<or> h2o_keep_alive_interval o' \<noteq> None)"
  using h2_built_ok [OF assms]
  by (auto simp: http2_options_ok_def ping_config_of_def config_new_def is_enabled_def)

theorem http2_options_consistent_witness:
  "bdp_initial_window (ping_config_of (h2_adaptive_window (h2_initial_window_size
     (http2_options_builder :: (unit, unit, unit, unit) http2_options) (Some 1)) True)) = Some SPEC_WINDOW_SIZE"
proof -
  have "h2_built (h2_adaptive_window (h2_initial_window_size
      (http2_options_builder :: (unit, unit, unit, unit) http2_options) (Some 1)) True)"
    by (intro h2_built.intros)
  from http2_options_consistent [OF this] show ?thesis
    by (simp add: h2_adaptive_window_def Let_def)
qed

end
