(* ===== verification/H2_Pipe.thy ===== *)
theory H2_Pipe
  imports Dispatcher
begin

text \<open>
  \<open>SendBuf\<close> and \<open>PipeToSendStream\<close> of \<open>proto/http2.rs\<close>: the task that sends the body of a request over
  an HTTP/2 stream, within the flow-control window of the peer.

  \<open>http2::SendStream\<close> is a parameter (\<open>send_stream_api\<close>), the body is the parameter \<open>user_body\<close> and its
  data buffers are the \<open>buf_ops\<close> of \<open>Bufs\<close>. A reason code is its number. The loop of the poll is an
  iteration of a turn; a loop that does not end is \<open>None\<close>.
\<close>

section \<open>SendBuf\<close>

datatype 'b send_buf = SendBufBuf 'b | SendBufCursor bytes | SendBufNone

fun send_buf_remaining :: "'b buf_ops \<Rightarrow> 'b send_buf \<Rightarrow> nat" where
  "send_buf_remaining ops (SendBufBuf b) = b_remaining ops b"
| "send_buf_remaining ops (SendBufCursor c) = b_remaining bytes_ops c"
| "send_buf_remaining ops SendBufNone = 0"

fun send_buf_chunk :: "'b buf_ops \<Rightarrow> 'b send_buf \<Rightarrow> bytes" where
  "send_buf_chunk ops (SendBufBuf b) = b_chunk ops b"
| "send_buf_chunk ops (SendBufCursor c) = b_chunk bytes_ops c"
| "send_buf_chunk ops SendBufNone = []"

fun send_buf_advance :: "'b buf_ops \<Rightarrow> 'b send_buf \<Rightarrow> nat \<Rightarrow> 'b send_buf rust" where
  "send_buf_advance ops (SendBufBuf b) n = rust_bind (b_advance ops b n) (\<lambda>b. Return (SendBufBuf b))"
| "send_buf_advance ops (SendBufCursor c) n = rust_bind (b_advance bytes_ops c n) (\<lambda>c. Return (SendBufCursor c))"
| "send_buf_advance ops SendBufNone n = Return SendBufNone"

fun send_buf_vectored :: "'b buf_ops \<Rightarrow> 'b send_buf \<Rightarrow> nat \<Rightarrow> bytes list" where
  "send_buf_vectored ops (SendBufBuf b) n = b_chunks_vectored ops b n"
| "send_buf_vectored ops (SendBufCursor c) n = b_chunks_vectored bytes_ops c n"
| "send_buf_vectored ops SendBufNone n = []"

definition send_buf_ops :: "'b buf_ops \<Rightarrow> 'b send_buf buf_ops" where
  "send_buf_ops ops =
     \<lparr>b_remaining = send_buf_remaining ops, b_chunk = send_buf_chunk ops, b_advance = send_buf_advance ops,
      b_chunks_vectored = send_buf_vectored ops\<rparr>"

fun send_buf_view :: "('b \<Rightarrow> bytes) \<Rightarrow> 'b send_buf \<Rightarrow> bytes" where
  "send_buf_view view (SendBufBuf b) = view b"
| "send_buf_view view (SendBufCursor c) = c"
| "send_buf_view view SendBufNone = []"

fun send_buf_ok :: "('b \<Rightarrow> bool) \<Rightarrow> 'b send_buf \<Rightarrow> bool" where
  "send_buf_ok ok (SendBufBuf b) = ok b"
| "send_buf_ok ok _ = True"

section \<open>SendStream\<close>

record ('s, 'b, 'h) send_stream_api =
  ss_poll_reset :: "'s \<Rightarrow> (h2_error + nat) poll \<times> 's"
  ss_capacity :: "'s \<Rightarrow> nat"
  ss_poll_capacity :: "'s \<Rightarrow> (h2_error + nat) option poll \<times> 's"
  ss_reserve_capacity :: "'s \<Rightarrow> nat \<Rightarrow> 's"
  ss_send_data :: "'s \<Rightarrow> 'b send_buf \<Rightarrow> bool \<Rightarrow> (h2_error + unit) \<times> 's"
  ss_send_trailers :: "'s \<Rightarrow> 'h \<Rightarrow> (h2_error + unit) \<times> 's"
  ss_send_reset :: "'s \<Rightarrow> nat \<Rightarrow> 's"

definition h2_from_reason :: "nat \<Rightarrow> h2_error" where
  "h2_from_reason r = H2Error (Some r) None"

definition body_write_h2 :: "h2_error \<Rightarrow> error" where
  "body_write_h2 e = new_body_write (CauseH2 e)"

text \<open>\<open>SendStreamExt\<close>.\<close>

definition on_user_err :: "('s, 'b, 'h) send_stream_api \<Rightarrow> cause \<Rightarrow> 's \<Rightarrow> error \<times> 's" where
  "on_user_err S e s = (let err = new_user_body e in (err, ss_send_reset S s (h2_reason err)))"

definition send_eos_frame :: "('s, 'b, 'h) send_stream_api \<Rightarrow> 's \<Rightarrow> (error + unit) \<times> 's" where
  "send_eos_frame S s =
     (case ss_send_data S s SendBufNone True of
        (Inl e, s) \<Rightarrow> (Inl (body_write_h2 e), s)
      | (Inr u, s) \<Rightarrow> (Inr (), s))"

section \<open>PipeToSendStream\<close>

record ('bd, 's, 'b) pipe =
  pipe_stream :: 'bd
  pipe_body_tx :: 's
  pipe_data_done :: bool
  pipe_buffered :: "('b \<times> bool) option"

definition pipe_new :: "'bd \<Rightarrow> 's \<Rightarrow> ('bd, 's, 'b) pipe" where
  "pipe_new stream tx = \<lparr>pipe_stream = stream, pipe_body_tx = tx, pipe_data_done = False, pipe_buffered = None\<rparr>"

definition pipe_send_reset :: "('s, 'b, 'h) send_stream_api \<Rightarrow> nat \<Rightarrow> ('bd, 's, 'b) pipe \<Rightarrow> ('bd, 's, 'b) pipe" where
  "pipe_send_reset S reason p = p\<lparr>pipe_body_tx := ss_send_reset S (pipe_body_tx p) reason\<rparr>"

text \<open>The loop that waits until the stream has some capacity.\<close>

partial_function (option) wait_capacity ::
  "('s, 'b, 'h) send_stream_api \<Rightarrow> 's \<Rightarrow> ('s \<times> (error + unit) poll) option" where
  "wait_capacity S s =
     (if ss_capacity S s \<noteq> 0 then Some (s, Ready (Inr ()))
      else case ss_poll_capacity S s of
        (Pending, s) \<Rightarrow> Some (s, Pending)
      | (Panicked m, s) \<Rightarrow> Some (s, Panicked m)
      | (Ready (Some (Inr n)), s) \<Rightarrow> if n = 0 then wait_capacity S s else Some (s, Ready (Inr ()))
      | (Ready (Some (Inl e)), s) \<Rightarrow> Some (s, Ready (Inl (body_write_h2 e)))
      | (Ready None, s) \<Rightarrow>
          Some (s, Ready (Inl (new_body_write (CauseMessage ''send stream capacity unexpectedly closed'')))))"

text \<open>Sending one data frame; the last one ends the pipe.\<close>

definition pipe_send_data ::
  "('s, 'b, 'h) send_stream_api \<Rightarrow> 'b \<Rightarrow> bool \<Rightarrow> ('bd, 's, 'b) pipe \<Rightarrow>
   ('bd, 's, 'b) pipe \<times> (error + unit) poll turn" where
  "pipe_send_data S data is_eos p =
     (case ss_send_data S (pipe_body_tx p) (SendBufBuf data) is_eos of
        (Inl e, s) \<Rightarrow> (p\<lparr>pipe_body_tx := s\<rparr>, Done (Ready (Inl (body_write_h2 e))))
      | (Inr u, s) \<Rightarrow> (p\<lparr>pipe_body_tx := s\<rparr>, if is_eos then Done (Ready (Inr ())) else Again))"

text \<open>The chunk that waits for capacity.\<close>

definition pipe_ship ::
  "('s, 'b, 'h) send_stream_api \<Rightarrow> 'b \<times> bool \<Rightarrow> ('bd, 's, 'b) pipe \<Rightarrow>
   (('bd, 's, 'b) pipe \<times> (error + unit) poll turn) option" where
  "pipe_ship S peeked p =
     (case wait_capacity S (pipe_body_tx p) of
        None \<Rightarrow> None
      | Some (s, Ready (Inr u)) \<Rightarrow>
          Some (pipe_send_data S (fst peeked) (snd peeked) (p\<lparr>pipe_body_tx := s, pipe_buffered := None\<rparr>))
      | Some (s, r) \<Rightarrow> Some (p\<lparr>pipe_body_tx := s\<rparr>, Done r))"

text \<open>The next frame of the body.\<close>

definition pipe_next ::
  "'b buf_ops \<Rightarrow> ('s, 'b, 'h) send_stream_api \<Rightarrow> ('bd, 'b, 'h) user_body \<Rightarrow> ('bd, 's, 'b) pipe \<Rightarrow>
   ('bd, 's, 'b) pipe \<times> (error + unit) poll turn" where
  "pipe_next ops S U p =
     (case ub_poll_frame U (pipe_stream p) of (r, bd) \<Rightarrow>
        let p = p\<lparr>pipe_stream := bd\<rparr>; s = pipe_body_tx p in
        case r of
          Pending \<Rightarrow> (p, Done Pending)
        | Panicked m \<Rightarrow> (p, Done (Panicked m))
        | Ready (Some (Inr (UserData chunk))) \<Rightarrow>
            (let is_eos = ub_is_end_stream U bd; len = b_remaining ops chunk in
             if len = 0 then pipe_send_data S chunk is_eos p
             else (p\<lparr>pipe_body_tx := ss_reserve_capacity S s len, pipe_buffered := Some (chunk, is_eos)\<rparr>, Again))
        | Ready (Some (Inr (UserTrailers t))) \<Rightarrow>
            (case ss_send_trailers S (ss_reserve_capacity S s 0) t of
               (Inl e, s) \<Rightarrow> (p\<lparr>pipe_body_tx := s\<rparr>, Done (Ready (Inl (body_write_h2 e))))
             | (Inr u, s) \<Rightarrow> (p\<lparr>pipe_body_tx := s\<rparr>, Done (Ready (Inr ()))))
        | Ready (Some (Inr UserOther)) \<Rightarrow> (p, Again)
        | Ready (Some (Inl e)) \<Rightarrow>
            (case on_user_err S e s of (err, s) \<Rightarrow> (p\<lparr>pipe_body_tx := s\<rparr>, Done (Ready (Inl err))))
        | Ready None \<Rightarrow>
            (case send_eos_frame S s of (r, s) \<Rightarrow> (p\<lparr>pipe_body_tx := s\<rparr>, Done (Ready r))))"

definition pipe_turn ::
  "'b buf_ops \<Rightarrow> ('s, 'b, 'h) send_stream_api \<Rightarrow> ('bd, 'b, 'h) user_body \<Rightarrow> ('bd, 's, 'b) pipe \<Rightarrow>
   (('bd, 's, 'b) pipe \<times> (error + unit) poll turn) option" where
  "pipe_turn ops S U p =
     (case ss_poll_reset S (pipe_body_tx p) of (r, s) \<Rightarrow>
        let p = p\<lparr>pipe_body_tx := s\<rparr> in
        case r of
          Ready (Inl e) \<Rightarrow> Some (p, Done (Ready (Inl (body_write_h2 e))))
        | Ready (Inr reason) \<Rightarrow> Some (p, Done (Ready (Inl (body_write_h2 (h2_from_reason reason)))))
        | Panicked m \<Rightarrow> Some (p, Done (Panicked m))
        | Pending \<Rightarrow>
            (case pipe_buffered p of
               Some peeked \<Rightarrow> pipe_ship S peeked p
             | None \<Rightarrow> Some (pipe_next ops S U p)))"

partial_function (option) pipe_poll ::
  "'b buf_ops \<Rightarrow> ('s, 'b, 'h) send_stream_api \<Rightarrow> ('bd, 'b, 'h) user_body \<Rightarrow> ('bd, 's, 'b) pipe \<Rightarrow>
   (('bd, 's, 'b) pipe \<times> (error + unit) poll) option" where
  "pipe_poll ops S U p =
     (case pipe_turn ops S U p of
        None \<Rightarrow> None
      | Some (p, Done r) \<Rightarrow> Some (p, r)
      | Some (p, Again) \<Rightarrow> pipe_poll ops S U p)"

end
