(* ===== verification/H2_Pipe_Props.thy ===== *)
theory H2_Pipe_Props
  imports H2_Pipe
begin

text \<open>
  What \<open>PipeToSendStream\<close> does to its stream: it sends exactly the body, in order and each byte once,
  however often it has to wait for capacity, and ends the stream exactly when all of it was sent. A
  body that fails is never presented as complete.
\<close>

section \<open>Contracts\<close>

datatype 'h sent_event = SentData bytes bool | SentTrailers 'h | SentReset nat

text \<open>
  A stream keeps what was handed to it (\<open>trace\<close>); what it reports about resets and capacity does not
  change that. \<open>spurious\<close> bounds how often in a row it announces a capacity of zero.
\<close>

locale send_stream =
  fixes S :: "('s, 'b, 'h) send_stream_api" and trace :: "'s \<Rightarrow> 'h sent_event list"
    and view :: "'b \<Rightarrow> bytes" and spurious :: "'s \<Rightarrow> nat"
  assumes send_data: "ss_send_data S s sb eos = (res, s') \<Longrightarrow>
      trace s' = trace s @ (case res of Inr u \<Rightarrow> [SentData (send_buf_view view sb) eos] | Inl e \<Rightarrow> [])"
    and send_trailers: "ss_send_trailers S s t = (res, s') \<Longrightarrow>
      trace s' = trace s @ (case res of Inr u \<Rightarrow> [SentTrailers t] | Inl e \<Rightarrow> [])"
    and send_reset: "trace (ss_send_reset S s reason) = trace s @ [SentReset reason]"
    and reserve: "trace (ss_reserve_capacity S s n) = trace s"
    and poll_reset: "ss_poll_reset S s = (x, s') \<Longrightarrow> trace s' = trace s \<and> \<not> is_panicked x"
    and poll_capacity: "ss_poll_capacity S s = (y, s') \<Longrightarrow> trace s' = trace s \<and> \<not> is_panicked y \<and>
      (y = Ready (Some (Inr 0)) \<longrightarrow> spurious s' < spurious s)"

text \<open>A body that yields the frames \<open>rest\<close> and says that it is at its end only when it is.\<close>

locale body_frames =
  fixes U :: "('bd, 'b, 'h) user_body" and rest :: "'bd \<Rightarrow> ('b, 'h) user_frame list"
  assumes poll_frame: "ub_poll_frame U bd = (z, bd') \<Longrightarrow>
      (case z of
         Ready (Some (Inr f)) \<Rightarrow> rest bd = f # rest bd'
       | Ready None \<Rightarrow> rest bd = []
       | Panicked m \<Rightarrow> False
       | _ \<Rightarrow> rest bd' = rest bd)"
    and end_stream: "ub_is_end_stream U bd \<Longrightarrow> rest bd = []"

section \<open>What a body is and what was sent\<close>

fun body_data :: "('b \<Rightarrow> bytes) \<Rightarrow> ('b, 'h) user_frame list \<Rightarrow> bytes" where
  "body_data view [] = []"
| "body_data view (UserData d # fs) = view d @ body_data view fs"
| "body_data view (UserTrailers t # fs) = []"
| "body_data view (UserOther # fs) = body_data view fs"

fun body_trailers :: "('b, 'h) user_frame list \<Rightarrow> 'h option" where
  "body_trailers [] = None"
| "body_trailers (UserTrailers t # fs) = Some t"
| "body_trailers (f # fs) = body_trailers fs"

fun sent_data :: "'h sent_event list \<Rightarrow> bytes" where
  "sent_data [] = []"
| "sent_data (SentData bs eos # es) = bs @ sent_data es"
| "sent_data (e # es) = sent_data es"

fun sent_trailers :: "'h sent_event list \<Rightarrow> 'h option" where
  "sent_trailers [] = None"
| "sent_trailers (SentTrailers t # es) = Some t"
| "sent_trailers (e # es) = sent_trailers es"

fun ends :: "'h sent_event \<Rightarrow> bool" where
  "ends (SentData bs eos) = eos"
| "ends (SentTrailers t) = True"
| "ends (SentReset r) = False"

definition unfinished :: "'h sent_event list \<Rightarrow> bool" where
  "unfinished es \<longleftrightarrow> (\<forall>e \<in> set es. \<not> ends e)"

definition finished :: "'h sent_event list \<Rightarrow> bool" where
  "finished es \<longleftrightarrow> (\<exists>xs e. es = xs @ [e] \<and> unfinished xs \<and> ends e)"

lemma sent_data_append [simp]: "sent_data (es @ fs) = sent_data es @ sent_data fs"
  by (induction es rule: sent_data.induct) auto

lemma sent_trailers_append [simp]:
  "sent_trailers (es @ fs) = (case sent_trailers es of Some t \<Rightarrow> Some t | None \<Rightarrow> sent_trailers fs)"
  by (induction es rule: sent_trailers.induct) auto

lemma unfinished_simps [simp]:
  "unfinished []" "unfinished (e # es) \<longleftrightarrow> \<not> ends e \<and> unfinished es"
  "unfinished (es @ fs) \<longleftrightarrow> unfinished es \<and> unfinished fs"
  by (auto simp: unfinished_def)

lemma unfinished_no_trailers: "unfinished es \<Longrightarrow> sent_trailers es = None"
  by (induction es rule: sent_trailers.induct) auto

lemma finished_snoc [simp]: "finished (es @ [e]) \<longleftrightarrow> unfinished es \<and> ends e"
  by (auto simp: finished_def)

section \<open>One turn\<close>

locale piping = st: send_stream S trace view spurious + bf: body_frames U rest
  for S :: "('s, 'b, 'h) send_stream_api" and trace :: "'s \<Rightarrow> 'h sent_event list" and view :: "'b \<Rightarrow> bytes"
    and spurious :: "'s \<Rightarrow> nat" and U :: "('bd, 'b, 'h) user_body" and rest :: "'bd \<Rightarrow> ('b, 'h) user_frame list"

definition pipe_left ::
  "('b \<Rightarrow> bytes) \<Rightarrow> ('bd \<Rightarrow> ('b, 'h) user_frame list) \<Rightarrow> ('bd, 's, 'b) pipe \<Rightarrow> bytes" where
  "pipe_left view rest p =
     (case pipe_buffered p of None \<Rightarrow> [] | Some (d, eos) \<Rightarrow> view d) @ body_data view (rest (pipe_stream p))"

text \<open>
  The invariant, for a pipe whose stream had the trace \<open>t0\<close> and whose body had the frames \<open>fs\<close> at the
  start: what was sent since and what is left make up the body.
\<close>

definition pipe_ok ::
  "('s \<Rightarrow> 'h sent_event list) \<Rightarrow> ('b \<Rightarrow> bytes) \<Rightarrow> ('bd \<Rightarrow> ('b, 'h) user_frame list) \<Rightarrow>
   'h sent_event list \<Rightarrow> ('b, 'h) user_frame list \<Rightarrow> ('bd, 's, 'b) pipe \<Rightarrow> bool" where
  "pipe_ok trace view rest t0 fs p \<longleftrightarrow>
     (\<exists>es. trace (pipe_body_tx p) = t0 @ es \<and> unfinished es \<and>
        sent_data es @ pipe_left view rest p = body_data view fs \<and>
        body_trailers (rest (pipe_stream p)) = body_trailers fs \<and>
        (\<forall>d. pipe_buffered p = Some (d, True) \<longrightarrow> rest (pipe_stream p) = []))"

text \<open>What the end of a poll means for the stream.\<close>

definition pipe_result ::
  "('s \<Rightarrow> 'h sent_event list) \<Rightarrow> ('b \<Rightarrow> bytes) \<Rightarrow> ('bd \<Rightarrow> ('b, 'h) user_frame list) \<Rightarrow>
   'h sent_event list \<Rightarrow> ('b, 'h) user_frame list \<Rightarrow> ('bd, 's, 'b) pipe \<Rightarrow> (error + unit) poll \<Rightarrow> bool" where
  "pipe_result trace view rest t0 fs p r =
     (case r of
        Pending \<Rightarrow> pipe_ok trace view rest t0 fs p
      | Panicked m \<Rightarrow> False
      | Ready (Inr u) \<Rightarrow> (\<exists>es. trace (pipe_body_tx p) = t0 @ es \<and> finished es \<and>
          sent_data es = body_data view fs \<and> sent_trailers es = body_trailers fs)
      | Ready (Inl e) \<Rightarrow> (\<exists>es left. trace (pipe_body_tx p) = t0 @ es \<and> unfinished es \<and>
          sent_data es @ left = body_data view fs))"

context piping
begin

abbreviation ok where "ok \<equiv> pipe_ok trace view rest"
abbreviation result where "result \<equiv> pipe_result trace view rest"

definition after_turn :: "'h sent_event list \<Rightarrow> ('b, 'h) user_frame list \<Rightarrow> ('bd, 's, 'b) pipe \<Rightarrow> (error + unit) poll turn \<Rightarrow> bool" where
  "after_turn t0 fs p r = (case r of Again \<Rightarrow> ok t0 fs p | Done r \<Rightarrow> result t0 fs p r)"

lemma okE:
  assumes "ok t0 fs p"
  obtains es where "trace (pipe_body_tx p) = t0 @ es" "unfinished es"
    "sent_data es @ pipe_left view rest p = body_data view fs"
    "body_trailers (rest (pipe_stream p)) = body_trailers fs"
    "\<forall>d. pipe_buffered p = Some (d, True) \<longrightarrow> rest (pipe_stream p) = []"
  using assms by (auto simp: pipe_ok_def)

text \<open>Failing is always possible: what was sent is a beginning of the body.\<close>

lemma fails:
  assumes "ok t0 fs p" "trace (pipe_body_tx p') = trace (pipe_body_tx p)"
  shows "result t0 fs p' (Ready (Inl e))"
  using assms by (auto simp: pipe_result_def elim!: okE)

lemma same_trace:
  assumes "ok t0 fs p" "trace s = trace (pipe_body_tx p)"
  shows "ok t0 fs (p\<lparr>pipe_body_tx := s\<rparr>)"
  using assms by (simp add: pipe_ok_def pipe_left_def)

lemma send_data_ok:
  assumes "ok t0 fs (p\<lparr>pipe_buffered := Some (d, eos)\<rparr>)" "pipe_send_data S d eos (p\<lparr>pipe_buffered := None\<rparr>) = (p', r)"
  shows "after_turn t0 fs p' r"
proof -
  from assms(1) obtain es where es: "trace (pipe_body_tx p) = t0 @ es" "unfinished es"
    "sent_data es @ view d @ body_data view (rest (pipe_stream p)) = body_data view fs"
    "body_trailers (rest (pipe_stream p)) = body_trailers fs" "eos \<longrightarrow> rest (pipe_stream p) = []"
    by (auto simp: pipe_left_def elim!: okE)
  obtain res s where sd: "ss_send_data S (pipe_body_tx p) (SendBufBuf d) eos = (res, s)" by fastforce
  note t = st.send_data [OF sd]
  show ?thesis
  proof (cases res)
    case (Inl e)
    with assms(2) sd t es show ?thesis
      by (auto simp: pipe_send_data_def after_turn_def pipe_result_def)
  next
    case (Inr u)
    have tr: "trace s = t0 @ es @ [SentData (view d) eos]" using t Inr es(1) by simp
    show ?thesis
    proof (cases eos)
      case True
      have "result t0 fs (p\<lparr>pipe_buffered := None, pipe_body_tx := s\<rparr>) (Ready (Inr ()))"
        using es True tr unfinished_no_trailers [OF es(2)]
        by (auto simp: pipe_result_def intro!: exI [of _ "es @ [SentData (view d) True]"])
      with assms(2) sd Inr True show ?thesis by (auto simp: pipe_send_data_def after_turn_def)
    next
      case False
      have "ok t0 fs (p\<lparr>pipe_buffered := None, pipe_body_tx := s\<rparr>)"
        using es False tr by (auto simp: pipe_ok_def pipe_left_def intro!: exI [of _ "es @ [SentData (view d) False]"])
      with assms(2) sd Inr False show ?thesis by (auto simp: pipe_send_data_def after_turn_def)
    qed
  qed
qed

lemma wait_capacity_ok: "\<exists>s' r. wait_capacity S s = Some (s', r) \<and> trace s' = trace s \<and> \<not> is_panicked r"
proof (induction "spurious s" arbitrary: s rule: less_induct)
  case less
  obtain y s1 where y: "ss_poll_capacity S s = (y, s1)" by fastforce
  note c = st.poll_capacity [OF y]
  show ?case
  proof (cases "ss_capacity S s = 0 \<and> y = Ready (Some (Inr 0))")
    case True
    with c less.hyps [of s1] obtain s' r where "wait_capacity S s1 = Some (s', r)" "trace s' = trace s" "\<not> is_panicked r"
      by auto
    with True y show ?thesis by (subst wait_capacity.simps) auto
  next
    case False
    with c y show ?thesis
      by (subst wait_capacity.simps) (auto split: poll.splits option.splits sum.splits)
  qed
qed

lemma pipe_ship_ok:
  assumes "ok t0 fs p" "pipe_buffered p = Some peeked"
  shows "\<exists>p' r. pipe_ship S peeked p = Some (p', r) \<and> after_turn t0 fs p' r \<and>
    (r = Again \<longrightarrow> pipe_stream p' = pipe_stream p \<and> pipe_buffered p' = None)"
proof -
  obtain s r where w: "wait_capacity S (pipe_body_tx p) = Some (s, r)" "trace s = trace (pipe_body_tx p)" "\<not> is_panicked r"
    using wait_capacity_ok by blast
  let ?p = "p\<lparr>pipe_body_tx := s\<rparr>"
  have k: "ok t0 fs ?p" using assms(1) w(2) by (rule same_trace)
  consider "r = Pending" | e where "r = Ready (Inl e)" | "r = Ready (Inr ())"
    using w(3) by (cases r) (auto, metis sum.exhaust old.unit.exhaust)
  then show ?thesis
  proof cases
    case 1
    with w k show ?thesis by (simp add: pipe_ship_def after_turn_def pipe_result_def)
  next
    case (2 e)
    with w fails [OF assms(1), of ?p e] show ?thesis by (simp add: pipe_ship_def after_turn_def)
  next
    case 3
    obtain d eos where pk: "peeked = (d, eos)" by fastforce
    obtain p' r' where sd: "pipe_send_data S d eos (?p\<lparr>pipe_buffered := None\<rparr>) = (p', r')" by fastforce
    have "ok t0 fs (?p\<lparr>pipe_buffered := Some (d, eos)\<rparr>)" using k assms(2) pk by (simp add: pipe_ok_def pipe_left_def)
    from send_data_ok [OF this sd] 3 w sd pk show ?thesis
      by (auto simp: pipe_ship_def pipe_send_data_def split: prod.splits sum.splits if_splits)
  qed
qed

end

context piping
begin

lemma pipe_next_ok:
  assumes "ok t0 fs p" "pipe_buffered p = None" "pipe_next ops S U p = (p', r)"
  shows "after_turn t0 fs p' r \<and> (r = Again \<longrightarrow> length (rest (pipe_stream p')) < length (rest (pipe_stream p)))"
proof -
  obtain z bd where z: "ub_poll_frame U (pipe_stream p) = (z, bd)" by fastforce
  note f = bf.poll_frame [OF z]
  let ?p = "p\<lparr>pipe_stream := bd\<rparr>"
  obtain es where es: "trace (pipe_body_tx p) = t0 @ es" "unfinished es"
    "sent_data es @ body_data view (rest (pipe_stream p)) = body_data view fs"
    "body_trailers (rest (pipe_stream p)) = body_trailers fs"
    using assms(1,2) by (auto simp: pipe_left_def elim!: okE)
  note no_tr = unfinished_no_trailers [OF es(2)]
  consider "z = Pending" | "z = Ready None" | e where "z = Ready (Some (Inl e))" | chunk where "z = Ready (Some (Inr (UserData chunk)))"
    | t where "z = Ready (Some (Inr (UserTrailers t)))" | "z = Ready (Some (Inr UserOther))"
    using f by (cases z) (auto, metis option.exhaust sum.exhaust user_frame.exhaust)
  then show ?thesis
  proof cases
    case 1
    with f es assms(2,3) z show ?thesis
      by (auto simp: pipe_next_def Let_def after_turn_def pipe_result_def pipe_ok_def pipe_left_def)
  next
    case 2
    obtain res s where sd: "ss_send_data S (pipe_body_tx p) SendBufNone True = (res, s)" by fastforce
    from st.send_data [OF sd] 2 f es assms(3) z sd no_tr show ?thesis
      by (cases res) (auto simp: pipe_next_def Let_def after_turn_def pipe_result_def send_eos_frame_def
          intro!: exI [of _ "es @ [SentData [] True]"])
  next
    case (3 e)
    with es assms(3) z st.send_reset show ?thesis
      by (auto simp: pipe_next_def Let_def after_turn_def pipe_result_def on_user_err_def
          intro!: exI [of _ "es @ [SentReset (h2_reason (new_user_body e))]"])
  next
    case (4 chunk)
    let ?eos = "ub_is_end_stream U bd"
    have k: "ok t0 fs (?p\<lparr>pipe_body_tx := s, pipe_buffered := Some (chunk, ?eos)\<rparr>)" if "trace s = trace (pipe_body_tx p)" for s
      using es f 4 that bf.end_stream by (auto simp: pipe_ok_def pipe_left_def)
    show ?thesis
    proof (cases "b_remaining ops chunk = 0")
      case True
      have unbuffered: "?p\<lparr>pipe_buffered := None\<rparr> = ?p" using assms(2) by (cases p) simp
      with True have sd: "pipe_send_data S chunk ?eos (?p\<lparr>pipe_buffered := None\<rparr>) = (p', r)"
        using assms(3) z 4 unbuffered by (simp add: pipe_next_def Let_def)
      then have "pipe_stream p' = bd" by (auto simp: pipe_send_data_def split: prod.splits sum.splits)
      moreover have "ok t0 fs (?p\<lparr>pipe_buffered := Some (chunk, ?eos)\<rparr>)" using k [of "pipe_body_tx p"] by simp
      ultimately show ?thesis using send_data_ok [OF _ sd] f 4 by simp
    next
      case False
      with assms(3) z 4 f k [of "ss_reserve_capacity S (pipe_body_tx p) (b_remaining ops chunk)"] show ?thesis
        by (auto simp: pipe_next_def Let_def after_turn_def st.reserve)
    qed
  next
    case (5 t)
    obtain res s where sd: "ss_send_trailers S (ss_reserve_capacity S (pipe_body_tx p) 0) t = (res, s)" by fastforce
    from st.send_trailers [OF sd] 5 f es assms(3) z sd no_tr show ?thesis
      by (cases res) (auto simp: pipe_next_def Let_def after_turn_def pipe_result_def st.reserve
          intro!: exI [of _ "es @ [SentTrailers t]"])
  next
    case 6
    with f es assms(2,3) z show ?thesis
      by (auto simp: pipe_next_def Let_def after_turn_def pipe_ok_def pipe_left_def)
  qed
qed

definition pipe_order :: "(('bd, 's, 'b) pipe \<times> ('bd, 's, 'b) pipe) set" where
  "pipe_order = measures [\<lambda>p. length (rest (pipe_stream p)), \<lambda>p. if pipe_buffered p = None then 0 else 1]"

lemma pipe_turn_ok:
  assumes "ok t0 fs p"
  shows "\<exists>p' r. pipe_turn ops S U p = Some (p', r) \<and> after_turn t0 fs p' r \<and> (r = Again \<longrightarrow> (p', p) \<in> pipe_order)"
proof -
  obtain x s where x: "ss_poll_reset S (pipe_body_tx p) = (x, s)" by fastforce
  note c = st.poll_reset [OF x]
  let ?p = "p\<lparr>pipe_body_tx := s\<rparr>"
  have k: "ok t0 fs ?p" using assms c by (intro same_trace) auto
  consider v where "x = Ready v" | "x = Pending" using c by (cases x) auto
  then show ?thesis
  proof cases
    case (1 v)
    with x fails [OF k, of ?p] show ?thesis by (cases v) (simp_all add: pipe_turn_def after_turn_def)
  next
    case 2
    show ?thesis
    proof (cases "pipe_buffered p")
      case (Some peeked)
      with pipe_ship_ok [OF k, of peeked] obtain p' r where
        s: "pipe_ship S peeked ?p = Some (p', r)" "after_turn t0 fs p' r"
          "r = Again \<longrightarrow> pipe_stream p' = pipe_stream p \<and> pipe_buffered p' = None" by auto
      with Some 2 x show ?thesis
        by (intro exI [of _ p'] exI [of _ r]) (simp add: pipe_turn_def pipe_order_def)
    next
      case None
      obtain p' r where n: "pipe_next ops S U ?p = (p', r)" by fastforce
      with pipe_next_ok [OF k _ n] None 2 x show ?thesis
        by (auto simp: pipe_turn_def pipe_order_def)
    qed
  qed
qed

lemma wf_pipe_order: "wf pipe_order"
  by (simp add: pipe_order_def)

lemma pipe_poll_ok: "ok t0 fs p \<Longrightarrow> \<exists>p' r. pipe_poll ops S U p = Some (p', r) \<and> result t0 fs p' r"
proof (induction p rule: wf_induct_rule [OF wf_pipe_order])
  case (1 p)
  from pipe_turn_ok [OF 1(2), of ops] obtain p1 r1 where
    t: "pipe_turn ops S U p = Some (p1, r1)" "after_turn t0 fs p1 r1" "r1 = Again \<longrightarrow> (p1, p) \<in> pipe_order" by blast
  show ?case
  proof (cases r1)
    case Again
    with t 1(1) [of p1] obtain p' r where "pipe_poll ops S U p1 = Some (p', r)" "result t0 fs p' r"
      by (auto simp: after_turn_def)
    with t(1) Again show ?thesis by (subst pipe_poll.simps) simp
  next
    case (Done r)
    with t show ?thesis by (subst pipe_poll.simps) (simp add: after_turn_def)
  qed
qed

end

section \<open>Executions\<close>

text \<open>
  A pipe is polled until it is ready. Between two polls the stream may get a larger window or a reset
  and the body may get more to give; neither changes what was sent or what the body consists of.
\<close>

inductive pipe_run ::
  "'b buf_ops \<Rightarrow> ('s, 'b, 'h) send_stream_api \<Rightarrow> ('bd, 'b, 'h) user_body \<Rightarrow> ('s \<Rightarrow> 'h sent_event list) \<Rightarrow>
   ('bd \<Rightarrow> ('b, 'h) user_frame list) \<Rightarrow> ('bd, 's, 'b) pipe \<Rightarrow> ('bd, 's, 'b) pipe \<Rightarrow> bool"
  for ops S U trace rest p0 where
  start: "pipe_run ops S U trace rest p0 p0"
| poll: "pipe_run ops S U trace rest p0 p \<Longrightarrow> pipe_poll ops S U p = Some (p', Pending) \<Longrightarrow>
    trace s = trace (pipe_body_tx p') \<Longrightarrow> rest bd = rest (pipe_stream p') \<Longrightarrow>
    pipe_run ops S U trace rest p0 (p'\<lparr>pipe_body_tx := s, pipe_stream := bd\<rparr>)"

lemma pipe_new_ok: "pipe_ok trace view rest (trace s) (rest bd) (pipe_new bd s)"
  by (simp add: pipe_ok_def pipe_new_def pipe_left_def)

context piping
begin

lemma pipe_run_ok:
  assumes "pipe_run ops S U trace rest p0 p" "ok t0 fs p0"
  shows "ok t0 fs p"
  using assms(1)
proof (induction rule: pipe_run.induct)
  case start
  show ?case by (rule assms(2))
next
  case (poll p p' s bd)
  from pipe_poll_ok [OF poll.IH, of ops] poll.hyps(2) have "ok t0 fs p'" by (auto simp: pipe_result_def)
  with poll.hyps(3,4) show ?case by (simp add: pipe_ok_def pipe_left_def)
qed

end

section \<open>SendBuf is a buffer\<close>

lemma send_buf_buf:
  assumes "buf ops ok view"
  shows "buf (send_buf_ops ops) (send_buf_ok ok) (send_buf_view view)"
  unfolding buf_iff_at
proof (intro allI impI)
  fix sb
  assume s: "send_buf_ok ok sb"
  show "buf_at (send_buf_ops ops) (send_buf_ok ok) (send_buf_view view) sb"
  proof (cases sb)
    case (SendBufBuf b)
    with s assms have "buf_at ops ok view b" by (simp add: buf_iff_at)
    then show ?thesis unfolding SendBufBuf by (rule buf_at_wrap) (simp_all add: send_buf_ops_def)
  next
    case (SendBufCursor c)
    have "buf_at bytes_ops (\<lambda>_. True) (\<lambda>b. b) c" using bytes_buf.buf_axioms by (simp add: buf_iff_at)
    then show ?thesis unfolding SendBufCursor by (rule buf_at_wrap) (simp_all add: send_buf_ops_def)
  next
    case SendBufNone
    then show ?thesis by (simp add: buf_at_def send_buf_ops_def)
  qed
qed

interpretation send_buf_bytes: buf "send_buf_ops bytes_ops" "send_buf_ok (\<lambda>_. True)" "send_buf_view (\<lambda>b. b)"
  by (rule send_buf_buf [OF bytes_buf.buf_axioms])

section \<open>A simulated stream\<close>

text \<open>A trace, a script of capacities (\<open>None\<close>: not ready), and a body that is a list of frames.\<close>

type_synonym 'h sim_stream = "'h sent_event list \<times> nat option list"

definition sim_send :: "('h sim_stream, bytes, 'h) send_stream_api" where
  "sim_send =
     \<lparr>ss_poll_reset = (\<lambda>s. (Pending, s)), ss_capacity = (\<lambda>_. 0),
      ss_poll_capacity = (\<lambda>(t, cs). case cs of [] \<Rightarrow> (Ready (Some (Inr 1)), t, [])
         | None # cs \<Rightarrow> (Pending, t, cs) | Some n # cs \<Rightarrow> (Ready (Some (Inr n)), t, cs)),
      ss_reserve_capacity = (\<lambda>s n. s),
      ss_send_data = (\<lambda>(t, cs) b eos. (Inr (), t @ [SentData (send_buf_view (\<lambda>b. b) b) eos], cs)),
      ss_send_trailers = (\<lambda>(t, cs) h. (Inr (), t @ [SentTrailers h], cs)),
      ss_send_reset = (\<lambda>(t, cs) r. (t @ [SentReset r], cs))\<rparr>"

definition sim_user_body :: "((bytes, 'h) user_frame list, bytes, 'h) user_body" where
  "sim_user_body =
     \<lparr>ub_is_end_stream = (\<lambda>b. b = []), ub_size_exact = (\<lambda>_. None),
      ub_poll_frame = (\<lambda>b. case b of [] \<Rightarrow> (Ready None, []) | f # fs \<Rightarrow> (Ready (Some (Inr f)), fs))\<rparr>"

interpretation sim_pipe: piping sim_send fst "\<lambda>b. b" "\<lambda>s. length (snd s)" sim_user_body "\<lambda>b. b"
  by unfold_locales (auto simp: sim_send_def sim_user_body_def split: list.splits option.splits prod.splits if_splits)

section \<open>Properties\<close>

text \<open>
  C13. The body of an HTTP/2 request is sent exactly. Every poll of its pipe returns without a panic,
  however the stream grants capacity; when it succeeds, the stream was given the bytes of the body in
  order, each once, and its trailers if it has any, and exactly the last thing given to it ends it;
  when it fails, what was sent is a beginning of the body that nothing marks as complete.
\<close>

theorem pipe_sends_body:
  assumes "piping S trace view spurious U rest"
    and "pipe_run ops S U trace rest (pipe_new bd s) p"
  shows "\<exists>p' r. pipe_poll ops S U p = Some (p', r) \<and> \<not> is_panicked r \<and>
    (r = Ready (Inr ()) \<longrightarrow> (\<exists>es. trace (pipe_body_tx p') = trace s @ es \<and> finished es \<and>
       sent_data es = body_data view (rest bd) \<and> sent_trailers es = body_trailers (rest bd))) \<and>
    (\<forall>e. r = Ready (Inl e) \<longrightarrow> (\<exists>es left. trace (pipe_body_tx p') = trace s @ es \<and> unfinished es \<and>
       sent_data es @ left = body_data view (rest bd)))"
proof -
  have "pipe_ok trace view rest (trace s) (rest bd) p"
    using piping.pipe_run_ok [OF assms pipe_new_ok] .
  from piping.pipe_poll_ok [OF assms(1) this, of ops] obtain p' r where
    "pipe_poll ops S U p = Some (p', r)" "pipe_result trace view rest (trace s) (rest bd) p' r" by blast
  then show ?thesis by (intro exI [of _ p'] exI [of _ r]) (auto simp: pipe_result_def split: poll.splits)
qed

theorem pipe_sends_body_witness:
  "\<exists>p' r. pipe_poll bytes_ops sim_send sim_user_body (pipe_new [UserData ''hel'', UserData ''lo''] ([], [Some 0, Some 5])) = Some (p', r) \<and>
     \<not> is_panicked r"
  using pipe_sends_body [OF sim_pipe.piping_axioms pipe_run.start, of bytes_ops "[UserData ''hel'', UserData ''lo'']" "([], [Some 0, Some 5])"]
  by blast

end
