(* ===== verification/H2_Tunnel.thy ===== *)
theory H2_Tunnel
  imports H2_Pipe_Props Upgrade
begin

text \<open>
  \<open>H2Upgraded\<close> of \<open>proto/http2.rs\<close>: an HTTP/2 stream after a successful \<open>CONNECT\<close>, seen as a byte
  stream in both directions. The state of the pings, which reading records, is passed beside it.
  The two halves of the stream belong to the crate \<open>http2\<close> and are parameters.
\<close>

definition H2_STREAM_CLOSED :: nat where "H2_STREAM_CLOSED = 5"
definition H2_CANCEL :: nat where "H2_CANCEL = 8"

text \<open>\<open>h2_to_io_error\<close>; the \<open>http2::Error\<close> that \<open>io::Error::other\<close> carries is left out.\<close>

definition h2_to_io_error :: "h2_error \<Rightarrow> io_error" where
  "h2_to_io_error e = (case h2_error_io e of Some io \<Rightarrow> io | None \<Rightarrow> IoError OtherKind NoPayload)"

record ('s, 'r) h2_upgraded =
  hu_ping :: recorder
  hu_send :: 's
  hu_recv :: 'r
  hu_buf :: bytes

section \<open>Reading\<close>

text \<open>The loop that gets the next data frame: \<open>None\<close> is the end of the stream.\<close>

partial_function (option) h2_fill ::
  "('w, 't, 'sl, 'pp) ping_env \<Rightarrow> ('r, 'h) recv_stream_api \<Rightarrow> recorder \<Rightarrow> 'r \<Rightarrow> ('t, 'pp) shared \<Rightarrow> 'w \<Rightarrow>
   ('r \<times> ('t, 'pp) shared \<times> 'w \<times> (io_error + bytes option) poll) option" where
  "h2_fill E R ping recv sh w =
     (case rs_poll_data R recv of
        (Pending, recv) \<Rightarrow> Some (recv, sh, w, Pending)
      | (Panicked m, recv) \<Rightarrow> Some (recv, sh, w, Panicked m)
      | (Ready None, recv) \<Rightarrow> Some (recv, sh, w, Ready (Inr None))
      | (Ready (Some (Inr b)), recv) \<Rightarrow>
          if b = [] \<and> \<not> rs_is_end_stream R recv then h2_fill E R ping recv sh w
          else (case record_data E ping sh (of_nat (length b)) w of (sh, w) \<Rightarrow>
                  Some (recv, sh, w, Ready (Inr (Some b))))
      | (Ready (Some (Inl e)), recv) \<Rightarrow>
          Some (recv, sh, w, Ready
            (if h2_error_reason e = Some H2_NO_ERROR \<or> h2_error_reason e = Some H2_CANCEL then Inr None
             else if h2_error_reason e = Some H2_STREAM_CLOSED then Inl (IoError BrokenPipe NoPayload)
             else Inl (h2_to_io_error e))))"

definition h2_take_buf ::
  "('r, 'h) recv_stream_api \<Rightarrow> ('s, 'r) h2_upgraded \<Rightarrow> io_read_buf \<Rightarrow>
   ('s, 'r) h2_upgraded \<times> io_read_buf \<times> (io_error + unit) poll" where
  "h2_take_buf R u rb =
     (let cnt = min (length (hu_buf u)) (rb_remaining rb) in
      case put_slice rb (take cnt (hu_buf u)) of
        Panic m \<Rightarrow> (u, rb, Panicked m)
      | Return rb \<Rightarrow>
          (u\<lparr>hu_buf := drop cnt (hu_buf u), hu_recv := rs_release_capacity R (hu_recv u) cnt\<rparr>, rb, Ready (Inr ())))"

definition h2_poll_read ::
  "('w, 't, 'sl, 'pp) ping_env \<Rightarrow> ('r, 'h) recv_stream_api \<Rightarrow> ('s, 'r) h2_upgraded \<Rightarrow> ('t, 'pp) shared \<Rightarrow> 'w \<Rightarrow> io_read_buf \<Rightarrow>
   (('s, 'r) h2_upgraded \<times> ('t, 'pp) shared \<times> 'w \<times> io_read_buf \<times> (io_error + unit) poll) option" where
  "h2_poll_read E R u sh w rb =
     (if hu_buf u = [] then
        (case h2_fill E R (hu_ping u) (hu_recv u) sh w of
           None \<Rightarrow> None
         | Some (recv, sh, w, r) \<Rightarrow>
             (let u = u\<lparr>hu_recv := recv\<rparr> in
              case r of
                Pending \<Rightarrow> Some (u, sh, w, rb, Pending)
              | Panicked m \<Rightarrow> Some (u, sh, w, rb, Panicked m)
              | Ready (Inl e) \<Rightarrow> Some (u, sh, w, rb, Ready (Inl e))
              | Ready (Inr None) \<Rightarrow> Some (u, sh, w, rb, Ready (Inr ()))
              | Ready (Inr (Some b)) \<Rightarrow>
                  (case h2_take_buf R (u\<lparr>hu_buf := b\<rparr>) rb of (u, rb, r) \<Rightarrow> Some (u, sh, w, rb, r))))
      else (case h2_take_buf R u rb of (u, rb, r) \<Rightarrow> Some (u, sh, w, rb, r)))"

section \<open>Writing\<close>

text \<open>What a failed write or shutdown reports: the reset of the stream tells why.\<close>

definition h2_reset_error ::
  "('s, 'b, 'h) send_stream_api \<Rightarrow> ('s, 'r) h2_upgraded \<Rightarrow> (nat \<Rightarrow> (io_error + 'x) option) \<Rightarrow>
   ('s, 'r) h2_upgraded \<times> (io_error + 'x) poll" where
  "h2_reset_error S u known =
     (case ss_poll_reset S (hu_send u) of (r, s) \<Rightarrow>
        let u = u\<lparr>hu_send := s\<rparr> in
        case r of
          Pending \<Rightarrow> (u, Pending)
        | Panicked m \<Rightarrow> (u, Panicked m)
        | Ready (Inr reason) \<Rightarrow>
            (case known reason of Some res \<Rightarrow> (u, Ready res)
             | None \<Rightarrow> (u, Ready (Inl (h2_to_io_error (h2_from_reason reason)))))
        | Ready (Inl e) \<Rightarrow> (u, Ready (Inl (h2_to_io_error e))))"

definition h2_poll_write ::
  "('s, 'b, 'h) send_stream_api \<Rightarrow> ('s, 'r) h2_upgraded \<Rightarrow> bytes \<Rightarrow> ('s, 'r) h2_upgraded \<times> (io_error + nat) poll" where
  "h2_poll_write S u bs =
     (if bs = [] then (u, Ready (Inr 0))
      else
        (case ss_poll_capacity S (ss_reserve_capacity S (hu_send u) (length bs)) of (r, s) \<Rightarrow>
           let u = u\<lparr>hu_send := s\<rparr>;
               failed = (\<lambda>u. h2_reset_error S u (\<lambda>reason.
                 if reason \<in> {H2_NO_ERROR, H2_CANCEL, H2_STREAM_CLOSED} then Some (Inl (IoError BrokenPipe NoPayload)) else None)) in
           case r of
             Pending \<Rightarrow> (u, Pending)
           | Panicked m \<Rightarrow> (u, Panicked m)
           | Ready None \<Rightarrow> (u, Ready (Inr 0))
           | Ready (Some (Inr cnt)) \<Rightarrow>
               if length bs < cnt then (u, Panicked ''range end index out of range for slice'')
               else (case ss_send_data S (hu_send u) (SendBufCursor (take cnt bs)) False of
                   (Inr x, s) \<Rightarrow> (u\<lparr>hu_send := s\<rparr>, Ready (Inr cnt))
                 | (Inl e, s) \<Rightarrow> failed (u\<lparr>hu_send := s\<rparr>))
           | Ready (Some (Inl e)) \<Rightarrow> failed u))"

text \<open>The default method of \<open>AsyncWrite\<close>: the first slice that is not empty.\<close>

definition h2_poll_write_vectored ::
  "('s, 'b, 'h) send_stream_api \<Rightarrow> ('s, 'r) h2_upgraded \<Rightarrow> bytes list \<Rightarrow> ('s, 'r) h2_upgraded \<times> (io_error + nat) poll" where
  "h2_poll_write_vectored S u bss =
     h2_poll_write S u (case filter (\<lambda>b. b \<noteq> []) bss of [] \<Rightarrow> [] | b # _ \<Rightarrow> b)"

definition h2_poll_flush :: "('s, 'r) h2_upgraded \<Rightarrow> ('s, 'r) h2_upgraded \<times> (io_error + unit) poll" where
  "h2_poll_flush u = (u, Ready (Inr ()))"

definition h2_poll_shutdown ::
  "('s, 'b, 'h) send_stream_api \<Rightarrow> ('s, 'r) h2_upgraded \<Rightarrow> ('s, 'r) h2_upgraded \<times> (io_error + unit) poll" where
  "h2_poll_shutdown S u =
     (case ss_send_data S (hu_send u) (SendBufCursor []) True of
        (Inr x, s) \<Rightarrow> (u\<lparr>hu_send := s\<rparr>, Ready (Inr ()))
      | (Inl e, s) \<Rightarrow> h2_reset_error S (u\<lparr>hu_send := s\<rparr>) (\<lambda>reason.
          if reason = H2_NO_ERROR then Some (Inr ())
          else if reason \<in> {H2_CANCEL, H2_STREAM_CLOSED} then Some (Inl (IoError BrokenPipe NoPayload)) else None))"

text \<open>The stream as a transport; a read always returns (\<open>h2_poll_read_returns\<close>).\<close>

type_synonym ('s, 'r, 't, 'pp, 'w) h2_tunnel_io = "('s, 'r) h2_upgraded \<times> ('t, 'pp) shared \<times> 'w"

definition on_tunnel ::
  "(('s, 'r) h2_upgraded \<Rightarrow> ('s, 'r) h2_upgraded \<times> 'x) \<Rightarrow> ('s, 'r, 't, 'pp, 'w) h2_tunnel_io \<Rightarrow>
   ('s, 'r, 't, 'pp, 'w) h2_tunnel_io \<times> 'x" where
  "on_tunnel f io = (case f (fst io) of (u, x) \<Rightarrow> ((u, snd io), x))"

definition h2_upgraded_io ::
  "('w, 't, 'sl, 'pp) ping_env \<Rightarrow> ('r, 'h) recv_stream_api \<Rightarrow> ('s, 'b, 'h) send_stream_api \<Rightarrow>
   ('s, 'r, 't, 'pp, 'w) h2_tunnel_io async_io" where
  "h2_upgraded_io E R S =
     \<lparr>io_poll_read = (\<lambda>io rb. case the (h2_poll_read E R (fst io) (fst (snd io)) (snd (snd io)) rb) of
        (u, sh, w, rb, r) \<Rightarrow> ((u, sh, w), rb, r)),
      io_poll_write = (\<lambda>io bs. on_tunnel (\<lambda>u. h2_poll_write S u bs) io),
      io_poll_write_vectored = (\<lambda>io bss. on_tunnel (\<lambda>u. h2_poll_write_vectored S u bss) io),
      io_poll_flush = on_tunnel h2_poll_flush, io_poll_shutdown = on_tunnel (h2_poll_shutdown S),
      io_is_write_vectored = (\<lambda>_. False)\<rparr>"

section \<open>Contracts\<close>

text \<open>
  The receiving half: \<open>data\<close> is what it will still deliver; \<open>empties\<close> bounds how many empty frames
  come in a row; after an error or at its end there is nothing more.
\<close>

locale recv_stream =
  fixes R :: "('r, 'h) recv_stream_api" and data :: "'r \<Rightarrow> bytes" and empties :: "'r \<Rightarrow> nat"
  assumes poll_data: "rs_poll_data R q = (x, q') \<Longrightarrow>
      (case x of
         Ready (Some (Inr b)) \<Rightarrow> data q = b @ data q' \<and> (b = [] \<longrightarrow> empties q' < empties q)
       | Ready (Some (Inl e)) \<Rightarrow> data q = [] \<and> data q' = []
       | Ready None \<Rightarrow> data q = [] \<and> data q' = []
       | Pending \<Rightarrow> data q' = data q
       | Panicked m \<Rightarrow> False)"
    and end_of_stream: "rs_is_end_stream R q \<Longrightarrow> data q = []"
    and release: "data (rs_release_capacity R q n) = data q"

text \<open>The sending half grants no more than what was reserved.\<close>

locale h2_tunnel = st: send_stream S trace view spurious + rs: recv_stream R data empties
  for S :: "('s, 'b, 'h) send_stream_api" and trace :: "'s \<Rightarrow> 'h sent_event list" and view :: "'b \<Rightarrow> bytes"
    and spurious :: "'s \<Rightarrow> nat" and R :: "('r, 'h) recv_stream_api" and data :: "'r \<Rightarrow> bytes" and empties :: "'r \<Rightarrow> nat" +
  assumes granted: "ss_poll_capacity S (ss_reserve_capacity S s n) = (Ready (Some (Inr cnt)), s') \<Longrightarrow> cnt \<le> n"

definition tunnel_incoming :: "('r \<Rightarrow> bytes) \<Rightarrow> ('s, 'r, 't, 'pp, 'w) h2_tunnel_io \<Rightarrow> bytes" where
  "tunnel_incoming data io = hu_buf (fst io) @ data (hu_recv (fst io))"

definition tunnel_sent :: "('s \<Rightarrow> 'h sent_event list) \<Rightarrow> ('s, 'r, 't, 'pp, 'w) h2_tunnel_io \<Rightarrow> bytes" where
  "tunnel_sent trace io = sent_data (trace (hu_send (fst io)))"

context h2_tunnel
begin

lemma h2_fill_ok:
  "\<exists>q' sh' w' r. h2_fill E R ping q sh w = Some (q', sh', w', r) \<and>
    (case r of
       Ready (Inr (Some b)) \<Rightarrow> data q = b @ data q' \<and> (b = [] \<longrightarrow> data q = [])
     | Ready _ \<Rightarrow> data q = [] \<and> data q' = []
     | Pending \<Rightarrow> data q' = data q
     | Panicked m \<Rightarrow> False)"
proof (induction "empties q" arbitrary: q rule: less_induct)
  case less
  obtain x q1 where x: "rs_poll_data R q = (x, q1)" by fastforce
  note d = rs.poll_data [OF x]
  show ?case
  proof (cases "x = Ready (Some (Inr [])) \<and> \<not> rs_is_end_stream R q1")
    case True
    with d have q: "data q = data q1" "empties q1 < empties q" by auto
    from less.hyps [OF q(2), unfolded q(1) [symmetric]] True x show ?thesis by (subst h2_fill.simps) simp
  next
    case False
    show ?thesis
    proof (cases x)
      case Pending
      with d x show ?thesis by (subst h2_fill.simps) simp
    next
      case (Panicked m)
      with d show ?thesis by simp
    next
      case (Ready y)
      show ?thesis
      proof (cases "\<exists>b. y = Some (Inr b)")
        case True
        then obtain b where b: "y = Some (Inr b)" by blast
        obtain sh' w' where rd: "record_data E ping sh (of_nat (length b)) w = (sh', w')" by fastforce
        have "b = [] \<longrightarrow> data q = []" using False d rs.end_of_stream [of q1] Ready b by auto
        with False d x Ready b rd show ?thesis by (subst h2_fill.simps) auto
      next
        case no: False
        then consider "y = None" | e where "y = Some (Inl e)" by (cases y) (auto, metis sum.exhaust)
        then show ?thesis using d x Ready by cases (subst h2_fill.simps, simp)+
      qed
    qed
  qed
qed

lemma h2_take_buf_ok:
  "\<exists>u' rb'. h2_take_buf R u rb = (u', rb', Ready (Inr ())) \<and> hu_send u' = hu_send u \<and>
    (\<exists>bs. rb_filled rb' = rb_filled rb @ bs \<and> rb_remaining rb = length bs + rb_remaining rb' \<and>
      hu_buf u @ data (hu_recv u) = bs @ hu_buf u' @ data (hu_recv u') \<and>
      (bs = [] \<and> 0 < rb_remaining rb \<longrightarrow> hu_buf u = []))"
proof -
  obtain n where n: "n = min (length (hu_buf u)) (rb_remaining rb)" by simp
  then have le: "n \<le> length (hu_buf u)" "n \<le> rb_remaining rb" "n = 0 \<and> 0 < rb_remaining rb \<longrightarrow> hu_buf u = []"
    by (auto simp: min_def split: if_splits)
  have eq: "h2_take_buf R u rb =
      (u\<lparr>hu_buf := drop n (hu_buf u), hu_recv := rs_release_capacity R (hu_recv u) n\<rparr>,
       rb\<lparr>rb_filled := rb_filled rb @ take n (hu_buf u), rb_remaining := rb_remaining rb - n\<rparr>, Ready (Inr ()))"
    using le by (simp add: h2_take_buf_def Let_def put_slice_def n [symmetric])
  show ?thesis
    unfolding eq using le by (auto simp: rs.release intro!: exI [of _ "take n (hu_buf u)"])
qed

text \<open>A read returns; it delivers the next bytes, or it finds that there are none.\<close>

lemma h2_poll_read_returns:
  "\<exists>u' sh' w' rb' r. h2_poll_read E R u sh w rb = Some (u', sh', w', rb', r) \<and> hu_send u' = hu_send u \<and>
    (case r of
       Ready (Inr _) \<Rightarrow> (\<exists>bs. rb_filled rb' = rb_filled rb @ bs \<and> rb_remaining rb = length bs + rb_remaining rb' \<and>
         hu_buf u @ data (hu_recv u) = bs @ hu_buf u' @ data (hu_recv u') \<and>
         (bs = [] \<and> 0 < rb_remaining rb \<longrightarrow> hu_buf u @ data (hu_recv u) = []))
     | Panicked m \<Rightarrow> False
     | _ \<Rightarrow> rb' = rb \<and> hu_buf u' @ data (hu_recv u') = hu_buf u @ data (hu_recv u))"
proof (cases "hu_buf u = []")
  case False
  from h2_take_buf_ok [of u rb] obtain u' rb' where
    t: "h2_take_buf R u rb = (u', rb', Ready (Inr ()))" "hu_send u' = hu_send u"
      "\<exists>bs. rb_filled rb' = rb_filled rb @ bs \<and> rb_remaining rb = length bs + rb_remaining rb' \<and>
        hu_buf u @ data (hu_recv u) = bs @ hu_buf u' @ data (hu_recv u') \<and>
        (bs = [] \<and> 0 < rb_remaining rb \<longrightarrow> hu_buf u = [])" by blast
  with False show ?thesis
    by (intro exI [of _ u'] exI [of _ sh] exI [of _ w] exI [of _ rb'] exI [of _ "Ready (Inr ())"])
      (auto simp: h2_poll_read_def)
next
  case True
  from h2_fill_ok [of E "hu_ping u" "hu_recv u" sh w] obtain q sh1 w1 r where
    f: "h2_fill E R (hu_ping u) (hu_recv u) sh w = Some (q, sh1, w1, r)" and
    d: "case r of Ready (Inr (Some b)) \<Rightarrow> data (hu_recv u) = b @ data q \<and> (b = [] \<longrightarrow> data (hu_recv u) = [])
     | Ready _ \<Rightarrow> data (hu_recv u) = [] \<and> data q = [] | Pending \<Rightarrow> data q = data (hu_recv u) | Panicked m \<Rightarrow> False" by blast
  show ?thesis
  proof (cases "\<exists>b. r = Ready (Inr (Some b))")
    case False
    let ?r = "case r of Pending \<Rightarrow> Pending | Panicked m \<Rightarrow> Panicked m | Ready (Inl e) \<Rightarrow> Ready (Inl e) | Ready (Inr x) \<Rightarrow> Ready (Inr ())"
    have "h2_poll_read E R u sh w rb = Some (u\<lparr>hu_recv := q\<rparr>, sh1, w1, rb, ?r)"
      using False f True by (auto simp: h2_poll_read_def Let_def split: poll.splits sum.splits option.splits)
    with d False True show ?thesis
      by (intro exI [of _ "u\<lparr>hu_recv := q\<rparr>"] exI [of _ sh1] exI [of _ w1] exI [of _ rb] exI [of _ ?r])
        (auto split: poll.splits sum.splits option.splits)
  next
    case b: True
    then obtain b where r: "r = Ready (Inr (Some b))" by blast
    have "\<exists>u' rb' bs. h2_take_buf R (u\<lparr>hu_recv := q, hu_buf := b\<rparr>) rb = (u', rb', Ready (Inr ())) \<and> hu_send u' = hu_send u \<and>
        rb_filled rb' = rb_filled rb @ bs \<and> rb_remaining rb = length bs + rb_remaining rb' \<and>
        b @ data q = bs @ hu_buf u' @ data (hu_recv u') \<and> (bs = [] \<and> 0 < rb_remaining rb \<longrightarrow> b = [])"
      using h2_take_buf_ok [of "u\<lparr>hu_recv := q, hu_buf := b\<rparr>" rb] by simp
    then obtain u' rb' bs where
      t: "h2_take_buf R (u\<lparr>hu_recv := q, hu_buf := b\<rparr>) rb = (u', rb', Ready (Inr ()))" "hu_send u' = hu_send u"
        "rb_filled rb' = rb_filled rb @ bs" "rb_remaining rb = length bs + rb_remaining rb'"
        "b @ data q = bs @ hu_buf u' @ data (hu_recv u')" "bs = [] \<and> 0 < rb_remaining rb \<longrightarrow> b = []" by blast
    with d r True f show ?thesis
      by (intro exI [of _ u'] exI [of _ sh1] exI [of _ w1] exI [of _ rb'] exI [of _ "Ready (Inr ())"])
        (auto simp: h2_poll_read_def)
  qed
qed

lemma h2_reset_error_ok:
  assumes "h2_reset_error S u known = (u', r)"
  shows "hu_recv u' = hu_recv u \<and> hu_buf u' = hu_buf u \<and> trace (hu_send u') = trace (hu_send u) \<and> \<not> is_panicked r \<and>
    (\<forall>x. r = Ready (Inr x) \<longrightarrow> (\<exists>reason. known reason = Some (Inr x)))"
proof -
  obtain x s where x: "ss_poll_reset S (hu_send u) = (x, s)" by fastforce
  with assms st.poll_reset [OF x] show ?thesis
    by (auto simp: h2_reset_error_def Let_def split: poll.splits sum.splits option.splits)
qed

lemma h2_poll_write_ok:
  assumes "h2_poll_write S u bs = (u', r)"
  shows "hu_recv u' = hu_recv u \<and> hu_buf u' = hu_buf u \<and> \<not> is_panicked r \<and>
    (case r of Ready (Inr n) \<Rightarrow> n \<le> length bs \<and> sent_data (trace (hu_send u')) = sent_data (trace (hu_send u)) @ take n bs
     | _ \<Rightarrow> sent_data (trace (hu_send u')) = sent_data (trace (hu_send u)))"
proof (cases "bs = []")
  case True
  with assms show ?thesis by (auto simp: h2_poll_write_def)
next
  case False
  obtain y s where y: "ss_poll_capacity S (ss_reserve_capacity S (hu_send u) (length bs)) = (y, s)" by fastforce
  have c: "trace s = trace (hu_send u)" "\<not> is_panicked y" using st.poll_capacity [OF y] st.reserve by auto
  let ?known = "\<lambda>reason. if reason \<in> {H2_NO_ERROR, H2_CANCEL, H2_STREAM_CLOSED} then Some (Inl (IoError BrokenPipe NoPayload)) else None :: (io_error + nat) option"
  have failed: ?thesis if "h2_reset_error S (u\<lparr>hu_send := s'\<rparr>) ?known = (u', r)" "trace s' = trace (hu_send u)" for s'
    using h2_reset_error_ok [OF that(1)] that(2) by (auto split: poll.splits sum.splits if_splits)
  consider "y = Pending" | "y = Ready None" | e where "y = Ready (Some (Inl e))" | cnt where "y = Ready (Some (Inr cnt))"
    using c(2) by (cases y) (auto, metis option.exhaust sum.exhaust)
  then show ?thesis
  proof cases
    case (3 e)
    with assms False y have "h2_reset_error S (u\<lparr>hu_send := s\<rparr>) ?known = (u', r)" by (simp add: h2_poll_write_def)
    with failed c show ?thesis by blast
  next
    case (4 cnt)
    then have n: "cnt \<le> length bs" using granted [of "hu_send u" "length bs" cnt s] y by simp
    obtain res s2 where sd: "ss_send_data S s (SendBufCursor (take cnt bs)) False = (res, s2)" by fastforce
    note t = st.send_data [OF sd]
    show ?thesis
    proof (cases res)
      case (Inl e)
      with assms False y 4 n sd have "h2_reset_error S (u\<lparr>hu_send := s2\<rparr>) ?known = (u', r)"
        by (simp add: h2_poll_write_def not_less)
      with failed t Inl c show ?thesis by auto
    next
      case (Inr x)
      with assms False y 4 n sd t c show ?thesis by (auto simp: h2_poll_write_def not_less)
    qed
  qed (use assms False y c in \<open>auto simp: h2_poll_write_def\<close>)
qed

lemma h2_poll_shutdown_ok:
  assumes "h2_poll_shutdown S u = (u', r)"
  shows "hu_recv u' = hu_recv u \<and> hu_buf u' = hu_buf u \<and> \<not> is_panicked r \<and>
    sent_data (trace (hu_send u')) = sent_data (trace (hu_send u))"
proof -
  obtain res s where sd: "ss_send_data S (hu_send u) (SendBufCursor []) True = (res, s)" by fastforce
  note t = st.send_data [OF sd]
  show ?thesis
    using assms sd t by (cases res) (auto simp: h2_poll_shutdown_def dest!: h2_reset_error_ok)
qed

lemma first_slice: "\<exists>post. concat bss = (case filter (\<lambda>b. b \<noteq> []) bss of [] \<Rightarrow> [] | b # _ \<Rightarrow> b) @ post"
  by (induction bss) auto

lemma tunnel_stream:
  fixes E :: "('w, 't, 'sl, 'pp) ping_env"
  shows "async_stream (h2_upgraded_io E R S) (tunnel_incoming data) (tunnel_sent trace)"
proof
  fix io io' :: "('s, 'r, 't, 'pp, 'w) h2_tunnel_io" and rb rb' :: io_read_buf and r :: "(io_error + unit) poll" and u
  obtain hu sh w where io: "io = (hu, sh, w)" by (rule prod_cases3)
  from h2_poll_read_returns [of E hu sh w rb] obtain hu1 sh1 w1 rb1 r1 where
    p: "h2_poll_read E R hu sh w rb = Some (hu1, sh1, w1, rb1, r1)" "hu_send hu1 = hu_send hu" and
    c: "case r1 of
       Ready (Inr _) \<Rightarrow> (\<exists>bs. rb_filled rb1 = rb_filled rb @ bs \<and> rb_remaining rb = length bs + rb_remaining rb1 \<and>
         hu_buf hu @ data (hu_recv hu) = bs @ hu_buf hu1 @ data (hu_recv hu1) \<and>
         (bs = [] \<and> 0 < rb_remaining rb \<longrightarrow> hu_buf hu @ data (hu_recv hu) = []))
     | Panicked m \<Rightarrow> False
     | _ \<Rightarrow> rb1 = rb \<and> hu_buf hu1 @ data (hu_recv hu1) = hu_buf hu @ data (hu_recv hu)" by blast
  have eq: "io_poll_read (h2_upgraded_io E R S) io rb = ((hu1, sh1, w1), rb1, r1)"
    by (simp add: h2_upgraded_io_def io p)
  show "\<exists>bs. rb_filled rb' = rb_filled rb @ bs \<and> rb_remaining rb = length bs + rb_remaining rb' \<and>
      tunnel_incoming data io = bs @ tunnel_incoming data io' \<and>
      (bs = [] \<and> 0 < rb_remaining rb \<longrightarrow> tunnel_incoming data io = []) \<and> tunnel_sent trace io' = tunnel_sent trace io"
    if "io_poll_read (h2_upgraded_io E R S) io rb = (io', rb', Ready (Inr u))"
    using that c p(2) unfolding eq by (auto simp: io tunnel_incoming_def tunnel_sent_def)
  show "rb' = rb \<and> tunnel_incoming data io' = tunnel_incoming data io \<and> tunnel_sent trace io' = tunnel_sent trace io \<and> \<not> is_panicked r"
    if "io_poll_read (h2_upgraded_io E R S) io rb = (io', rb', r)" "\<And>u. r \<noteq> Ready (Inr u)"
    using that c p(2) unfolding eq by (auto simp: io tunnel_incoming_def tunnel_sent_def split: poll.splits sum.splits)
next
  fix io io' :: "('s, 'r, 't, 'pp, 'w) h2_tunnel_io" and bs and bss and x :: "(io_error + nat) poll"
  show "tunnel_incoming data io' = tunnel_incoming data io \<and> \<not> is_panicked x \<and>
      (case x of Ready (Inr n) \<Rightarrow> n \<le> length bs \<and> tunnel_sent trace io' = tunnel_sent trace io @ take n bs
       | _ \<Rightarrow> tunnel_sent trace io' = tunnel_sent trace io)"
    if "io_poll_write (h2_upgraded_io E R S) io bs = (io', x)"
    using that by (auto simp: h2_upgraded_io_def on_tunnel_def tunnel_incoming_def tunnel_sent_def
        dest!: h2_poll_write_ok split: prod.splits poll.splits sum.splits)
  show "tunnel_incoming data io' = tunnel_incoming data io \<and> \<not> is_panicked x \<and>
      (case x of Ready (Inr n) \<Rightarrow> n \<le> length (concat bss) \<and> tunnel_sent trace io' = tunnel_sent trace io @ take n (concat bss)
       | _ \<Rightarrow> tunnel_sent trace io' = tunnel_sent trace io)"
    if "io_poll_write_vectored (h2_upgraded_io E R S) io bss = (io', x)"
  proof -
    let ?b = "case filter (\<lambda>b. b \<noteq> []) bss of [] \<Rightarrow> [] | b # _ \<Rightarrow> b"
    obtain post where post: "concat bss = ?b @ post" using first_slice by blast
    from that obtain u' where w: "h2_poll_write S (fst io) ?b = (u', x)" "io' = (u', snd io)"
      by (auto simp: h2_upgraded_io_def on_tunnel_def h2_poll_write_vectored_def split: prod.splits)
    from h2_poll_write_ok [OF w(1)] w(2) show ?thesis
      by (auto simp: post tunnel_incoming_def tunnel_sent_def split: poll.splits sum.splits)
  qed
qed (auto simp: h2_upgraded_io_def on_tunnel_def h2_poll_flush_def tunnel_incoming_def tunnel_sent_def
    dest!: h2_poll_shutdown_ok split: prod.splits)

end

section \<open>A simulated stream\<close>

text \<open>The sending half grants what was reserved; the receiving half is a list of frames (\<open>None\<close>: not ready).\<close>

definition sim_tunnel_send :: "('h sent_event list \<times> nat, bytes, 'h) send_stream_api" where
  "sim_tunnel_send =
     \<lparr>ss_poll_reset = (\<lambda>s. (Pending, s)), ss_capacity = snd,
      ss_poll_capacity = (\<lambda>(t, k). (if k = 0 then Pending else Ready (Some (Inr k)), t, k)),
      ss_reserve_capacity = (\<lambda>(t, k) n. (t, n)),
      ss_send_data = (\<lambda>(t, k) b eos. (Inr (), t @ [SentData (send_buf_view (\<lambda>b. b) b) eos], 0)),
      ss_send_trailers = (\<lambda>(t, k) h. (Inr (), t @ [SentTrailers h], k)),
      ss_send_reset = (\<lambda>(t, k) r. (t @ [SentReset r], k))\<rparr>"

definition sim_tunnel_recv :: "(bytes option list, 'h) recv_stream_api" where
  "sim_tunnel_recv =
     \<lparr>rs_is_end_stream = (\<lambda>q. q = []),
      rs_poll_data = (\<lambda>q. case q of [] \<Rightarrow> (Ready None, []) | None # q \<Rightarrow> (Pending, q) | Some b # q \<Rightarrow> (Ready (Some (Inr b)), q)),
      rs_release_capacity = (\<lambda>q n. q),
      rs_poll_trailers = (\<lambda>q. (Ready (Inr None), q))\<rparr>"

interpretation sim_tunnel: h2_tunnel sim_tunnel_send fst "\<lambda>b. b" "\<lambda>_. 0" sim_tunnel_recv wire_incoming length
  by unfold_locales
    (auto simp: sim_tunnel_send_def sim_tunnel_recv_def split: list.splits option.splits prod.splits if_splits)

text \<open>A tunnel without pings.\<close>

definition sim_no_ping :: "(unit, unit, unit, unit) ping_env" where
  "sim_no_ping =
     \<lparr>instant_max = 0, system_now = (\<lambda>w. (0, w)), timer_now = (\<lambda>t w. (0, w)), timer_sleep = (\<lambda>t d w. ((), w)),
      timer_sleep_until = (\<lambda>t i w. ((), w)), timer_reset = (\<lambda>t s i w. ((), w)), sleep_poll = (\<lambda>s w. (False, s, w)),
      pp_send_ping = (\<lambda>p w. (False, p, w)), pp_poll_pong = (\<lambda>p w. (Pending, p, w)), wake_by_ref = (\<lambda>w. w)\<rparr>"

interpretation sim_tunnel_io: async_stream "h2_upgraded_io sim_no_ping sim_tunnel_recv sim_tunnel_send"
  "tunnel_incoming wire_incoming" "tunnel_sent fst"
  by (rule sim_tunnel.tunnel_stream)

section \<open>Properties\<close>

text \<open>
  C25. A \<open>CONNECT\<close> tunnel over an HTTP/2 stream is a byte stream, and so is the \<open>Upgraded\<close> that the caller
  gets: every read returns and delivers the data of the stream in order, each byte once, skipping empty
  frames, and reports the end only when nothing is left; a write hands over exactly the bytes it
  reports as written, within the capacity the stream grants; nothing panics.
\<close>

theorem connect_tunnel_is_stream:
  assumes "h2_tunnel S trace view spurious R data empties"
  shows "(\<exists>x. h2_poll_read E R u sh w rb = Some x) \<and>
    async_stream (h2_upgraded_io E R S) (tunnel_incoming data) (tunnel_sent trace) \<and>
    async_stream (upgraded_io (h2_upgraded_io E R S)) (\<lambda>u. rewind_incoming (tunnel_incoming data) (up_io u))
      (\<lambda>u. tunnel_sent trace (rw_inner (up_io u)))"
proof -
  have s: "async_stream (h2_upgraded_io E R S) (tunnel_incoming data) (tunnel_sent trace)"
    by (rule h2_tunnel.tunnel_stream [OF assms])
  from h2_tunnel.h2_poll_read_returns [OF assms, of E u sh w rb] s upgraded_stream [OF async_stream.rewind_stream [OF s]]
  show ?thesis by auto
qed

theorem connect_tunnel_is_stream_witness:
  "async_stream (upgraded_io (h2_upgraded_io sim_no_ping sim_tunnel_recv sim_tunnel_send))
     (\<lambda>u. rewind_incoming (tunnel_incoming wire_incoming) (up_io u)) (\<lambda>u. tunnel_sent fst (rw_inner (up_io u)))"
  using connect_tunnel_is_stream [OF sim_tunnel.h2_tunnel_axioms, where E = sim_no_ping] by blast

text \<open>
  A capacity of zero, which \<open>PipeToSendStream\<close> waits out, makes a write of a non-empty buffer succeed
  with zero bytes.
\<close>

lemma zero_capacity_writes_nothing:
  assumes "bs \<noteq> []" "ss_poll_capacity S (ss_reserve_capacity S (hu_send u) (length bs)) = (Ready (Some (Inr 0)), s)"
    and "ss_send_data S s (SendBufCursor []) False = (Inr (), s')"
  shows "h2_poll_write S u bs = (u\<lparr>hu_send := s'\<rparr>, Ready (Inr 0))"
  using assms by (simp add: h2_poll_write_def)

end
