(* ===== verification/H2_Conn.thy ===== *)
theory H2_Conn
  imports Ping_Props
begin

text \<open>
  The task that drives an HTTP/2 connection, of \<open>proto/http2/client.rs\<close>: \<open>Conn\<close> (the connection with
  its pings), \<open>ConnMapErr\<close> (a future that is polled at most once after it is done) and \<open>ConnTask\<close>,
  which also watches for the moment when all request handles are gone.

  \<open>http2::client::Connection\<close> and the channel of \<open>futures_channel\<close> by which dropped handles are noticed
  are parameters. Nothing is ever sent on that channel, so that a ready \<open>poll_next\<close> is its end. The
  one-shot channel that tells the dispatch task about the end is only ever dropped: \<open>ctk_cancel_tx\<close>
  says whether its sender still exists. It goes when the handles are gone, and with the task itself,
  which the executor drops when it is done (\<open>ConnEof\<close>).
\<close>

record 'hc h2_connection_api =
  hc_poll :: "'hc \<Rightarrow> (h2_error + unit) poll \<times> 'hc"
  hc_set_target_window_size :: "'hc \<Rightarrow> u32 \<Rightarrow> 'hc"
  hc_set_initial_window_size :: "'hc \<Rightarrow> u32 \<Rightarrow> (h2_error + unit) \<times> 'hc"

record 'dr drop_channel_api =
  dr_is_terminated :: "'dr \<Rightarrow> bool"
  dr_poll_next :: "'dr \<Rightarrow> unit poll \<times> 'dr"

text \<open>\<open>Either<Conn, Connection>\<close>: with pings or without.\<close>

datatype ('t, 'sl, 'hc) either_conn =
    WithPing (ec_ponger: "('t, 'sl) ponger") (ec_conn: 'hc)
  | Plain (ec_conn: 'hc)

record ('t, 'sl, 'hc) conn_map_err =
  cme_conn :: "('t, 'sl, 'hc) either_conn"
  cme_is_terminated :: bool

record ('t, 'sl, 'hc, 'dr) conn_task =
  ctk_drop_rx :: 'dr
  ctk_cancel_tx :: bool
  ctk_conn :: "('t, 'sl, 'hc) conn_map_err"

section \<open>Conn\<close>

definition polled :: "'hc h2_connection_api \<Rightarrow> 'hc \<Rightarrow> ('hc \<Rightarrow> 'c) \<Rightarrow> 'x \<Rightarrow> ((h2_error + unit) poll \<times> 'c \<times> 'x) rust" where
  "polled H hc k x = (case hc_poll H hc of (Panicked m, hc) \<Rightarrow> Panic m | (r, hc) \<Rightarrow> Return (r, k hc, x))"

definition h2_conn_poll ::
  "('w, 't, 'sl, 'pp) ping_env \<Rightarrow> 'hc h2_connection_api \<Rightarrow> nat \<Rightarrow> ('t, 'sl) ponger \<Rightarrow> 'hc \<Rightarrow> ('t, 'pp) shared \<Rightarrow> 'w \<Rightarrow>
   ((h2_error + unit) poll \<times> ('t, 'sl, 'hc) either_conn \<times> ('t, 'pp) shared \<times> 'w) rust" where
  "h2_conn_poll E H strong_count p hc sh w =
     rust_bind (ponger_poll E strong_count p sh w) (\<lambda>(r, p, sh, w).
       case r of
         Panicked m \<Rightarrow> Panic m
       | Ready (SizeUpdate wnd) \<Rightarrow>
           (case hc_set_initial_window_size H (hc_set_target_window_size H hc wnd) wnd of
              (Inl e, hc) \<Rightarrow> Return (Ready (Inl e), WithPing p hc, sh, w)
            | (Inr u, hc) \<Rightarrow> polled H hc (WithPing p) (sh, w))
       | Ready KeepAliveTimedOut \<Rightarrow> Return (Ready (Inr ()), WithPing p hc, sh, w)
       | Pending \<Rightarrow> polled H hc (WithPing p) (sh, w))"

fun either_poll ::
  "('w, 't, 'sl, 'pp) ping_env \<Rightarrow> 'hc h2_connection_api \<Rightarrow> nat \<Rightarrow> ('t, 'sl, 'hc) either_conn \<Rightarrow> ('t, 'pp) shared \<Rightarrow> 'w \<Rightarrow>
   ((h2_error + unit) poll \<times> ('t, 'sl, 'hc) either_conn \<times> ('t, 'pp) shared \<times> 'w) rust" where
  "either_poll E H n (WithPing p hc) sh w = h2_conn_poll E H n p hc sh w"
| "either_poll E H n (Plain hc) sh w = polled H hc Plain (sh, w)"

section \<open>ConnMapErr and ConnTask\<close>

definition conn_map_err_poll ::
  "('w, 't, 'sl, 'pp) ping_env \<Rightarrow> 'hc h2_connection_api \<Rightarrow> nat \<Rightarrow> ('t, 'sl, 'hc) conn_map_err \<Rightarrow> ('t, 'pp) shared \<Rightarrow> 'w \<Rightarrow>
   ((unit + unit) poll \<times> ('t, 'sl, 'hc) conn_map_err \<times> ('t, 'pp) shared \<times> 'w) rust" where
  "conn_map_err_poll E H n c sh w =
     (if cme_is_terminated c then Return (Pending, c, sh, w)
      else rust_bind (either_poll E H n (cme_conn c) sh w) (\<lambda>(r, ec, sh, w).
        let c = c\<lparr>cme_conn := ec, cme_is_terminated := is_ready r\<rparr> in
        Return (case r of Ready (Inl e) \<Rightarrow> Ready (Inl ()) | Ready (Inr u) \<Rightarrow> Ready (Inr ()) | Pending \<Rightarrow> Pending
                | Panicked m \<Rightarrow> Panicked m, c, sh, w)))"

definition conn_task_new :: "('t, 'sl, 'hc) conn_map_err \<Rightarrow> 'dr \<Rightarrow> ('t, 'sl, 'hc, 'dr) conn_task" where
  "conn_task_new conn drop_rx = \<lparr>ctk_drop_rx = drop_rx, ctk_cancel_tx = True, ctk_conn = conn\<rparr>"

text \<open>What follows the poll of the connection: the end of the request handles drops \<open>cancel_tx\<close>.\<close>

definition watch_handles ::
  "'dr drop_channel_api \<Rightarrow> ('t, 'sl, 'hc, 'dr) conn_task \<Rightarrow> (unit poll \<times> ('t, 'sl, 'hc, 'dr) conn_task) rust" where
  "watch_handles X t =
     (if dr_is_terminated X (ctk_drop_rx t) then Return (Pending, t)
      else case dr_poll_next X (ctk_drop_rx t) of
        (Ready u, dr) \<Rightarrow>
          if ctk_cancel_tx t then Return (Pending, t\<lparr>ctk_drop_rx := dr, ctk_cancel_tx := False\<rparr>)
          else Panic ''ConnTask Future polled twice''
      | (Pending, dr) \<Rightarrow> Return (Pending, t\<lparr>ctk_drop_rx := dr\<rparr>)
      | (Panicked m, dr) \<Rightarrow> Panic m)"

definition conn_task_poll ::
  "('w, 't, 'sl, 'pp) ping_env \<Rightarrow> 'hc h2_connection_api \<Rightarrow> 'dr drop_channel_api \<Rightarrow> nat \<Rightarrow> ('t, 'sl, 'hc, 'dr) conn_task \<Rightarrow>
   ('t, 'pp) shared \<Rightarrow> 'w \<Rightarrow> (unit poll \<times> ('t, 'sl, 'hc, 'dr) conn_task \<times> ('t, 'pp) shared \<times> 'w) rust" where
  "conn_task_poll E H X n t sh w =
     rust_bind
       (if cme_is_terminated (ctk_conn t) then Return (Pending, ctk_conn t, sh, w)
        else conn_map_err_poll E H n (ctk_conn t) sh w)
       (\<lambda>(r, c, sh, w).
          let t = t\<lparr>ctk_conn := c\<rparr> in
          if is_ready r then Return (Ready (), t, sh, w)
          else rust_bind (watch_handles X t) (\<lambda>(r, t). Return (r, t, sh, w)))"

text \<open>
  Dropping the task drops its fields and with them \<open>cancel_tx\<close>. An executor drops a future that is
  ready.
\<close>

definition conn_task_drop :: "('t, 'sl, 'hc, 'dr) conn_task \<Rightarrow> ('t, 'sl, 'hc, 'dr) conn_task" where
  "conn_task_drop t = t\<lparr>ctk_cancel_tx := False\<rparr>"

definition conn_task_run ::
  "('w, 't, 'sl, 'pp) ping_env \<Rightarrow> 'hc h2_connection_api \<Rightarrow> 'dr drop_channel_api \<Rightarrow> nat \<Rightarrow> ('t, 'sl, 'hc, 'dr) conn_task \<Rightarrow>
   ('t, 'pp) shared \<Rightarrow> 'w \<Rightarrow> (unit poll \<times> ('t, 'sl, 'hc, 'dr) conn_task \<times> ('t, 'pp) shared \<times> 'w) rust" where
  "conn_task_run E H X n t sh w =
     rust_bind (conn_task_poll E H X n t sh w) (\<lambda>(r, t, sh, w).
       Return (r, if is_ready r then conn_task_drop t else t, sh, w))"

text \<open>What the dispatch task sees: its receiver is ready when the sender is gone.\<close>

definition conn_eof :: "('t, 'sl, 'hc, 'dr) conn_task \<Rightarrow> bool" where
  "conn_eof t \<longleftrightarrow> \<not> ctk_cancel_tx t"

section \<open>Contracts\<close>

locale conn_world = pw: ping_world E clock deadline slack adv
  for E :: "('w, 't, 'sl, 'pp) ping_env" and clock :: "'w \<Rightarrow> instant" and deadline :: "'sl \<Rightarrow> instant" and slack :: nat
    and adv :: "'w \<Rightarrow> 'w \<Rightarrow> bool" +
  fixes H :: "'hc h2_connection_api" and X :: "'dr drop_channel_api"
  assumes conn_no_panic: "\<not> is_panicked (fst (hc_poll H hc))"
    and handles_gone: "\<not> dr_is_terminated X dr \<Longrightarrow> dr_poll_next X dr = (x, dr') \<Longrightarrow>
      \<not> is_panicked x \<and> (dr_is_terminated X dr' \<longleftrightarrow> is_ready x)"

section \<open>Executions\<close>

text \<open>
  A task is polled until it is ready, and dropped then or before. In between, frames move the pings, the
  peer moves the connection, and request handles are cloned and dropped. The last component says
  whether the task is over.
\<close>

type_synonym ('t, 'sl, 'hc, 'dr, 'pp, 'w) task_state =
  "('t, 'sl, 'hc, 'dr) conn_task \<times> ('t, 'pp) shared \<times> nat \<times> 'w \<times> bool"

definition set_conn :: "'hc \<Rightarrow> ('t, 'sl, 'hc, 'dr) conn_task \<Rightarrow> ('t, 'sl, 'hc, 'dr) conn_task" where
  "set_conn hc t = t\<lparr>ctk_conn := (ctk_conn t)\<lparr>cme_conn :=
     (case cme_conn (ctk_conn t) of WithPing p _ \<Rightarrow> WithPing p hc | Plain _ \<Rightarrow> Plain hc)\<rparr>\<rparr>"

inductive task_step ::
  "('w, 't, 'sl, 'pp) ping_env \<Rightarrow> ('w \<Rightarrow> 'w \<Rightarrow> bool) \<Rightarrow> 'hc h2_connection_api \<Rightarrow> 'dr drop_channel_api \<Rightarrow>
   ('t, 'sl, 'hc, 'dr, 'pp, 'w) task_state \<Rightarrow> ('t, 'sl, 'hc, 'dr, 'pp, 'w) task_state \<Rightarrow> bool"
  for E adv H X where
  Poll: "conn_task_run E H X n t sh w = Return (r, t', sh', w') \<Longrightarrow>
     task_step E adv H X (t, sh, n, w, False) (t', sh', n, w', r \<noteq> Pending)"
| Abort: "task_step E adv H X (t, sh, n, w, False) (conn_task_drop t, sh, n, w, True)"
| Frames: "cme_conn (ctk_conn t) = WithPing p hc \<Longrightarrow> ping_step E adv (p, sh, n, w) (p, sh', n', w') \<Longrightarrow>
     task_step E adv H X (t, sh, n, w, fin) (t, sh', n', w', fin)"
| Peer: "task_step E adv H X (t, sh, n, w, fin) (set_conn hc t, sh, n, w, fin)"
| Handles: "dr_is_terminated X dr = dr_is_terminated X (ctk_drop_rx t) \<Longrightarrow>
     task_step E adv H X (t, sh, n, w, fin) (t\<lparr>ctk_drop_rx := dr\<rparr>, sh, n, w, fin)"

text \<open>It starts as \<open>handshake\<close> spawns it.\<close>

definition conn_of :: "('t, 'sl) ponger option \<Rightarrow> 'hc \<Rightarrow> ('t, 'sl, 'hc) conn_map_err" where
  "conn_of p hc = \<lparr>cme_conn = (case p of Some p \<Rightarrow> WithPing p hc | None \<Rightarrow> Plain hc), cme_is_terminated = False\<rparr>"

inductive task_reachable ::
  "('w, 't, 'sl, 'pp) ping_env \<Rightarrow> ('w \<Rightarrow> 'w \<Rightarrow> bool) \<Rightarrow> 'hc h2_connection_api \<Rightarrow> 'dr drop_channel_api \<Rightarrow> config \<Rightarrow> 't time \<Rightarrow> 'w \<Rightarrow>
   ('t, 'sl, 'hc, 'dr, 'pp, 'w) task_state \<Rightarrow> bool"
  for E adv H X c timer w0 where
  with_ping: "ping_opened E adv c timer w0 (p, sh, n, w) \<Longrightarrow> \<not> dr_is_terminated X dr \<Longrightarrow>
     task_reachable E adv H X c timer w0 (conn_task_new (conn_of (Some p) hc) dr, sh, n, w, False)"
| plain: "\<not> dr_is_terminated X dr \<Longrightarrow> task_reachable E adv H X c timer w0 (conn_task_new (conn_of None hc) dr, sh, n, w, False)"
| step: "task_reachable E adv H X c timer w0 s \<Longrightarrow> task_step E adv H X s s' \<Longrightarrow> task_reachable E adv H X c timer w0 s'"

lemma ponger_poll_no_panicked:
  assumes "ponger_poll E n p sh w = Return (r, p', sh', w')"
  shows "\<not> is_panicked r"
proof -
  have b: "\<not> is_panicked r" if "ponger_bdp_ack E now d p sh = Return (r, x)" for now d p sh r x
    using that by (auto simp: ponger_bdp_ack_def Let_def split: option.splits prod.splits)
  have g: "\<not> is_panicked r" if "ponger_pong E now i p sh w = Return (r, x)" for now i p sh w r x
    using that b by (auto simp: ponger_pong_def Let_def split: option.splits prod.splits if_splits)
  have z: "\<not> is_panicked r" if "ponger_no_pong E p sh w = (r, x)" for p sh w r x
    using that by (auto simp: ponger_no_pong_def split: option.splits prod.splits if_splits)
  obtain now w1 where t: "time_now E (sh_timer sh) w = (now, w1)" by fastforce
  obtain p1 sh1 w2 where k: "run_keep_alive E p (ponger_is_idle n) sh w1 = Return (p1, sh1, w2)"
    using assms t by (auto simp: ponger_poll_def Let_def)
  obtain y pp w3 where y: "pp_poll_pong E (ping_pong sh1) w2 = (y, pp, w3)" by (rule prod_cases3)
  show ?thesis
    using assms t k y
    by (cases y) (auto simp: ponger_poll_def Let_def split: if_splits dest!: g z)
qed

context conn_world
begin

definition task_ok :: "instant \<Rightarrow> config \<Rightarrow> ('t, 'sl, 'hc, 'dr, 'pp, 'w) task_state \<Rightarrow> bool" where
  "task_ok t0 c s = (case s of (t, sh, n, w, fin) \<Rightarrow>
     (\<forall>p hc. cme_conn (ctk_conn t) = WithPing p hc \<longrightarrow> ping_inv clock deadline slack t0 c p sh w) \<and>
     (conn_eof t \<longleftrightarrow> fin \<or> dr_is_terminated X (ctk_drop_rx t)) \<and>
     (cme_is_terminated (ctk_conn t) \<longrightarrow> fin))"

lemma polled_ok:
  "\<exists>r hc'. polled H hc k x = Return (r, k hc', x) \<and> \<not> is_panicked r"
  using conn_no_panic [of hc] by (auto simp: polled_def split: prod.splits poll.splits)

lemma either_poll_ok:
  assumes "\<And>p hc. ec = WithPing p hc \<Longrightarrow> ping_inv clock deadline slack t0 c p sh w"
  shows "\<exists>r ec' sh' w'. either_poll E H n ec sh w = Return (r, ec', sh', w') \<and> \<not> is_panicked r \<and>
    (\<forall>p hc. ec' = WithPing p hc \<longrightarrow> ping_inv clock deadline slack t0 c p sh' w')"
proof (cases ec)
  case (Plain hc)
  with polled_ok [of hc Plain "(sh, w)"] show ?thesis by auto
next
  case (WithPing p hc)
  from pw.ponger_poll_ok [OF assms [OF WithPing], of n] obtain r p' sh' w' where
    q: "ponger_poll E n p sh w = Return (r, p', sh', w')" "ping_inv clock deadline slack t0 c p' sh' w'" by blast
  note fin = polled_ok [of _ "WithPing p'" "(sh', w')"]
  consider "r = Pending" | wnd where "r = Ready (SizeUpdate wnd)" | "r = Ready KeepAliveTimedOut" | m where "r = Panicked m"
    by (metis poll.exhaust ponged.exhaust)
  then show ?thesis
  proof cases
    case 1
    with q fin [of hc] show ?thesis by (auto simp: WithPing h2_conn_poll_def)
  next
    case (2 wnd)
    obtain res hc1 where "hc_set_initial_window_size H (hc_set_target_window_size H hc wnd) wnd = (res, hc1)" by fastforce
    with 2 q fin [of hc1] show ?thesis by (cases res) (auto simp: WithPing h2_conn_poll_def)
  next
    case 3
    with q show ?thesis by (auto simp: WithPing h2_conn_poll_def)
  next
    case (4 m)
    with ponger_poll_no_panicked [OF q(1)] show ?thesis by simp
  qed
qed

lemma watch_handles_ok:
  assumes "conn_eof t \<longleftrightarrow> dr_is_terminated X (ctk_drop_rx t)"
  shows "\<exists>t'. watch_handles X t = Return (Pending, t') \<and> ctk_conn t' = ctk_conn t \<and>
    (conn_eof t' \<longleftrightarrow> dr_is_terminated X (ctk_drop_rx t'))"
proof (cases "dr_is_terminated X (ctk_drop_rx t)")
  case True
  with assms show ?thesis by (simp add: watch_handles_def)
next
  case False
  obtain x dr where x: "dr_poll_next X (ctk_drop_rx t) = (x, dr)" by fastforce
  from handles_gone [OF False x] False assms x show ?thesis by (cases x) (auto simp: watch_handles_def conn_eof_def)
qed

lemma conn_task_run_ok:
  assumes "task_ok t0 c (t, sh, n, w, False)"
  shows "\<exists>r t' sh' w'. conn_task_run E H X n t sh w = Return (r, t', sh', w') \<and> \<not> is_panicked r \<and>
    task_ok t0 c (t', sh', n, w', r \<noteq> Pending)"
proof -
  have live: "\<not> cme_is_terminated (ctk_conn t)" and tx: "conn_eof t \<longleftrightarrow> dr_is_terminated X (ctk_drop_rx t)"
    using assms by (auto simp: task_ok_def)
  from either_poll_ok [of "cme_conn (ctk_conn t)" t0 c sh w n] assms obtain r ec sh' w' where
    e: "either_poll E H n (cme_conn (ctk_conn t)) sh w = Return (r, ec, sh', w')" "\<not> is_panicked r"
      "\<forall>p hc. ec = WithPing p hc \<longrightarrow> ping_inv clock deadline slack t0 c p sh' w'" by (auto simp: task_ok_def)
  let ?c = "(ctk_conn t)\<lparr>cme_conn := ec, cme_is_terminated := is_ready r\<rparr>"
  let ?r = "case r of Ready (Inl e) \<Rightarrow> Ready (Inl ()) | Ready (Inr u) \<Rightarrow> Ready (Inr ()) | Pending \<Rightarrow> Pending
            | Panicked m \<Rightarrow> Panicked m"
  have m: "conn_map_err_poll E H n (ctk_conn t) sh w = Return (?r, ?c, sh', w')"
    using live e(1) by (simp add: conn_map_err_poll_def Let_def)
  show ?thesis
  proof (cases "is_ready r")
    case True
    then have "is_ready ?r" by (cases r) (auto split: sum.splits)
    with m live True e(3) show ?thesis
      by (simp add: conn_task_run_def conn_task_poll_def conn_task_drop_def conn_eof_def Let_def task_ok_def)
  next
    case False
    then have r: "\<not> is_ready ?r" by (cases r) auto
    from watch_handles_ok [of "t\<lparr>ctk_conn := ?c\<rparr>"] tx obtain t' where
      "watch_handles X (t\<lparr>ctk_conn := ?c\<rparr>) = Return (Pending, t')" "ctk_conn t' = ?c"
      "conn_eof t' \<longleftrightarrow> dr_is_terminated X (ctk_drop_rx t')" by (auto simp: conn_eof_def)
    with m live r False e(3) show ?thesis
      by (simp add: conn_task_run_def conn_task_poll_def Let_def task_ok_def)
  qed
qed

lemma task_step_ok:
  assumes "task_step E adv H X s s'" "task_ok t0 c s"
  shows "task_ok t0 c s'"
  using assms(1)
proof (cases rule: task_step.cases)
  case (Poll n t sh w r t' sh' w')
  with conn_task_run_ok [of t0 c t sh n w] assms(2) show ?thesis by auto
next
  case (Abort t sh n w)
  with assms(2) show ?thesis by (auto simp: task_ok_def conn_task_drop_def conn_eof_def)
next
  case (Frames t p hc sh n w sh' n' w' fin)
  then have "ping_inv clock deadline slack t0 c p sh w" using assms(2) by (auto simp: task_ok_def)
  with pw.ping_step_ok [OF Frames(4)] have "ping_inv clock deadline slack t0 c p sh' w'" by simp
  with assms(2) Frames show ?thesis by (auto simp: task_ok_def)
next
  case (Peer t sh n w fin hc)
  with assms(2) show ?thesis by (auto simp: task_ok_def set_conn_def conn_eof_def split: either_conn.splits)
next
  case (Handles dr t sh n w fin)
  with assms(2) show ?thesis by (auto simp: task_ok_def conn_eof_def)
qed

lemma task_reachable_ok:
  assumes "task_reachable E adv H X c timer w0 s" "config_ok slack timer c"
  shows "task_ok (clock w0) c s"
  using assms(1)
proof (induction rule: task_reachable.induct)
  case (with_ping p sh n w hc dr)
  from pw.ping_opened_inv [OF with_ping(1) assms(2)] with_ping(2) show ?case
    by (simp add: task_ok_def conn_task_new_def conn_of_def conn_eof_def)
next
  case (plain dr hc sh n w)
  then show ?case by (simp add: task_ok_def conn_task_new_def conn_of_def conn_eof_def)
next
  case (step s s')
  then show ?case using task_step_ok by blast
qed

end

section \<open>A simulated connection\<close>

text \<open>A connection that is never ready, and a channel whose end comes when a flag is set.\<close>

definition sim_h2_connection :: "unit h2_connection_api" where
  "sim_h2_connection = \<lparr>hc_poll = (\<lambda>hc. (Pending, hc)), hc_set_target_window_size = (\<lambda>hc n. hc),
     hc_set_initial_window_size = (\<lambda>hc n. (Inr (), hc))\<rparr>"

definition sim_drop_channel :: "(bool \<times> bool) drop_channel_api" where
  "sim_drop_channel = \<lparr>dr_is_terminated = snd,
     dr_poll_next = (\<lambda>(gone, ended). if gone then (Ready (), True, True) else (Pending, gone, ended))\<rparr>"

interpretation sim_cw: conn_world "sim_ping reply" sim_clock "\<lambda>sl. sl" sim_horizon "(\<le>)" sim_h2_connection sim_drop_channel
  by unfold_locales (auto simp: sim_h2_connection_def sim_drop_channel_def split: if_splits)

section \<open>Properties\<close>

text \<open>
  C28. The task of an HTTP/2 connection is sound, for a configuration whose keep-alive, if there is one,
  comes with a timer and with durations within the range of the clock. In every state it gets into,
  however frames arrive, handles are dropped and the clock advances: the dispatch task has been told to
  shut down exactly if the task is over (done, or dropped by the executor) or the channel of the request
  handles has ended. While it is not over, its connection is not done, and running it once more returns
  without a panic (in particular \<open>cancel_tx\<close> is never taken twice); afterwards the dispatch task has
  been told exactly if the task is done or the handles are gone; and when the keep-alive times out in
  that poll, the task is done, so that the dispatch task is told.
\<close>

theorem conn_task_sound:
  assumes "conn_world E clock deadline slack adv H X"
    and "\<forall>i. keep_alive_interval c = Some i \<longrightarrow> i \<le> slack \<and> keep_alive_timeout c \<le> slack \<and> timer \<noteq> Empty"
    and "task_reachable E adv H X c timer w0 (t, sh, n, w, fin)"
  shows "(conn_eof t \<longleftrightarrow> fin \<or> dr_is_terminated X (ctk_drop_rx t)) \<and>
    (\<not> fin \<longrightarrow> \<not> cme_is_terminated (ctk_conn t) \<and>
      (\<exists>r t' sh' w'. conn_task_run E H X n t sh w = Return (r, t', sh', w') \<and> \<not> is_panicked r \<and>
        (r = Pending \<longrightarrow> \<not> cme_is_terminated (ctk_conn t')) \<and>
        (conn_eof t' \<longleftrightarrow> r = Ready () \<or> dr_is_terminated X (ctk_drop_rx t')) \<and>
        (\<forall>p hc p' sh1 w1. cme_conn (ctk_conn t) = WithPing p hc \<and>
           ponger_poll E n p sh w = Return (Ready KeepAliveTimedOut, p', sh1, w1) \<longrightarrow> r = Ready () \<and> conn_eof t')))"
proof -
  note W = assms(1)
  have "config_ok slack timer c" using assms(2) by (auto simp: config_ok_def split: option.splits)
  then have ok: "conn_world.task_ok clock deadline slack X (clock w0) c (t, sh, n, w, fin)"
    by (rule conn_world.task_reachable_ok [OF W assms(3)])
  then have inv: "conn_eof t \<longleftrightarrow> fin \<or> dr_is_terminated X (ctk_drop_rx t)" "cme_is_terminated (ctk_conn t) \<longrightarrow> fin"
    by (simp_all add: conn_world.task_ok_def [OF W])
  have "\<exists>r t' sh' w'. conn_task_run E H X n t sh w = Return (r, t', sh', w') \<and> \<not> is_panicked r \<and>
        (r = Pending \<longrightarrow> \<not> cme_is_terminated (ctk_conn t')) \<and>
        (conn_eof t' \<longleftrightarrow> r = Ready () \<or> dr_is_terminated X (ctk_drop_rx t')) \<and>
        (\<forall>p hc p' sh1 w1. cme_conn (ctk_conn t) = WithPing p hc \<and>
           ponger_poll E n p sh w = Return (Ready KeepAliveTimedOut, p', sh1, w1) \<longrightarrow> r = Ready () \<and> conn_eof t')"
    if "\<not> fin"
  proof -
    have "conn_world.task_ok clock deadline slack X (clock w0) c (t, sh, n, w, False)" using ok that by simp
    from conn_world.conn_task_run_ok [OF W this] obtain r t' sh' w' where
      p: "conn_task_run E H X n t sh w = Return (r, t', sh', w')" "\<not> is_panicked r"
        "conn_world.task_ok clock deadline slack X (clock w0) c (t', sh', n, w', r \<noteq> Pending)" by blast
    have "r = Ready ()" if "cme_conn (ctk_conn t) = WithPing q hc"
      "ponger_poll E n q sh w = Return (Ready KeepAliveTimedOut, q', sh1, w1)" for q hc q' sh1 w1
      using p(1) that inv(2) \<open>\<not> fin\<close>
      by (simp add: conn_task_run_def conn_task_poll_def conn_map_err_poll_def h2_conn_poll_def Let_def)
    moreover have "r \<noteq> Pending \<longleftrightarrow> r = Ready ()" using p(2) by (cases r) auto
    moreover have "conn_eof t' \<longleftrightarrow> r \<noteq> Pending \<or> dr_is_terminated X (ctk_drop_rx t')"
      "r = Pending \<longrightarrow> \<not> cme_is_terminated (ctk_conn t')"
      using p(3) by (auto simp: conn_world.task_ok_def [OF W])
    ultimately show ?thesis using p(1,2) by blast
  qed
  with inv show ?thesis by blast
qed

text \<open>All request handles are gone: the poll that notices it tells the dispatch task.\<close>

theorem conn_task_sound_witness:
  "\<exists>r t' sh' w'. conn_task_run (sim_ping True) sim_h2_connection sim_drop_channel 2
     (conn_task_new (conn_of None ()) (True, False)) (new_shared False True True 0 (Timer ())) 0 = Return (r, t', sh', w') \<and>
     \<not> is_panicked r \<and> (conn_eof t' \<longleftrightarrow> r = Ready () \<or> snd (ctk_drop_rx t'))"
proof -
  have reach: "task_reachable (sim_ping True) (\<le>) sim_h2_connection sim_drop_channel sim_config (Timer ()) 0
      (conn_task_new (conn_of None ()) (True, False), new_shared False True True 0 (Timer ()), 2, 0, False)"
    by (rule task_reachable.plain) (simp add: sim_drop_channel_def)
  have config: "\<forall>i. keep_alive_interval sim_config = Some i \<longrightarrow>
      i \<le> sim_horizon \<and> keep_alive_timeout sim_config \<le> sim_horizon \<and> Timer () \<noteq> Empty"
    by (simp add: sim_config_def config_new_def sim_horizon_def)
  have "\<exists>r t' sh' w'. conn_task_run (sim_ping True) sim_h2_connection sim_drop_channel 2
     (conn_task_new (conn_of None ()) (True, False)) (new_shared False True True 0 (Timer ())) 0 = Return (r, t', sh', w') \<and>
     \<not> is_panicked r \<and> (conn_eof t' \<longleftrightarrow> r = Ready () \<or> dr_is_terminated sim_drop_channel (ctk_drop_rx t'))"
    using conn_task_sound [OF sim_cw.conn_world_axioms config reach] by blast
  then show ?thesis by (simp add: sim_drop_channel_def)
qed

end
