(* ===== verification/H2_Client.thy ===== *)
theory H2_Client
  imports H2_Tunnel H2_Conn Http2_Headers Http2_Options Http1_Client
begin

text \<open>
  The dispatch task of an HTTP/2 connection, of \<open>proto/http2/client.rs\<close>: \<open>ClientTask\<close> takes requests
  from the request channel and opens a stream for each; a \<open>PipeMap\<close> sends the body, and a \<open>ResponseFutMap\<close>
  inside a \<open>SendWhen\<close> waits for the response. The two are tasks of their own, which the client task hands
  to the executor: here a list of tasks. \<open>conn/http2.rs\<close> holds the handles.

  The crate \<open>http2\<close> (opening streams, response futures), the one-shot channels of \<open>futures_channel\<close> and the
  user's header callback are parameters. The state that the tasks share (pings, upgrades, cancellation
  channels) is an \<open>h2_world\<close>, passed beside them. A one-shot channel that cancels a body is known by
  its number; the counting of recorders and of \<open>conn_drop_ref\<close> is left to \<open>H2_Conn\<close>.
\<close>

section \<open>Data\<close>

record ('t, 'pp, 'w, 'c, 'cc) h2_world =
  hw_shared :: "('t, 'pp) shared"
  hw_w :: 'w
  hw_ups :: "'c upgrades"
  hw_cc :: 'cc

record ('w, 't, 'sl, 'pp, 'hs, 'rf, 's, 'r, 'b, 'h, 'bd, 'tx, 'q, 'g, 'p, 'c, 'cc) h2_env =
  hv_api :: "'h http_api"
  hv_ping :: "('w, 't, 'sl, 'pp) ping_env"
  hv_chan :: "(('h, 'bd) request, ('h, 'r) response, 'tx, 'q, 'g, 'p) dispatch_api"
  hv_ops :: "'b buf_ops"
  hv_send :: "('s, 'b, 'h) send_stream_api"
  hv_recv :: "('r, 'h) recv_stream_api"
  hv_user :: "('bd, 'b, 'h) user_body"
  hv_upgrade :: "(('s, 'r) h2_upgraded upgraded, 'c) upgrade_api"
  hv_poll_ready :: "'hs \<Rightarrow> (h2_error + unit) poll \<times> 'hs"
  hv_send_request :: "'hs \<Rightarrow> 'h request_head \<Rightarrow> bool \<Rightarrow> (h2_error + 'rf \<times> 's) \<times> 'hs"
  hv_fut_poll :: "'rf \<Rightarrow> (h2_error + 'h response_head \<times> 'r) poll \<times> 'rf"
  hv_sort_headers :: "('h \<Rightarrow> (bytes \<times> header_value) list) \<Rightarrow> 'h \<Rightarrow> 'h"
  hv_cancel_new :: "'cc \<Rightarrow> nat \<times> 'cc"
  hv_cancel_send :: "'cc \<Rightarrow> nat \<Rightarrow> 'cc"
  hv_cancel_poll :: "'cc \<Rightarrow> nat \<Rightarrow> bool poll \<times> 'cc"
  hv_eof_poll :: "'cc \<Rightarrow> unit poll \<times> 'cc"

text \<open>\<open>rm_reset\<close> keeps a stream that was reset before it was dropped.\<close>

record ('rf, 's) resp_map =
  rm_fut :: 'rf
  rm_ping :: "recorder option"
  rm_send_stream :: "'s option option"
  rm_cancel_tx :: "nat option"
  rm_reset :: "'s option"

record ('bd, 's, 'b) pipe_map =
  pm_pipe :: "('bd, 's, 'b) pipe"
  pm_conn_drop_ref :: bool
  pm_ping :: "recorder option"
  pm_cancel_rx :: "nat option"

record ('rf, 's, 'bd, 'tx) fut_ctx =
  fc_is_connect :: bool
  fc_eos :: bool
  fc_fut :: 'rf
  fc_body_tx :: 's
  fc_body :: 'bd
  fc_cb :: "'tx callback"

datatype ('rf, 's, 'bd, 'b, 'tx) h2_task =
    TaskPipe "('bd, 's, 'b) pipe_map"
  | TaskSend "('rf, 's) resp_map" "'tx callback option"

record ('hs, 'rf, 's, 'bd, 'b, 'tx) client_task =
  ct_ping :: recorder
  ct_h2_tx :: 'hs
  ct_fut_ctx :: "('rf, 's, 'bd, 'tx) fut_ctx option"
  ct_executor :: "('rf, 's, 'bd, 'b, 'tx) h2_task list"

section \<open>ResponseFutMap\<close>

definition POLLED_TWICE :: string where
  "POLLED_TWICE = ''Future polled twice''"

definition resp_map_cancel where
  "resp_map_cancel E x =
     (case x of (m, wd) \<Rightarrow>
        case rm_cancel_tx m of
          None \<Rightarrow> (m, wd)
        | Some n \<Rightarrow> (m\<lparr>rm_cancel_tx := None\<rparr>, wd\<lparr>hw_cc := hv_cancel_send E (hw_cc wd) n\<rparr>))"

text \<open>A successful response to \<open>CONNECT\<close>: the stream becomes the upgraded connection.\<close>

definition connect_response where
  "connect_response E head rx_half ping tx_half content_length m wd =
     (if (case content_length of Some len \<Rightarrow> len \<noteq> 0 | None \<Rightarrow> False)
      then (Ready (Inl (new_h2 (h2_from_reason H2_INTERNAL_ERROR), None)),
            m\<lparr>rm_reset := Some (ss_send_reset (hv_send E) tx_half H2_INTERNAL_ERROR)\<rparr>, wd)
      else
        (case upgrade_pending (hv_upgrade E) (hw_ups wd) of (pend, fut_up, ups) \<Rightarrow>
           let io = \<lparr>hu_ping = ping, hu_send = tx_half, hu_recv = rx_half, hu_buf = []\<rparr>;
               ups = fulfill (hv_upgrade E) pend (upgraded_new io []) ups in
           (Ready (Inr \<lparr>rp_head = head, rp_upgrade = ou_rx fut_up, rp_body = incoming_empty\<rparr>),
            m, wd\<lparr>hw_ups := ups\<rparr>)))"

definition map_response where
  "map_response E head rx_half ping tx_half m wd =
     (let content_length = content_length_parse_all (hv_api E) (h_headers head) in
      case tx_half of
        Some s \<Rightarrow>
          if h_subject head = 200 then connect_response E head rx_half ping s content_length m wd
          else (Ready (Inr \<lparr>rp_head = head, rp_upgrade = None, rp_body =
                  incoming_h2 (hv_recv E) rx_half (decoded_length_from content_length)
                    (for_stream ping (rs_is_end_stream (hv_recv E) rx_half))\<rparr>), m, wd)
      | None \<Rightarrow>
          (Ready (Inr \<lparr>rp_head = head, rp_upgrade = None, rp_body =
             incoming_h2 (hv_recv E) rx_half (decoded_length_from content_length)
               (for_stream ping (rs_is_end_stream (hv_recv E) rx_half))\<rparr>), m, wd))"

definition resp_map_poll where
  "resp_map_poll E x =
     (case x of (m, wd) \<Rightarrow>
      case hv_fut_poll E (rm_fut m) of (r, fut) \<Rightarrow>
        let m = m\<lparr>rm_fut := fut\<rparr> in
        case r of
          Pending \<Rightarrow> (Pending, m, wd)
        | Panicked msg \<Rightarrow> (Panicked msg, m, wd)
        | Ready result \<Rightarrow>
            (case (rm_ping m, rm_send_stream m) of
               (Some ping, Some tx_half) \<Rightarrow>
                 (let m = m\<lparr>rm_ping := None, rm_send_stream := None\<rparr> in
                  case result of
                    Inr (head, rx_half) \<Rightarrow>
                      (case record_non_data (hv_ping E) ping (hw_shared wd) (hw_w wd) of (sh, w) \<Rightarrow>
                         map_response E head rx_half ping tx_half m (wd\<lparr>hw_shared := sh, hw_w := w\<rparr>))
                  | Inl err \<Rightarrow>
                      (case ensure_not_timed_out ping (hw_shared wd) of
                         Inl e \<Rightarrow> (Ready (Inl (e, None)), m, wd)
                       | Inr u \<Rightarrow> (Ready (Inl (new_h2 err, None)), m, wd)))
             | _ \<Rightarrow> (Panicked POLLED_TWICE, m, wd)))"

definition resp_fut where
  "resp_fut E = \<lparr>fut_poll = resp_map_poll E, fut_cancel = resp_map_cancel E\<rparr>"

text \<open>A poll of the task \<open>SendWhen\<close>.\<close>

definition send_task_poll where
  "send_task_poll E m cb wd p =
     rust_bind (send_when_poll (hv_chan E) (resp_fut E) \<lparr>sw_when = (m, wd), sw_call_back = cb\<rparr> p) (\<lambda>(r, s, p).
       Return (r, fst (sw_when s), sw_call_back s, snd (sw_when s), p))"

section \<open>PipeMap\<close>

text \<open>A ready pipe gives up its references; \<open>expect\<close> fails if it has none.\<close>

definition pipe_map_end where
  "pipe_map_end m cc =
     (if \<not> pm_conn_drop_ref m \<or> pm_ping m = None then Panic POLLED_TWICE
      else Return (Ready (), m\<lparr>pm_conn_drop_ref := False, pm_ping := None\<rparr>, cc))"

definition pipe_map_run where
  "pipe_map_run E m cc =
     (case pipe_poll (hv_ops E) (hv_send E) (hv_user E) (pm_pipe m) of
        None \<Rightarrow> None
      | Some (pipe, r) \<Rightarrow>
          Some (let m = m\<lparr>pm_pipe := pipe\<rparr> in
            case r of
              Ready result \<Rightarrow> pipe_map_end m cc
            | Pending \<Rightarrow> Return (Pending, m, cc)
            | Panicked msg \<Rightarrow> Panic msg))"

definition pipe_map_poll where
  "pipe_map_poll E m cc =
     (case pm_cancel_rx m of
        None \<Rightarrow> pipe_map_run E m cc
      | Some n \<Rightarrow>
          (case hv_cancel_poll E cc n of
             (Ready True, cc) \<Rightarrow>
               Some (pipe_map_end (m\<lparr>pm_pipe := pipe_send_reset (hv_send E) H2_CANCEL (pm_pipe m)\<rparr>) cc)
           | (Ready False, cc) \<Rightarrow> pipe_map_run E (m\<lparr>pm_cancel_rx := None\<rparr>) cc
           | (Pending, cc) \<Rightarrow> pipe_map_run E m cc
           | (Panicked msg, cc) \<Rightarrow> Some (Panic msg)))"

section \<open>ClientTask\<close>

text \<open>Opening the tasks of a request: the body is polled once before it becomes a task.\<close>

definition spawn where
  "spawn task t = t\<lparr>ct_executor := ct_executor t @ [task]\<rparr>"

definition spawn_pipe where
  "spawn_pipe E f cancel t =
     (if fc_is_connect f \<or> fc_eos f then Some (Return t)
      else case pipe_poll (hv_ops E) (hv_send E) (hv_user E) (pipe_new (fc_body f) (fc_body_tx f)) of
        None \<Rightarrow> None
      | Some (pipe, Ready r) \<Rightarrow> Some (Return t)
      | Some (pipe, Pending) \<Rightarrow>
          Some (Return (spawn (TaskPipe \<lparr>pm_pipe = pipe, pm_conn_drop_ref = True, pm_ping = Some (ct_ping t),
            pm_cancel_rx = Some cancel\<rparr>) t))
      | Some (pipe, Panicked m) \<Rightarrow> Some (Panic m))"

definition poll_pipe where
  "poll_pipe E f t wd =
     (case hv_cancel_new E (hw_cc wd) of (cancel, cc) \<Rightarrow>
        map_option (\<lambda>r. rust_bind r (\<lambda>t.
          Return (spawn (TaskSend \<lparr>rm_fut = fc_fut f, rm_ping = Some (ct_ping t),
             rm_send_stream = Some (if fc_is_connect f then Some (fc_body_tx f) else None),
             rm_cancel_tx = Some cancel, rm_reset = None\<rparr> (Some (fc_cb f))) t,
           wd\<lparr>hw_cc := cc\<rparr>)))
          (spawn_pipe E f cancel t))"

text \<open>The head as it goes to the stream.\<close>

definition h2_content_length where
  "h2_content_length E head len headers =
     (case len of
        Some len \<Rightarrow>
          if len \<noteq> 0 \<or> method_has_defined_payload_semantics (fst (h_subject head))
          then set_content_length_if_missing (hv_api E) headers len else headers
      | None \<Rightarrow> headers)"

definition h2_prepare where
  "h2_prepare E head len =
     (let headers = strip_connection_headers (hv_api E) (h_headers head) True;
          headers = h2_content_length E head len headers;
          ext = h_extensions head;
          headers = (case ext_on_preserve_header ext of Some f \<Rightarrow> hv_sort_headers E f headers | None \<Rightarrow> headers) in
      head\<lparr>h_headers := headers, h_extensions := ext\<lparr>ext_on_preserve_header := None\<rparr>\<rparr>)"

definition refuse where
  "refuse E cb e t c wd =
     (case callback_send (hv_chan E) cb (Inl \<lparr>tse_error = e, tse_message = None\<rparr>) (ch_promises c) of
        Panic m \<Rightarrow> (t, c, wd, Done (Panicked m) :: (error + dispatched) poll turn)
      | Return p \<Rightarrow> (t, c\<lparr>ch_promises := p\<rparr>, wd, Again))"

text \<open>After \<open>send_request\<close>: the stream may have to wait until it is open.\<close>

definition opened where
  "opened E f t c wd =
     (case hv_poll_ready E (ct_h2_tx t) of (r, hs) \<Rightarrow>
        let t = t\<lparr>ct_h2_tx := hs\<rparr> in
        case r of
          Pending \<Rightarrow> Some (t\<lparr>ct_fut_ctx := Some f\<rparr>, c, wd, Done Pending)
        | Panicked m \<Rightarrow> Some (t, c, wd, Done (Panicked m))
        | Ready (Inl err) \<Rightarrow> Some (refuse E (fc_cb f) (new_h2 err) t c wd)
        | Ready (Inr u) \<Rightarrow>
            (case poll_pipe E f t wd of
               None \<Rightarrow> None
             | Some (Panic m) \<Rightarrow> Some (t, c, wd, Done (Panicked m))
             | Some (Return (t, wd)) \<Rightarrow> Some (t, c, wd, Again)))"

definition start_request where
  "start_request E req cb t c wd =
     (case callback_is_canceled (hv_chan E) cb (ch_promises c) of
        Panic m \<Rightarrow> Some (t, c, wd, Done (Panicked m))
      | Return True \<Rightarrow>
          Some (t, c\<lparr>ch_promises := callback_drop (hv_chan E) False cb (ch_promises c)\<rparr>, wd, Again)
      | Return False \<Rightarrow>
          (let head = h2_prepare E (rq_head req) (ub_size_exact (hv_user E) (rq_body req));
               is_connect = (fst (h_subject head) = CONNECT);
               eos = ub_is_end_stream (hv_user E) (rq_body req) in
           if is_connect \<and> (case content_length_parse_all (hv_api E) (h_headers head) of Some len \<Rightarrow> len \<noteq> 0 | None \<Rightarrow> False)
           then Some (refuse E cb new_user_invalid_connect t c wd)
           else
             (case hv_send_request E (ct_h2_tx t) head (\<not> is_connect \<and> eos) of
                (Inl err, hs) \<Rightarrow> Some (refuse E cb (new_h2 err) (t\<lparr>ct_h2_tx := hs\<rparr>) c wd)
              | (Inr (fut, body_tx), hs) \<Rightarrow>
                  opened E \<lparr>fc_is_connect = is_connect, fc_eos = eos, fc_fut = fut, fc_body_tx = body_tx,
                    fc_body = rq_body req, fc_cb = cb\<rparr> (t\<lparr>ct_h2_tx := hs\<rparr>) c wd)))"

definition next_request where
  "next_request E t c wd =
     (case dispatch_poll_recv (hv_chan E) c of (r, c) \<Rightarrow>
        case r of
          Ready (Some (req, cb)) \<Rightarrow> start_request E req cb t c wd
        | Ready None \<Rightarrow> Some (t, c, wd, Done (Ready (Inr DispatchedShutdown)))
        | Panicked m \<Rightarrow> Some (t, c, wd, Done (Panicked m))
        | Pending \<Rightarrow>
            (case hv_eof_poll E (hw_cc wd) of (r, cc) \<Rightarrow>
               let wd = wd\<lparr>hw_cc := cc\<rparr> in
               case r of
                 Pending \<Rightarrow> Some (t, c, wd, Done Pending)
               | Panicked m \<Rightarrow> Some (t, c, wd, Done (Panicked m))
               | Ready u \<Rightarrow> Some (t, c, wd, Done (Ready (Inr DispatchedShutdown)))))"

definition client_turn where
  "client_turn E t c wd =
     (case hv_poll_ready E (ct_h2_tx t) of (r, hs) \<Rightarrow>
        let t = t\<lparr>ct_h2_tx := hs\<rparr> in
        case r of
          Pending \<Rightarrow> Some (t, c, wd, Done Pending)
        | Panicked m \<Rightarrow> Some (t, c, wd, Done (Panicked m))
        | Ready (Inl err) \<Rightarrow>
            (case ensure_not_timed_out (ct_ping t) (hw_shared wd) of
               Inl e \<Rightarrow> Some (t, c, wd, Done (Ready (Inl e)))
             | Inr u \<Rightarrow>
                 Some (t, c, wd, Done (Ready
                   (if h2_error_reason err = Some H2_NO_ERROR then Inr DispatchedShutdown else Inl (new_h2 err)))))
        | Ready (Inr u) \<Rightarrow>
            (case ct_fut_ctx t of
               Some f \<Rightarrow>
                 (case poll_pipe E f (t\<lparr>ct_fut_ctx := None\<rparr>) wd of
                    None \<Rightarrow> None
                  | Some (Panic m) \<Rightarrow> Some (t\<lparr>ct_fut_ctx := None\<rparr>, c, wd, Done (Panicked m))
                  | Some (Return (t, wd)) \<Rightarrow> Some (t, c, wd, Again))
             | None \<Rightarrow> next_request E t c wd))"

partial_function (option) client_poll ::
  "('w, 't, 'sl, 'pp, 'hs, 'rf, 's, 'r, 'b, 'h, 'bd, 'tx, 'q, 'g, 'p, 'c, 'cc) h2_env \<Rightarrow>
   ('hs, 'rf, 's, 'bd, 'b, 'tx) client_task \<Rightarrow> ('q, 'g, 'p) chan \<Rightarrow> ('t, 'pp, 'w, 'c, 'cc) h2_world \<Rightarrow>
   (('hs, 'rf, 's, 'bd, 'b, 'tx) client_task \<times> ('q, 'g, 'p) chan \<times> ('t, 'pp, 'w, 'c, 'cc) h2_world \<times>
    (error + dispatched) poll) option" where
  "client_poll E t c wd =
     (case client_turn E t c wd of
        None \<Rightarrow> None
      | Some (t, c, wd, Done r) \<Rightarrow> Some (t, c, wd, r)
      | Some (t, c, wd, Again) \<Rightarrow> client_poll E t c wd)"

text \<open>Dropping the client task: its receiver first, then a request that waits for its stream.\<close>

definition client_drop where
  "client_drop E panicking t c =
     rust_bind (dispatch_drop_receiver (hv_chan E) c) (\<lambda>c.
       Return (t\<lparr>ct_fut_ctx := None\<rparr>,
         case ct_fut_ctx t of None \<Rightarrow> c
         | Some f \<Rightarrow> c\<lparr>ch_promises := callback_drop (hv_chan E) panicking (fc_cb f) (ch_promises c)\<rparr>))"

section \<open>Handshake\<close>

text \<open>
  \<open>handshake\<close> of \<open>proto/http2/client.rs\<close>, once the crate \<open>http2\<close> has exchanged the prefaces with the
  result \<open>hand\<close>: the client task and the task of the connection, which it hands to the executor. The
  shared state \<open>sh0\<close> stands for the absent one of a connection without pings.
\<close>

definition h2_handshake where
  "h2_handshake P hc_ping_pong hand cfg timer dr sh0 w =
     (case hand of
        Inl e \<Rightarrow> Return (Inl (new_h2 e))
      | Inr (h2_tx, hc) \<Rightarrow>
          rust_bind
            (if is_enabled cfg then
               (case hc_ping_pong hc of
                  (None, hc) \<Rightarrow> Panic ''conn.ping_pong''
                | (Some pp, hc) \<Rightarrow>
                    rust_bind (ping_channel P pp cfg timer w) (\<lambda>(recorder, ponger, sh, w).
                      Return (WithPing ponger hc, recorder, sh, w)))
             else Return (Plain hc, disabled, sh0, w))
            (\<lambda>(conn, ping, sh, w).
               Return (Inr (\<lparr>ct_ping = ping, ct_h2_tx = h2_tx, ct_fut_ctx = None, ct_executor = []\<rparr>,
                 conn_task_new \<lparr>cme_conn = conn, cme_is_terminated = False\<rparr> dr, sh, w))))"

section \<open>Handles\<close>

text \<open>\<open>conn/http2.rs\<close>: the sender may be cloned and has no state of its own.\<close>

definition h2_send_request_is_ready where
  "h2_send_request_is_ready D c = unbounded_is_ready D c"

definition h2_send_request_is_closed where
  "h2_send_request_is_closed D c = unbounded_is_closed D c"

definition h2_send_request_poll_ready :: "('t, 'u, 'tx, 'q, 'g, 'p) dispatch_api \<Rightarrow> ('q, 'g, 'p) chan \<Rightarrow> (error + unit) poll" where
  "h2_send_request_poll_ready D c = (if h2_send_request_is_closed D c then Ready (Inl new_closed) else Ready (Inr ()))"

text \<open>The future is the one of HTTP/1 (\<open>response_future_poll\<close>).\<close>

definition h2_try_send_request ::
  "('t, 'u, 'tx, 'q, 'g, 'p) dispatch_api \<Rightarrow> 't \<Rightarrow> ('q, 'g, 'p) chan \<Rightarrow> ('t, 'tx) response_future \<times> ('q, 'g, 'p) chan" where
  "h2_try_send_request D req c = (case unbounded_try_send D req c of (sent, c) \<Rightarrow> (response_future_of sent, c))"

definition h2_connection_poll where
  "h2_connection_poll E t c wd =
     map_option (\<lambda>(t, c, wd, r).
       (t, c, wd, case r of
          Pending \<Rightarrow> Pending
        | Panicked m \<Rightarrow> Panicked m
        | Ready (Inl e) \<Rightarrow> Ready (Inl e)
        | Ready (Inr DispatchedShutdown) \<Rightarrow> Ready (Inr ())
        | Ready (Inr (DispatchedUpgrade n)) \<Rightarrow> Panicked ''http2 cannot upgrade''))
       (client_poll E t c wd)"

record ('ex, 't, 'po, 'sd, 'so, 'pr) http2_builder =
  hbd_exec :: 'ex
  hbd_timer :: "'t time"
  hbd_opts :: "('po, 'sd, 'so, 'pr) http2_options"

definition http2_builder_new :: "'ex \<Rightarrow> ('ex, 't, 'po, 'sd, 'so, 'pr) http2_builder" where
  "http2_builder_new exec = \<lparr>hbd_exec = exec, hbd_timer = Empty, hbd_opts = http2_options_default\<rparr>"

definition http2_builder_timer ::
  "('ex, 't, 'po, 'sd, 'so, 'pr) http2_builder \<Rightarrow> 't \<Rightarrow> ('ex, 't, 'po, 'sd, 'so, 'pr) http2_builder" where
  "http2_builder_timer b timer = b\<lparr>hbd_timer := Timer timer\<rparr>"

definition http2_builder_options ::
  "('ex, 't, 'po, 'sd, 'so, 'pr) http2_builder \<Rightarrow> ('po, 'sd, 'so, 'pr) http2_options \<Rightarrow> ('ex, 't, 'po, 'sd, 'so, 'pr) http2_builder" where
  "http2_builder_options b opts = b\<lparr>hbd_opts := opts\<rparr>"

text \<open>
  \<open>Builder::handshake\<close>: the configured builder of the crate \<open>http2\<close> does the handshake on the transport
  (\<open>preface\<close>), and the request channel and the tasks are set up.
\<close>

definition http2_builder_handshake where
  "http2_builder_handshake HB preface D P hc_ping_pong b p dr sh0 w =
     (case dispatch_channel D p of (tx, chan) \<Rightarrow>
        rust_bind
          (h2_handshake P hc_ping_pong (preface (configure_builder HB (hbd_opts b))) (ping_config_of (hbd_opts b)) (hbd_timer b) dr sh0 w)
          (\<lambda>r. Return (map_sum (\<lambda>e. e) (\<lambda>x. (chan, x)) r)))"

end
