(* ===== verification/H2_Client_Props.thy ===== *)
theory H2_Client_Props
  imports H2_Client "HOL-Library.Multiset"
begin

text \<open>
  Every request that an HTTP/2 connection takes is answered exactly once. While a promise is unresolved
  its callback is in one place: in the queue, with the request that waits for its stream, or with the
  task that waits for the response. Polling the client task always returns.
\<close>

section \<open>Contract and invariant\<close>

text \<open>
  The stream halves, the bodies and the request channel keep their contracts, and the calls into the
  crate \<open>http2\<close> and the cancellation channels do not panic.
\<close>

locale h2_client =
  fixes E :: "('w, 't, 'sl, 'pp, 'hs, 'rf, 's, 'r, 'b, 'h, 'bd, 'tx, 'q, 'g, 'p, 'c, 'cc) h2_env"
    and trace :: "'s \<Rightarrow> 'h sent_event list" and view :: "'b \<Rightarrow> bytes" and spurious :: "'s \<Rightarrow> nat"
    and rest :: "'bd \<Rightarrow> ('b, 'h) user_frame list"
    and contents :: "'q \<Rightarrow> (('h, 'bd) request, 'tx) envelope list" and issued :: "'p \<Rightarrow> 'tx set"
    and outcome :: "'p \<Rightarrow> 'tx \<Rightarrow> (('h, 'bd) request, ('h, 'r) response) reply option"
  assumes a_piping: "piping (hv_send E) trace view spurious (hv_user E) rest"
    and a_requests: "request_channel (hv_chan E) contents issued outcome"
    and ready_no_panic: "\<not> is_panicked (fst (hv_poll_ready E hs))"
    and fut_no_panic: "\<not> is_panicked (fst (hv_fut_poll E rf))"
    and cancel_no_panic: "\<not> is_panicked (fst (hv_cancel_poll E cc n))"
    and eof_no_panic: "\<not> is_panicked (fst (hv_eof_poll E cc))"

sublocale h2_client \<subseteq> pi: piping "hv_send E" trace view spurious "hv_user E" rest
  by (rule a_piping)

sublocale h2_client \<subseteq> rc: request_channel "hv_chan E" contents issued outcome
  by (rule a_requests)

fun task_callbacks :: "('rf, 's, 'bd, 'b, 'tx) h2_task \<Rightarrow> 'tx callback list" where
  "task_callbacks (TaskPipe m) = []"
| "task_callbacks (TaskSend m cb) = (case cb of None \<Rightarrow> [] | Some cb \<Rightarrow> [cb])"

definition waiting_callbacks :: "('rf, 's, 'bd, 'tx) fut_ctx option \<Rightarrow> 'tx callback list" where
  "waiting_callbacks f = (case f of None \<Rightarrow> [] | Some f \<Rightarrow> [fc_cb f])"

definition h2_held :: "('hs, 'rf, 's, 'bd, 'b, 'tx) client_task \<Rightarrow> 'tx callback list" where
  "h2_held t = waiting_callbacks (ct_fut_ctx t) @ concat (map task_callbacks (ct_executor t))"

text \<open>A task that can still be polled has everything that its polls take out.\<close>

fun h2_task_ok ::
  "('s \<Rightarrow> 'h sent_event list) \<Rightarrow> ('b \<Rightarrow> bytes) \<Rightarrow> ('bd \<Rightarrow> ('b, 'h) user_frame list) \<Rightarrow>
   ('rf, 's, 'bd, 'b, 'tx) h2_task \<Rightarrow> bool" where
  "h2_task_ok trace view rest (TaskPipe m) \<longleftrightarrow>
     pm_conn_drop_ref m \<and> pm_ping m \<noteq> None \<and> (\<exists>t0 fs. pipe_ok trace view rest t0 fs (pm_pipe m))"
| "h2_task_ok trace view rest (TaskSend m cb) \<longleftrightarrow> cb \<noteq> None \<and> rm_ping m \<noteq> None \<and> rm_send_stream m \<noteq> None"

definition h2_ok ::
  "('s \<Rightarrow> 'h sent_event list) \<Rightarrow> ('b \<Rightarrow> bytes) \<Rightarrow> ('bd \<Rightarrow> ('b, 'h) user_frame list) \<Rightarrow>
   ('q \<Rightarrow> (('h, 'bd) request, 'tx) envelope list) \<Rightarrow> ('p \<Rightarrow> 'tx set) \<Rightarrow>
   ('p \<Rightarrow> 'tx \<Rightarrow> (('h, 'bd) request, ('h, 'r) response) reply option) \<Rightarrow>
   ('hs, 'rf, 's, 'bd, 'b, 'tx) client_task \<Rightarrow> ('q, 'g, 'p) chan \<Rightarrow> bool" where
  "h2_ok trace view rest contents issued outcome t c \<longleftrightarrow>
     ownership contents issued outcome c (h2_held t) \<and> (\<forall>x \<in> set (ct_executor t). h2_task_ok trace view rest x)"

lemma ownership_perm:
  "mset xs = mset ys \<Longrightarrow> ownership contents issued outcome c xs = ownership contents issued outcome c ys"
proof -
  assume p: "mset xs = mset ys"
  then have "mset (held_txs xs) = mset (held_txs ys)" by (simp add: held_txs_def)
  then have "distinct (held_txs xs) = distinct (held_txs ys)" "set (held_txs xs) = set (held_txs ys)"
    using mset_eq_imp_distinct_iff mset_eq_setD by blast+
  then show ?thesis using mset_eq_setD [OF p] by (simp add: ownership_def pending_def)
qed

lemma h2_held_simps [simp]:
  "h2_held (t\<lparr>ct_h2_tx := hs\<rparr>) = h2_held t" "h2_held (t\<lparr>ct_ping := r\<rparr>) = h2_held t"
  "h2_held (spawn (TaskPipe m) t) = h2_held t"
  "h2_held (spawn (TaskSend rm (Some cb)) t) = h2_held t @ [cb]"
  "ct_fut_ctx (spawn x t) = ct_fut_ctx t" "ct_executor (spawn x t) = ct_executor t @ [x]"
  "ct_ping (spawn x t) = ct_ping t"
  by (simp_all add: h2_held_def spawn_def)

lemma h2_held_ctx: "ct_fut_ctx t = Some f \<Longrightarrow> h2_held t = fc_cb f # h2_held (t\<lparr>ct_fut_ctx := None\<rparr>)"
  "ct_fut_ctx t = None \<Longrightarrow> h2_held (t\<lparr>ct_fut_ctx := Some f\<rparr>) = fc_cb f # h2_held t"
  by (simp_all add: h2_held_def waiting_callbacks_def)

lemma h2_held_task: "ct_executor t = xs @ TaskSend m (Some cb) # ys \<Longrightarrow>
   mset (h2_held t) = mset (cb # h2_held (t\<lparr>ct_executor := xs @ ys\<rparr>))"
  by (simp add: h2_held_def)

section \<open>The client task\<close>

context h2_client
begin

abbreviation ok where "ok \<equiv> h2_ok trace view rest contents issued outcome"
abbreviation tok where "tok \<equiv> h2_task_ok trace view rest"

lemma spawn_pipe_ok:
  assumes "\<forall>x \<in> set (ct_executor t). tok x"
  shows "\<exists>t'. spawn_pipe E f cancel t = Some (Return t') \<and> h2_held t' = h2_held t \<and> ct_fut_ctx t' = ct_fut_ctx t \<and>
    (\<forall>x \<in> set (ct_executor t'). tok x)"
proof (cases "fc_is_connect f \<or> fc_eos f")
  case True
  with assms show ?thesis by (simp add: spawn_pipe_def)
next
  case False
  from pi.pipe_poll_ok [OF pipe_new_ok, of "hv_ops E"] obtain p' r where
    p: "pipe_poll (hv_ops E) (hv_send E) (hv_user E) (pipe_new (fc_body f) (fc_body_tx f)) = Some (p', r)"
      "pipe_result trace view rest (trace (fc_body_tx f)) (rest (fc_body f)) p' r" by blast
  with False assms show ?thesis
    by (cases r) (auto simp: spawn_pipe_def pipe_result_def)
qed

lemma poll_pipe_ok:
  assumes "ok t c" "ct_fut_ctx t = Some f"
  shows "\<exists>t' wd'. poll_pipe E f (t\<lparr>ct_fut_ctx := None\<rparr>) wd = Some (Return (t', wd')) \<and> ok t' c \<and> ct_fut_ctx t' = None"
proof -
  obtain cancel cc where n: "hv_cancel_new E (hw_cc wd) = (cancel, cc)" by fastforce
  let ?t = "t\<lparr>ct_fut_ctx := None\<rparr>"
  have o: "rc.owns c (fc_cb f # h2_held ?t)" and tasks: "\<forall>x \<in> set (ct_executor ?t). tok x"
    using assms h2_held_ctx(1) [OF assms(2)] by (simp_all add: h2_ok_def)
  from spawn_pipe_ok [OF tasks, of f cancel] obtain t' where
    s: "spawn_pipe E f cancel ?t = Some (Return t')" "h2_held t' = h2_held ?t" "ct_fut_ctx t' = None"
      "\<forall>x \<in> set (ct_executor t'). tok x" by auto
  have "rc.owns c (h2_held ?t @ [fc_cb f])" using o by (subst ownership_perm [of _ "fc_cb f # h2_held ?t"]) simp_all
  with s n show ?thesis by (simp add: poll_pipe_def h2_ok_def)
qed

lemma refuse_ok:
  assumes "rc.owns c (cb # h2_held t)" "\<forall>x \<in> set (ct_executor t). tok x"
  shows "\<exists>c'. refuse E cb e t c wd = (t, c', wd, Again) \<and> ok t c' \<and> rc.keeps (ch_promises c) (ch_promises c') \<and>
    ch_queue c' = ch_queue c"
proof -
  obtain tx where tx: "cb_sender cb = Some tx" using assms(1) by (auto simp: ownership_def)
  let ?r = "Inl \<lparr>tse_error = e, tse_message = None\<rparr>"
  obtain p where p: "snd (p_send (hv_chan E) (ch_promises c) (the (cb_sender cb)) ?r) = p" by simp
  from rc.held_resolved_ok [of c "[]" cb "h2_held t", OF _ p] assms(1) have
    "rc.owns (c\<lparr>ch_promises := p\<rparr>) (h2_held t)" "rc.keeps (ch_promises c) p" by simp_all
  with p tx assms(2) show ?thesis
    by (intro exI [of _ "c\<lparr>ch_promises := p\<rparr>"]) (simp add: refuse_def callback_send_def callback_drop_def h2_ok_def)
qed

text \<open>What a turn may do to the task and the channel.\<close>

definition turned where
  "turned t c t' c' r \<longleftrightarrow> ok t' c' \<and> rc.keeps (ch_promises c) (ch_promises c') \<and> (\<forall>m. r \<noteq> Done (Panicked m)) \<and>
     (r = Again \<longrightarrow> ct_fut_ctx t' = None)"

lemma opened_ok:
  assumes "rc.owns c (fc_cb f # h2_held t)" "\<forall>x \<in> set (ct_executor t). tok x" "ct_fut_ctx t = None"
  shows "\<exists>t' c' wd' r. opened E f t c wd = Some (t', c', wd', r) \<and> turned t c t' c' r \<and>
    contents (ch_queue c') = contents (ch_queue c)"
proof -
  obtain x hs where x: "hv_poll_ready E (ct_h2_tx t) = (x, hs)" by fastforce
  then have np: "\<not> is_panicked x" using ready_no_panic [of "ct_h2_tx t"] by simp
  let ?t = "t\<lparr>ct_h2_tx := hs\<rparr>"
  let ?tf = "?t\<lparr>ct_fut_ctx := Some f\<rparr>"
  have okf: "ok ?tf c" using assms h2_held_ctx(2) [of ?t f] by (simp add: h2_ok_def)
  consider "x = Pending" | e where "x = Ready (Inl e)" | "x = Ready (Inr ())"
    using np by (cases x) (auto, metis sum.exhaust old.unit.exhaust)
  then show ?thesis
  proof cases
    case 1
    with x okf show ?thesis by (simp add: opened_def turned_def)
  next
    case (2 e)
    from refuse_ok [of c "fc_cb f" ?t "new_h2 e" wd] assms obtain c' where
      "refuse E (fc_cb f) (new_h2 e) ?t c wd = (?t, c', wd, Again)" "ok ?t c'"
      "rc.keeps (ch_promises c) (ch_promises c')" "ch_queue c' = ch_queue c" by auto
    with 2 x assms(3) show ?thesis
      by (intro exI [of _ ?t] exI [of _ c'] exI [of _ wd] exI [of _ Again]) (simp add: opened_def turned_def)
  next
    case 3
    have "?tf\<lparr>ct_fut_ctx := None\<rparr> = ?t" using assms(3) by (cases t) simp
    with poll_pipe_ok [OF okf, of f wd] obtain t' wd' where
      "poll_pipe E f ?t wd = Some (Return (t', wd'))" "ok t' c" "ct_fut_ctx t' = None" by auto
    with 3 x show ?thesis by (simp add: opened_def turned_def)
  qed
qed

end

context h2_client
begin

lemma start_request_ok:
  assumes "rc.owns c (cb # h2_held t)" "\<forall>x \<in> set (ct_executor t). tok x" "ct_fut_ctx t = None"
  shows "\<exists>t' c' wd' r. start_request E req cb t c wd = Some (t', c', wd', r) \<and> turned t c t' c' r \<and>
    contents (ch_queue c') = contents (ch_queue c)"
proof -
  obtain tx where tx: "cb_sender cb = Some tx" using assms(1) by (auto simp: ownership_def)
  define head where "head = h2_prepare E (rq_head req) (ub_size_exact (hv_user E) (rq_body req))"
  let ?con = "fst (h_subject head) = CONNECT" and ?eos = "ub_is_end_stream (hv_user E) (rq_body req)"
  let ?bad = "?con \<and> (case content_length_parse_all (hv_api E) (h_headers head) of Some len \<Rightarrow> len \<noteq> 0 | None \<Rightarrow> False)"
  show ?thesis
  proof (cases "p_is_closed (hv_chan E) (ch_promises c) tx")
    case True
    let ?r = "Inl \<lparr>tse_error = dispatch_gone False, tse_message = None\<rparr>"
    obtain p where p: "snd (p_send (hv_chan E) (ch_promises c) (the (cb_sender cb)) ?r) = p" by simp
    from rc.held_resolved_ok [of c "[]" cb "h2_held t", OF _ p] assms(1) have
      "rc.owns (c\<lparr>ch_promises := p\<rparr>) (h2_held t)" "rc.keeps (ch_promises c) p" by simp_all
    with True tx p assms(2,3) show ?thesis
      by (intro exI [of _ t] exI [of _ "c\<lparr>ch_promises := p\<rparr>"] exI [of _ wd] exI [of _ Again])
        (simp add: start_request_def callback_is_canceled_def callback_drop_def turned_def h2_ok_def)
  next
    case open_: False
    show ?thesis
    proof (cases ?bad)
      case True
      from refuse_ok [OF assms(1,2), of new_user_invalid_connect wd] obtain c' where
        "refuse E cb new_user_invalid_connect t c wd = (t, c', wd, Again)" "ok t c'"
        "rc.keeps (ch_promises c) (ch_promises c')" "ch_queue c' = ch_queue c" by auto
      with True open_ tx assms(3) show ?thesis
        by (intro exI [of _ t] exI [of _ c'] exI [of _ wd] exI [of _ Again])
          (simp add: start_request_def callback_is_canceled_def turned_def Let_def flip: head_def)
    next
      case False
      obtain x hs where x: "hv_send_request E (ct_h2_tx t) head (\<not> ?con \<and> ?eos) = (x, hs)" by fastforce
      let ?t = "t\<lparr>ct_h2_tx := hs\<rparr>"
      have t: "rc.owns c (cb # h2_held ?t)" "\<forall>x \<in> set (ct_executor ?t). tok x" "ct_fut_ctx ?t = None"
        using assms by simp_all
      show ?thesis
      proof (cases x)
        case (Inl e)
        from refuse_ok [OF t(1,2), of "new_h2 e" wd] obtain c' where
          "refuse E cb (new_h2 e) ?t c wd = (?t, c', wd, Again)" "ok ?t c'"
          "rc.keeps (ch_promises c) (ch_promises c')" "ch_queue c' = ch_queue c" by auto
        moreover have "start_request E req cb t c wd = Some (refuse E cb (new_h2 e) ?t c wd)"
          using False open_ tx x Inl
          by (auto simp: start_request_def callback_is_canceled_def Let_def simp flip: head_def)
        ultimately show ?thesis using t(3)
          by (intro exI [of _ ?t] exI [of _ c'] exI [of _ wd] exI [of _ Again]) (simp add: turned_def)
      next
        case (Inr y)
        obtain fut body_tx where y: "y = (fut, body_tx)" by fastforce
        let ?f = "\<lparr>fc_is_connect = ?con, fc_eos = ?eos, fc_fut = fut, fc_body_tx = body_tx,
          fc_body = rq_body req, fc_cb = cb\<rparr>"
        have "start_request E req cb t c wd = opened E ?f ?t c wd"
          using False open_ tx x Inr y
          by (auto simp: start_request_def callback_is_canceled_def Let_def simp flip: head_def)
        then show ?thesis using opened_ok [of c ?f ?t wd] t by (simp add: turned_def)
      qed
    qed
  qed
qed

lemma recv_shrinks:
  assumes "dispatch_poll_recv (hv_chan E) c = (Ready (Some m), c')"
  shows "length (contents (ch_queue c')) < length (contents (ch_queue c))"
proof -
  obtain x q where x: "q_poll_recv (hv_chan E) (ch_queue c) = (x, q)" by fastforce
  with assms rc.q_poll_recv [OF x] show ?thesis
    by (auto simp: dispatch_poll_recv_def Let_def split: poll.splits option.splits)
qed

lemma next_request_ok:
  assumes "ok t c" "ct_fut_ctx t = None"
  shows "\<exists>t' c' wd' r. next_request E t c wd = Some (t', c', wd', r) \<and> turned t c t' c' r \<and>
    (r = Again \<longrightarrow> length (contents (ch_queue c')) < length (contents (ch_queue c)))"
proof -
  have o: "rc.owns c (h2_held t)" and tasks: "\<forall>x \<in> set (ct_executor t). tok x" using assms(1) by (simp_all add: h2_ok_def)
  obtain v c1 where v: "dispatch_poll_recv (hv_chan E) c = (v, c1)" by fastforce
  note r = rc.poll_recv_ok [OF o v]
  consider "v = Pending" | "v = Ready None" | req cb where "v = Ready (Some (req, cb))"
    using r(3) by (cases v) (auto, metis option.exhaust prod.exhaust)
  then show ?thesis
  proof cases
    case 1
    obtain e cc where e: "hv_eof_poll E (hw_cc wd) = (e, cc)" by fastforce
    have "rc.owns c1 (h2_held t)" using r(1) 1 by simp
    with 1 v e r(2) tasks eof_no_panic [of "hw_cc wd"] assms(2) show ?thesis
      by (cases e) (auto simp: next_request_def turned_def h2_ok_def Let_def)
  next
    case 2
    with v r tasks show ?thesis by (auto simp: next_request_def turned_def h2_ok_def held_of_def)
  next
    case (3 req cb)
    have o1: "rc.owns c1 (cb # h2_held t)" using r(1) 3 by (simp add: held_of_def)
    from start_request_ok [OF o1 tasks assms(2), of req wd] obtain t' c' wd' r' where
      s: "start_request E req cb t c1 wd = Some (t', c', wd', r')" "turned t c1 t' c' r'"
        "contents (ch_queue c') = contents (ch_queue c1)" by blast
    have "turned t c t' c' r'" using s(2) r(2) by (simp add: turned_def)
    with s 3 v recv_shrinks [of c "(req, cb)" c1] show ?thesis by (simp add: next_request_def)
  qed
qed

definition client_order where
  "client_order = measures [\<lambda>(t, c, wd). length (contents (ch_queue c)), \<lambda>(t, c, wd). length (waiting_callbacks (ct_fut_ctx t))]"

lemma client_turn_ok:
  assumes "ok t c"
  shows "\<exists>t' c' wd' r. client_turn E t c wd = Some (t', c', wd', r) \<and> turned t c t' c' r \<and>
    (r = Again \<longrightarrow> ((t', c', wd'), (t, c, wd)) \<in> client_order)"
proof -
  obtain x hs where x: "hv_poll_ready E (ct_h2_tx t) = (x, hs)" by fastforce
  then have np: "\<not> is_panicked x" using ready_no_panic [of "ct_h2_tx t"] by simp
  let ?t = "t\<lparr>ct_h2_tx := hs\<rparr>"
  have k: "ok ?t c" using assms by (simp add: h2_ok_def)
  consider "x = Pending" | e where "x = Ready (Inl e)" | "x = Ready (Inr ())"
    using np by (cases x) (auto, metis sum.exhaust old.unit.exhaust)
  then show ?thesis
  proof cases
    case 1
    with x k show ?thesis by (simp add: client_turn_def turned_def)
  next
    case (2 e)
    with x k show ?thesis by (auto simp: client_turn_def turned_def Let_def split: sum.splits)
  next
    case 3
    show ?thesis
    proof (cases "ct_fut_ctx t")
      case None
      then have "ct_fut_ctx ?t = None" by simp
      from next_request_ok [OF k this, of wd] obtain t' c' wd' r where
        n: "next_request E ?t c wd = Some (t', c', wd', r)" "turned ?t c t' c' r"
          "r = Again \<longrightarrow> length (contents (ch_queue c')) < length (contents (ch_queue c))" by blast
      have "turned t c t' c' r" using n(2) by (simp add: turned_def)
      with n 3 x None show ?thesis by (simp add: client_turn_def client_order_def)
    next
      case (Some f)
      then have "ct_fut_ctx ?t = Some f" by simp
      from poll_pipe_ok [OF k this, of wd] obtain t' wd' where
        p: "poll_pipe E f (?t\<lparr>ct_fut_ctx := None\<rparr>) wd = Some (Return (t', wd'))" "ok t' c" "ct_fut_ctx t' = None" by blast
      with 3 x Some show ?thesis
        by (simp add: client_turn_def turned_def client_order_def waiting_callbacks_def)
    qed
  qed
qed

lemma wf_client_order: "wf client_order"
  by (simp add: client_order_def)

lemma client_poll_ok:
  "ok t c \<Longrightarrow> \<exists>t' c' wd' r. client_poll E t c wd = Some (t', c', wd', r) \<and> \<not> is_panicked r \<and> ok t' c' \<and>
     rc.keeps (ch_promises c) (ch_promises c')"
proof (induction "(t, c, wd)" arbitrary: t c wd rule: wf_induct_rule [OF wf_client_order])
  case (1 t c wd)
  from client_turn_ok [OF 1(2), of wd] obtain t1 c1 wd1 r1 where
    u: "client_turn E t c wd = Some (t1, c1, wd1, r1)" "turned t c t1 c1 r1"
      "r1 = Again \<longrightarrow> ((t1, c1, wd1), (t, c, wd)) \<in> client_order" by blast
  show ?case
  proof (cases r1)
    case Again
    with u 1(1) [of t1 c1 wd1] obtain t' c' wd' r where
      "client_poll E t1 c1 wd1 = Some (t', c', wd', r)" "\<not> is_panicked r" "ok t' c'"
      "rc.keeps (ch_promises c1) (ch_promises c')" by (auto simp: turned_def)
    moreover have "rc.keeps (ch_promises c) (ch_promises c1)" using u(2) by (simp add: turned_def)
    ultimately show ?thesis using u(1) Again keeps_outcomes_trans [of issued outcome "ch_promises c" "ch_promises c1" "ch_promises c'"]
      by (subst client_poll.simps) simp
  next
    case (Done r)
    with u show ?thesis by (subst client_poll.simps) (cases r; simp add: turned_def)
  qed
qed

end

section \<open>The tasks of a request\<close>

context h2_client
begin

lemma resp_map_poll_ok:
  assumes "rm_ping m \<noteq> None" "rm_send_stream m \<noteq> None" "resp_map_poll E (m, wd) = (r, m', wd')"
  shows "\<not> is_panicked r" "r = Pending \<Longrightarrow> m' = m\<lparr>rm_fut := rm_fut m'\<rparr>"
proof -
  obtain x fut where x: "hv_fut_poll E (rm_fut m) = (x, fut)" by fastforce
  then have "\<not> is_panicked x" using fut_no_panic [of "rm_fut m"] by simp
  moreover obtain ping tx_half where "rm_ping m = Some ping" "rm_send_stream m = Some tx_half" using assms(1,2) by auto
  ultimately have "\<not> is_panicked r \<and> (r = Pending \<longrightarrow> m' = m\<lparr>rm_fut := rm_fut m'\<rparr>)"
    using assms(3) x
    by (cases x) (auto simp: resp_map_poll_def map_response_def connect_response_def Let_def
        split: sum.splits prod.splits option.splits if_splits)
  then show "\<not> is_panicked r" "r = Pending \<Longrightarrow> m' = m\<lparr>rm_fut := rm_fut m'\<rparr>" by simp_all
qed

lemma callback_send_held:
  assumes "rc.owns c (cb # hl)"
  shows "\<exists>p. callback_send (hv_chan E) cb v (ch_promises c) = Return p \<and> rc.owns (c\<lparr>ch_promises := p\<rparr>) hl \<and>
    rc.keeps (ch_promises c) p"
proof -
  obtain tx where tx: "cb_sender cb = Some tx" using assms by (auto simp: ownership_def)
  obtain p where p: "snd (p_send (hv_chan E) (ch_promises c) (the (cb_sender cb)) v) = p" by simp
  from rc.held_resolved_ok [of c "[]" cb hl, OF _ p] assms show ?thesis
    using tx p by (simp add: callback_send_def callback_drop_def)
qed

lemma callback_drop_held:
  assumes "rc.owns c (cb # hl)" "p = callback_drop (hv_chan E) b cb (ch_promises c)"
  shows "rc.owns (c\<lparr>ch_promises := p\<rparr>) hl \<and> rc.keeps (ch_promises c) p"
proof -
  obtain tx where tx: "cb_sender cb = Some tx" using assms by (auto simp: ownership_def)
  let ?v = "Inl \<lparr>tse_error = dispatch_gone b, tse_message = None\<rparr>"
  have p: "snd (p_send (hv_chan E) (ch_promises c) (the (cb_sender cb)) ?v) = p"
    using tx assms(2) by (simp add: callback_drop_def)
  from rc.held_resolved_ok [of c "[]" cb hl, OF _ p] assms(1) show ?thesis by simp
qed

lemma poll_closed_held:
  assumes "rc.owns c hl" "p_poll_closed (hv_chan E) (ch_promises c) tx = (x, p)"
  shows "rc.owns (c\<lparr>ch_promises := p\<rparr>) hl \<and> rc.keeps (ch_promises c) p \<and> \<not> is_panicked x"
  using assms rc.p_poll_closed [OF assms(2)] by (simp add: ownership_def keeps_outcomes_def)

lemma send_task_poll_ok:
  assumes "rc.owns c (cb # hl)" "tok (TaskSend m (Some cb))"
  shows "\<exists>r m' cb' wd' p. send_task_poll E m (Some cb) wd (ch_promises c) = Return (r, m', cb', wd', p) \<and>
    rc.keeps (ch_promises c) p \<and>
    (if is_ready r then cb' = None \<and> rc.owns (c\<lparr>ch_promises := p\<rparr>) hl
     else cb' = Some cb \<and> tok (TaskSend m' cb') \<and> rc.owns (c\<lparr>ch_promises := p\<rparr>) (cb # hl))"
proof -
  obtain tx where tx: "cb_sender cb = Some tx" using assms(1) by (auto simp: ownership_def)
  have m: "rm_ping m \<noteq> None" "rm_send_stream m \<noteq> None" using assms(2) by simp_all
  obtain x :: "((error \<times> ('h, 'bd) request option) + ('h, 'r) response) poll" and m1 wd1 where
    x: "resp_map_poll E (m, wd) = (x, m1, wd1)" by (metis surj_pair)
  note f = resp_map_poll_ok [OF m x]
  note defs = send_task_poll_def send_when_poll_def resp_fut_def
  show ?thesis
  proof (cases x)
    case (Ready v)
    let ?v = "case v of Inr res \<Rightarrow> Inr res | Inl (e, msg) \<Rightarrow> Inl \<lparr>tse_error = e, tse_message = msg\<rparr>"
    from callback_send_held [OF assms(1), of ?v] obtain p where
      p: "callback_send (hv_chan E) cb ?v (ch_promises c) = Return p" "rc.owns (c\<lparr>ch_promises := p\<rparr>) hl"
      "rc.keeps (ch_promises c) p" by blast
    have "send_task_poll E m (Some cb) wd (ch_promises c) = Return (Ready (), m1, None, wd1, p)"
      using Ready x p(1) by (cases v) (auto simp: defs)
    with p show ?thesis by simp
  next
    case Pending
    obtain y p where y: "p_poll_closed (hv_chan E) (ch_promises c) tx = (y, p)" by fastforce
    note pc = poll_closed_held [OF assms(1) y]
    have "m1 = m\<lparr>rm_fut := rm_fut m1\<rparr>" using f(2) Pending by simp
    then have m1: "tok (TaskSend m1 (Some cb))" using assms(2) by (metis h2_task_ok.simps(2) resp_map.select_convs(2,3) resp_map.surjective resp_map.update_convs(1))
    show ?thesis
    proof (cases y)
      case (Ready u)
      obtain mc wdc where mc: "resp_map_cancel E (m1, wd1) = (mc, wdc)" by fastforce
      let ?p = "callback_drop (hv_chan E) False cb p"
      have "rc.owns (c\<lparr>ch_promises := p\<rparr>) (cb # hl)" using pc by simp
      from callback_drop_held [OF this, of ?p False] have "rc.owns (c\<lparr>ch_promises := ?p\<rparr>) hl" "rc.keeps p ?p" by simp_all
      moreover from this(2) pc have "rc.keeps (ch_promises c) ?p" by (simp add: keeps_outcomes_trans [of issued outcome "ch_promises c" p])
      ultimately show ?thesis using Ready Pending x y tx mc by (simp add: defs callback_poll_canceled_def)
    qed (use Pending x y tx pc m1 in \<open>simp_all add: defs callback_poll_canceled_def\<close>)
  qed (use f(1) in simp)
qed

lemma pipe_map_run_ok:
  assumes "tok (TaskPipe m)"
  shows "\<exists>r m' cc'. pipe_map_run E m cc = Some (Return (r, m', cc')) \<and> \<not> is_panicked r \<and> (is_ready r \<or> tok (TaskPipe m'))"
proof -
  obtain t0 fs where p: "pipe_ok trace view rest t0 fs (pm_pipe m)" using assms by auto
  from pi.pipe_poll_ok [OF p, of "hv_ops E"] obtain p' r where
    "pipe_poll (hv_ops E) (hv_send E) (hv_user E) (pm_pipe m) = Some (p', r)" "pipe_result trace view rest t0 fs p' r" by blast
  with assms show ?thesis by (cases r) (auto simp: pipe_map_run_def pipe_map_end_def pipe_result_def Let_def)
qed

lemma pipe_map_poll_ok:
  assumes "tok (TaskPipe m)"
  shows "\<exists>r m' cc'. pipe_map_poll E m cc = Some (Return (r, m', cc')) \<and> \<not> is_panicked r \<and> (is_ready r \<or> tok (TaskPipe m'))"
proof (cases "pm_cancel_rx m")
  case None
  with pipe_map_run_ok [OF assms] show ?thesis by (simp add: pipe_map_poll_def)
next
  case (Some n)
  obtain x cc1 where x: "hv_cancel_poll E cc n = (x, cc1)" by fastforce
  then have np: "\<not> is_panicked x" using cancel_no_panic [of cc n] by simp
  have "tok (TaskPipe (m\<lparr>pm_cancel_rx := None\<rparr>))" using assms by simp
  note run = pipe_map_run_ok [OF this, of cc1] pipe_map_run_ok [OF assms, of cc1]
  consider "x = Pending" | "x = Ready True" | "x = Ready False" using np by (cases x) auto
  then show ?thesis
  proof cases
    case 2
    with x Some assms show ?thesis by (auto simp: pipe_map_poll_def pipe_map_end_def)
  qed (use run x Some in \<open>simp_all add: pipe_map_poll_def\<close>)
qed

lemma client_drop_ok:
  assumes "ok t c"
  shows "\<exists>t' c'. client_drop E b t c = Return (t', c') \<and> ok t' c' \<and> rc.keeps (ch_promises c) (ch_promises c') \<and>
    contents (ch_queue c') = [] \<and> ct_fut_ctx t' = None"
proof -
  have o: "rc.owns c (h2_held t)" and tasks: "\<forall>x \<in> set (ct_executor t). tok x" using assms by (simp_all add: h2_ok_def)
  from rc.drop_receiver_ok [OF o] obtain c1 where
    d: "dispatch_drop_receiver (hv_chan E) c = Return c1" "rc.owns c1 (h2_held t)" "contents (ch_queue c1) = []"
      "rc.keeps (ch_promises c) (ch_promises c1)" by blast
  show ?thesis
  proof (cases "ct_fut_ctx t")
    case None
    then have "h2_held (t\<lparr>ct_fut_ctx := None\<rparr>) = h2_held t" by (simp add: h2_held_def)
    with d None tasks show ?thesis by (simp add: client_drop_def h2_ok_def)
  next
    case (Some f)
    have "rc.owns c1 (fc_cb f # h2_held (t\<lparr>ct_fut_ctx := None\<rparr>))" using d(2) h2_held_ctx(1) [OF Some] by simp
    note cd = callback_drop_held [OF this refl, of b]
    then have "rc.keeps (ch_promises c) (callback_drop (hv_chan E) b (fc_cb f) (ch_promises c1))"
      using d(4) by (simp add: keeps_outcomes_trans [of issued outcome "ch_promises c" "ch_promises c1"])
    with d cd Some tasks show ?thesis by (simp add: client_drop_def h2_ok_def)
  qed
qed

end

end
