(* ===== verification/H2_System.thy ===== *)
theory H2_System
  imports H2_Client_Props
begin

text \<open>
  An HTTP/2 connection as a system: requests arrive, the client task and the tasks it spawned are polled
  in any order or dropped, and the peer and the callers act in between. The properties of the HTTP/2
  client are proved for every state that it can get into.
\<close>

section \<open>Steps\<close>

datatype h2_phase = Polling | Finished | Dropped

record ('t, 'pp, 'w, 'c, 'cc, 'hs, 'rf, 's, 'bd, 'b, 'tx, 'q, 'g, 'p) h2_sys =
  hy_task :: "('hs, 'rf, 's, 'bd, 'b, 'tx) client_task"
  hy_chan :: "('q, 'g, 'p) chan"
  hy_world :: "('t, 'pp, 'w, 'c, 'cc) h2_world"
  hy_phase :: h2_phase

text \<open>
  What the peer, the network and the callers may change between polls: all that the stream halves, the
  futures and the shared state hide, but not what was sent on a stream, what is left of a body, the queue,
  or how a promise was resolved.
\<close>

fun task_moved ::
  "('s \<Rightarrow> 'h sent_event list) \<Rightarrow> ('bd \<Rightarrow> ('b, 'h) user_frame list) \<Rightarrow>
   ('rf, 's, 'bd, 'b, 'tx) h2_task \<Rightarrow> ('rf, 's, 'bd, 'b, 'tx) h2_task \<Rightarrow> bool" where
  "task_moved trace rest (TaskPipe m) x \<longleftrightarrow>
     (\<exists>s bd. x = TaskPipe (m\<lparr>pm_pipe := (pm_pipe m)\<lparr>pipe_body_tx := s, pipe_stream := bd\<rparr>\<rparr>) \<and>
        trace s = trace (pipe_body_tx (pm_pipe m)) \<and> rest bd = rest (pipe_stream (pm_pipe m)))"
| "task_moved trace rest (TaskSend m cb) x \<longleftrightarrow> (\<exists>fut. x = TaskSend (m\<lparr>rm_fut := fut\<rparr>) cb)"

definition chan_moved where
  "chan_moved contents issued outcome c c' \<longleftrightarrow>
     contents (ch_queue c') = contents (ch_queue c) \<and> issued (ch_promises c') = issued (ch_promises c) \<and>
     outcome (ch_promises c') = outcome (ch_promises c)"

text \<open>A task that is ready is gone, and with it the callback it no longer has.\<close>

definition after_poll :: "unit poll \<Rightarrow> ('rf, 's, 'bd, 'b, 'tx) h2_task \<Rightarrow> ('rf, 's, 'bd, 'b, 'tx) h2_task list" where
  "after_poll r x = (if is_ready r then [] else [x])"

definition drop_callbacks where
  "drop_callbacks D b cbs p = foldl (\<lambda>p cb. callback_drop D b cb p) p cbs"

inductive h2_step ::
  "('w, 't, 'sl, 'pp, 'hs, 'rf, 's, 'r, 'b, 'h, 'bd, 'tx, 'q, 'g, 'p, 'c, 'cc) h2_env \<Rightarrow>
   ('s \<Rightarrow> 'h sent_event list) \<Rightarrow> ('bd \<Rightarrow> ('b, 'h) user_frame list) \<Rightarrow>
   ('q \<Rightarrow> (('h, 'bd) request, 'tx) envelope list) \<Rightarrow> ('p \<Rightarrow> 'tx set) \<Rightarrow>
   ('p \<Rightarrow> 'tx \<Rightarrow> (('h, 'bd) request, ('h, 'r) response) reply option) \<Rightarrow>
   ('t, 'pp, 'w, 'c, 'cc, 'hs, 'rf, 's, 'bd, 'b, 'tx, 'q, 'g, 'p) h2_sys \<Rightarrow>
   ('t, 'pp, 'w, 'c, 'cc, 'hs, 'rf, 's, 'bd, 'b, 'tx, 'q, 'g, 'p) h2_sys \<Rightarrow> bool"
  for E trace rest contents issued outcome where
  Request: "h2_try_send_request (hv_chan E) req (hy_chan s) = (f, c) \<Longrightarrow>
     h2_step E trace rest contents issued outcome s (s\<lparr>hy_chan := c\<rparr>)"
| ClientPoll: "hy_phase s = Polling \<Longrightarrow> client_poll E (hy_task s) (hy_chan s) (hy_world s) = Some (t, c, wd, v) \<Longrightarrow>
     h2_step E trace rest contents issued outcome s
       (s\<lparr>hy_task := t, hy_chan := c, hy_world := wd, hy_phase := (if v = Pending then Polling else Finished)\<rparr>)"
| SendPoll: "ct_executor (hy_task s) = xs @ TaskSend m cb # ys \<Longrightarrow>
     send_task_poll E m cb (hy_world s) (ch_promises (hy_chan s)) = Return (v, m', cb', wd, p) \<Longrightarrow>
     h2_step E trace rest contents issued outcome s
       (s\<lparr>hy_task := (hy_task s)\<lparr>ct_executor := xs @ after_poll v (TaskSend m' cb') @ ys\<rparr>,
          hy_chan := (hy_chan s)\<lparr>ch_promises := p\<rparr>, hy_world := wd\<rparr>)"
| PipePoll: "ct_executor (hy_task s) = xs @ TaskPipe m # ys \<Longrightarrow>
     pipe_map_poll E m (hw_cc (hy_world s)) = Some (Return (v, m', cc)) \<Longrightarrow>
     h2_step E trace rest contents issued outcome s
       (s\<lparr>hy_task := (hy_task s)\<lparr>ct_executor := xs @ after_poll v (TaskPipe m') @ ys\<rparr>,
          hy_world := (hy_world s)\<lparr>hw_cc := cc\<rparr>\<rparr>)"
| DropTask: "ct_executor (hy_task s) = xs @ x # ys \<Longrightarrow>
     h2_step E trace rest contents issued outcome s
       (s\<lparr>hy_task := (hy_task s)\<lparr>ct_executor := xs @ ys\<rparr>,
          hy_chan := (hy_chan s)\<lparr>ch_promises :=
            drop_callbacks (hv_chan E) b (task_callbacks x) (ch_promises (hy_chan s))\<rparr>\<rparr>)"
| ClientDrop: "hy_phase s \<noteq> Dropped \<Longrightarrow> client_drop E b (hy_task s) (hy_chan s) = Return (t, c) \<Longrightarrow>
     h2_step E trace rest contents issued outcome s (s\<lparr>hy_task := t, hy_chan := c, hy_phase := Dropped\<rparr>)"
| World: "list_all2 (task_moved trace rest) (ct_executor (hy_task s)) xs \<Longrightarrow>
     chan_moved contents issued outcome (hy_chan s) c \<Longrightarrow>
     h2_step E trace rest contents issued outcome s
       (s\<lparr>hy_task := (hy_task s)\<lparr>ct_h2_tx := hs, ct_executor := xs\<rparr>, hy_chan := c, hy_world := wd\<rparr>)"

text \<open>The system after the handshake, with a new request channel.\<close>

definition h2_start where
  "h2_start E t p wd = \<lparr>hy_task = t, hy_chan = snd (dispatch_channel (hv_chan E) p), hy_world = wd, hy_phase = Polling\<rparr>"

section \<open>Every step keeps the invariant\<close>

lemma task_moved_ok:
  assumes "task_moved trace rest x y" "h2_task_ok trace view rest x"
  shows "h2_task_ok trace view rest y" "task_callbacks y = task_callbacks x"
  using assms by (cases x; force simp: pipe_ok_def pipe_left_def)+

lemma tasks_moved_ok:
  assumes "list_all2 (task_moved trace rest) xs ys" "\<forall>x \<in> set xs. h2_task_ok trace view rest x"
  shows "(\<forall>y \<in> set ys. h2_task_ok trace view rest y) \<and> map task_callbacks ys = map task_callbacks xs"
  using assms by (induction rule: list_all2_induct) (auto dest: task_moved_ok)

context h2_client
begin

abbreviation step where "step \<equiv> h2_step E trace rest contents issued outcome"

definition sys_ok where "sys_ok s \<longleftrightarrow> ok (hy_task s) (hy_chan s)"

definition sys_keeps where
  "sys_keeps s s' \<longleftrightarrow> rc.keeps (ch_promises (hy_chan s)) (ch_promises (hy_chan s'))"

lemma task_replaced:
  assumes "ct_executor t = xs @ x # ys" "task_callbacks x = [cb]" "rc.owns c (h2_held t)"
  shows "rc.owns c (cb # h2_held (t\<lparr>ct_executor := xs @ ys\<rparr>))"
proof -
  have "mset (h2_held t) = mset (cb # h2_held (t\<lparr>ct_executor := xs @ ys\<rparr>))" using assms(1,2) by (simp add: h2_held_def)
  note perm = ownership_perm [OF this]
  from assms(3) show ?thesis by (simp only: perm)
qed

lemma task_returned:
  assumes "rc.owns c (cb # h2_held (t\<lparr>ct_executor := xs @ ys\<rparr>))" "task_callbacks x = [cb]"
  shows "rc.owns c (h2_held (t\<lparr>ct_executor := xs @ x # ys\<rparr>))"
proof -
  have "mset (h2_held (t\<lparr>ct_executor := xs @ x # ys\<rparr>)) = mset (cb # h2_held (t\<lparr>ct_executor := xs @ ys\<rparr>))"
    using assms(2) by (simp add: h2_held_def)
  note perm = ownership_perm [OF this]
  from assms(1) show ?thesis by (simp only: perm)
qed

lemma send_poll_ok:
  assumes "ok t c" "ct_executor t = xs @ TaskSend m cb # ys"
    and "send_task_poll E m cb wd (ch_promises c) = Return (v, m', cb', wd', p)"
  shows "ok (t\<lparr>ct_executor := xs @ after_poll v (TaskSend m' cb') @ ys\<rparr>) (c\<lparr>ch_promises := p\<rparr>) \<and>
    rc.keeps (ch_promises c) p"
proof -
  have tasks: "\<forall>x \<in> set (xs @ TaskSend m cb # ys). tok x" and o: "rc.owns c (h2_held t)"
    using assms(1,2) by (simp_all add: h2_ok_def)
  obtain cb0 where cb: "cb = Some cb0" using tasks by auto
  have "rc.owns c (cb0 # h2_held (t\<lparr>ct_executor := xs @ ys\<rparr>))" by (rule task_replaced [OF assms(2) _ o]) (simp add: cb)
  from send_task_poll_ok [OF this, of m wd] tasks assms(3) cb have
    k: "rc.keeps (ch_promises c) p" "if is_ready v then cb' = None \<and> rc.owns (c\<lparr>ch_promises := p\<rparr>) (h2_held (t\<lparr>ct_executor := xs @ ys\<rparr>))
      else cb' = Some cb0 \<and> tok (TaskSend m' cb') \<and> rc.owns (c\<lparr>ch_promises := p\<rparr>) (cb0 # h2_held (t\<lparr>ct_executor := xs @ ys\<rparr>))"
    by auto
  with tasks task_returned [where c = "c\<lparr>ch_promises := p\<rparr>" and cb = cb0 and t = t and xs = xs and ys = ys and x = "TaskSend m' cb'"] show ?thesis
    by (auto simp: h2_ok_def after_poll_def split: if_splits)
qed

lemma send_task_returns:
  assumes "ok t c" "TaskSend m cb \<in> set (ct_executor t)"
  shows "\<exists>r m' cb' wd' p. send_task_poll E m cb wd (ch_promises c) = Return (r, m', cb', wd', p) \<and> (r = Ready () \<longleftrightarrow> cb' = None)"
proof -
  have o: "rc.owns c (h2_held t)" and task: "tok (TaskSend m cb)" using assms by (auto simp: h2_ok_def)
  obtain xs ys where e: "ct_executor t = xs @ TaskSend m cb # ys" using assms(2) by (meson split_list)
  obtain cb0 where cb: "cb = Some cb0" using task by auto
  have "rc.owns c (cb0 # h2_held (t\<lparr>ct_executor := xs @ ys\<rparr>))" by (rule task_replaced [OF e _ o]) (simp add: cb)
  from send_task_poll_ok [OF this, of m wd] task cb obtain r m' cb' wd' p where
    s: "send_task_poll E m cb wd (ch_promises c) = Return (r, m', cb', wd', p)"
      "if is_ready r then cb' = None else cb' = Some cb0" by (auto split: if_splits)
  have "r = Ready () \<longleftrightarrow> cb' = None" using s(2) by (cases r) simp_all
  with s(1) show ?thesis by blast
qed

lemma pipe_poll_keeps_ok:
  assumes "ok t c" "ct_executor t = xs @ TaskPipe m # ys" "pipe_map_poll E m cc = Some (Return (v, m', cc'))"
  shows "ok (t\<lparr>ct_executor := xs @ after_poll v (TaskPipe m') @ ys\<rparr>) c"
proof -
  have tasks: "\<forall>x \<in> set (xs @ TaskPipe m # ys). tok x" and o: "rc.owns c (h2_held t)"
    using assms(1,2) by (simp_all add: h2_ok_def)
  moreover have "h2_held (t\<lparr>ct_executor := xs @ after_poll v (TaskPipe m') @ ys\<rparr>) = h2_held t"
    using assms(2) by (simp add: h2_held_def after_poll_def)
  moreover have "is_ready v \<or> tok (TaskPipe m')"
    using pipe_map_poll_ok [of m cc] tasks assms(3) by auto
  ultimately show ?thesis by (auto simp: h2_ok_def after_poll_def)
qed

lemma drop_task_ok:
  assumes "ok t c" "ct_executor t = xs @ x # ys"
    and p_def: "p = drop_callbacks (hv_chan E) b (task_callbacks x) (ch_promises c)"
  shows "ok (t\<lparr>ct_executor := xs @ ys\<rparr>) (c\<lparr>ch_promises := p\<rparr>) \<and> rc.keeps (ch_promises c) p"
proof -
  have tasks: "\<forall>y \<in> set (xs @ x # ys). tok y" and o: "rc.owns c (h2_held t)"
    using assms(1,2) by (simp_all add: h2_ok_def)
  show ?thesis
  proof (cases "task_callbacks x")
    case Nil
    with tasks o assms(2) show ?thesis by (simp add: p_def drop_callbacks_def h2_ok_def h2_held_def)
  next
    case (Cons cb cbs)
    then have "task_callbacks x = [cb]" by (cases x) (auto split: option.splits)
    with callback_drop_held [OF task_replaced [OF assms(2) _ o], of cb _ b] tasks show ?thesis
      by (simp add: p_def drop_callbacks_def h2_ok_def)
  qed
qed

lemma step_ok:
  assumes "step s s'" "sys_ok s"
  shows "sys_ok s' \<and> sys_keeps s s'"
  using assms(1)
proof (cases rule: h2_step.cases)
  case (Request req f c)
  obtain x where e: "enqueue (hv_chan E) req (hy_chan s) = (x, c)"
    using Request(2) by (auto simp: h2_try_send_request_def unbounded_try_send_def split: prod.splits)
  have "rc.owns (hy_chan s) (h2_held (hy_task s))" using assms(2) by (simp add: sys_ok_def h2_ok_def)
  from rc.enqueue_ok [OF this e] assms(2) Request show ?thesis by (simp add: sys_ok_def sys_keeps_def h2_ok_def)
next
  case (ClientPoll t c wd v)
  with client_poll_ok [of "hy_task s" "hy_chan s" "hy_world s"] assms(2) show ?thesis
    by (auto simp: sys_ok_def sys_keeps_def)
next
  case (SendPoll xs m cb ys v m' cb' wd p)
  with send_poll_ok [OF _ SendPoll(2,3)] assms(2) show ?thesis by (simp add: sys_ok_def sys_keeps_def)
next
  case (PipePoll xs m ys v m' cc)
  with pipe_poll_keeps_ok [OF _ PipePoll(2,3)] assms(2) show ?thesis by (simp add: sys_ok_def sys_keeps_def)
next
  case (DropTask xs x ys b)
  with drop_task_ok [OF _ DropTask(2) refl, of "hy_chan s" b] assms(2) show ?thesis by (simp add: sys_ok_def sys_keeps_def)
next
  case (ClientDrop b t c)
  with client_drop_ok [of "hy_task s" "hy_chan s" b] assms(2) show ?thesis by (auto simp: sys_ok_def sys_keeps_def)
next
  case (World xs c hs wd)
  have k: "ok (hy_task s) (hy_chan s)" using assms(2) by (simp add: sys_ok_def)
  then have moved: "\<forall>x \<in> set xs. tok x" "map task_callbacks xs = map task_callbacks (ct_executor (hy_task s))"
    using tasks_moved_ok [OF World(2), of view] by (simp_all add: h2_ok_def)
  have "h2_held (hy_task s') = h2_held (hy_task s)" by (simp add: World(1) h2_held_def moved(2))
  with k moved(1) World(3) show ?thesis
    by (simp add: World(1) sys_ok_def sys_keeps_def h2_ok_def chan_moved_def ownership_def keeps_outcomes_def)
qed

lemma steps_ok:
  assumes "step\<^sup>*\<^sup>* s s'" "sys_ok s"
  shows "sys_ok s' \<and> sys_keeps s s'"
  using assms
proof (induction rule: rtranclp_induct)
  case (step s1 s2)
  with step_ok [of s1 s2] show ?case by (auto simp: sys_keeps_def intro: keeps_outcomes_trans)
qed (simp add: sys_keeps_def)

lemma start_ok:
  assumes "ct_fut_ctx t = None" "ct_executor t = []" "issued p = {}"
  shows "sys_ok (h2_start E t p wd)"
  using assms
  by (simp add: sys_ok_def h2_start_def h2_ok_def h2_held_def waiting_callbacks_def dispatch_channel_def ownership_def
      rc.q_new pending_def)

end

lemma handshake_idle:
  assumes "h2_handshake P pong hand cfg timer dr sh0 w = Return (Inr (t, conn, sh, w'))"
  shows "ct_fut_ctx t = None" "ct_executor t = []"
proof -
  have "ct_fut_ctx t = None \<and> ct_executor t = []" using assms
    by (auto simp: h2_handshake_def split: sum.splits prod.splits)
  then show "ct_fut_ctx t = None" "ct_executor t = []" by simp_all
qed

section \<open>The channels that cancel a body\<close>

text \<open>A message that was sent on an open channel is what its receiver gets next.\<close>

locale cancel_channels =
  fixes E :: "('w, 't, 'sl, 'pp, 'hs, 'rf, 's, 'r, 'b, 'h, 'bd, 'tx, 'q, 'g, 'p, 'c, 'cc) h2_env"
    and opened_channel :: "'cc \<Rightarrow> nat \<Rightarrow> bool"
  assumes cancel_new: "hv_cancel_new E cc = (n, cc') \<Longrightarrow> opened_channel cc' n"
    and cancel_received: "opened_channel cc n \<Longrightarrow> \<exists>cc'. hv_cancel_poll E (hv_cancel_send E cc n) n = (Ready True, cc')"

section \<open>A simulated connection\<close>

text \<open>
  Streams open at once, responses arrive when the test says so, and a cancellation channel is a number
  that is in a set once it was used.
\<close>

definition sim_h2 where
  "sim_h2 = \<lparr>hv_api = list_api, hv_ping = sim_no_ping, hv_chan = sim_dispatch, hv_ops = bytes_ops, hv_send = sim_send,
     hv_recv = sim_tunnel_recv, hv_user = sim_user_body, hv_upgrade = sim_upgrades,
     hv_poll_ready = (\<lambda>hs :: unit. (Ready (Inr ()), hs)),
     hv_send_request = (\<lambda>hs head eos. (Inr (None, ([], [])), hs)),
     hv_fut_poll = (\<lambda>f. case f of None \<Rightarrow> (Pending, None) | Some x \<Rightarrow> (Ready (Inr x), Some x)),
     hv_sort_headers = (\<lambda>f h. h),
     hv_cancel_new = (\<lambda>(n, S). (n, Suc n, S)), hv_cancel_send = (\<lambda>(n, S) i. (n, insert i S)),
     hv_cancel_poll = (\<lambda>(n, S) i. (if i \<in> S then Ready True else Pending, n, S)),
     hv_eof_poll = (\<lambda>c :: nat \<times> nat set. (Pending, c))\<rparr>"

interpretation sim_hc: h2_client sim_h2 fst "\<lambda>b. b" "\<lambda>s. length (snd s)" "\<lambda>b. b" "\<lambda>q. q" "\<lambda>(n, f). {..<n}" snd
proof (rule h2_client.intro)
  show "piping (hv_send sim_h2) fst (\<lambda>b. b) (\<lambda>s. length (snd s)) (hv_user sim_h2) (\<lambda>b. b)"
    by (simp add: sim_h2_def sim_pipe.piping_axioms)
  show "request_channel (hv_chan sim_h2) (\<lambda>q. q) (\<lambda>(n, f). {..<n}) snd"
    by (simp add: sim_h2_def sim_rc.request_channel_axioms)
qed (auto simp: sim_h2_def split: option.splits if_splits)

interpretation sim_cc: cancel_channels "sim_h2\<lparr>hv_chan := D\<rparr>" "\<lambda>(n, S) i. i < n"
  by unfold_locales (auto simp: sim_h2_def)

section \<open>Properties\<close>

text \<open>
  C12. Every request on an HTTP/2 connection is answered exactly once. In every state that a connection
  can get into after its handshake, the promise of a request is unresolved exactly when its callback is in
  the queue, with the request that waits for its stream, or with the task that waits for its response, where
  it occurs exactly once; a resolved promise keeps its outcome. Every poll of the client task, of a body and
  of a response returns without a panic; and dropping the client task returns, answers the queue and leaves no
  waiting request.
\<close>

theorem h2_requests_answered_once:
  assumes "h2_client E trace view spurious rest contents issued outcome" and "issued p = {}"
    and "h2_handshake P pong hand cfg timer dr sh0 w = Return (Inr (t, conn, sh, w'))"
    and "(h2_step E trace rest contents issued outcome)\<^sup>*\<^sup>* (h2_start E t p wd) s"
  shows "distinct (map env_tx (contents (ch_queue (hy_chan s))) @ held_txs (h2_held (hy_task s))) \<and>
    (\<forall>tx \<in> issued (ch_promises (hy_chan s)). outcome (ch_promises (hy_chan s)) tx = None \<longleftrightarrow>
       tx \<in> set (map env_tx (contents (ch_queue (hy_chan s))) @ held_txs (h2_held (hy_task s)))) \<and>
    (\<forall>s' tx. (h2_step E trace rest contents issued outcome)\<^sup>*\<^sup>* s s' \<and> tx \<in> issued (ch_promises (hy_chan s)) \<and>
       outcome (ch_promises (hy_chan s)) tx \<noteq> None \<longrightarrow>
       outcome (ch_promises (hy_chan s')) tx = outcome (ch_promises (hy_chan s)) tx) \<and>
    (\<exists>t' c' wd' r. client_poll E (hy_task s) (hy_chan s) (hy_world s) = Some (t', c', wd', r) \<and> \<not> is_panicked r) \<and>
    (\<forall>m cb. TaskSend m cb \<in> set (ct_executor (hy_task s)) \<longrightarrow>
       (\<exists>r m' cb' wd' p'. send_task_poll E m cb (hy_world s) (ch_promises (hy_chan s)) = Return (r, m', cb', wd', p') \<and>
          (r = Ready () \<longleftrightarrow> cb' = None))) \<and>
    (\<forall>m. TaskPipe m \<in> set (ct_executor (hy_task s)) \<longrightarrow>
       (\<exists>r m' cc'. pipe_map_poll E m (hw_cc (hy_world s)) = Some (Return (r, m', cc')))) \<and>
    (\<exists>t' c'. client_drop E b (hy_task s) (hy_chan s) = Return (t', c') \<and> contents (ch_queue c') = [] \<and> ct_fut_ctx t' = None)"
proof -
  note L = assms(1)
  have "h2_client.sys_ok trace view rest contents issued outcome (h2_start E t p wd)"
    by (rule h2_client.start_ok [OF L handshake_idle [OF assms(3)] assms(2)])
  from h2_client.steps_ok [OF L assms(4) this]
  have sok: "h2_client.sys_ok trace view rest contents issued outcome s" by simp
  then have ok: "h2_ok trace view rest contents issued outcome (hy_task s) (hy_chan s)"
    by (simp add: h2_client.sys_ok_def [OF L])
  have "outcome (ch_promises (hy_chan s')) tx = outcome (ch_promises (hy_chan s)) tx"
    if "(h2_step E trace rest contents issued outcome)\<^sup>*\<^sup>* s s'" "tx \<in> issued (ch_promises (hy_chan s))"
      "outcome (ch_promises (hy_chan s)) tx \<noteq> None" for s' tx
    using h2_client.steps_ok [OF L that(1) sok] that(2,3)
    by (auto simp: h2_client.sys_keeps_def [OF L] keeps_outcomes_def)
  moreover have "\<exists>r m' cb' wd' p'. send_task_poll E m cb (hy_world s) (ch_promises (hy_chan s)) = Return (r, m', cb', wd', p') \<and>
      (r = Ready () \<longleftrightarrow> cb' = None)" if "TaskSend m cb \<in> set (ct_executor (hy_task s))" for m cb
    by (rule h2_client.send_task_returns [OF L ok that])
  moreover have "\<exists>r m' cc'. pipe_map_poll E m (hw_cc (hy_world s)) = Some (Return (r, m', cc'))"
    if "TaskPipe m \<in> set (ct_executor (hy_task s))" for m
    using h2_client.pipe_map_poll_ok [OF L, of m] ok that by (fastforce simp: h2_ok_def)
  moreover note h2_client.client_poll_ok [OF L ok, of "hy_world s"] h2_client.client_drop_ok [OF L ok, of b]
  moreover have "distinct (map env_tx (contents (ch_queue (hy_chan s))) @ held_txs (h2_held (hy_task s))) \<and>
    (\<forall>tx \<in> issued (ch_promises (hy_chan s)). outcome (ch_promises (hy_chan s)) tx = None \<longleftrightarrow>
       tx \<in> set (map env_tx (contents (ch_queue (hy_chan s))) @ held_txs (h2_held (hy_task s))))"
    using ok by (simp only: h2_ok_def ownership_def pending_def) blast
  ultimately show ?thesis by blast
qed

text \<open>
  C27. When the caller gives up a request that waits for its response, its body is cancelled: the task that
  waits ends at its next poll, and at its next poll the body's task resets the stream with the reason
  \<open>CANCEL\<close> and ends, whatever it was doing, and lets go of the connection.
\<close>

theorem h2_cancel_resets_stream:
  assumes "cancel_channels E opened_channel"
    and "hv_fut_poll E (rm_fut m) = (Pending, fut)" and "cb_sender cb = Some tx"
    and "p_poll_closed (hv_chan E) p tx = (Ready (), p')"
    and "rm_cancel_tx m = Some n" and "opened_channel (hw_cc wd) n"
    and "pm_cancel_rx body = Some n" and "pm_conn_drop_ref body" and "pm_ping body \<noteq> None"
  shows "\<exists>m' wd' body' cc'.
    send_task_poll E m (Some cb) wd p = Return (Ready (), m', None, wd', callback_drop (hv_chan E) False cb p') \<and>
    pipe_map_poll E body (hw_cc wd') = Some (Return (Ready (), body', cc')) \<and>
    pipe_body_tx (pm_pipe body') = ss_send_reset (hv_send E) (pipe_body_tx (pm_pipe body)) H2_CANCEL \<and>
    \<not> pm_conn_drop_ref body' \<and> pm_ping body' = None"
proof -
  obtain cc' where c: "hv_cancel_poll E (hv_cancel_send E (hw_cc wd) n) n = (Ready True, cc')"
    using cancel_channels.cancel_received [OF assms(1,6)] by blast
  let ?m = "m\<lparr>rm_fut := fut, rm_cancel_tx := None\<rparr>" and ?wd = "wd\<lparr>hw_cc := hv_cancel_send E (hw_cc wd) n\<rparr>"
  have "send_task_poll E m (Some cb) wd p = Return (Ready (), ?m, None, ?wd, callback_drop (hv_chan E) False cb p')"
    using assms(2-5)
    by (simp add: send_task_poll_def send_when_poll_def resp_fut_def resp_map_poll_def callback_poll_canceled_def resp_map_cancel_def)
  moreover have "pipe_map_poll E body (hw_cc ?wd) = Some (Return (Ready (), body\<lparr>pm_pipe := pipe_send_reset (hv_send E) H2_CANCEL (pm_pipe body),
      pm_conn_drop_ref := False, pm_ping := None\<rparr>, cc'))"
    using assms(7-9) c by (simp add: pipe_map_poll_def pipe_map_end_def)
  ultimately show ?thesis by (auto simp: pipe_send_reset_def)
qed

text \<open>
  C26. The response to an HTTP/2 \<open>CONNECT\<close> request. A status other than 200 is an ordinary response with its
  body; a 200 that announces a body is refused, with the stream reset; any other 200 yields an empty
  response whose upgrade future is ready with the two halves of the stream.
\<close>

theorem h2_connect_response:
  assumes "upgrade_channel (hv_upgrade E) slots" and "up_poisoned (hw_ups wd) = {}"
    and "hv_fut_poll E (rm_fut m) = (Ready (Inr (head, rx)), fut)"
    and "rm_ping m = Some ping" and "rm_send_stream m = Some (Some tx)"
  shows "let cl = content_length_parse_all (hv_api E) (h_headers head); res = (resp_map_poll E (m, wd) :: ((error \<times> 'x option) + _) poll \<times> _) in
    if h_subject head \<noteq> 200 then
      \<exists>m' wd'. res = (Ready (Inr \<lparr>rp_head = head, rp_upgrade = None, rp_body =
        incoming_h2 (hv_recv E) rx (decoded_length_from cl) (for_stream ping (rs_is_end_stream (hv_recv E) rx))\<rparr>), m', wd')
    else if cl \<noteq> None \<and> cl \<noteq> Some 0 then
      \<exists>m' wd'. res = (Ready (Inl (new_h2 (h2_from_reason H2_INTERNAL_ERROR), None)), m', wd') \<and>
        rm_reset m' = Some (ss_send_reset (hv_send E) tx H2_INTERNAL_ERROR)
    else
      \<exists>n m' wd'. res = (Ready (Inr \<lparr>rp_head = head, rp_upgrade = Some n, rp_body = incoming_empty\<rparr>), m', wd') \<and>
        fst (on_upgrade_poll (hv_upgrade E) (OnUpgradeFut (Some n)) (hw_ups wd')) =
          Ready (Inr (upgraded_new \<lparr>hu_ping = ping, hu_send = tx, hu_recv = rx, hu_buf = []\<rparr> []))"
proof -
  let ?cl = "content_length_parse_all (hv_api E) (h_headers head)"
  let ?m = "m\<lparr>rm_fut := fut, rm_ping := None, rm_send_stream := None\<rparr>"
  obtain sh w where r: "record_non_data (hv_ping E) ping (hw_shared wd) (hw_w wd) = (sh, w)" by fastforce
  let ?wd = "wd\<lparr>hw_shared := sh, hw_w := w\<rparr>"
  have e: "(resp_map_poll E (m, wd) :: ((error \<times> 'x option) + _) poll \<times> _) = map_response E head rx ping (Some tx) ?m ?wd"
    using assms(3-5) r by (simp add: resp_map_poll_def)
  obtain n c where n: "uc_new (hv_upgrade E) (up_chans (hw_ups wd)) = (n, c)" by fastforce
  let ?up = "upgraded_new \<lparr>hu_ping = ping, hu_send = tx, hu_recv = rx, hu_buf = []\<rparr> []"
  let ?s = "(hw_ups wd)\<lparr>up_chans := c\<rparr>"
  let ?ups = "fulfill (hv_upgrade E) (Pending_tx n) ?up ?s"
  have "slots (up_chans ?s) (pending_tx (Pending_tx n)) = Waiting" using upgrade_channel.uc_new [OF assms(1) n] by simp
  note st = upgrade_channel.settle_slot [OF assms(1) this, of "Fulfilled ?up"]
  have "n \<notin> up_poisoned ?ups" "slots (up_chans ?ups) n = Filled (Inr ?up)" using st assms(2) by simp_all
  from upgrade_channel.on_upgrade_poll_slot(2) [OF assms(1) this(1) prod.collapse [symmetric] this(2)]
  have fin: "fst (on_upgrade_poll (hv_upgrade E) (OnUpgradeFut (Some n)) ?ups) = Ready (Inr ?up)" .
  consider "h_subject head \<noteq> 200" | "h_subject head = 200" "?cl \<noteq> None" "?cl \<noteq> Some 0"
    | "h_subject head = 200" "?cl = None \<or> ?cl = Some 0" by metis
  then show ?thesis
  proof cases
    case 1
    with e show ?thesis by (simp add: map_response_def Let_def)
  next
    case 2
    with e show ?thesis by (auto simp: map_response_def connect_response_def Let_def)
  next
    case 3
    have "(resp_map_poll E (m, wd) :: ((error \<times> 'x option) + _) poll \<times> _) = (Ready (Inr \<lparr>rp_head = head, rp_upgrade = Some n, rp_body = incoming_empty\<rparr>), ?m, ?wd\<lparr>hw_ups := ?ups\<rparr>)"
      using 3 e n by (auto simp: map_response_def connect_response_def Let_def upgrade_pending_def)
    with 3 fin show ?thesis by (auto simp: Let_def intro!: exI [of _ n] exI [of _ "?wd\<lparr>hw_ups := ?ups\<rparr>"])
  qed
qed

text \<open>
  C29. The head of a request as it goes to an HTTP/2 stream, for a request without a user's header
  callback. A field that HTTP/2 permits keeps all its values; \<open>Content-Length\<close> is added exactly when no
  value of it is left, the length of the body is known, and that length or the method calls for it;
  nothing else is added. When the request has at most one value of \<open>Connection\<close> and of \<open>TE\<close>, every
  field that HTTP/2 forbids is gone (of several values the code reads the first only, and a field that
  another one nominates may stay). The request line and the version stay.
\<close>

theorem h2_request_head:
  assumes "http_crate (hv_api E)" and "ext_on_preserve_header (h_extensions head) = None"
  shows "let api = hv_api E; before = h_headers head; headers = h_headers (h2_prepare E head len);
      added = (case len of Some l \<Rightarrow>
          if l \<noteq> 0 \<or> method_has_defined_payload_semantics (fst (h_subject head)) then [hv_from_u64 api l] else []
        | None \<Rightarrow> []) in
    (\<not> forbidden api before True n \<longrightarrow> hm_get_all api headers n =
       (if n = CONTENT_LENGTH \<and> hm_get_all api before n = [] then added else hm_get_all api before n)) \<and>
    (forbidden api before True n \<and> length (hm_get_all api before CONNECTION) \<le> 1 \<and> length (hm_get_all api before TE) \<le> 1 \<longrightarrow>
       hm_get_all api headers n = (if n = CONTENT_LENGTH then added else [])) \<and>
    h_subject (h2_prepare E head len) = h_subject head \<and> h_version (h2_prepare E head len) = h_version head"
proof -
  let ?api = "hv_api E" and ?s = "strip_connection_headers (hv_api E) (h_headers head) True"
  let ?added = "case len of Some l \<Rightarrow>
          if l \<noteq> 0 \<or> method_has_defined_payload_semantics (fst (h_subject head)) then [hv_from_u64 ?api l] else []
        | None \<Rightarrow> []"
  have prep: "hm_get_all ?api (h_headers (h2_prepare E head len)) n =
      (if n = CONTENT_LENGTH \<and> hm_get_all ?api ?s n = [] then ?added else hm_get_all ?api ?s n)"
    using assms(2)
    by (auto simp: h2_prepare_def h2_content_length_def Let_def set_content_length_if_missing_def hm_contains_key_def
        http_crate.get_all_insert [OF assms(1)] split: option.splits)
  have "h_subject (h2_prepare E head len) = h_subject head" "h_version (h2_prepare E head len) = h_version head"
    using assms(2) by (auto simp: h2_prepare_def h2_content_length_def Let_def split: option.splits)
  then show ?thesis unfolding Let_def prep
    by (auto simp: strip_connection_headers_keeps [OF assms(1)] strip_connection_headers_removes [OF assms(1)])
qed

section \<open>Witnesses\<close>

definition sim_h2_task where
  "sim_h2_task = \<lparr>ct_ping = disabled, ct_h2_tx = (), ct_fut_ctx = None, ct_executor = []\<rparr>"

definition sim_h2_shared :: "(unit, unit) shared" where
  "sim_h2_shared = new_shared () False False 0 Empty"

definition sim_h2_world :: "(unit, unit, unit, nat \<times> (nat \<Rightarrow> 'v slot_state), nat \<times> nat set) h2_world" where
  "sim_h2_world = \<lparr>hw_shared = sim_h2_shared, hw_w = (),
     hw_ups = \<lparr>up_chans = (0, \<lambda>_. Unused), up_poisoned = {}\<rparr>, hw_cc = (1, {})\<rparr>"

theorem h2_requests_answered_once_witness:
  "\<exists>t' c' wd' r. client_poll sim_h2 sim_h2_task (snd (dispatch_channel (hv_chan sim_h2) (0, \<lambda>_. None))) sim_h2_world =
     Some (t', c', wd', r) \<and> \<not> is_panicked r"
proof -
  have i: "(case (0, \<lambda>_. None) of (n, f) \<Rightarrow> {..<n}) = ({} :: nat set)" by simp
  have h: "h2_handshake sim_no_ping (\<lambda>hc. (None, hc)) (Inr ((), ())) \<lparr>bdp_initial_window = None, keep_alive_interval = None,
      keep_alive_timeout = 0, keep_alive_while_idle = False\<rparr> Empty () sim_h2_shared () =
    Return (Inr (sim_h2_task, conn_task_new \<lparr>cme_conn = Plain (), cme_is_terminated = False\<rparr> (), sim_h2_shared, ()))"
    by (simp add: h2_handshake_def is_enabled_def sim_h2_task_def)
  from h2_requests_answered_once [OF sim_hc.h2_client_axioms i h rtranclp.rtrancl_refl, of sim_h2_world]
  show ?thesis by (simp add: h2_start_def)
qed

text \<open>A caller that has given up its request.\<close>

definition sim_h2_gone where
  "sim_h2_gone = sim_h2\<lparr>hv_chan := sim_dispatch\<lparr>p_poll_closed := (\<lambda>p tx. (Ready (), p))\<rparr>\<rparr>"

definition sim_waiting where
  "sim_waiting = \<lparr>rm_fut = None, rm_ping = Some disabled, rm_send_stream = Some None, rm_cancel_tx = Some 0, rm_reset = None\<rparr>"

definition sim_sending where
  "sim_sending = \<lparr>pm_pipe = pipe_new [UserData ''hello''] ([], []), pm_conn_drop_ref = True, pm_ping = Some disabled, pm_cancel_rx = Some 0\<rparr>"

theorem h2_cancel_resets_stream_witness:
  "\<exists>m' wd' body' cc'.
    send_task_poll sim_h2_gone sim_waiting (Some (Callback (Some 0))) sim_h2_world (1, \<lambda>_. None) = Return (Ready (), m', None, wd',
      callback_drop (hv_chan sim_h2_gone) False (Callback (Some 0)) (1, \<lambda>_. None)) \<and>
    pipe_map_poll sim_h2_gone sim_sending (hw_cc wd') = Some (Return (Ready (), body', cc')) \<and>
    fst (pipe_body_tx (pm_pipe body')) = [SentReset H2_CANCEL]"
proof -
  have c: "cancel_channels sim_h2_gone (\<lambda>(n, S) i. i < n)" unfolding sim_h2_gone_def by (rule sim_cc.cancel_channels_axioms)
  have f: "hv_fut_poll sim_h2_gone (rm_fut sim_waiting) = (Pending, None)" by (simp add: sim_h2_gone_def sim_h2_def sim_waiting_def)
  have p: "p_poll_closed (hv_chan sim_h2_gone) (1, \<lambda>_. None) 0 = (Ready (), (1, \<lambda>_. None))" by (simp add: sim_h2_gone_def)
  from h2_cancel_resets_stream [OF c f _ p, of "Callback (Some 0)" 0 sim_h2_world sim_sending] show ?thesis
    by (fastforce simp: sim_waiting_def sim_sending_def sim_h2_world_def pipe_new_def sim_h2_gone_def sim_h2_def sim_send_def)
qed

definition sim_connect :: "((entries response_head \<times> bytes option list) option, entries sim_stream) resp_map" where
  "sim_connect = \<lparr>rm_fut = Some (\<lparr>h_version = HTTP_2, h_subject = 200, h_headers = [], h_extensions = extensions_default\<rparr>, [Some ''hi'']),
     rm_ping = Some disabled, rm_send_stream = Some (Some ([], [])), rm_cancel_tx = Some 0, rm_reset = None\<rparr>"

theorem h2_connect_response_witness:
  "\<exists>n m' wd' resp. (resp_map_poll sim_h2 (sim_connect, sim_h2_world) :: ((error \<times> unit option) + _) poll \<times> _) = (Ready (Inr resp), m', wd') \<and> rp_upgrade resp = Some n"
proof -
  define m where "m = sim_connect"
  obtain head rx where fut: "rm_fut m = Some (head, rx)" and h: "h_subject head = 200" "h_headers head = []"
    by (simp add: m_def sim_connect_def)
  have f: "hv_fut_poll sim_h2 (rm_fut m) = (Ready (Inr (head, rx)), rm_fut m)" by (simp add: fut sim_h2_def)
  have u: "upgrade_channel (hv_upgrade sim_h2) sim_slots" by (simp add: sim_h2_def sim_uc.upgrade_channel_axioms)
  have cl: "content_length_parse_all (hv_api sim_h2) (h_headers head) = None"
    by (simp add: h sim_h2_def content_length_parse_all_def content_length_parse_all_values_def)
  have m: "rm_ping m = Some disabled" "rm_send_stream m = Some (Some ([], []))" "up_poisoned (hw_ups sim_h2_world) = {}"
    by (simp_all add: m_def sim_connect_def sim_h2_world_def)
  from h2_connect_response [OF u m(3) f m(1,2)] h cl obtain n m' wd' where
    "(resp_map_poll sim_h2 (m, sim_h2_world) :: ((error \<times> unit option) + _) poll \<times> _) =
       (Ready (Inr \<lparr>rp_head = head, rp_upgrade = Some n, rp_body = incoming_empty\<rparr>), m', wd')"
    by auto
  then show ?thesis unfolding m_def by (metis response.select_convs(2))
qed

theorem h2_request_head_witness:
  "let headers = h_headers (h2_prepare sim_h2 \<lparr>h_version = HTTP_11, h_subject = (POST, ''/''),
       h_headers = [(''connection'', [''close, x-a'']), (''x-a'', [''1'']), (''x-b'', [''2''])], h_extensions = extensions_default\<rparr>
       (Some 5)) in
   hm_get_all list_api headers CONTENT_LENGTH = [''5''] \<and> hm_get_all list_api headers ''x-a'' = [] \<and>
   hm_get_all list_api headers ''x-b'' = [''2'']"
proof -
  let ?h = "[(''connection'', [''close, x-a'']), (''x-a'', [''1'']), (''x-b'', [''2''])] :: entries"
  let ?head = "\<lparr>h_version = HTTP_11, h_subject = (POST, ''/''), h_headers = ?h, h_extensions = extensions_default\<rparr>"
  have api: "hv_api sim_h2 = list_api" by (simp add: sim_h2_def)
  have c: "http_crate (hv_api sim_h2)" by (simp add: api list_http.http_crate_axioms)
  have e: "ext_on_preserve_header (h_extensions ?head) = None" by (simp add: extensions_default_def)
  have f: "\<not> forbidden list_api ?h True CONTENT_LENGTH" "forbidden list_api ?h True ''x-a''" "\<not> forbidden list_api ?h True ''x-b''"
    by code_simp+
  have g: "hm_get_all list_api ?h CONTENT_LENGTH = []" "hm_get_all list_api ?h ''x-b'' = [''2'']"
    "length (hm_get_all list_api ?h CONNECTION) \<le> 1" "length (hm_get_all list_api ?h TE) \<le> 1" by code_simp+
  have v: "hv_from_u64 list_api 5 = ''5''" by code_simp
  have n: "''x-a'' \<noteq> CONTENT_LENGTH" "''x-b'' \<noteq> CONTENT_LENGTH" by simp_all
  note head = h2_request_head [OF c e, of "Some 5", unfolded api Let_def, simplified]
  from head [of CONTENT_LENGTH] head [of "''x-a''"] head [of "''x-b''"] f g v n show ?thesis by (simp add: Let_def)
qed

end
