(* ===== verification/Buf_Copy.thy ===== *)
theory Buf_Copy
  imports Bufs
begin

text \<open>
  \<open>BufList::copy_to_bytes\<close> of \<open>proto/http1/buf.rs\<close>: taking the next bytes of a list of buffers out as one
  piece. When the front buffer alone can serve the request its own \<open>copy_to_bytes\<close> is used; otherwise the
  bytes are gathered chunk by chunk with \<open>BytesMut::put\<close> over \<open>Buf::take\<close>.
\<close>

section \<open>Gathering chunks\<close>

text \<open>
  \<open>put(src.take(limit))\<close>: as long as something remains below the limit, the current chunk, cut at the
  limit, is appended to what was gathered and skipped in the source.
\<close>

partial_function (option) put_take :: "'b buf_ops \<Rightarrow> 'b \<Rightarrow> nat \<Rightarrow> bytes \<Rightarrow> (bytes \<times> 'b) rust option" where
  "put_take ops b limit acc =
     (if b_remaining ops b = 0 \<or> limit = 0 then Some (Return (acc, b))
      else
        let s = take limit (b_chunk ops b) in
        case b_advance ops b (length s) of
          Panic m \<Rightarrow> Some (Panic m)
        | Return b \<Rightarrow> put_take ops b (limit - length s) (acc @ s))"

section \<open>copy_to_bytes\<close>

text \<open>\<open>copy b n\<close> is the method \<open>copy_to_bytes\<close> of the buffers in the list.\<close>

definition buf_list_copy_to_bytes ::
  "'b buf_ops \<Rightarrow> ('b \<Rightarrow> nat \<Rightarrow> (bytes \<times> 'b) rust) \<Rightarrow> 'b buf_list \<Rightarrow> nat \<Rightarrow> (bytes \<times> 'b buf_list) rust option" where
  "buf_list_copy_to_bytes ops copy l len =
     (let gather = (if len \<le> bl_remaining l then put_take (buf_list_ops ops) l len []
                    else Some (Panic ''`len` greater than remaining'')) in
      case bl_bufs l of
        [] \<Rightarrow> gather
      | front # bufs \<Rightarrow>
          if b_remaining ops front = len then
            Some (rust_bind (copy front len) (\<lambda>(b, front).
              Return (b, \<lparr>bl_bufs = bufs, bl_remaining = bl_remaining l - len\<rparr>)))
          else if b_remaining ops front > len then
            Some (rust_bind (copy front len) (\<lambda>(b, front).
              Return (b, \<lparr>bl_bufs = front # bufs, bl_remaining = bl_remaining l - len\<rparr>)))
          else gather)"

section \<open>Contract\<close>

text \<open>What \<open>copy_to_bytes\<close> promises: the next bytes, which it takes off the buffer.\<close>

locale copying_buf = buf ops ok view
  for ops :: "'b buf_ops" and ok :: "'b \<Rightarrow> bool" and view :: "'b \<Rightarrow> bytes" +
  fixes copy :: "'b \<Rightarrow> nat \<Rightarrow> (bytes \<times> 'b) rust"
  assumes copy: "ok b \<Longrightarrow> n \<le> length (view b) \<Longrightarrow>
    \<exists>b'. copy b n = Return (take n (view b), b') \<and> ok b' \<and> view b' = drop n (view b)"

context buf
begin

lemma put_take_ok:
  "ok b \<Longrightarrow> limit \<le> length (view b) \<Longrightarrow>
   \<exists>b'. put_take ops b limit acc = Some (Return (acc @ take limit (view b), b')) \<and> ok b' \<and> view b' = drop limit (view b)"
proof (induction limit arbitrary: b acc rule: less_induct)
  case (less limit)
  obtain rest where v: "view b = b_chunk ops b @ rest" using chunk_prefix [OF less.prems(1)] by blast
  show ?case
  proof (cases "limit = 0")
    case True
    with less.prems show ?thesis by (subst put_take.simps) simp
  next
    case False
    let ?s = "take limit (b_chunk ops b)"
    have "b_chunk ops b \<noteq> []" using chunk_empty [OF less.prems(1)] less.prems(2) False by fastforce
    then have s: "0 < length ?s" "length ?s \<le> limit" using False by simp_all
    from less.prems s(2) advance [of b "length ?s"] obtain b1 where
      b1: "b_advance ops b (length ?s) = Return b1" "ok b1" "view b1 = drop (length ?s) (view b)" by (meson order_trans)
    have "limit - length ?s < limit" "limit - length ?s \<le> length (view b1)"
      using s less.prems(2) by (simp_all add: b1(3) diff_le_mono)
    from less.IH [OF this(1) b1(2) this(2), of "acc @ ?s"] obtain b' where
      "put_take ops b1 (limit - length ?s) (acc @ ?s) =
         Some (Return ((acc @ ?s) @ take (limit - length ?s) (view b1), b'))" "ok b'" "view b' = drop (limit - length ?s) (view b1)"
      by blast
    moreover have "?s @ take (limit - length ?s) (view b1) = take limit (view b)"
      by (cases "limit \<le> length (b_chunk ops b)") (simp_all add: b1(3) v)
    moreover have "drop (limit - length ?s) (view b1) = drop limit (view b)" using s(2) by (simp add: b1(3))
    moreover have "b_remaining ops b \<noteq> 0" using less.prems False remaining [of b] by auto
    ultimately show ?thesis using False b1(1) by (subst put_take.simps) (simp add: Let_def)
  qed
qed

end

context copying_buf
begin

lemma buf_list_copy_ok:
  assumes "buf_list_ok ok view l" "n \<le> length (buf_list_view view l)"
  shows "\<exists>l'. buf_list_copy_to_bytes ops copy l n = Some (Return (take n (buf_list_view view l), l')) \<and>
    buf_list_ok ok view l' \<and> buf_list_view view l' = drop n (buf_list_view view l)"
proof -
  have rem: "bl_remaining l = length (buf_list_view view l)"
    using assms(1) by (simp add: buf_list_ok_def buf_list_view_def)
  have gather: "\<exists>l'. put_take (buf_list_ops ops) l n [] = Some (Return (take n (buf_list_view view l), l')) \<and>
      buf_list_ok ok view l' \<and> buf_list_view view l' = drop n (buf_list_view view l)"
    using buf.put_take_ok [OF buf_list_buf assms, of "[]"] by simp
  show ?thesis
  proof (cases "bl_bufs l")
    case Nil
    with gather assms(2) rem show ?thesis by (simp add: buf_list_copy_to_bytes_def)
  next
    case (Cons f bs)
    then have f: "ok f" "view f \<noteq> []" "b_remaining ops f = length (view f)"
      and bs: "list_all (\<lambda>b. ok b \<and> view b \<noteq> []) bs"
      using assms(1) remaining by (simp_all add: buf_list_ok_def)
    have v: "buf_list_view view l = view f @ vs bs" by (simp add: buf_list_view_def Cons)
    show ?thesis
    proof (cases "length (view f) < n")
      case True
      with gather assms(2) rem Cons f(3) show ?thesis by (simp add: buf_list_copy_to_bytes_def)
    next
      case False
      with copy [OF f(1), of n] obtain f' where
        f': "copy f n = Return (take n (view f), f')" "ok f'" "view f' = drop n (view f)" by auto
      show ?thesis
      proof (cases "length (view f) = n")
        case True
        with f' f Cons bs v rem show ?thesis
          by (simp add: buf_list_copy_to_bytes_def buf_list_ok_def buf_list_view_def)
      next
        case neq: False
        with False have "n < length (view f)" by simp
        with f' f Cons bs v rem show ?thesis
          by (simp add: buf_list_copy_to_bytes_def buf_list_ok_def buf_list_view_def)
      qed
    qed
  qed
qed

lemma buf_list_copy_beyond:
  assumes "buf_list_ok ok view l" "n > length (buf_list_view view l)"
  shows "buf_list_copy_to_bytes ops copy l n = Some (Panic ''`len` greater than remaining'')"
  using assms remaining
  by (cases "bl_bufs l") (auto simp: buf_list_copy_to_bytes_def buf_list_ok_def buf_list_view_def)

end

section \<open>Bytes\<close>

text \<open>\<open>Bytes::copy_to_bytes\<close> splits the slice.\<close>

definition bytes_copy :: "bytes \<Rightarrow> nat \<Rightarrow> (bytes \<times> bytes) rust" where
  "bytes_copy b n = (if n \<le> length b then Return (take n b, drop n b) else Panic ''split_to out of bounds'')"

interpretation bytes_copying: copying_buf bytes_ops "\<lambda>_. True" "\<lambda>b. b" bytes_copy
  by unfold_locales (simp add: bytes_copy_def)

section \<open>Properties\<close>

text \<open>
  C32. The two ways in which a list of buffers hands out its next bytes agree: whether the front buffer
  serves the request or chunks are gathered, the call returns exactly the next bytes of the concatenation and
  leaves the rest, with its count right; and a request beyond what remains panics.
\<close>

theorem buf_list_copy_exact:
  assumes "copying_buf ops ok view copy" and "buf_list_ok ok view l"
  shows "if n \<le> length (buf_list_view view l) then
      (\<exists>l' l''. buf_list_copy_to_bytes ops copy l n = Some (Return (take n (buf_list_view view l), l')) \<and>
         put_take (buf_list_ops ops) l n [] = Some (Return (take n (buf_list_view view l), l'')) \<and>
         buf_list_ok ok view l' \<and> buf_list_view view l' = drop n (buf_list_view view l) \<and>
         buf_list_view view l'' = buf_list_view view l')
    else (\<exists>m. buf_list_copy_to_bytes ops copy l n = Some (Panic m))"
proof (cases "n \<le> length (buf_list_view view l)")
  case True
  have "buf ops ok view" using assms(1) by (rule copying_buf.axioms)
  from buf.put_take_ok [OF buf.buf_list_buf [OF this] assms(2) True, of "[]"]
    copying_buf.buf_list_copy_ok [OF assms True] True show ?thesis by auto
next
  case False
  with copying_buf.buf_list_copy_beyond [OF assms, of n] show ?thesis by simp
qed

theorem buf_list_copy_exact_witness:
  "\<exists>l'. buf_list_copy_to_bytes bytes_ops bytes_copy \<lparr>bl_bufs = [''ab'', ''cd''], bl_remaining = 4\<rparr> 3 = Some (Return (''abc'', l')) \<and>
     buf_list_view (\<lambda>b. b) l' = ''d''"
proof -
  let ?l = "\<lparr>bl_bufs = [''ab'', ''cd''], bl_remaining = 4\<rparr>"
  have "buf_list_ok (\<lambda>_. True) (\<lambda>b. b) ?l" by (simp add: buf_list_ok_def)
  from buf_list_copy_exact [OF bytes_copying.copying_buf_axioms this, of 3] show ?thesis
    by (auto simp: buf_list_view_def)
qed

end
