(* ===== verification/Extensions.thy ===== *)
theory Extensions
  imports Dispatcher Role_Props
begin

text \<open>
  \<open>ext/\<close>: what a caller can attach to a request or read off a response: the callback for informational
  responses, the callback that fixes the order of header fields, and the reason phrase. The extensions
  of a message are a record of these entries (\<open>Http1_Types\<close>), so that inserting one replaces an
  earlier one. The calls of the informational callback are recorded in the parse context.
\<close>

section \<open>Attaching callbacks\<close>

definition with_extensions :: "('h extensions \<Rightarrow> 'h extensions) \<Rightarrow> ('h, 'bd) request \<Rightarrow> ('h, 'bd) request" where
  "with_extensions f req = req\<lparr>rq_head := (rq_head req)\<lparr>h_extensions := f (h_extensions (rq_head req))\<rparr>\<rparr>"

definition on_informational_raw :: "('h, 'bd) request \<Rightarrow> ('h, 'bd) request" where
  "on_informational_raw req = with_extensions (\<lambda>ext. ext\<lparr>ext_on_informational := True\<rparr>) req"

definition on_informational :: "('h, 'bd) request \<Rightarrow> ('h, 'bd) request" where
  "on_informational req = on_informational_raw req"

definition on_preserve_header :: "('h, 'bd) request \<Rightarrow> ('h \<Rightarrow> (bytes \<times> header_value) list) \<Rightarrow> ('h, 'bd) request" where
  "on_preserve_header req callback = with_extensions (\<lambda>ext. ext\<lparr>ext_on_preserve_header := Some callback\<rparr>) req"

text \<open>What the informational callback sees of a response.\<close>

definition informational_status :: "'h response_head \<Rightarrow> nat" where
  "informational_status res = h_subject res"

definition informational_version :: "'h response_head \<Rightarrow> http_version" where
  "informational_version res = h_version res"

definition informational_headers :: "'h response_head \<Rightarrow> 'h" where
  "informational_headers res = h_headers res"

text \<open>\<open>ReasonPhrase\<close> is its bytes.\<close>

datatype reason_phrase = ReasonPhrase (reason_bytes: bytes)

definition from_bytes_unchecked :: "bytes \<Rightarrow> reason_phrase" where
  "from_bytes_unchecked reason = ReasonPhrase reason"

definition reason_as_ref :: "reason_phrase \<Rightarrow> bytes" where
  "reason_as_ref r = reason_bytes r"

text \<open>\<open>MessageHead::into_response\<close>.\<close>

definition into_response :: "'h response_head \<Rightarrow> 'r incoming \<Rightarrow> ('h, 'r) response" where
  "into_response head body = \<lparr>rp_head = head, rp_upgrade = None, rp_body = body\<rparr>"

section \<open>Informational responses\<close>

definition skipped_status :: "nat \<Rightarrow> bool" where
  "skipped_status st \<longleftrightarrow> 100 \<le> st \<and> st \<le> 199 \<and> st \<noteq> 101"

text \<open>
  The head at the front of a buffer, and what follows it, when there is a complete and well-formed one.
  This is the reading of one head, with no regard to callbacks.
\<close>

definition head_at ::
  "bool \<Rightarrow> 'h http_api \<Rightarrow> httparse_api \<Rightarrow> 'h parse_context \<Rightarrow> bytes_mut \<Rightarrow> ('h response_head \<times> bytes_mut) option" where
  "head_at dbg api hp ctx bm =
     (case parse_head api hp ctx (bm_bytes bm) of
        HeadParsed (len, status, reason, version, idxs, n) \<Rightarrow>
          (case rust_bind (if allow_obsolete_multiline_headers (pc_parser_config ctx)
                then obs_fold_lines (snd (bm_split_to bm len)) (take n idxs)
                else Return (snd (bm_split_to bm len), take n idxs))
              (\<lambda>(all, idxs'). collect_headers dbg api all idxs'
                 (case pc_cached_headers ctx of Some h \<Rightarrow> h | None \<Rightarrow> hm_new api) (version = HTTP_11)) of
             Return (Inr (headers, keep_alive)) \<Rightarrow>
               Some (\<lparr>h_version = version, h_subject = status, h_headers = headers,
                  h_extensions = extensions_default\<lparr>ext_reason_phrase := reason\<rparr>\<rparr>, fst (bm_split_to bm len))
           | _ \<Rightarrow> None)
      | _ \<Rightarrow> None)"

text \<open>
  The heads a buffer holds: the informational ones in front, in their order, and the first head behind
  them with what follows it, if it is there.
\<close>

inductive received ::
  "bool \<Rightarrow> 'h http_api \<Rightarrow> httparse_api \<Rightarrow> 'h parse_context \<Rightarrow> bytes_mut \<Rightarrow> 'h response_head list \<Rightarrow>
   ('h response_head \<times> bytes_mut) option \<Rightarrow> bool" for dbg api hp where
  nothing: "head_at dbg api hp ctx bm = None \<Longrightarrow> received dbg api hp ctx bm [] None"
| final: "head_at dbg api hp ctx bm = Some (head, bm') \<Longrightarrow> \<not> skipped_status (h_subject head) \<Longrightarrow>
    received dbg api hp ctx bm [] (Some (head, bm'))"
| last: "head_at dbg api hp ctx bm = Some (head, bm') \<Longrightarrow> skipped_status (h_subject head) \<Longrightarrow> bm_bytes bm' = [] \<Longrightarrow>
    received dbg api hp ctx bm [head] None"
| more: "head_at dbg api hp ctx bm = Some (head, bm') \<Longrightarrow> skipped_status (h_subject head) \<Longrightarrow> bm_bytes bm' \<noteq> [] \<Longrightarrow>
    received dbg api hp (ctx\<lparr>pc_cached_headers := None\<rparr>) bm' hs f \<Longrightarrow> received dbg api hp ctx bm (head # hs) f"

lemma received_unique:
  "received dbg api hp ctx bm hs f \<Longrightarrow> received dbg api hp ctx bm hs' f' \<Longrightarrow> hs' = hs \<and> f' = f"
proof (induction arbitrary: hs' f' rule: received.induct)
  case (nothing ctx bm)
  from nothing.prems nothing.hyps show ?case by cases simp_all
next
  case (final ctx bm head bm')
  from final.prems final.hyps show ?case by cases simp_all
next
  case (last ctx bm head bm')
  from last.prems last.hyps show ?case by cases simp_all
next
  case (more ctx bm head bm' hs f)
  from more.prems more.hyps show ?case by cases (simp_all, use more.IH in blast)
qed

text \<open>Callbacks and earlier reports do not matter.\<close>

lemma head_at_fields:
  assumes "pc_parser_config c = pc_parser_config c'" "pc_max_headers c = pc_max_headers c'"
    "pc_h09_responses c = pc_h09_responses c'" "pc_cached_headers c = pc_cached_headers c'"
  shows "head_at dbg api hp c bm = head_at dbg api hp c' bm"
  unfolding head_at_def parse_head_def max_headers_of_def assms by (rule refl)

lemma received_fields:
  assumes "received dbg api hp c bm hs f" "pc_parser_config c = pc_parser_config c'" "pc_max_headers c = pc_max_headers c'"
    "pc_h09_responses c = pc_h09_responses c'" "pc_cached_headers c = pc_cached_headers c'"
  shows "received dbg api hp c' bm hs f"
  using assms
proof (induction arbitrary: c' rule: received.induct)
  case (more c bm head bm' hs f)
  have "head_at dbg api hp c' bm = Some (head, bm')" using more.hyps(1) more.prems head_at_fields [of c c'] by simp
  moreover have "received dbg api hp (c'\<lparr>pc_cached_headers := None\<rparr>) bm' hs f" by (rule more.IH) (simp_all add: more.prems)
  ultimately show ?case by (rule received.more [OF _ more.hyps(2,3)])
qed (metis head_at_fields received.nothing received.final received.last)+

text \<open>What one turn of the loop does with the head at the front.\<close>

definition turn_head ::
  "('h response_head \<times> bytes_mut) option \<Rightarrow> 'h parse_context \<Rightarrow> 'h parse_result \<Rightarrow> bool" where
  "turn_head front ctx out =
     (case out of (ctx', bm', r) \<Rightarrow> case front of
        None \<Rightarrow> pc_informed ctx' = pc_informed ctx \<and> (\<exists>res. r = Some res \<and> (\<forall>m. res \<noteq> Inr (Some m)))
      | Some (head, rest) \<Rightarrow>
          if skipped_status (h_subject head) then
            ctx' = ctx\<lparr>pc_cached_headers := None,
              pc_informed := pc_informed ctx @ (if pc_on_informational ctx then [head] else [])\<rparr> \<and>
            bm' = rest \<and> r = (if bm_bytes rest = [] then Some (Inr None) else None)
          else pc_informed ctx' = pc_informed ctx \<and>
            (\<exists>res. r = Some res \<and> (\<forall>m. res = Inr (Some m) \<longrightarrow> pm_head m = head \<and> bm' = rest)))"

text \<open>The end of a turn, once the header fields were collected.\<close>

definition turn_end where
  "turn_end api ctx bm version status reason collected =
     (case collected of
        Inl e \<Rightarrow> Return (ctx\<lparr>pc_cached_headers := None\<rparr>, bm, Some (Inl e))
      | Inr (headers, keep_alive) \<Rightarrow>
          let head = \<lparr>h_version = version, h_subject = status, h_headers = headers,
                h_extensions = extensions_default\<lparr>ext_reason_phrase := reason\<rparr>\<rparr> in
          Return (case client_decoder api head (pc_req_method (ctx\<lparr>pc_cached_headers := None\<rparr>)) of
              Inl e \<Rightarrow> (ctx\<lparr>pc_cached_headers := None\<rparr>, bm, Some (Inl e))
            | Inr (Some (dl, is_upgrade)) \<Rightarrow>
                (ctx\<lparr>pc_cached_headers := None\<rparr>, bm, Some (Inr (Some \<lparr>pm_head = head, pm_decode = dl, pm_expect_continue = False,
                   pm_keep_alive = (keep_alive \<and> \<not> is_upgrade), pm_wants_upgrade = is_upgrade\<rparr>)))
            | Inr None \<Rightarrow>
                (let ctx' = (if 100 \<le> status \<and> status \<le> 199 \<and> pc_on_informational (ctx\<lparr>pc_cached_headers := None\<rparr>)
                    then ctx\<lparr>pc_cached_headers := None, pc_informed := pc_informed (ctx\<lparr>pc_cached_headers := None\<rparr>) @ [head]\<rparr>
                    else ctx\<lparr>pc_cached_headers := None\<rparr>) in
                 (ctx', bm, if bm_bytes bm = [] then Some (Inr None) else None))))"

lemma turn_end_head:
  assumes "turn_end api ctx bm version status reason collected = Return out"
  shows "turn_head (case collected of Inl e \<Rightarrow> None
      | Inr (headers, keep_alive) \<Rightarrow> Some (\<lparr>h_version = version, h_subject = status, h_headers = headers,
          h_extensions = extensions_default\<lparr>ext_reason_phrase := reason\<rparr>\<rparr>, bm)) ctx out"
proof (cases collected)
  case (Inl e)
  with assms show ?thesis by (auto simp: turn_end_def turn_head_def)
next
  case (Inr x)
  obtain headers keep_alive where x: "x = (headers, keep_alive)" by fastforce
  define head where "head = \<lparr>h_version = version, h_subject = status, h_headers = headers,
    h_extensions = extensions_default\<lparr>ext_reason_phrase := reason\<rparr>\<rparr>"
  have hs: "h_subject head = status" by (simp add: head_def)
  have st: "client_decoder api head (pc_req_method ctx) = Inr None \<longleftrightarrow> skipped_status status"
    using client_decoder_skips [of api head "pc_req_method ctx"] by (auto simp: skipped_status_def hs)
  consider e where "client_decoder api head (pc_req_method ctx) = Inl e" | "client_decoder api head (pc_req_method ctx) = Inr None"
    | dl up where "client_decoder api head (pc_req_method ctx) = Inr (Some (dl, up))"
    by (metis option.exhaust sum.exhaust surj_pair)
  then show ?thesis
  proof cases
    case (1 e)
    with assms Inr x st hs show ?thesis by (auto simp: turn_end_def turn_head_def simp flip: head_def)
  next
    case 2
    with st have sk: "skipped_status status" by simp
    then have "100 \<le> status" "status \<le> 199" by (simp_all add: skipped_status_def)
    with 2 sk assms Inr x hs show ?thesis
      by (cases "pc_on_informational ctx") (auto simp: turn_end_def turn_head_def Let_def simp flip: head_def)
  next
    case (3 dl up)
    with assms Inr x st hs show ?thesis by (auto simp: turn_end_def turn_head_def simp flip: head_def)
  qed
qed

lemma parse_turn_head:
  assumes "parse_turn dbg api hp ctx bm = Return out"
  shows "turn_head (head_at dbg api hp ctx bm) ctx out"
proof (cases "parse_head api hp ctx (bm_bytes bm)")
  case (HeadParsed p)
  obtain len status reason version idxs n where p: "p = (len, status, reason, version, idxs, n)" by (metis surj_pair)
  obtain bm1 raw where b: "bm_split_to bm len = (bm1, raw)" by fastforce
  have "\<not> len > length (bm_bytes bm)" "\<not> n > length idxs"
    using assms by (auto simp: parse_turn_def HeadParsed p split: if_splits)
  then have "parse_turn dbg api hp ctx bm =
      rust_bind (if allow_obsolete_multiline_headers (pc_parser_config ctx)
                 then obs_fold_lines raw (take n idxs) else Return (raw, take n idxs)) (\<lambda>(all, idxs').
        rust_bind (collect_headers dbg api all idxs' (case pc_cached_headers ctx of Some h \<Rightarrow> h | None \<Rightarrow> hm_new api) (version = HTTP_11))
          (\<lambda>collected. turn_end api ctx bm1 version status reason collected))"
    by (simp add: parse_turn_def HeadParsed p b turn_end_def Let_def cong: sum.case_cong prod.case_cong option.case_cong)
  with assms obtain all idxs' collected where
    a: "(if allow_obsolete_multiline_headers (pc_parser_config ctx)
         then obs_fold_lines raw (take n idxs) else Return (raw, take n idxs)) = Return (all, idxs')"
    "collect_headers dbg api all idxs' (case pc_cached_headers ctx of Some h \<Rightarrow> h | None \<Rightarrow> hm_new api) (version = HTTP_11) =
       Return collected"
    "turn_end api ctx bm1 version status reason collected = Return out"
    by (auto simp del: rust_bind.simps)
  have "head_at dbg api hp ctx bm = (case collected of Inl e \<Rightarrow> None
      | Inr (headers, keep_alive) \<Rightarrow> Some (\<lparr>h_version = version, h_subject = status, h_headers = headers,
          h_extensions = extensions_default\<lparr>ext_reason_phrase := reason\<rparr>\<rparr>, bm1))"
    unfolding head_at_def HeadParsed p b head_outcome.case prod.case fst_conv snd_conv a(1) rust_bind.simps(1) a(2)
    by (simp add: a(2) split: sum.splits)
  with turn_end_head [OF a(3)] show ?thesis by simp
qed (use assms in \<open>auto simp: parse_turn_def head_at_def turn_head_def\<close>)

text \<open>A turn that ends the loop has seen the last head.\<close>

lemma turn_head_received:
  assumes "turn_head (head_at dbg api hp ctx bm) ctx (ctx', bm', Some res)"
  shows "\<exists>hs f. received dbg api hp ctx bm hs f \<and>
    pc_informed ctx' = pc_informed ctx @ (if pc_on_informational ctx then hs else []) \<and>
    (\<forall>m. res = Inr (Some m) \<longrightarrow> f = Some (pm_head m, bm'))"
proof (cases "head_at dbg api hp ctx bm")
  case None
  with assms show ?thesis
    by (intro exI [of _ "[]"] exI [of _ None]) (simp add: turn_head_def received.nothing)
next
  case (Some x)
  obtain head rest where x: "x = (head, rest)" by fastforce
  show ?thesis
  proof (cases "skipped_status (h_subject head)")
    case True
    with assms Some x received.last [of dbg api hp ctx bm head rest] show ?thesis
      by (intro exI [of _ "[head]"] exI [of _ None]) (auto simp: turn_head_def split: if_splits)
  next
    case False
    have t: "pc_informed ctx' = pc_informed ctx" "\<forall>m. res = Inr (Some m) \<longrightarrow> pm_head m = head \<and> bm' = rest"
      using assms unfolding Some x turn_head_def prod.case option.case if_not_P [OF False] by blast+
    show ?thesis
    proof (intro exI conjI)
      show "received dbg api hp ctx bm [] (Some (head, rest))" using Some x False by (intro received.final) simp_all
      show "pc_informed ctx' = pc_informed ctx @ (if pc_on_informational ctx then [] else [])" by (simp add: t(1))
      show "\<forall>m. res = Inr (Some m) \<longrightarrow> Some (head, rest) = Some (pm_head m, bm')" using t(2) by blast
    qed
  qed
qed

definition parse_reported ::
  "bool \<Rightarrow> 'h http_api \<Rightarrow> httparse_api \<Rightarrow> 'h parse_context \<Rightarrow> bytes_mut \<Rightarrow>
   ('h parse_context \<times> bytes_mut \<times> (parse_error + 'h parsed_message option)) rust \<Rightarrow> bool" where
  "parse_reported dbg api hp ctx bm y \<longleftrightarrow>
     (\<forall>ctx' bm' res. y = Return (ctx', bm', res) \<longrightarrow> (\<exists>hs f. received dbg api hp ctx bm hs f \<and>
        pc_informed ctx' = pc_informed ctx @ (if pc_on_informational ctx then hs else []) \<and>
        (\<forall>m. res = Inr (Some m) \<longrightarrow> f = Some (pm_head m, bm'))))"

lemma client_parse_reported:
  assumes "client_parse dbg api hp ctx bm = Some y"
  shows "parse_reported dbg api hp ctx bm y"
proof (rule client_parse.raw_induct [where P = parse_reported, OF _ assms])
  fix parse dbg api hp ctx bm and y :: "('a parse_context \<times> bytes_mut \<times> (parse_error + 'a parsed_message option)) rust"
  assume IH: "\<And>dbg api hp ctx bm y. parse dbg api hp ctx bm = Some y \<Longrightarrow> parse_reported dbg api hp ctx bm y"
    and y: "(case parse_turn dbg api hp ctx bm of Panic m \<Rightarrow> Some (Panic m)
      | Return (ctx', bm', Some res) \<Rightarrow> Some (Return (ctx', bm', res))
      | Return (ctx', bm', None) \<Rightarrow> parse dbg api hp ctx' bm') = Some y"
  show "parse_reported dbg api hp ctx bm y"
  proof (cases "parse_turn dbg api hp ctx bm")
    case (Return x)
    obtain ctx1 bm1 r where x: "x = (ctx1, bm1, r)" by (rule prod_cases3)
    note t = parse_turn_head [OF Return, unfolded x]
    show ?thesis
    proof (cases r)
      case None
      with t obtain head where h: "head_at dbg api hp ctx bm = Some (head, bm1)" "skipped_status (h_subject head)"
        "bm_bytes bm1 \<noteq> []" "ctx1 = ctx\<lparr>pc_cached_headers := None,
           pc_informed := pc_informed ctx @ (if pc_on_informational ctx then [head] else [])\<rparr>"
        by (auto simp: turn_head_def split: option.splits if_splits)
      from y Return x None IH [of dbg api hp ctx1 bm1 y] have "parse_reported dbg api hp ctx1 bm1 y" by simp
      moreover have "received dbg api hp ctx bm (head # hs) f" if "received dbg api hp ctx1 bm1 hs f" for hs f
        by (rule received.more [OF h(1-3) received_fields [OF that]]) (simp_all add: h(4))
      moreover have "pc_informed ctx1 @ (if pc_on_informational ctx1 then hs else []) =
          pc_informed ctx @ (if pc_on_informational ctx then head # hs else [])" for hs
        by (simp add: h(4))
      ultimately show ?thesis unfolding parse_reported_def by metis
    next
      case (Some res)
      with y Return x have "y = Return (ctx1, bm1, res)" by simp
      with turn_head_received [OF t [unfolded Some]] show ?thesis by (simp add: parse_reported_def)
    qed
  next
    case (Panic m)
    with y show ?thesis by (auto simp: parse_reported_def)
  qed
qed

section \<open>Properties\<close>

text \<open>
  C30. Every informational response is reported, once and in order: parsing a buffer returns, and when
  the request has a callback for informational responses, it is called with exactly the heads of status
  100 to 199 other than 101 that stand at the front of the buffer, in their order, behind what was
  reported before; without a callback nothing is reported. Which heads the buffer holds in front is
  unique, and a message that parsing yields is the first head behind them, with the buffer left right
  behind that head.
\<close>

theorem informational_reported:
  assumes "httparse_crate hp"
  shows "\<exists>ctx' bm' res hs f. client_parse False api hp ctx bm = Some (Return (ctx', bm', res)) \<and>
    received False api hp ctx bm hs f \<and> (\<forall>hs' f'. received False api hp ctx bm hs' f' \<longrightarrow> hs' = hs \<and> f' = f) \<and>
    pc_informed ctx' = pc_informed ctx @ (if pc_on_informational ctx then hs else []) \<and>
    (\<forall>m. res = Inr (Some m) \<longrightarrow> f = Some (pm_head m, bm'))"
proof -
  from httparse_crate.client_parse_ok [OF assms, of api ctx bm] obtain ctx' bm' res where
    p: "client_parse False api hp ctx bm = Some (Return (ctx', bm', res))" by blast
  from client_parse_reported [OF this] obtain hs f where "received False api hp ctx bm hs f"
    "pc_informed ctx' = pc_informed ctx @ (if pc_on_informational ctx then hs else [])"
    "\<forall>m. res = Inr (Some m) \<longrightarrow> f = Some (pm_head m, bm')"
    by (auto simp: parse_reported_def)
  with p received_unique show ?thesis by blast
qed

text \<open>A response behind a \<open>100 Continue\<close>, read for a request with a callback: the callback gets the 100.\<close>

definition continue_head :: "entries response_head" where
  "continue_head = \<lparr>h_version = HTTP_11, h_subject = 100, h_headers = [], h_extensions = extensions_default\<rparr>"

lemma sample_received:
  "received False list_api simple_parser sample_context \<lparr>bm_bytes = sample_response, bm_cap = 100\<rparr> [continue_head]
     (Some (pm_head sample_parsed, \<lparr>bm_bytes = ''hello'', bm_cap = 37\<rparr>))"
proof -
  note sel = sample_context_simps sample_heads head_at_def bm_split_to_def
  have "head_at False list_api simple_parser sample_context \<lparr>bm_bytes = drop 25 sample_response, bm_cap = 75\<rparr> =
      Some (pm_head sample_parsed, \<lparr>bm_bytes = ''hello'', bm_cap = 37\<rparr>)"
    by (simp add: sel sample_parsed_def extensions_default_def del: collect_headers.simps)
  then have "received False list_api simple_parser sample_context \<lparr>bm_bytes = drop 25 sample_response, bm_cap = 75\<rparr> []
      (Some (pm_head sample_parsed, \<lparr>bm_bytes = ''hello'', bm_cap = 37\<rparr>))"
    by (rule received.final) (simp add: sample_parsed_def skipped_status_def)
  moreover have "head_at False list_api simple_parser sample_context \<lparr>bm_bytes = sample_response, bm_cap = 100\<rparr> =
      Some (continue_head, \<lparr>bm_bytes = drop 25 sample_response, bm_cap = 75\<rparr>)"
    by (simp add: sel continue_head_def extensions_default_def)
  ultimately show ?thesis
    using received.more [of False list_api simple_parser sample_context "\<lparr>bm_bytes = sample_response, bm_cap = 100\<rparr>"]
      sample_heads(5)
    by (simp add: sample_context_simps continue_head_def skipped_status_def)
qed

theorem informational_reported_witness:
  "\<exists>ctx' bm' res. client_parse False list_api simple_parser (sample_context\<lparr>pc_on_informational := True\<rparr>)
       \<lparr>bm_bytes = sample_response, bm_cap = 100\<rparr> = Some (Return (ctx', bm', res)) \<and>
     pc_informed ctx' = [continue_head]"
proof -
  let ?ctx = "sample_context\<lparr>pc_on_informational := True\<rparr>"
  have "pc_informed ?ctx = []" "pc_on_informational ?ctx" by (simp_all add: sample_context_def)
  moreover have r: "received False list_api simple_parser ?ctx \<lparr>bm_bytes = sample_response, bm_cap = 100\<rparr> [continue_head]
      (Some (pm_head sample_parsed, \<lparr>bm_bytes = ''hello'', bm_cap = 37\<rparr>))"
    by (rule received_fields [OF sample_received]) simp_all
  ultimately show ?thesis
    using informational_reported [OF simple_parser.httparse_crate_axioms, of list_api ?ctx
      "\<lparr>bm_bytes = sample_response, bm_cap = 100\<rparr>"] by fastforce
qed

end
