(* ===== verification/Runtime.thy ===== *)
theory Runtime
  imports Upgrade Ping
begin

text \<open>
  \<open>wreq-rt\<close>: the adaptors that let the protocol engine run on the runtimes \<open>tokio\<close> and \<open>compio\<close>.
  \<open>CompioIO\<close> turns a stream of \<open>compio\<close> into a transport, \<open>TokioTimer\<close> and \<open>CompioTimer\<close> are timers, and
  \<open>SendFuture\<close> is a future that is bound to its thread.

  The runtimes and the crate \<open>send_wrapper\<close> are parameters. A \<open>SendWrapper\<close> panics when it is used on
  another thread than the one that made it: its operations are taken as they behave on the thread that
  makes the calls.
\<close>

section \<open>SendWrapper and SendFuture\<close>

record ('sw, 'a) send_wrapper_api =
  sw_new :: "'a \<Rightarrow> 'sw"
  sw_deref :: "'sw \<Rightarrow> 'a rust"
  sw_set :: "'sw \<Rightarrow> 'a \<Rightarrow> 'sw"
  sw_drop :: "'sw \<Rightarrow> unit rust"

text \<open>What \<open>send_wrapper\<close> documents for the thread that made the wrapper.\<close>

locale own_thread =
  fixes W :: "('sw, 'a) send_wrapper_api" and content :: "'sw \<Rightarrow> 'a"
  assumes content_new: "content (sw_new W a) = a"
    and content_deref: "sw_deref W s = Return (content s)"
    and content_set: "content (sw_set W s a) = a"
    and own_drop: "sw_drop W s = Return ()"

datatype 'sw send_future = SendFuture (sf_wrapper: 'sw)

definition send_future_new :: "('sw, 'f) send_wrapper_api \<Rightarrow> 'f \<Rightarrow> 'sw send_future" where
  "send_future_new W fut = SendFuture (sw_new W fut)"

definition send_future_poll ::
  "('sw, 'f) send_wrapper_api \<Rightarrow> ('f \<Rightarrow> 'o poll \<times> 'f) \<Rightarrow> 'sw send_future \<Rightarrow> 'o poll \<times> 'sw send_future" where
  "send_future_poll W poll s =
     (case sw_deref W (sf_wrapper s) of
        Panic m \<Rightarrow> (Panicked m, s)
      | Return f \<Rightarrow> (case poll f of (r, f) \<Rightarrow> (r, SendFuture (sw_set W (sf_wrapper s) f))))"

section \<open>CompioIO\<close>

text \<open>
  \<open>AsyncStream\<close> of \<open>compio\<close>. \<open>poll_read_uninit\<close> writes into the free part of the buffer and says how much: here
  it gives those bytes.
\<close>

record 's compat_stream_api =
  cs_poll_read_uninit :: "'s \<Rightarrow> nat \<Rightarrow> (io_error + bytes) poll \<times> 's"
  cs_poll_write :: "'s \<Rightarrow> bytes \<Rightarrow> (io_error + nat) poll \<times> 's"
  cs_poll_flush :: "'s \<Rightarrow> (io_error + unit) poll \<times> 's"
  cs_poll_close :: "'s \<Rightarrow> (io_error + unit) poll \<times> 's"

datatype 'sw compio_io = CompioIO (ci_stream: 'sw)

definition compio_io_new :: "('sw, 's) send_wrapper_api \<Rightarrow> 's \<Rightarrow> 'sw compio_io" where
  "compio_io_new W s = CompioIO (sw_new W s)"

text \<open>A call on the stream inside the wrapper.\<close>

definition on_compat ::
  "('sw, 's) send_wrapper_api \<Rightarrow> ('s \<Rightarrow> 'o poll \<times> 's) \<Rightarrow> 'sw compio_io \<Rightarrow> 'sw compio_io \<times> 'o poll" where
  "on_compat W call io =
     (case sw_deref W (ci_stream io) of
        Panic m \<Rightarrow> (io, Panicked m)
      | Return s \<Rightarrow> (case call s of (r, s) \<Rightarrow> (CompioIO (sw_set W (ci_stream io) s), r)))"

definition compio_poll_read ::
  "('sw, 's) send_wrapper_api \<Rightarrow> 's compat_stream_api \<Rightarrow> 'sw compio_io \<Rightarrow> io_read_buf \<Rightarrow>
   'sw compio_io \<times> io_read_buf \<times> (io_error + unit) poll" where
  "compio_poll_read W A io rb =
     (case on_compat W (\<lambda>s. cs_poll_read_uninit A s (rb_remaining rb)) io of (io, r) \<Rightarrow>
        case r of
          Pending \<Rightarrow> (io, rb, Pending)
        | Panicked m \<Rightarrow> (io, rb, Panicked m)
        | Ready (Inl e) \<Rightarrow> (io, rb, Ready (Inl e))
        | Ready (Inr bs) \<Rightarrow>
            (io, rb\<lparr>rb_filled := rb_filled rb @ bs, rb_remaining := rb_remaining rb - length bs\<rparr>, Ready (Inr ())))"

definition compio_poll_write ::
  "('sw, 's) send_wrapper_api \<Rightarrow> 's compat_stream_api \<Rightarrow> 'sw compio_io \<Rightarrow> bytes \<Rightarrow> 'sw compio_io \<times> (io_error + nat) poll" where
  "compio_poll_write W A io bs = on_compat W (\<lambda>s. cs_poll_write A s bs) io"

definition compio_poll_flush ::
  "('sw, 's) send_wrapper_api \<Rightarrow> 's compat_stream_api \<Rightarrow> 'sw compio_io \<Rightarrow> 'sw compio_io \<times> (io_error + unit) poll" where
  "compio_poll_flush W A = on_compat W (cs_poll_flush A)"

definition compio_poll_shutdown ::
  "('sw, 's) send_wrapper_api \<Rightarrow> 's compat_stream_api \<Rightarrow> 'sw compio_io \<Rightarrow> 'sw compio_io \<times> (io_error + unit) poll" where
  "compio_poll_shutdown W A = on_compat W (cs_poll_close A)"

text \<open>The default methods of \<open>AsyncWrite\<close> for vectored writes: the first slice that is not empty.\<close>

definition first_slice :: "bytes list \<Rightarrow> bytes" where
  "first_slice bss = (case find (\<lambda>b. b \<noteq> []) bss of None \<Rightarrow> [] | Some b \<Rightarrow> b)"

definition compio_io_ops :: "('sw, 's) send_wrapper_api \<Rightarrow> 's compat_stream_api \<Rightarrow> 'sw compio_io async_io" where
  "compio_io_ops W A =
     \<lparr>io_poll_read = compio_poll_read W A, io_poll_write = compio_poll_write W A,
      io_poll_write_vectored = (\<lambda>io bss. compio_poll_write W A io (first_slice bss)),
      io_poll_flush = compio_poll_flush W A, io_poll_shutdown = compio_poll_shutdown W A,
      io_is_write_vectored = (\<lambda>_. False)\<rparr>"

text \<open>The contract of the stream of \<open>compio\<close>.\<close>

locale compat_stream =
  fixes A :: "'s compat_stream_api" and incoming :: "'s \<Rightarrow> bytes" and accepted :: "'s \<Rightarrow> bytes"
  assumes read_uninit: "cs_poll_read_uninit A s k = (x, s') \<Longrightarrow> accepted s' = accepted s \<and> \<not> is_panicked x \<and>
      (case x of Ready (Inr bs) \<Rightarrow> incoming s = bs @ incoming s' \<and> length bs \<le> k \<and> (bs = [] \<and> 0 < k \<longrightarrow> incoming s = [])
       | _ \<Rightarrow> incoming s' = incoming s)"
    and compat_write: "cs_poll_write A s bs = (y, s') \<Longrightarrow> incoming s' = incoming s \<and> \<not> is_panicked y \<and>
      (case y of Ready (Inr n) \<Rightarrow> n \<le> length bs \<and> accepted s' = accepted s @ take n bs | _ \<Rightarrow> accepted s' = accepted s)"
    and compat_flush: "cs_poll_flush A s = (z, s') \<Longrightarrow> incoming s' = incoming s \<and> accepted s' = accepted s \<and> \<not> is_panicked z"
    and compat_close: "cs_poll_close A s = (z, s') \<Longrightarrow> incoming s' = incoming s \<and> accepted s' = accepted s \<and> \<not> is_panicked z"

lemma first_slice_concat: "\<exists>rest. concat bss = first_slice bss @ rest"
  by (induction bss) (auto simp: first_slice_def)

context own_thread
begin

lemma on_compat_eq:
  "on_compat W call io = (case call (content (ci_stream io)) of (r, s) \<Rightarrow> (CompioIO (sw_set W (ci_stream io) s), r))"
  by (simp add: on_compat_def content_deref)

lemma compio_stream:
  assumes "compat_stream A incoming accepted"
  shows "async_stream (compio_io_ops W A) (\<lambda>io. incoming (content (ci_stream io))) (\<lambda>io. accepted (content (ci_stream io)))"
proof -
  note eq = compio_io_ops_def compio_poll_read_def compio_poll_write_def compio_poll_flush_def compio_poll_shutdown_def
    on_compat_eq content_set
  note laws = compat_stream.read_uninit [OF assms] compat_stream.compat_write [OF assms]
    compat_stream.compat_flush [OF assms] compat_stream.compat_close [OF assms]
  show ?thesis
  proof
    fix io rb io' rb' u
    assume e: "io_poll_read (compio_io_ops W A) io rb = (io', rb', Ready (Inr u))"
    obtain x s where x: "cs_poll_read_uninit A (content (ci_stream io)) (rb_remaining rb) = (x, s)" by fastforce
    from e x laws(1) [OF x] show "\<exists>bs. rb_filled rb' = rb_filled rb @ bs \<and> rb_remaining rb = length bs + rb_remaining rb' \<and>
        incoming (content (ci_stream io)) = bs @ incoming (content (ci_stream io')) \<and>
        (bs = [] \<and> 0 < rb_remaining rb \<longrightarrow> incoming (content (ci_stream io)) = []) \<and>
        accepted (content (ci_stream io')) = accepted (content (ci_stream io))"
      by (auto simp: eq split: poll.splits sum.splits)
  next
    fix io rb io' rb' r
    assume e: "io_poll_read (compio_io_ops W A) io rb = (io', rb', r)" "\<And>u. r \<noteq> Ready (Inr u)"
    obtain x s where x: "cs_poll_read_uninit A (content (ci_stream io)) (rb_remaining rb) = (x, s)" by fastforce
    from e x laws(1) [OF x] show "rb' = rb \<and> incoming (content (ci_stream io')) = incoming (content (ci_stream io)) \<and>
        accepted (content (ci_stream io')) = accepted (content (ci_stream io)) \<and> \<not> is_panicked r"
      by (auto simp: eq split: poll.splits sum.splits)
  next
    fix io bss io' w
    assume w: "io_poll_write_vectored (compio_io_ops W A) io bss = (io', w)"
    obtain rest where r: "concat bss = first_slice bss @ rest" using first_slice_concat by blast
    obtain y s where y: "cs_poll_write A (content (ci_stream io)) (first_slice bss) = (y, s)" by fastforce
    have "incoming (content (ci_stream io')) = incoming (content (ci_stream io)) \<and> \<not> is_panicked w \<and>
        (case w of Ready (Inr n) \<Rightarrow> n \<le> length (first_slice bss) \<and>
           accepted (content (ci_stream io')) = accepted (content (ci_stream io)) @ take n (first_slice bss)
         | _ \<Rightarrow> accepted (content (ci_stream io')) = accepted (content (ci_stream io)))"
      using w y laws(2) [OF y] by (auto simp: eq split: poll.splits sum.splits)
    then show "incoming (content (ci_stream io')) = incoming (content (ci_stream io)) \<and> \<not> is_panicked w \<and>
        (case w of Ready (Inr n) \<Rightarrow> n \<le> length (concat bss) \<and>
           accepted (content (ci_stream io')) = accepted (content (ci_stream io)) @ take n (concat bss)
         | _ \<Rightarrow> accepted (content (ci_stream io')) = accepted (content (ci_stream io)))"
      by (auto simp: r split: poll.splits sum.splits)
  next
    fix io bs io' w
    assume w: "io_poll_write (compio_io_ops W A) io bs = (io', w)"
    obtain y s where y: "cs_poll_write A (content (ci_stream io)) bs = (y, s)" by fastforce
    from w y laws(2) [OF y] show "incoming (content (ci_stream io')) = incoming (content (ci_stream io)) \<and> \<not> is_panicked w \<and>
        (case w of Ready (Inr n) \<Rightarrow> n \<le> length bs \<and>
           accepted (content (ci_stream io')) = accepted (content (ci_stream io)) @ take n bs
         | _ \<Rightarrow> accepted (content (ci_stream io')) = accepted (content (ci_stream io)))"
      by (auto simp: eq split: poll.splits sum.splits)
  qed (auto simp: eq dest: laws(3,4) split: prod.splits)
qed

end

section \<open>Timers\<close>

text \<open>\<open>tokio::time\<close>, with its own clock, and \<open>compio::time\<close>, which leaves the clock to the system.\<close>

record ('w, 'f) tokio_time_api =
  tk_now :: "'w \<Rightarrow> instant \<times> 'w"
  tk_sleep :: "duration \<Rightarrow> 'w \<Rightarrow> 'f \<times> 'w"
  tk_sleep_until :: "instant \<Rightarrow> 'w \<Rightarrow> 'f \<times> 'w"
  tk_reset :: "'f \<Rightarrow> instant \<Rightarrow> 'w \<Rightarrow> 'f \<times> 'w"
  tk_poll :: "'f \<Rightarrow> 'w \<Rightarrow> bool \<times> 'f \<times> 'w"

record ('w, 'f) compio_time_api =
  cp_system_now :: "'w \<Rightarrow> instant \<times> 'w"
  cp_sleep :: "duration \<Rightarrow> 'w \<Rightarrow> 'f \<times> 'w"
  cp_sleep_until :: "instant \<Rightarrow> 'w \<Rightarrow> 'f \<times> 'w"
  cp_poll :: "'f \<Rightarrow> 'w \<Rightarrow> bool \<times> 'f \<times> 'w"

datatype 'f tokio_sleep = TokioSleep (ts_inner: 'f)
datatype 'sw compio_sleep = CompioSleep (cs_inner: 'sw)

definition tokio_timer_sleep :: "('w, 'f) tokio_time_api \<Rightarrow> duration \<Rightarrow> 'w \<Rightarrow> 'f tokio_sleep \<times> 'w" where
  "tokio_timer_sleep T d w = (case tk_sleep T d w of (f, w) \<Rightarrow> (TokioSleep f, w))"

definition tokio_timer_sleep_until :: "('w, 'f) tokio_time_api \<Rightarrow> instant \<Rightarrow> 'w \<Rightarrow> 'f tokio_sleep \<times> 'w" where
  "tokio_timer_sleep_until T i w = (case tk_sleep_until T i w of (f, w) \<Rightarrow> (TokioSleep f, w))"

definition tokio_timer_now :: "('w, 'f) tokio_time_api \<Rightarrow> 'w \<Rightarrow> instant \<times> 'w" where
  "tokio_timer_now T w = tk_now T w"

definition tokio_sleep_reset :: "('w, 'f) tokio_time_api \<Rightarrow> 'f tokio_sleep \<Rightarrow> instant \<Rightarrow> 'w \<Rightarrow> 'f tokio_sleep \<times> 'w" where
  "tokio_sleep_reset T s i w = (case tk_reset T (ts_inner s) i w of (f, w) \<Rightarrow> (TokioSleep f, w))"

definition tokio_timer_reset :: "('w, 'f) tokio_time_api \<Rightarrow> 'f tokio_sleep \<Rightarrow> instant \<Rightarrow> 'w \<Rightarrow> 'f tokio_sleep \<times> 'w" where
  "tokio_timer_reset T s i w = tokio_sleep_reset T s i w"

definition tokio_sleep_poll :: "('w, 'f) tokio_time_api \<Rightarrow> 'f tokio_sleep \<Rightarrow> 'w \<Rightarrow> bool \<times> 'f tokio_sleep \<times> 'w" where
  "tokio_sleep_poll T s w = (case tk_poll T (ts_inner s) w of (fin, f, w) \<Rightarrow> (fin, TokioSleep f, w))"

definition compio_sleep_new :: "('sw, 'f) send_wrapper_api \<Rightarrow> 'f \<Rightarrow> 'sw compio_sleep" where
  "compio_sleep_new W fut = CompioSleep (sw_new W fut)"

definition compio_timer_sleep ::
  "('sw, 'f) send_wrapper_api \<Rightarrow> ('w, 'f) compio_time_api \<Rightarrow> duration \<Rightarrow> 'w \<Rightarrow> 'sw compio_sleep \<times> 'w" where
  "compio_timer_sleep W C d w = (case cp_sleep C d w of (f, w) \<Rightarrow> (compio_sleep_new W f, w))"

definition compio_timer_sleep_until ::
  "('sw, 'f) send_wrapper_api \<Rightarrow> ('w, 'f) compio_time_api \<Rightarrow> instant \<Rightarrow> 'w \<Rightarrow> 'sw compio_sleep \<times> 'w" where
  "compio_timer_sleep_until W C i w = (case cp_sleep_until C i w of (f, w) \<Rightarrow> (compio_sleep_new W f, w))"

text \<open>\<open>CompioTimer\<close> has the default method \<open>now\<close> of the trait \<open>Timer\<close>.\<close>

definition compio_timer_now :: "('w, 'f) compio_time_api \<Rightarrow> 'w \<Rightarrow> instant \<times> 'w" where
  "compio_timer_now C w = cp_system_now C w"

text \<open>The assignment of \<open>reset\<close> makes a new wrapper and drops the old one.\<close>

definition compio_sleep_reset ::
  "('sw, 'f) send_wrapper_api \<Rightarrow> ('w, 'f) compio_time_api \<Rightarrow> 'sw compio_sleep \<Rightarrow> instant \<Rightarrow> 'w \<Rightarrow> ('sw compio_sleep \<times> 'w) rust" where
  "compio_sleep_reset W C s i w =
     (case cp_sleep_until C i w of (f, w) \<Rightarrow>
        rust_bind (sw_drop W (cs_inner s)) (\<lambda>u. Return (CompioSleep (sw_new W f), w)))"

definition compio_timer_reset ::
  "('sw, 'f) send_wrapper_api \<Rightarrow> ('w, 'f) compio_time_api \<Rightarrow> 'sw compio_sleep \<Rightarrow> instant \<Rightarrow> 'w \<Rightarrow> ('sw compio_sleep \<times> 'w) rust" where
  "compio_timer_reset W C s i w = compio_sleep_reset W C s i w"

definition compio_sleep_poll ::
  "('sw, 'f) send_wrapper_api \<Rightarrow> ('w, 'f) compio_time_api \<Rightarrow> 'sw compio_sleep \<Rightarrow> 'w \<Rightarrow> (bool \<times> 'sw compio_sleep \<times> 'w) rust" where
  "compio_sleep_poll W C s w =
     rust_bind (sw_deref W (cs_inner s)) (\<lambda>f.
       case cp_poll C f w of (fin, f, w) \<Rightarrow> Return (fin, CompioSleep (sw_set W (cs_inner s) f), w))"

section \<open>What the protocol relies on of a timer\<close>

text \<open>
  A sleep has a deadline and is not over before it; a reset sets the deadline; the clock does not go
  back; nothing panics.
\<close>

locale runtime_timer =
  fixes now :: "'w \<Rightarrow> instant \<times> 'w" and sleep_for :: "duration \<Rightarrow> 'w \<Rightarrow> 'sl \<times> 'w"
    and sleep_until :: "instant \<Rightarrow> 'w \<Rightarrow> 'sl \<times> 'w" and reset :: "'sl \<Rightarrow> instant \<Rightarrow> 'w \<Rightarrow> ('sl \<times> 'w) rust"
    and poll_sleep :: "'sl \<Rightarrow> 'w \<Rightarrow> (bool \<times> 'sl \<times> 'w) rust" and clock :: "'w \<Rightarrow> instant" and deadline :: "'sl \<Rightarrow> instant"
  assumes now_clock: "now w = (i, w') \<Longrightarrow> i = clock w' \<and> clock w \<le> clock w'"
    and for_deadline: "sleep_for d w = (sl, w') \<Longrightarrow> clock w + d \<le> deadline sl \<and> clock w \<le> clock w'"
    and until_deadline: "sleep_until i w = (sl, w') \<Longrightarrow> deadline sl = i \<and> clock w \<le> clock w'"
    and reset_deadline: "\<exists>sl' w'. reset sl i w = Return (sl', w') \<and> deadline sl' = i \<and> clock w \<le> clock w'"
    and sleep_not_early: "\<exists>fin sl' w'. poll_sleep sl w = Return (fin, sl', w') \<and> clock w \<le> clock w' \<and>
      deadline sl' = deadline sl \<and> (fin \<longrightarrow> deadline sl \<le> clock w')"

text \<open>The contracts of the two libraries.\<close>

locale tokio_time =
  fixes T :: "('w, 'f) tokio_time_api" and clock :: "'w \<Rightarrow> instant" and deadline :: "'f \<Rightarrow> instant"
  assumes tk_now: "tk_now T w = (i, w') \<Longrightarrow> i = clock w' \<and> clock w \<le> clock w'"
    and tk_sleep: "tk_sleep T d w = (f, w') \<Longrightarrow> clock w + d \<le> deadline f \<and> clock w \<le> clock w'"
    and tk_sleep_until: "tk_sleep_until T i w = (f, w') \<Longrightarrow> deadline f = i \<and> clock w \<le> clock w'"
    and tk_reset: "tk_reset T f i w = (f', w') \<Longrightarrow> deadline f' = i \<and> clock w \<le> clock w'"
    and tk_poll: "tk_poll T f w = (fin, f', w') \<Longrightarrow>
      clock w \<le> clock w' \<and> deadline f' = deadline f \<and> (fin \<longrightarrow> deadline f \<le> clock w')"

locale compio_time =
  fixes C :: "('w, 'f) compio_time_api" and clock :: "'w \<Rightarrow> instant" and deadline :: "'f \<Rightarrow> instant"
  assumes cp_now: "cp_system_now C w = (i, w') \<Longrightarrow> i = clock w' \<and> clock w \<le> clock w'"
    and cp_sleep: "cp_sleep C d w = (f, w') \<Longrightarrow> clock w + d \<le> deadline f \<and> clock w \<le> clock w'"
    and cp_sleep_until: "cp_sleep_until C i w = (f, w') \<Longrightarrow> deadline f = i \<and> clock w \<le> clock w'"
    and cp_poll: "cp_poll C f w = (fin, f', w') \<Longrightarrow>
      clock w \<le> clock w' \<and> deadline f' = deadline f \<and> (fin \<longrightarrow> deadline f \<le> clock w')"

context tokio_time
begin

lemma tokio_runtime_timer:
  "runtime_timer (tokio_timer_now T) (tokio_timer_sleep T) (tokio_timer_sleep_until T) (\<lambda>s i w. Return (tokio_timer_reset T s i w))
     (\<lambda>s w. Return (tokio_sleep_poll T s w)) clock (\<lambda>s. deadline (ts_inner s))"
proof
  fix sl i w
  obtain f w' where "tk_reset T (ts_inner sl) i w = (f, w')" by fastforce
  with tk_reset [OF this] show "\<exists>sl' w'. Return (tokio_timer_reset T sl i w) = Return (sl', w') \<and>
      deadline (ts_inner sl') = i \<and> clock w \<le> clock w'"
    by (simp add: tokio_timer_reset_def tokio_sleep_reset_def)
next
  fix sl w
  obtain fin f w' where "tk_poll T (ts_inner sl) w = (fin, f, w')" by (rule prod_cases3)
  with tk_poll [OF this] show "\<exists>fin sl' w'. Return (tokio_sleep_poll T sl w) = Return (fin, sl', w') \<and> clock w \<le> clock w' \<and>
      deadline (ts_inner sl') = deadline (ts_inner sl) \<and> (fin \<longrightarrow> deadline (ts_inner sl) \<le> clock w')"
    by (simp add: tokio_sleep_poll_def)
qed (auto simp: tokio_timer_now_def tokio_timer_sleep_def tokio_timer_sleep_until_def dest: tk_now tk_sleep tk_sleep_until
    split: prod.splits)

end

context compio_time
begin

lemma compio_runtime_timer:
  assumes "own_thread W content"
  shows "runtime_timer (compio_timer_now C) (compio_timer_sleep W C) (compio_timer_sleep_until W C) (compio_timer_reset W C)
     (compio_sleep_poll W C) clock (\<lambda>s. deadline (content (cs_inner s)))"
proof -
  note own = own_thread.content_new [OF assms] own_thread.content_deref [OF assms] own_thread.content_set [OF assms]
    own_thread.own_drop [OF assms]
  show ?thesis
  proof
    fix sl i w
    obtain f w' where "cp_sleep_until C i w = (f, w')" by fastforce
    with cp_sleep_until [OF this] show "\<exists>sl' w'. compio_timer_reset W C sl i w = Return (sl', w') \<and>
        deadline (content (cs_inner sl')) = i \<and> clock w \<le> clock w'"
      by (auto simp: compio_timer_reset_def compio_sleep_reset_def own)
  next
    fix sl w
    obtain fin f w' where "cp_poll C (content (cs_inner sl)) w = (fin, f, w')" by (rule prod_cases3)
    with cp_poll [OF this] show "\<exists>fin sl' w'. compio_sleep_poll W C sl w = Return (fin, sl', w') \<and> clock w \<le> clock w' \<and>
        deadline (content (cs_inner sl')) = deadline (content (cs_inner sl)) \<and> (fin \<longrightarrow> deadline (content (cs_inner sl)) \<le> clock w')"
      by (auto simp: compio_sleep_poll_def own)
  qed (auto simp: compio_timer_now_def compio_timer_sleep_def compio_timer_sleep_until_def compio_sleep_new_def own
      dest: cp_now cp_sleep cp_sleep_until split: prod.splits)
qed

end

section \<open>Simulations\<close>

definition sim_wrapper :: "('a, 'a) send_wrapper_api" where
  "sim_wrapper = \<lparr>sw_new = (\<lambda>a. a), sw_deref = Return, sw_set = (\<lambda>s a. a), sw_drop = (\<lambda>s. Return ())\<rparr>"

interpretation sim_own: own_thread sim_wrapper "\<lambda>s. s"
  by unfold_locales (simp_all add: sim_wrapper_def)

text \<open>A wire: the reads to come and what was written.\<close>

definition sim_compat :: "(bytes option list \<times> bytes) compat_stream_api" where
  "sim_compat =
     \<lparr>cs_poll_read_uninit = (\<lambda>(rs, sent) k. case wire_serve rs k of
        (rs, Ready bs) \<Rightarrow> (Ready (Inr bs), rs, sent) | (rs, _) \<Rightarrow> (Pending, rs, sent)),
      cs_poll_write = (\<lambda>(rs, sent) bs. (Ready (Inr (length bs)), rs, sent @ bs)),
      cs_poll_flush = (\<lambda>s. (Ready (Inr ()), s)), cs_poll_close = (\<lambda>s. (Ready (Inr ()), s))\<rparr>"

interpretation sim_compat: compat_stream sim_compat "\<lambda>s. wire_incoming (fst s)" snd
proof unfold_locales
  fix s k x s'
  assume x: "cs_poll_read_uninit sim_compat s k = (x, s')"
  obtain rs r where w: "wire_serve (fst s) k = (rs, r)" by fastforce
  show "snd s' = snd s \<and> \<not> is_panicked x \<and>
      (case x of Ready (Inr bs) \<Rightarrow> wire_incoming (fst s) = bs @ wire_incoming (fst s') \<and> length bs \<le> k \<and>
         (bs = [] \<and> 0 < k \<longrightarrow> wire_incoming (fst s) = []) | _ \<Rightarrow> wire_incoming (fst s') = wire_incoming (fst s))"
  proof (cases r)
    case (Ready bs)
    have "x = Ready (Inr bs)" "s' = (rs, snd s)" using x w Ready by (auto simp: sim_compat_def split: prod.splits)
    with wire_serve_ok(1) [OF w Ready] show ?thesis by auto
  qed (use x w wire_serve_ok(2) [OF w] in \<open>auto simp: sim_compat_def split: prod.splits\<close>)
qed (auto simp: sim_compat_def)

interpretation sim_compio: async_stream "compio_io_ops sim_wrapper sim_compat"
  "\<lambda>io. wire_incoming (fst (ci_stream io))" "\<lambda>io. snd (ci_stream io)"
  by (rule sim_own.compio_stream [OF sim_compat.compat_stream_axioms])

text \<open>A clock that ticks with every call; a sleep is its deadline.\<close>

definition sim_tokio :: "(nat, nat) tokio_time_api" where
  "sim_tokio = \<lparr>tk_now = (\<lambda>w. (w, w)), tk_sleep = (\<lambda>d w. (w + d, Suc w)), tk_sleep_until = (\<lambda>i w. (i, Suc w)),
     tk_reset = (\<lambda>f i w. (i, Suc w)), tk_poll = (\<lambda>f w. (f \<le> w, f, Suc w))\<rparr>"

definition sim_compio_time :: "(nat, nat) compio_time_api" where
  "sim_compio_time = \<lparr>cp_system_now = (\<lambda>w. (w, w)), cp_sleep = (\<lambda>d w. (w + d, Suc w)), cp_sleep_until = (\<lambda>i w. (i, Suc w)),
     cp_poll = (\<lambda>f w. (f \<le> w, f, Suc w))\<rparr>"

interpretation sim_tokio: tokio_time sim_tokio "\<lambda>w. w" "\<lambda>f. f"
  by unfold_locales (auto simp: sim_tokio_def)

interpretation sim_cp: compio_time sim_compio_time "\<lambda>w. w" "\<lambda>f. f"
  by unfold_locales (auto simp: sim_compio_time_def)


interpretation sim_tokio_timer: runtime_timer "tokio_timer_now sim_tokio" "tokio_timer_sleep sim_tokio"
  "tokio_timer_sleep_until sim_tokio" "\<lambda>s i w. Return (tokio_timer_reset sim_tokio s i w)"
  "\<lambda>s w. Return (tokio_sleep_poll sim_tokio s w)" "\<lambda>w. w" ts_inner
  by (rule sim_tokio.tokio_runtime_timer)

section \<open>Properties\<close>

text \<open>
  On its own thread a \<open>CompioIO\<close> is a byte stream for the protocol engine: reads deliver what the
  stream of \<open>compio\<close> delivers, in order, each byte once and never beyond the room in the buffer; writes,
  also vectored ones, pass a beginning of what was given; nothing panics. On another thread every
  operation panics and changes nothing.
\<close>

theorem compio_io_is_stream:
  assumes "compat_stream A incoming accepted" and "own_thread W content"
  shows "async_stream (compio_io_ops W A) (\<lambda>io. incoming (content (ci_stream io))) (\<lambda>io. accepted (content (ci_stream io))) \<and>
    incoming (content (ci_stream (compio_io_new W s))) = incoming s \<and>
    (\<forall>io rb bs m. sw_deref W' (ci_stream io) = Panic m \<longrightarrow>
       io_poll_read (compio_io_ops W' A) io rb = (io, rb, Panicked m) \<and>
       io_poll_write (compio_io_ops W' A) io bs = (io, Panicked m) \<and>
       io_poll_flush (compio_io_ops W' A) io = (io, Panicked m) \<and>
       io_poll_shutdown (compio_io_ops W' A) io = (io, Panicked m))"
  using own_thread.compio_stream [OF assms(2,1)] own_thread.content_new [OF assms(2)]
  by (simp add: compio_io_new_def compio_io_ops_def compio_poll_read_def compio_poll_write_def compio_poll_flush_def
      compio_poll_shutdown_def on_compat_def)

theorem compio_io_is_stream_witness:
  "wire_incoming (fst (ci_stream (compio_io_new sim_wrapper ([None, Some ''ok''], ''GET'')))) = ''ok''"
  using compio_io_is_stream [OF sim_compat.compat_stream_axioms sim_own.own_thread_axioms, of "([None, Some ''ok''], ''GET'')" sim_wrapper]
  by simp

text \<open>
  The timers of both runtimes are what the keep-alive of a connection relies on: a sleep is never over
  before its deadline, resetting a sleep sets its deadline, the clock that \<open>now\<close> reads does not go back, and
  nothing panics (for \<open>CompioTimer\<close>: on the thread of the sleep).
\<close>

theorem runtime_timers_keep_contract:
  assumes "tokio_time T clock deadline" and "compio_time C clock' deadline'" and "own_thread W content"
  shows "runtime_timer (tokio_timer_now T) (tokio_timer_sleep T) (tokio_timer_sleep_until T)
      (\<lambda>s i w. Return (tokio_timer_reset T s i w)) (\<lambda>s w. Return (tokio_sleep_poll T s w)) clock (\<lambda>s. deadline (ts_inner s)) \<and>
    runtime_timer (compio_timer_now C) (compio_timer_sleep W C) (compio_timer_sleep_until W C) (compio_timer_reset W C)
      (compio_sleep_poll W C) clock' (\<lambda>s. deadline' (content (cs_inner s)))"
  using tokio_time.tokio_runtime_timer [OF assms(1)] compio_time.compio_runtime_timer [OF assms(2,3)] by simp

theorem runtime_timers_keep_contract_witness:
  "\<exists>sl' w'. compio_timer_reset sim_wrapper sim_compio_time (CompioSleep 5) 9 0 = Return (sl', w') \<and> cs_inner sl' = 9"
proof -
  have "runtime_timer (compio_timer_now sim_compio_time) (compio_timer_sleep sim_wrapper sim_compio_time)
      (compio_timer_sleep_until sim_wrapper sim_compio_time) (compio_timer_reset sim_wrapper sim_compio_time)
      (compio_sleep_poll sim_wrapper sim_compio_time) (\<lambda>w. w) cs_inner"
    using runtime_timers_keep_contract [OF sim_tokio.tokio_time_axioms sim_cp.compio_time_axioms sim_own.own_thread_axioms] by simp
  from runtime_timer.reset_deadline [OF this] show ?thesis by blast
qed

end
