(* ===== verification/Spec2Isabelle.thy ===== *)
theory Spec2Isabelle
  imports Errors Body_Length Headers Decode_Props Encode_Props Body_Roundtrip Buffered_Props Role_Props Conn_Props
    Ping_Props Dispatcher_Props Http1_Client Http2_Headers Http2_Options H2_System Buf_Copy Extensions Runtime
begin

text \<open>
  A verification library for \<open>wreq-proto\<close>, the HTTP/1 and HTTP/2 client protocol engine of this
  repository, and for the runtime adaptors of \<open>wreq-rt\<close>. Paths below are under \<open>src/wreq-proto/src/\<close>
  unless they say otherwise.

  \<^bold>\<open>The program.\<close> A caller gets a \<open>SendRequest\<close> and a \<open>Connection\<close> from a handshake (\<open>conn/http1.rs\<close>,
  \<open>conn/http2.rs\<close>). Requests travel through a request channel (\<open>dispatch.rs\<close>), each with a callback that
  resolves the caller's promise. For HTTP/1 a dispatcher (\<open>proto/http1/dispatch.rs\<close>) takes them one at a time
  and drives the state machine of the connection (\<open>proto/http1/conn.rs\<close>), which encodes the head
  (\<open>role.rs\<close>) and the body (\<open>encode.rs\<close>) into a buffered transport (\<open>io.rs\<close>) and parses heads and
  decodes bodies (\<open>decode.rs\<close>) out of it; the body of a response goes through a channel to its reader
  (\<open>body/incoming.rs\<close>, \<open>body/watch.rs\<close>). For HTTP/2 a client task (\<open>proto/http2/client.rs\<close>) opens
  a stream of the crate \<open>http2\<close> for each request; one task sends the body (\<open>PipeToSendStream\<close> of
  \<open>proto/http2.rs\<close>), one waits for the response, and one drives the connection with its pings
  (\<open>proto/http2/ping.rs\<close>). An upgraded connection or a \<open>CONNECT\<close> stream becomes a byte stream
  (\<open>upgrade.rs\<close>, \<open>H2Upgraded\<close>).

  \<^bold>\<open>Conventions.\<close> A byte is a \<^typ>\<open>char\<close>, a buffer a list of them. Numbers that the source computes with in
  \<open>u64\<close>, \<open>u32\<close>, \<open>usize\<close> or \<open>u8\<close> and that can overflow are words of that width; lengths of what is in
  memory are natural numbers. A poll yields \<open>Ready\<close>, \<open>Pending\<close> or \<open>Panicked\<close>; other code that can panic
  yields \<open>Return\<close> or \<open>Panic\<close> (\<open>rust\<close>); a Rust \<open>Result\<close> is a sum with the error on the left. State is passed
  explicitly; a value whose drop has an effect is dropped explicitly, in the order of Rust. The semantics is
  that of the release profile: \<open>debug_assert!\<close> is not executed, and where the source distinguishes the
  profiles the definitions take a flag \<open>dbg\<close>. The assertions are conditions of the step relations instead,
  and that the dispatcher respects them is a theorem.

  Third-party code is a record of functions (the crates \<open>http\<close>, \<open>httparse\<close>, \<open>http2\<close>, \<open>bytes\<close>, the channels
  of \<open>tokio\<close> and \<open>futures\<close>, \<open>want\<close>, the transport, timers, wakers, the user's body and callbacks). What is relied
  on of it is a locale, and every locale is interpreted on an instance; where the repository itself implements
  an interface, on the repository's own definitions.

  \<^bold>\<open>Loops.\<close> Structural recursion where there is one. A loop that depends on what the environment answers
  is a \<open>partial_function (option)\<close>, whose value \<open>None\<close> means that it does not return; for each of them it is proved that
  it does return, by the order its turns decrease: bytes left in the buffer or on the wire for parsing and decoding,
  spurious answers and chunks left for flushing and sending, frames left in the user's body for writing, requests in
  the queue for the HTTP/2 client task. The only bound of the source, the 16 rounds of \<open>poll_loop\<close> in the
  dispatcher, is the bound of the model; there is no other fuel.

  \<^bold>\<open>Side conditions.\<close> What the code does not enforce of its users is a hypothesis where a theorem needs it, and
  what happens without it is stated where the model shows it:

  \<^item> A request over HTTP/1 has version HTTP/1.0, 1.1 or 2 (\<open>sendable\<close>): \<open>Client::encode\<close> panics for another one, and
  writing a head returns exactly in these cases (\<open>write_head_returns_iff\<close>).

  \<^item> User bodies yield finitely many frames, where a poll that drains them is to return.

  \<^item> A keep-alive comes with a timer and with durations within the range of the clock (\<open>config_ok\<close>): opening the ping channel
  panics exactly when a keep-alive is configured without a timer (\<open>ping_channel_returns_iff\<close>).

  \<^item> A message stripped for HTTP/2 has at most one value of \<open>Connection\<close> and of \<open>TE\<close>, where all forbidden fields are to be gone:
  the code reads the first value only (\<open>second_connection_field_ignored\<close>).

  \<^item> The \<open>Transfer-Encoding\<close> values of a request are visible ASCII, where its framing is concerned. A request without a
  body is sent with the \<open>Content-Length\<close> of its caller (\<open>set_length_without_body_keeps_content_length\<close>).

  \<^item> The queue of the request channel hands out a request at once when it has one (\<open>prompt_queue\<close>), where an error has to find
  the first queued request.

  \<^bold>\<open>Theories.\<close>

  \<^item> \<open>Prelude\<close>: shared types, polls and panics, and the string and list functions of the standard library.
  \<open>Errors\<close>: \<open>error.rs\<close>, with the chain of causes. \<open>Http_Api\<close>, \<open>Response_Parser\<close>: the crates \<open>http\<close> and
  \<open>httparse\<close> as interfaces, with instances. \<open>Headers\<close>: \<open>proto/headers.rs\<close>. \<open>Body_Length\<close>: \<open>body/length.rs\<close>.
  \<open>Http1_Types\<close>: \<open>proto.rs\<close>, \<open>proto/http1.rs\<close>. \<open>Extensions\<close>: \<open>ext/\<close>; the informational callback gets every
  informational response in front of the final one, once and in order.

  \<^item> \<open>Bufs\<close>, \<open>Buf_Copy\<close>, \<open>Write_Buf\<close>, \<open>Read_Strategy\<close>, \<open>Buffered\<close>, \<open>Buffered_Props\<close>: \<open>proto/http1/buf.rs\<close> and
  \<open>proto/http1/io.rs\<close>. The buffers keep the contract of the trait \<open>Buf\<close>; flushing sends all that was buffered, in
  order; what a decoder reads is what the transport delivers; the read size stays in its bounds.

  \<^item> \<open>Decode\<close>, \<open>Chunked_Spec\<close>, \<open>Decode_Props\<close>: \<open>proto/http1/decode.rs\<close>. The chunked decoder refines an automaton
  that reads byte by byte; the length decoder delivers exactly what was announced; limits hold, truncation
  is an error, nothing panics. \<open>Encode\<close>, \<open>Encode_Props\<close>: \<open>proto/http1/encode.rs\<close>. \<open>Body_Roundtrip\<close>: decoding
  what was encoded gives the body back.

  \<^item> \<open>Role\<close>, \<open>Role_Props\<close>: \<open>proto/http1/role.rs\<close>. Parsing returns and takes a prefix off the buffer; framing
  follows the RFC for responses and requests; the fast completeness check is right.

  \<^item> \<open>Conn\<close>, \<open>Conn_Steps\<close>, \<open>Conn_Props\<close>, \<open>Conn_Progress\<close>: \<open>proto/http1/conn.rs\<close> as a transition system, with
  its invariant: operations return without a panic (for a head: exactly with a version it knows), closing is final, an idle connection has finished its
  exchange. \<open>Dispatcher\<close>, \<open>Dispatcher_Inv\<close>, \<open>Dispatcher_Write\<close>, \<open>Dispatcher_Props\<close>: \<open>proto/http1/dispatch.rs\<close>
  over it: every poll returns, calls the connection only as it permits, gives each response to its
  request and each error to one party, and leaves no request without an answer. \<open>Http1_Client\<close>: \<open>conn/http1.rs\<close>.

  \<^item> \<open>Watch\<close>, \<open>Incoming\<close>, \<open>Incoming_Props\<close>: \<open>body/watch.rs\<close>, \<open>body/incoming.rs\<close>. \<open>Request_Channel\<close>,
  \<open>Request_Channel_Props\<close>: \<open>dispatch.rs\<close>; a promise is resolved exactly once. \<open>Upgrade\<close>: \<open>upgrade.rs\<close>, \<open>lock.rs\<close>.

  \<^item> \<open>F64\<close>, \<open>Ping\<close>, \<open>Ping_Props\<close>: \<open>proto/http2/ping.rs\<close> and \<open>rt/timer.rs\<close>, with the floating-point arithmetic
  of the bandwidth estimate. \<open>Http2_Headers\<close>, \<open>Http2_Options\<close>, \<open>H2_Pipe\<close>, \<open>H2_Pipe_Props\<close>, \<open>H2_Tunnel\<close>:
  \<open>proto/http2.rs\<close>. \<open>H2_Conn\<close>: the task of the connection, and when
  it tells the client task that the connection is over; \<open>H2_Client\<close>, \<open>H2_Client_Props\<close>, \<open>H2_System\<close>: the client task, the
  tasks of a request and \<open>conn/http2.rs\<close>, as a system whose tasks are polled or dropped in any order: every
  request is answered once, a request that is given up resets its stream, a response to \<open>CONNECT\<close> becomes a tunnel.

  \<^item> \<open>Runtime\<close>: \<open>src/wreq-rt/src/rt\<close>: \<open>CompioIO\<close> is a byte stream, and the timers of both runtimes are
  what the keep-alive relies on.

  \<^bold>\<open>Not modelled.\<close> Executors (they pass a future to the runtime), the \<open>Debug\<close> and \<open>Display\<close> texts other than
  those of errors that the code inspects, log output, the memory layout of buffers (capacity is state only
  where the code looks at it), wake-ups other than those of \<open>body/watch.rs\<close> and of the ping machinery, and the trait objects and
  reference counts around callbacks. A header map has no maximum size (the \<open>http\<close> crate panics beyond 32768 entries). The counting of ping recorders is the argument
  \<open>strong_count\<close> of the ponger. Tests and benchmarks are not part of the model.
\<close>

end
